(* ===== verification/Go_Prelude.thy ===== *)
theory Go_Prelude
  imports Main "HOL-Library.AList" "HOL-Library.List_Lexorder" "HOL-Library.Char_ord"
    "HOL-Library.Word" "HOL-Library.Multiset"
begin

text \<open>
  Conventions shared by the whole development, and the generic lemmas the component
  theories rest on.

  \<^item> A Go pointer to a message is an option: \<open>None\<close> is \<open>nil\<close>, and a slice of pointers is a
    list of options.
  \<^item> An \<open>int64\<close> or a duration is an \<open>int\<close>; where the code adds two of them the wrap-around is
    written out with \<open>wrap64\<close>.
  \<^item> A \<open>time.Time\<close> is an \<open>int\<close>, the nanoseconds since the Unix epoch; \<open>zero_time\<close>, the first
    instant of year 1, is Go's zero value.
  \<^item> A Go map that is filled in a loop is an association list written with
    \<open>AList.update\<close>; \<open>sortedmaps_Keys\<close> and \<open>sortedmaps_Values\<close> read it in key order.
  \<^item> Strings are byte lists, compared bytewise as Go compares them (List_Lexorder over
    Char_ord).
  \<^item> The loop \<open>if best == nil || Compare(x, best) > 0 { best = x }\<close> is \<open>go_best\<close>; the
    locale \<open>go_ptr_comparator\<close> states what a comparator must promise for the loop to return a
    greatest element.
  \<^item> \<open>slices.SortFunc\<close> is \<open>SortFunc\<close>, the insertion sort it runs on short slices; the order of
    elements that compare equal is not part of its contract.
\<close>

named_theorems go_defs \<open>definitions of the model that case analyses unfold\<close>

type_synonym 'a ptr = "'a option"
type_synonym go_time = int
type_synonym duration = int
type_synonym lsn = "64 word"

subsection \<open>Fixed-width integers\<close>

definition wrap64 :: "int \<Rightarrow> int" where
  "wrap64 x = (x + 2 ^ 63) mod 2 ^ 64 - 2 ^ 63"

definition wrap32 :: "int \<Rightarrow> int" where
  "wrap32 x = (x + 2 ^ 31) mod 2 ^ 32 - 2 ^ 31"

definition MaxInt64 :: int where
  "MaxInt64 = 2 ^ 63 - 1"

definition MinInt64 :: int where
  "MinInt64 = - (2 ^ 63)"

definition is_int64 :: "int \<Rightarrow> bool" where
  "is_int64 x \<longleftrightarrow> MinInt64 \<le> x \<and> x \<le> MaxInt64"

text \<open>\<open>time.Time.Sub\<close> saturates instead of wrapping.\<close>

definition time_Sub :: "go_time \<Rightarrow> go_time \<Rightarrow> duration" where
  "time_Sub t u = max MinInt64 (min MaxInt64 (t - u))"

definition zero_time :: go_time where
  "zero_time = - 62135596800 * 1000000000"

lemma wrap64_id [simp]: "is_int64 x \<Longrightarrow> wrap64 x = x"
  by (simp add: wrap64_def is_int64_def MinInt64_def MaxInt64_def)

lemma is_int64_wrap64 [simp]: "is_int64 (wrap64 x)"
proof -
  have "0 \<le> (x + 2 ^ 63) mod 2 ^ 64" "(x + 2 ^ 63) mod 2 ^ 64 < (2 :: int) ^ 64"
    by simp_all
  then show ?thesis
    by (simp add: wrap64_def is_int64_def MinInt64_def MaxInt64_def)
qed

lemma is_int64I: "MinInt64 \<le> x \<Longrightarrow> x \<le> MaxInt64 \<Longrightarrow> is_int64 x"
  by (simp add: is_int64_def)

lemma wrap64_overflow: "wrap64 (MaxInt64 + 1) = MinInt64"
  by (simp add: wrap64_def MaxInt64_def MinInt64_def)

subsection \<open>Decimal rendering (the verb percent-d)\<close>

fun show_nat :: "nat \<Rightarrow> string" where
  "show_nat n =
     (if n < 10 then [char_of (48 + n)] else show_nat (n div 10) @ [char_of (48 + n mod 10)])"

declare show_nat.simps [simp del]

definition show_int :: "int \<Rightarrow> string" where
  "show_int i = (if i < 0 then CHR ''-'' # show_nat (nat (- i)) else show_nat (nat i))"

definition is_digit :: "char \<Rightarrow> bool" where
  "is_digit c \<longleftrightarrow> 48 \<le> (of_char c :: nat) \<and> (of_char c :: nat) \<le> 57"

definition read_digits :: "string \<Rightarrow> nat" where
  "read_digits s = foldl (\<lambda>a c. 10 * a + (of_char c - 48)) 0 s"

lemma of_char_digit [simp]: "d < 10 \<Longrightarrow> (of_char (char_of (48 + d :: nat)) :: nat) = 48 + d"
  by (simp add: of_char_of take_bit_eq_mod)

lemma read_digits_snoc [simp]: "read_digits (s @ [c]) = 10 * read_digits s + (of_char c - 48)"
  by (simp add: read_digits_def)

lemma read_show_nat [simp]: "read_digits (show_nat n) = n"
proof (induction n rule: show_nat.induct)
  case (1 n)
  show ?case
  proof (cases "n < 10")
    case True
    then show ?thesis by (simp add: show_nat.simps [of n] read_digits_def)
  next
    case False
    with "1.IH" show ?thesis by (simp add: show_nat.simps [of n])
  qed
qed

lemma show_nat_digits: "c \<in> set (show_nat n) \<Longrightarrow> is_digit c"
proof (induction n rule: show_nat.induct)
  case (1 n)
  show ?case
  proof (cases "n < 10")
    case True
    with "1.prems" show ?thesis by (simp add: show_nat.simps [of n] is_digit_def)
  next
    case False
    with "1.prems" have "c \<in> set (show_nat (n div 10)) \<or> c = char_of (48 + n mod 10)"
      by (simp add: show_nat.simps [of n] disj_commute)
    with False "1.IH" show ?thesis by (auto simp: is_digit_def)
  qed
qed

lemma show_nat_inject [simp]: "show_nat m = show_nat n \<longleftrightarrow> m = n"
  by (metis read_show_nat)

lemma show_nat_no_minus: "show_nat n \<noteq> CHR ''-'' # s"
  using show_nat_digits [of "CHR ''-''" n] by (auto simp: is_digit_def)

lemma show_int_inject [simp]: "show_int i = show_int j \<longleftrightarrow> i = j"
  using show_nat_no_minus show_nat_no_minus [THEN not_sym]
  by (auto simp: show_int_def split: if_splits)

lemma show_int_chars: "c \<in> set (show_int i) \<Longrightarrow> is_digit c \<or> c = CHR ''-''"
  by (auto simp: show_int_def split: if_splits dest: show_nat_digits)

subsection \<open>Splitting a string at a separator that its first part does not contain\<close>

lemma append_sep_inject:
  "c \<notin> set xs \<Longrightarrow> c \<notin> set ys \<Longrightarrow> xs @ c # us = ys @ c # vs \<longleftrightarrow> xs = ys \<and> us = vs"
proof (induction xs arbitrary: ys)
  case Nil
  then show ?case by (cases ys) auto
next
  case (Cons x xs)
  then show ?case by (cases ys) auto
qed

lemma takeWhile_sep: "c \<notin> set xs \<Longrightarrow> takeWhile (\<lambda>d. d \<noteq> c) (xs @ c # ys) = xs"
  by (induction xs) auto

lemma dropWhile_sep: "c \<notin> set xs \<Longrightarrow> dropWhile (\<lambda>d. d \<noteq> c) (xs @ c # ys) = c # ys"
  by (induction xs) auto

subsection \<open>Splitting at a separator; path.Join and path.Clean\<close>

text \<open>\<open>strings.Split\<close> for a one-byte separator.\<close>

fun Split :: "string \<Rightarrow> char \<Rightarrow> string list" where
  "Split [] c = [[]]"
| "Split (x # xs) c =
     (if x = c then [] # Split xs c
      else case Split xs c of [] \<Rightarrow> [[x]] | y # ys \<Rightarrow> (x # y) # ys)"

fun join_with :: "string \<Rightarrow> string list \<Rightarrow> string" where
  "join_with sep [] = []"
| "join_with sep [x] = x"
| "join_with sep (x # xs) = x @ sep @ join_with sep xs"

definition clean_step :: "bool \<Rightarrow> string list \<Rightarrow> string \<Rightarrow> string list" where
  "clean_step rooted out elem =
     (if elem = '''' \<or> elem = ''.'' then out
      else if elem = ''..'' then
        (if out \<noteq> [] \<and> last out \<noteq> ''..'' then butlast out
         else if rooted then out else out @ [elem])
      else out @ [elem])"

text \<open>The packages path and filepath agree on this platform.\<close>

definition filepath_Clean :: "string \<Rightarrow> string" where
  "filepath_Clean path =
     (let rooted = (path \<noteq> '''' \<and> hd path = CHR ''/'');
          out = foldl (clean_step rooted) [] (Split path (CHR ''/''))
      in if rooted then ''/'' @ join_with ''/'' out
         else if out = [] then ''.'' else join_with ''/'' out)"

definition filepath_Join :: "string \<Rightarrow> string \<Rightarrow> string" where
  "filepath_Join dir file =
     (if dir = '''' then (if file = '''' then '''' else filepath_Clean file)
      else filepath_Clean (dir @ ''/'' @ file))"

definition join_step :: "string \<Rightarrow> string \<Rightarrow> string" where
  "join_step buf e = (if buf = [] then e else buf @ ''/'' @ e)"

definition path_Join :: "string list \<Rightarrow> string" where
  "path_Join elems = (if list_all (\<lambda>e. e = []) elems then [] else filepath_Clean (foldl join_step [] elems))"

subsection \<open>Maps filled in a loop, read in key order\<close>

text \<open>go/tools/sortedmaps/sortedmaps.go: the keys and the values of a map in key order.\<close>

definition sortedmaps_Keys :: "('k :: linorder \<times> 'v) list \<Rightarrow> 'k list" where
  "sortedmaps_Keys m = sort (map fst m)"

definition sortedmaps_Values :: "('k :: linorder \<times> 'v) list \<Rightarrow> 'v list" where
  "sortedmaps_Values m = map (\<lambda>k. the (map_of m k)) (sortedmaps_Keys m)"

text \<open>The map \<open>m[key(x)] = x\<close> over a slice: a later entry replaces an earlier one.\<close>

definition index_by :: "('a \<Rightarrow> 'k) \<Rightarrow> 'a list \<Rightarrow> ('k \<times> 'a) list" where
  "index_by key xs = foldl (\<lambda>m x. AList.update (key x) x m) [] xs"

lemma map_of_foldl_update:
  "map_of (foldl (\<lambda>m x. AList.update (key x) x m) m0 xs) k =
     (case find (\<lambda>x. key x = k) (rev xs) of None \<Rightarrow> map_of m0 k | Some x \<Rightarrow> Some x)"
proof (induction xs rule: rev_induct)
  case Nil
  then show ?case by simp
next
  case (snoc x xs)
  then show ?case by (simp add: update_conv')
qed

lemma distinct_foldl_update:
  "distinct (map fst m0) \<Longrightarrow> distinct (map fst (foldl (\<lambda>m x. AList.update (key x) x m) m0 xs))"
  by (induction xs arbitrary: m0) (simp_all add: distinct_update)

lemma distinct_index_by [simp]: "distinct (map fst (index_by key xs))"
  by (simp add: index_by_def distinct_foldl_update)

lemma map_of_index_by: "map_of (index_by key xs) k = find (\<lambda>x. key x = k) (rev xs)"
  by (simp add: index_by_def map_of_foldl_update split: option.split)

lemma map_of_index_by_SomeD: "map_of (index_by key xs) k = Some x \<Longrightarrow> x \<in> set xs \<and> key x = k"
  by (auto simp: map_of_index_by find_Some_iff in_set_conv_nth rev_nth) (metis in_set_conv_nth length_rev set_rev rev_nth)

lemma dom_index_by: "fst ` set (index_by key xs) = key ` set xs"
proof -
  have "k \<in> dom (map_of (index_by key xs)) \<longleftrightarrow> k \<in> key ` set xs" for k
    by (auto simp: dom_def map_of_index_by find_None_iff)
  then show ?thesis by (auto simp: dom_map_of_conv_image_fst)
qed

lemma set_sortedmaps_Keys [simp]: "set (sortedmaps_Keys m) = fst ` set m"
  by (simp add: sortedmaps_Keys_def)

lemma sorted_sortedmaps_Keys [simp]: "sorted (sortedmaps_Keys m)"
  by (simp add: sortedmaps_Keys_def)

lemma distinct_sortedmaps_Keys [simp]: "distinct (map fst m) \<Longrightarrow> distinct (sortedmaps_Keys m)"
  by (simp add: sortedmaps_Keys_def)

lemma length_sortedmaps_Values: "length (sortedmaps_Values m) = length m"
  by (simp add: sortedmaps_Values_def sortedmaps_Keys_def)

text \<open>A map whose entries are stored under their own key.\<close>

definition keyed_by :: "('a \<Rightarrow> 'k) \<Rightarrow> ('k \<times> 'a) list \<Rightarrow> bool" where
  "keyed_by key m \<longleftrightarrow> (\<forall>k x. map_of m k = Some x \<longrightarrow> key x = k)"

lemma keyed_by_index_by [simp]: "keyed_by key (index_by key xs)"
  unfolding keyed_by_def using map_of_index_by_SomeD by fast

lemma map_key_sortedmaps_Values:
  assumes "keyed_by key m"
  shows "map key (sortedmaps_Values m) = sortedmaps_Keys m"
proof -
  have "key (the (map_of m k)) = k" if "k \<in> fst ` set m" for k
  proof -
    from that obtain x where "map_of m k = Some x"
      by (metis domD dom_map_of_conv_image_fst)
    with assms show ?thesis by (simp add: keyed_by_def)
  qed
  then show ?thesis by (auto simp: sortedmaps_Values_def intro: map_idI)
qed

lemma set_sortedmaps_Values: "set (sortedmaps_Values m) = ran (map_of m)"
proof -
  have "set (sortedmaps_Values m) = (\<lambda>k. the (map_of m k)) ` dom (map_of m)"
    by (simp add: sortedmaps_Values_def dom_map_of_conv_image_fst)
  also have "\<dots> = ran (map_of m)" by (force simp: ran_def dom_def)
  finally show ?thesis .
qed

subsection \<open>Searches\<close>

lemma find_SomeD: "find P xs = Some x \<Longrightarrow> P x \<and> x \<in> set xs"
  by (induction xs) (auto split: if_splits)

lemma find_snoc: "find P (xs @ [y]) = (case find P xs of None \<Rightarrow> if P y then Some y else None | Some x \<Rightarrow> Some x)"
  by (induction xs) auto

subsection \<open>Cardinality\<close>

text \<open>Two subsets whose sizes add up to more than the size of their superset overlap.\<close>

lemma majorities_overlap:
  assumes "finite C" "A \<subseteq> C" "B \<subseteq> C" "card C < card A + card B"
  shows "A \<inter> B \<noteq> {}"
proof
  assume "A \<inter> B = {}"
  with assms(1-3) have "card A + card B = card (A \<union> B)"
    by (metis card_Un_disjoint finite_subset)
  also have "\<dots> \<le> card C" using assms(1-3) by (simp add: card_mono)
  finally show False using assms(4) by simp
qed

lemma two_le_card_iff: "finite A \<Longrightarrow> 2 \<le> card A \<longleftrightarrow> (\<exists>x \<in> A. \<exists>y \<in> A. x \<noteq> y)"
  by (metis One_nat_def card_le_Suc0_iff_eq not_less_eq_eq numeral_2_eq_2)

subsection \<open>Histories\<close>

text \<open>A history sorted by a transitive relation stays sorted when its next entry follows the last.\<close>

lemma sorted_wrt_extend:
  assumes "sorted_wrt R xs" "xs \<noteq> []" "R (last xs) y" "\<And>a b c. R a b \<Longrightarrow> R b c \<Longrightarrow> R a c"
  shows "sorted_wrt R (xs @ [y])"
proof -
  have "sorted_wrt R (butlast xs @ [last xs])" using assms(1,2) by simp
  then have "R x (last xs)" if "x \<in> set (butlast xs)" for x
    using that by (simp only: sorted_wrt_append) simp
  moreover have "set xs = insert (last xs) (set (butlast xs))"
    using assms(2) by (metis Un_insert_right append_butlast_last_id boolean_algebra_cancel.sup0 list.simps(15) set_append empty_set)
  ultimately have "R x y" if "x \<in> set xs" for x
    using that assms(3) assms(4) [of x "last xs" y] by auto
  with assms(1) show ?thesis by (simp add: sorted_wrt_append)
qed

subsection \<open>Nested and filtering loops\<close>

lemma foldl_nested: "foldl (\<lambda>b x. foldl f b (g x)) b xs = foldl f b (concat (map g xs))"
  by (induction xs arbitrary: b) simp_all

lemma foldl_filtered:
  "foldl (\<lambda>b x. if P x then b else f b (g x)) b xs = foldl f b (map g (filter (\<lambda>x. \<not> P x) xs))"
  by (induction xs arbitrary: b) simp_all

lemma foldl_mapped: "foldl (\<lambda>b x. f b (g x)) b xs = foldl f b (map g xs)"
  by (induction xs arbitrary: b) simp_all

subsection \<open>Three-way comparators\<close>

text \<open>
  The contract of Go's compare functions: negative, zero or positive for behind, equal, ahead.
\<close>

locale go_comparator =
  fixes cmp :: "'a \<Rightarrow> 'a \<Rightarrow> int"
  assumes cmp_swap: "cmp y x = - cmp x y"
    and cmp_trans: "0 \<le> cmp x y \<Longrightarrow> 0 \<le> cmp y z \<Longrightarrow> 0 \<le> cmp x z"
begin

lemma cmp_refl [simp]: "cmp x x = 0"
  using cmp_swap [of x x] by simp

lemma cmp_total: "0 \<le> cmp x y \<or> 0 \<le> cmp y x"
  using cmp_swap [of x y] by linarith

lemma cmp_strict_trans:
  assumes "0 < cmp x y" "0 \<le> cmp y z"
  shows "0 < cmp x z"
proof (rule ccontr)
  assume "\<not> 0 < cmp x z"
  then have "0 \<le> cmp z x" using cmp_swap [of x z] by linarith
  with assms(2) have "0 \<le> cmp y x" by (rule cmp_trans)
  with assms(1) show False using cmp_swap [of x y] by linarith
qed

lemma cmp_zero_trans: "cmp x y = 0 \<Longrightarrow> cmp y z = 0 \<Longrightarrow> cmp x z = 0"
  using cmp_trans [of x y z] cmp_trans [of z y x] cmp_swap [of y x] cmp_swap [of z y] cmp_swap [of z x]
  by linarith

end

text \<open>
  Sorting a slice: each element moves back over the elements it compares below. The sorted prefix
  is kept in reverse.
\<close>

fun sort_insert :: "('a \<Rightarrow> 'a \<Rightarrow> int) \<Rightarrow> 'a \<Rightarrow> 'a list \<Rightarrow> 'a list" where
  "sort_insert cmp x [] = [x]"
| "sort_insert cmp x (y # ys) = (if cmp x y < 0 then y # sort_insert cmp x ys else x # y # ys)"

definition SortFunc :: "('a \<Rightarrow> 'a \<Rightarrow> int) \<Rightarrow> 'a list \<Rightarrow> 'a list" where
  "SortFunc cmp xs = rev (foldl (\<lambda>acc x. sort_insert cmp x acc) [] xs)"

lemma mset_sort_insert [simp]: "mset (sort_insert cmp x ys) = add_mset x (mset ys)"
  by (induction ys) auto

lemma mset_SortFunc [simp]: "mset (SortFunc cmp xs) = mset xs"
proof -
  have "mset (foldl (\<lambda>acc x. sort_insert cmp x acc) acc xs) = mset acc + mset xs" for acc
    by (induction xs arbitrary: acc) simp_all
  then show ?thesis by (simp add: SortFunc_def)
qed

lemma set_SortFunc [simp]: "set (SortFunc cmp xs) = set xs"
  by (metis mset_SortFunc set_mset_mset)

lemma length_SortFunc [simp]: "length (SortFunc cmp xs) = length xs"
  by (metis mset_SortFunc size_mset)

context go_comparator
begin

lemma sorted_sort_insert:
  "sorted_wrt (\<lambda>a b. 0 \<le> cmp a b) ys \<Longrightarrow> sorted_wrt (\<lambda>a b. 0 \<le> cmp a b) (sort_insert cmp x ys)"
proof (induction ys)
  case (Cons y ys)
  have set: "set (sort_insert cmp x ys) = insert x (set ys)"
    by (metis mset_sort_insert set_mset_add_mset_insert set_mset_mset)
  show ?case
  proof (cases "cmp x y < 0")
    case True
    then have "0 \<le> cmp y x" using cmp_swap [of y x] by linarith
    with True Cons show ?thesis by (simp add: set)
  next
    case False
    then have "0 \<le> cmp x y" by simp
    note cmp_trans [OF this]
    with False Cons.prems show ?thesis by auto
  qed
qed simp

lemma SortFunc_sorted: "sorted_wrt (\<lambda>a b. cmp a b \<le> 0) (SortFunc cmp xs)"
proof -
  have "sorted_wrt (\<lambda>a b. 0 \<le> cmp a b) acc \<Longrightarrow>
      sorted_wrt (\<lambda>a b. 0 \<le> cmp a b) (foldl (\<lambda>acc x. sort_insert cmp x acc) acc xs)" for acc
    by (induction xs arbitrary: acc) (simp_all add: sorted_sort_insert)
  from this [of "[]"] have "sorted_wrt (\<lambda>a b. 0 \<le> cmp b a) (SortFunc cmp xs)"
    by (simp add: SortFunc_def sorted_wrt_rev)
  then show ?thesis
    by (rule sorted_wrt_mono_rel [rotated]) (use cmp_swap in \<open>metis neg_le_0_iff_le\<close>)
qed

end

text \<open>A comparator may break the ties of another one: the composition is transitive again.\<close>

locale go_lex_comparator = major: go_comparator c1 + minor: go_comparator c2
  for c1 :: "'a \<Rightarrow> 'a \<Rightarrow> int" and c2 :: "'b \<Rightarrow> 'b \<Rightarrow> int"
begin

lemma lex_trans:
  assumes "0 < c1 x y \<or> c1 x y = 0 \<and> 0 \<le> c2 u v" "0 < c1 y z \<or> c1 y z = 0 \<and> 0 \<le> c2 v w"
  shows "0 < c1 x z \<or> c1 x z = 0 \<and> 0 \<le> c2 u w"
proof (cases "0 < c1 x y \<or> 0 < c1 y z")
  case True
  have "0 < c1 x z"
  proof (cases "0 < c1 x y")
    case True
    moreover have "0 \<le> c1 y z" using assms(2) by auto
    ultimately show ?thesis by (rule major.cmp_strict_trans)
  next
    case False
    with \<open>0 < c1 x y \<or> 0 < c1 y z\<close> assms(1) have "0 < c1 y z" "c1 x y = 0" by auto
    then have "\<not> 0 \<le> c1 z x"
      using major.cmp_trans [of z x y] major.cmp_swap [of z y] by auto
    then show ?thesis using major.cmp_swap [of z x] by linarith
  qed
  then show ?thesis ..
next
  case False
  with assms have "c1 x y = 0" "c1 y z = 0" "0 \<le> c2 u v" "0 \<le> c2 v w" by auto
  then show ?thesis using major.cmp_zero_trans minor.cmp_trans by blast
qed

end

definition go_best :: "('a ptr \<Rightarrow> 'a ptr \<Rightarrow> int) \<Rightarrow> 'a ptr \<Rightarrow> 'a ptr \<Rightarrow> 'a ptr" where
  "go_best cmp best x = (if best = None \<or> 0 < cmp x best then x else best)"

text \<open>
  Over pointers the loop also replaces a \<open>nil\<close> best unconditionally, so it returns a greatest
  element only where \<open>nil\<close> ranks lowest among the values that occur (\<open>ok\<close>).
\<close>

locale go_ptr_comparator = go_comparator cmp
  for cmp :: "'a option \<Rightarrow> 'a option \<Rightarrow> int" +
  fixes ok :: "'a option \<Rightarrow> bool"
  assumes nil_least: "ok x \<Longrightarrow> 0 \<le> cmp x None"
begin

lemma go_best_ge:
  assumes "ok x"
  shows "0 \<le> cmp (go_best cmp best x) best \<and> 0 \<le> cmp (go_best cmp best x) x"
  using nil_least [OF assms] cmp_swap [of best x] by (auto simp: go_best_def)

lemma foldl_go_best_ge:
  "\<forall>x \<in> set xs. ok x \<Longrightarrow> y \<in> insert best (set xs) \<Longrightarrow> 0 \<le> cmp (foldl (go_best cmp) best xs) y"
proof (induction xs arbitrary: best y)
  case Nil
  then show ?case by simp
next
  case (Cons x xs)
  let ?b = "go_best cmp best x"
  have ge: "0 \<le> cmp (foldl (go_best cmp) ?b xs) z" if "z \<in> insert ?b (set xs)" for z
    using Cons.IH Cons.prems(1) that by simp
  from Cons.prems(1) have "0 \<le> cmp ?b best" "0 \<le> cmp ?b x"
    using go_best_ge by auto
  with ge [of ?b] ge [of y] Cons.prems(2) show ?case
    by (auto intro: cmp_trans)
qed

lemma foldl_go_best_mem: "foldl (go_best cmp) best xs \<in> insert best (set xs)"
  by (induction xs arbitrary: best) (auto simp: go_best_def split: if_splits)

lemma foldl_go_best_None:
  "\<forall>x \<in> set xs. ok x \<Longrightarrow> ok best \<Longrightarrow> foldl (go_best cmp) best xs = None \<Longrightarrow>
     best = None \<and> (\<forall>x \<in> set xs. x = None)"
proof (induction xs arbitrary: best)
  case Nil
  then show ?case by simp
next
  case (Cons x xs)
  have "ok (go_best cmp best x)" using Cons.prems(1,2) by (simp add: go_best_def)
  moreover have "foldl (go_best cmp) (go_best cmp best x) xs = None" "\<forall>y \<in> set xs. ok y"
    using Cons.prems(1,3) by simp_all
  ultimately have "go_best cmp best x = None" "\<forall>x \<in> set xs. x = None"
    using Cons.IH by blast+
  with nil_least [OF Cons.prems(2)] cmp_swap [of best None] show ?case
    by (auto simp: go_best_def split: if_splits)
qed

end

subsection \<open>Less functions\<close>

text \<open>
  The contract of a less function: asymmetric, and incomparability is transitive. Such functions can
  be chained, the second one breaking the ties of the first.
\<close>

definition best_of :: "('a \<Rightarrow> 'a \<Rightarrow> bool) \<Rightarrow> 'a list \<Rightarrow> 'a list" where
  "best_of lt xs = filter (\<lambda>c. \<forall>x \<in> set xs. \<not> lt x c) xs"

locale go_less =
  fixes less :: "'a \<Rightarrow> 'a \<Rightarrow> bool"
  assumes less_asym: "less x y \<Longrightarrow> \<not> less y x"
    and less_cotrans: "less x z \<Longrightarrow> less x y \<or> less y z"
begin

lemma less_irrefl: "\<not> less x x"
  using less_asym by blast

text \<open>How a loop that keeps every candidate tied for best takes in one more candidate.\<close>

lemma ties_snoc:
  assumes "best_of less xs = b # bs"
  shows "best_of less (xs @ [c]) = (if less c b then [c] else if \<not> less b c then b # bs @ [c] else b # bs)"
proof -
  have b: "b \<in> set xs" "\<forall>x \<in> set xs. \<not> less x b"
    using assms by (auto simp: best_of_def filter_eq_Cons_iff)
  have tied: "\<not> less b y \<and> \<not> less y b" if "y \<in> set (b # bs)" for y
  proof -
    from that assms have "y \<in> set (best_of less xs)" by simp
    then show ?thesis using b by (auto simp: best_of_def)
  qed
  have last: "(\<forall>x \<in> set xs. \<not> less x c) \<longleftrightarrow> \<not> less b c"
    using b less_cotrans by blast
  have "best_of less (xs @ [c]) = filter (\<lambda>y. \<not> less c y) (best_of less xs) @ (if \<not> less b c then [c] else [])"
    unfolding best_of_def by (simp add: last less_irrefl conj_commute)
  moreover have "filter (\<lambda>y. \<not> less c y) (b # bs) = (if less c b then [] else b # bs)"
  proof (cases "less c b")
    case True
    then have "\<forall>y \<in> set (b # bs). less c y" using tied less_cotrans by blast
    with True show ?thesis by (simp add: filter_empty_conv)
  next
    case False
    then have "\<forall>y \<in> set (b # bs). \<not> less c y" using tied less_cotrans by blast
    with False show ?thesis by (simp add: filter_id_conv)
  qed
  ultimately show ?thesis using less_asym [of c b] unfolding assms by simp
qed

end

definition go_then_less :: "('a \<Rightarrow> 'a \<Rightarrow> bool) \<Rightarrow> ('a \<Rightarrow> 'a \<Rightarrow> bool) \<Rightarrow> 'a \<Rightarrow> 'a \<Rightarrow> bool" where
  "go_then_less l1 l2 a b = (if l1 a b then True else if l1 b a then False else l2 a b)"

locale go_chained_less = major: go_less l1 + minor: go_less l2
  for l1 l2 :: "'a \<Rightarrow> 'a \<Rightarrow> bool"

sublocale go_chained_less \<subseteq> chained: go_less "go_then_less l1 l2"
proof unfold_locales
  fix x y z :: 'a
  show "go_then_less l1 l2 x y \<Longrightarrow> \<not> go_then_less l1 l2 y x"
    using major.less_asym minor.less_asym by (auto simp: go_then_less_def split: if_splits)
  show "go_then_less l1 l2 x z \<Longrightarrow> go_then_less l1 l2 x y \<or> go_then_less l1 l2 y z"
    using major.less_asym major.less_cotrans minor.less_cotrans unfolding go_then_less_def by metis
qed

lemma go_less_key: "go_less (\<lambda>a b. f a < (f b :: 'k :: linorder))"
  by unfold_locales auto

end
