(* ===== verification/Cluster_Data.thy ===== *)
theory Cluster_Data
  imports Go_Prelude
begin

text \<open>
  The protobuf messages of go/pb/clustermetadata and go/pb/consensusdata that the consensus
  code works on, as records with one field per message field, and the generated getters, which
  return the zero value on a \<open>nil\<close> message. Equality of records is \<open>proto.Equal\<close>: two messages
  are equal when both are \<open>nil\<close> or when all their fields are.

  An enum is open in proto3: the \<open>Unrecognized\<close> constructors stand for the numbers that have no
  name.
\<close>

datatype ComponentType =
    COMPONENT_UNKNOWN
  | MULTIPOOLER
  | MULTIGATEWAY
  | MULTIORCH
  | ComponentUnrecognized int

datatype QuorumType =
    QUORUM_TYPE_UNKNOWN
  | QUORUM_TYPE_AT_LEAST_N
  | QUORUM_TYPE_MULTI_CELL_AT_LEAST_N
  | QuorumTypeUnrecognized int

datatype CohortEligibilitySignal =
    COHORT_ELIGIBILITY_SIGNAL_UNKNOWN
  | COHORT_ELIGIBILITY_SIGNAL_ELIGIBLE
  | COHORT_ELIGIBILITY_SIGNAL_INELIGIBLE
  | CohortEligibilityUnrecognized int

datatype LeadershipSignal =
    LEADERSHIP_SIGNAL_UNKNOWN
  | LEADERSHIP_SIGNAL_ACTIVE
  | LEADERSHIP_SIGNAL_REQUESTING_DEMOTION
  | LeadershipSignalUnrecognized int

record LeadershipStatus =
  ls_leader_term :: int
  ls_signal :: LeadershipSignal

record ID =
  id_component :: ComponentType
  id_cell :: string
  id_name :: string

record Timestamp =
  ts_seconds :: int
  ts_nanos :: int

record RuleNumber =
  rn_coordinator_term :: int
  rn_leader_subterm :: int

record DurabilityPolicyPb =
  dp_policy_name :: string
  dp_policy_version :: int
  dp_quorum_type :: QuorumType
  dp_required_count :: int
  dp_description :: string

record ShardRule =
  sr_rule_number :: "RuleNumber ptr"
  sr_leader_id :: "ID ptr"
  sr_cohort_members :: "ID ptr list"
  sr_durability_policy :: "DurabilityPolicyPb ptr"
  sr_coordinator_id :: "ID ptr"
  sr_creation_time :: "Timestamp ptr"

record RulePosition =
  pos_decision :: "ShardRule ptr"
  pos_proposal :: "ShardRule ptr"

record PoolerPosition =
  pp_position :: "RulePosition ptr"
  pp_lsn :: string

record RuleNumberPositionPb =
  rnp_decision :: "RuleNumber ptr"
  rnp_proposal :: "RuleNumber ptr"

record LsnPosition =
  lp_position :: "RuleNumberPositionPb ptr"
  lp_lsn :: string

record RecruitIntent =
  ri_replace_decision :: "RuleNumber ptr"
  ri_attempt :: int

record TermRevocation =
  tr_revoked_below_term :: int
  tr_accepted_coordinator_id :: "ID ptr"
  tr_coordinator_initiated_at :: "Timestamp ptr"
  tr_outgoing_rule :: "RuleNumber ptr"
  tr_recruit_intent :: "RecruitIntent ptr"

record PoolerAddress =
  addr_id :: "ID ptr"
  addr_host :: string
  addr_postgres_port :: int

record ReplicationPrimary =
  prim_position :: "RulePosition ptr"
  prim_primary :: "PoolerAddress ptr"
  prim_rewind_ready :: bool

record ConsensusStatus =
  cs_term_revocation :: "TermRevocation ptr"
  cs_current_position :: "PoolerPosition ptr"
  cs_replication_primary :: "ReplicationPrimary ptr"
  cs_id :: "ID ptr"
  cs_recruit_blocked_until :: "LsnPosition ptr"

record ExternallyCertifiedRevocation =
  cert_term_revocation :: "TermRevocation ptr"
  cert_frozen_lsn :: string

record CoordinatorProposal =
  prop_term_revocation :: "TermRevocation ptr"
  prop_proposal_leader :: "PoolerAddress ptr"
  prop_proposed_transition :: "RulePosition ptr"
  prop_skip_outgoing_quorum :: bool

subsection \<open>Nil-safe getters\<close>

primrec GetComponent :: "ID ptr \<Rightarrow> ComponentType" where
  "GetComponent None = COMPONENT_UNKNOWN"
| "GetComponent (Some m) = id_component m"

primrec GetCell :: "ID ptr \<Rightarrow> string" where
  "GetCell None = ''''"
| "GetCell (Some m) = id_cell m"

primrec GetName :: "ID ptr \<Rightarrow> string" where
  "GetName None = ''''"
| "GetName (Some m) = id_name m"

primrec GetSeconds :: "Timestamp ptr \<Rightarrow> int" where
  "GetSeconds None = 0"
| "GetSeconds (Some m) = ts_seconds m"

primrec GetNanos :: "Timestamp ptr \<Rightarrow> int" where
  "GetNanos None = 0"
| "GetNanos (Some m) = ts_nanos m"

primrec GetCoordinatorTerm :: "RuleNumber ptr \<Rightarrow> int" where
  "GetCoordinatorTerm None = 0"
| "GetCoordinatorTerm (Some m) = rn_coordinator_term m"

primrec GetLeaderSubterm :: "RuleNumber ptr \<Rightarrow> int" where
  "GetLeaderSubterm None = 0"
| "GetLeaderSubterm (Some m) = rn_leader_subterm m"

primrec GetRuleNumber :: "ShardRule ptr \<Rightarrow> RuleNumber ptr" where
  "GetRuleNumber None = None"
| "GetRuleNumber (Some m) = sr_rule_number m"

primrec GetLeaderId :: "ShardRule ptr \<Rightarrow> ID ptr" where
  "GetLeaderId None = None"
| "GetLeaderId (Some m) = sr_leader_id m"

primrec GetCohortMembers :: "ShardRule ptr \<Rightarrow> ID ptr list" where
  "GetCohortMembers None = []"
| "GetCohortMembers (Some m) = sr_cohort_members m"

primrec GetDurabilityPolicy :: "ShardRule ptr \<Rightarrow> DurabilityPolicyPb ptr" where
  "GetDurabilityPolicy None = None"
| "GetDurabilityPolicy (Some m) = sr_durability_policy m"

primrec GetCoordinatorId :: "ShardRule ptr \<Rightarrow> ID ptr" where
  "GetCoordinatorId None = None"
| "GetCoordinatorId (Some m) = sr_coordinator_id m"

primrec GetCreationTime :: "ShardRule ptr \<Rightarrow> Timestamp ptr" where
  "GetCreationTime None = None"
| "GetCreationTime (Some m) = sr_creation_time m"

primrec GetDecision :: "RulePosition ptr \<Rightarrow> ShardRule ptr" where
  "GetDecision None = None"
| "GetDecision (Some m) = pos_decision m"

primrec GetProposal :: "RulePosition ptr \<Rightarrow> ShardRule ptr" where
  "GetProposal None = None"
| "GetProposal (Some m) = pos_proposal m"

primrec PoolerPosition_GetPosition :: "PoolerPosition ptr \<Rightarrow> RulePosition ptr" where
  "PoolerPosition_GetPosition None = None"
| "PoolerPosition_GetPosition (Some m) = pp_position m"

primrec PoolerPosition_GetLsn :: "PoolerPosition ptr \<Rightarrow> string" where
  "PoolerPosition_GetLsn None = ''''"
| "PoolerPosition_GetLsn (Some m) = pp_lsn m"

primrec RuleNumberPositionPb_GetDecision :: "RuleNumberPositionPb ptr \<Rightarrow> RuleNumber ptr" where
  "RuleNumberPositionPb_GetDecision None = None"
| "RuleNumberPositionPb_GetDecision (Some m) = rnp_decision m"

primrec RuleNumberPositionPb_GetProposal :: "RuleNumberPositionPb ptr \<Rightarrow> RuleNumber ptr" where
  "RuleNumberPositionPb_GetProposal None = None"
| "RuleNumberPositionPb_GetProposal (Some m) = rnp_proposal m"

primrec LsnPosition_GetPosition :: "LsnPosition ptr \<Rightarrow> RuleNumberPositionPb ptr" where
  "LsnPosition_GetPosition None = None"
| "LsnPosition_GetPosition (Some m) = lp_position m"

primrec LsnPosition_GetLsn :: "LsnPosition ptr \<Rightarrow> string" where
  "LsnPosition_GetLsn None = ''''"
| "LsnPosition_GetLsn (Some m) = lp_lsn m"

primrec GetReplaceDecision :: "RecruitIntent ptr \<Rightarrow> RuleNumber ptr" where
  "GetReplaceDecision None = None"
| "GetReplaceDecision (Some m) = ri_replace_decision m"

primrec GetAttempt :: "RecruitIntent ptr \<Rightarrow> int" where
  "GetAttempt None = 0"
| "GetAttempt (Some m) = ri_attempt m"

primrec GetRevokedBelowTerm :: "TermRevocation ptr \<Rightarrow> int" where
  "GetRevokedBelowTerm None = 0"
| "GetRevokedBelowTerm (Some m) = tr_revoked_below_term m"

primrec GetAcceptedCoordinatorId :: "TermRevocation ptr \<Rightarrow> ID ptr" where
  "GetAcceptedCoordinatorId None = None"
| "GetAcceptedCoordinatorId (Some m) = tr_accepted_coordinator_id m"

primrec GetCoordinatorInitiatedAt :: "TermRevocation ptr \<Rightarrow> Timestamp ptr" where
  "GetCoordinatorInitiatedAt None = None"
| "GetCoordinatorInitiatedAt (Some m) = tr_coordinator_initiated_at m"

primrec GetOutgoingRule :: "TermRevocation ptr \<Rightarrow> RuleNumber ptr" where
  "GetOutgoingRule None = None"
| "GetOutgoingRule (Some m) = tr_outgoing_rule m"

primrec GetRecruitIntent :: "TermRevocation ptr \<Rightarrow> RecruitIntent ptr" where
  "GetRecruitIntent None = None"
| "GetRecruitIntent (Some m) = tr_recruit_intent m"

primrec PoolerAddress_GetId :: "PoolerAddress ptr \<Rightarrow> ID ptr" where
  "PoolerAddress_GetId None = None"
| "PoolerAddress_GetId (Some m) = addr_id m"

primrec GetHost :: "PoolerAddress ptr \<Rightarrow> string" where
  "GetHost None = ''''"
| "GetHost (Some m) = addr_host m"

primrec GetPostgresPort :: "PoolerAddress ptr \<Rightarrow> int" where
  "GetPostgresPort None = 0"
| "GetPostgresPort (Some m) = addr_postgres_port m"

primrec ReplicationPrimary_GetPosition :: "ReplicationPrimary ptr \<Rightarrow> RulePosition ptr" where
  "ReplicationPrimary_GetPosition None = None"
| "ReplicationPrimary_GetPosition (Some m) = prim_position m"

primrec GetPrimary :: "ReplicationPrimary ptr \<Rightarrow> PoolerAddress ptr" where
  "GetPrimary None = None"
| "GetPrimary (Some m) = prim_primary m"

primrec GetRewindReady :: "ReplicationPrimary ptr \<Rightarrow> bool" where
  "GetRewindReady None = False"
| "GetRewindReady (Some m) = prim_rewind_ready m"

primrec GetTermRevocation :: "ConsensusStatus ptr \<Rightarrow> TermRevocation ptr" where
  "GetTermRevocation None = None"
| "GetTermRevocation (Some m) = cs_term_revocation m"

primrec GetCurrentPosition :: "ConsensusStatus ptr \<Rightarrow> PoolerPosition ptr" where
  "GetCurrentPosition None = None"
| "GetCurrentPosition (Some m) = cs_current_position m"

primrec GetReplicationPrimary :: "ConsensusStatus ptr \<Rightarrow> ReplicationPrimary ptr" where
  "GetReplicationPrimary None = None"
| "GetReplicationPrimary (Some m) = cs_replication_primary m"

primrec ConsensusStatus_GetId :: "ConsensusStatus ptr \<Rightarrow> ID ptr" where
  "ConsensusStatus_GetId None = None"
| "ConsensusStatus_GetId (Some m) = cs_id m"

primrec GetRecruitBlockedUntil :: "ConsensusStatus ptr \<Rightarrow> LsnPosition ptr" where
  "GetRecruitBlockedUntil None = None"
| "GetRecruitBlockedUntil (Some m) = cs_recruit_blocked_until m"

primrec Cert_GetTermRevocation :: "ExternallyCertifiedRevocation ptr \<Rightarrow> TermRevocation ptr" where
  "Cert_GetTermRevocation None = None"
| "Cert_GetTermRevocation (Some m) = cert_term_revocation m"

primrec GetFrozenLsn :: "ExternallyCertifiedRevocation ptr \<Rightarrow> string" where
  "GetFrozenLsn None = ''''"
| "GetFrozenLsn (Some m) = cert_frozen_lsn m"

primrec Proposal_GetTermRevocation :: "CoordinatorProposal ptr \<Rightarrow> TermRevocation ptr" where
  "Proposal_GetTermRevocation None = None"
| "Proposal_GetTermRevocation (Some m) = prop_term_revocation m"

primrec GetProposalLeader :: "CoordinatorProposal ptr \<Rightarrow> PoolerAddress ptr" where
  "GetProposalLeader None = None"
| "GetProposalLeader (Some m) = prop_proposal_leader m"

primrec GetProposedTransition :: "CoordinatorProposal ptr \<Rightarrow> RulePosition ptr" where
  "GetProposedTransition None = None"
| "GetProposedTransition (Some m) = prop_proposed_transition m"

primrec GetSkipOutgoingQuorum :: "CoordinatorProposal ptr \<Rightarrow> bool" where
  "GetSkipOutgoingQuorum None = False"
| "GetSkipOutgoingQuorum (Some m) = prop_skip_outgoing_quorum m"

text \<open>\<open>timestamppb.Timestamp.AsTime\<close>: a \<open>nil\<close> timestamp is the epoch.\<close>

definition AsTime :: "Timestamp ptr \<Rightarrow> go_time" where
  "AsTime t = GetSeconds t * 1000000000 + GetNanos t"

text \<open>The zero \<open>TermRevocation\<close> message, \<open>&TermRevocation{}\<close>.\<close>

definition zero_TermRevocation :: TermRevocation where
  "zero_TermRevocation = \<lparr>tr_revoked_below_term = 0, tr_accepted_coordinator_id = None,
     tr_coordinator_initiated_at = None, tr_outgoing_rule = None, tr_recruit_intent = None\<rparr>"

end
