(* ===== verification/Sample_Shard.thy ===== *)
theory Sample_Shard
  imports Cluster_Data
begin

text \<open>
  A concrete shard on which the witnesses of the development evaluate: three poolers in three
  cells, led by the first, with the durability policy AT_LEAST_2 and rule number 3.0 decided.
\<close>

definition ex_pooler :: "string \<Rightarrow> string \<Rightarrow> ID" where
  "ex_pooler cell name = \<lparr>id_component = MULTIPOOLER, id_cell = cell, id_name = name\<rparr>"

definition ex_a :: "ID ptr" where "ex_a = Some (ex_pooler ''zone1'' ''a'')"
definition ex_b :: "ID ptr" where "ex_b = Some (ex_pooler ''zone2'' ''b'')"
definition ex_c :: "ID ptr" where "ex_c = Some (ex_pooler ''zone3'' ''c'')"

definition ex_orch :: "ID ptr" where
  "ex_orch = Some \<lparr>id_component = MULTIORCH, id_cell = ''zone1'', id_name = ''orch''\<rparr>"

definition ex_time :: "int \<Rightarrow> Timestamp ptr" where
  "ex_time s = Some \<lparr>ts_seconds = s, ts_nanos = 0\<rparr>"

definition ex_num :: "int \<Rightarrow> int \<Rightarrow> RuleNumber ptr" where
  "ex_num t s = Some \<lparr>rn_coordinator_term = t, rn_leader_subterm = s\<rparr>"

definition ex_policy :: "DurabilityPolicyPb ptr" where
  "ex_policy = Some \<lparr>dp_policy_name = ''AT_LEAST_2'', dp_policy_version = 0,
     dp_quorum_type = QUORUM_TYPE_AT_LEAST_N, dp_required_count = 2, dp_description = ''''\<rparr>"

definition ex_rule :: "RuleNumber ptr \<Rightarrow> ID ptr \<Rightarrow> ShardRule ptr" where
  "ex_rule n leader = Some \<lparr>sr_rule_number = n, sr_leader_id = leader,
     sr_cohort_members = [ex_a, ex_b, ex_c], sr_durability_policy = ex_policy,
     sr_coordinator_id = ex_orch, sr_creation_time = ex_time 100\<rparr>"

definition ex_decided :: "int \<Rightarrow> RulePosition ptr" where
  "ex_decided t = Some \<lparr>pos_decision = ex_rule (ex_num t 0) ex_a, pos_proposal = None\<rparr>"

definition ex_status ::
  "ID ptr \<Rightarrow> RulePosition ptr \<Rightarrow> string \<Rightarrow> TermRevocation ptr \<Rightarrow> ConsensusStatus ptr" where
  "ex_status i pos lsn rv = Some \<lparr>cs_term_revocation = rv,
     cs_current_position = Some \<lparr>pp_position = pos, pp_lsn = lsn\<rparr>,
     cs_replication_primary = None, cs_id = i, cs_recruit_blocked_until = None\<rparr>"

definition ex_revocation :: "int \<Rightarrow> RuleNumber ptr \<Rightarrow> TermRevocation ptr" where
  "ex_revocation t out = Some \<lparr>tr_revoked_below_term = t, tr_accepted_coordinator_id = ex_orch,
     tr_coordinator_initiated_at = ex_time 200, tr_outgoing_rule = out,
     tr_recruit_intent = None\<rparr>"

definition ex_address :: "ID ptr \<Rightarrow> PoolerAddress ptr" where
  "ex_address i = Some \<lparr>addr_id = i, addr_host = ''localhost'', addr_postgres_port = 5432\<rparr>"

definition ex_primary :: "RulePosition ptr \<Rightarrow> ID ptr \<Rightarrow> ReplicationPrimary ptr" where
  "ex_primary pos i = Some \<lparr>prim_position = pos, prim_primary = ex_address i, prim_rewind_ready = True\<rparr>"

text \<open>A parser of LSN strings: decimal digits, and an error for anything else.\<close>

definition ex_parse :: "string \<Rightarrow> lsn option" where
  "ex_parse s = (if s = '''' \<or> list_ex (\<lambda>c. \<not> is_digit c) s then None
                 else Some (of_nat (read_digits s)))"

lemmas ex_defs = ex_pooler_def ex_a_def ex_b_def ex_c_def ex_orch_def ex_time_def ex_num_def
  ex_policy_def ex_rule_def ex_decided_def ex_status_def ex_revocation_def ex_address_def
  ex_primary_def

end
