(* ===== verification/Cluster_Ids.thy ===== *)
theory Cluster_Ids
  imports Sample_Shard
begin

text \<open>
  Component identifiers (go/common/topoclient/id.go). \<open>ClusterIDString\<close> is the key under which
  every quorum computation counts a pooler, so the lemmas here say when two identifiers share a
  key: the encoding is injective on cell and name once cell names hold no underscore
  (\<open>wf_ID\<close>), which is the naming convention the source states.
\<close>

datatype id_error =
    ErrNoSeparator string
  | ErrEmptyCell string
  | ErrEmptyName string

primrec ComponentTypeToString :: "ComponentType \<Rightarrow> string" where
  "ComponentTypeToString COMPONENT_UNKNOWN = ''unknown''"
| "ComponentTypeToString MULTIPOOLER = ''multipooler''"
| "ComponentTypeToString MULTIGATEWAY = ''multigateway''"
| "ComponentTypeToString MULTIORCH = ''multiorch''"
| "ComponentTypeToString (ComponentUnrecognized n) = ''unknown''"

definition ComponentIDString :: "ID ptr \<Rightarrow> string" where
  "ComponentIDString i =
     ComponentTypeToString (GetComponent i) @ ''-'' @ GetCell i @ ''-'' @ GetName i"

primrec ClusterIDString :: "ID ptr \<Rightarrow> string" where
  "ClusterIDString None = ''''"
| "ClusterIDString (Some i) = id_cell i @ ''_'' @ id_name i"

text \<open>\<open>strings.SplitN(s, sep, 2)\<close> for a one-byte separator.\<close>

definition SplitN2 :: "char \<Rightarrow> string \<Rightarrow> string list" where
  "SplitN2 c s =
     (case dropWhile (\<lambda>d. d \<noteq> c) s of
        [] \<Rightarrow> [s]
      | _ # rest \<Rightarrow> [takeWhile (\<lambda>d. d \<noteq> c) s, rest])"

definition SplitClusterID :: "string \<Rightarrow> id_error + (string \<times> string)" where
  "SplitClusterID s =
     (case SplitN2 (CHR ''_'') s of
        [cell, name] \<Rightarrow>
          (if cell = '''' then Inl (ErrEmptyCell s)
           else if name = '''' then Inl (ErrEmptyName s)
           else Inr (cell, name))
      | _ \<Rightarrow> Inl (ErrNoSeparator s))"

definition wf_ID :: "ID ptr \<Rightarrow> bool" where
  "wf_ID i \<longleftrightarrow> CHR ''_'' \<notin> set (GetCell i)"

abbreviation wf_IDs :: "ID ptr list \<Rightarrow> bool" where
  "wf_IDs ids \<equiv> \<forall>i \<in> set ids. wf_ID i"

lemma ClusterIDString_nil_iff [simp]: "ClusterIDString i = [] \<longleftrightarrow> i = None"
  by (cases i) simp_all

lemma ClusterIDString_inject:
  "wf_ID i \<Longrightarrow> wf_ID j \<Longrightarrow>
     ClusterIDString i = ClusterIDString j \<longleftrightarrow>
       (i = None \<longleftrightarrow> j = None) \<and> GetCell i = GetCell j \<and> GetName i = GetName j"
  by (cases i; cases j) (auto simp: wf_ID_def append_sep_inject)

lemma ClusterIDString_cell:
  "wf_ID i \<Longrightarrow> wf_ID j \<Longrightarrow> ClusterIDString i = ClusterIDString j \<Longrightarrow> GetCell i = GetCell j"
  by (simp add: ClusterIDString_inject)

lemma SplitN2_append: "c \<notin> set xs \<Longrightarrow> SplitN2 c (xs @ c # ys) = [xs, ys]"
  by (simp add: SplitN2_def takeWhile_sep dropWhile_sep)

lemma SplitN2_two:
  assumes "SplitN2 c s = [a, b]"
  shows "s = a @ c # b \<and> c \<notin> set a"
proof -
  from assms obtain d where d: "dropWhile (\<lambda>d. d \<noteq> c) s = d # b"
    and a: "takeWhile (\<lambda>d. d \<noteq> c) s = a"
    by (auto simp: SplitN2_def split: list.splits)
  from d have "d = c" by (metis (full_types) dropWhile_eq_Cons_conv)
  with d a show ?thesis
    by (metis (mono_tags, lifting) set_takeWhileD takeWhile_dropWhile_id)
qed

text \<open>
  The cell and the name of an identifier are recovered from its key, when the cell name is
  non-empty and holds no underscore and the name is non-empty.
\<close>

lemma SplitClusterID_of_ClusterIDString:
  assumes "wf_ID (Some i)" "id_cell i \<noteq> ''''" "id_name i \<noteq> ''''"
  shows "SplitClusterID (ClusterIDString (Some i)) = Inr (id_cell i, id_name i)"
  using assms by (simp add: SplitClusterID_def SplitN2_append wf_ID_def)

lemma SplitClusterID_InrD:
  assumes "SplitClusterID s = Inr (c, n)"
  shows "s = c @ ''_'' @ n \<and> CHR ''_'' \<notin> set c \<and> c \<noteq> '''' \<and> n \<noteq> ''''"
proof -
  from assms have "SplitN2 (CHR ''_'') s = [c, n]" "c \<noteq> ''''" "n \<noteq> ''''"
    by (auto simp: SplitClusterID_def split: list.splits if_splits)
  with SplitN2_two [of "CHR ''_''" s c n] show ?thesis by simp
qed

theorem SplitClusterID_of_ClusterIDString_witness:
  "SplitClusterID (ClusterIDString ex_a) = Inr (''zone1'', ''a'')"
  using SplitClusterID_of_ClusterIDString [of "ex_pooler ''zone1'' ''a''"]
  by (simp add: ex_a_def ex_pooler_def wf_ID_def)

end
