(* ===== verification/Durability.thy ===== *)
theory Durability
  imports Cluster_Ids
begin

text \<open>
  Durability policies and recruitment checks (go/common/consensus/durability.go,
  policy_at_least_n.go, policy_multi_cell.go, and go/common/topoclient/durability.go).

  The interface \<open>DurabilityPolicy\<close> has two implementations, the constructors of the datatype of
  that name; a \<open>nil\<close> interface is \<open>None\<close>. A method that returns an \<open>error\<close> returns an option
  (\<open>None\<close> is success) and one that returns a value and an error returns a sum.

  The locale \<open>durability_quorum\<close> is the contract recruitment rests on: a policy is monotone in
  the set of pooler keys. Both policies are interpretations of it.
\<close>

datatype DurabilityPolicy = AtLeastNPolicy int | multiCellPolicy

datatype SynchronousCommitLevel =
    SYNCHRONOUS_COMMIT_OFF
  | SYNCHRONOUS_COMMIT_LOCAL
  | SYNCHRONOUS_COMMIT_REMOTE_WRITE
  | SYNCHRONOUS_COMMIT_ON
  | SYNCHRONOUS_COMMIT_REMOTE_APPLY
  | SynchronousCommitUnrecognized int

datatype SynchronousMethod =
    SYNCHRONOUS_METHOD_UNSPECIFIED
  | SYNCHRONOUS_METHOD_FIRST
  | SYNCHRONOUS_METHOD_ANY
  | SynchronousMethodUnrecognized int

record SyncReplicationConfig =
  SyncCommit :: SynchronousCommitLevel
  SyncMethod :: SynchronousMethod
  NumSync :: int
  SyncStandbyIDs :: "ID ptr list"

record PolicyWithCohort =
  Policy :: "DurabilityPolicy ptr"
  Cohort :: "ID ptr list"

record PolicyTransition =
  Both :: PolicyWithCohort
  Incoming :: PolicyWithCohort

datatype durability_error =
    ErrUnsupportedPolicyName string
  | ErrPolicyIsNil
  | ErrAtLeastNCount int
  | ErrMultiCellCount int
  | ErrUnsupportedQuorumType QuorumType
  | ErrNotEnoughPoolers int int
  | ErrNotEnoughCells int int
  | ErrPrimaryNotInCohort string
  | ErrInsufficientStandbys int int
  | ErrNoStandbyInOtherCell string
  | ErrPoliciesUnsupported "DurabilityPolicy ptr" "DurabilityPolicy ptr"
  | ErrPolicyTypesDiffer "DurabilityPolicy ptr" "DurabilityPolicy ptr"
  | ErrCountAndCohortChanged
  | ErrCohortsNotNested
  | ErrRecruitedNotInCohort string
  | ErrNoMajority int int int
  | ErrUnrecruitedCouldCommit string string
  | ErrWrapped string durability_error

subsection \<open>Policies from their stored form\<close>

definition AtLeastN :: "int \<Rightarrow> DurabilityPolicyPb ptr" where
  "AtLeastN n = Some \<lparr>dp_policy_name = ''AT_LEAST_'' @ show_int n, dp_policy_version = 0,
     dp_quorum_type = QUORUM_TYPE_AT_LEAST_N, dp_required_count = n,
     dp_description = ''At least '' @ show_int n @ '' nodes must acknowledge''\<rparr>"

definition MultiCellAtLeastN :: "int \<Rightarrow> DurabilityPolicyPb ptr" where
  "MultiCellAtLeastN n = Some \<lparr>dp_policy_name = ''MULTI_CELL_AT_LEAST_'' @ show_int n,
     dp_policy_version = 0, dp_quorum_type = QUORUM_TYPE_MULTI_CELL_AT_LEAST_N,
     dp_required_count = n,
     dp_description = ''At least '' @ show_int n @ '' nodes from different cells must acknowledge''\<rparr>"

definition ParseUserSpecifiedDurabilityPolicy ::
  "string \<Rightarrow> durability_error + DurabilityPolicyPb ptr" where
  "ParseUserSpecifiedDurabilityPolicy name =
     (if name = ''AT_LEAST_2'' then Inr (AtLeastN 2)
      else if name = ''MULTI_CELL_AT_LEAST_2'' then Inr (MultiCellAtLeastN 2)
      else Inl (ErrUnsupportedPolicyName name))"

definition NewPolicyFromProto ::
  "DurabilityPolicyPb ptr \<Rightarrow> durability_error + DurabilityPolicy" where
  "NewPolicyFromProto policy =
     (case policy of
        None \<Rightarrow> Inl ErrPolicyIsNil
      | Some p \<Rightarrow>
          (case dp_quorum_type p of
             QUORUM_TYPE_AT_LEAST_N \<Rightarrow>
               (if dp_required_count p < 1 then Inl (ErrAtLeastNCount (dp_required_count p))
                else Inr (AtLeastNPolicy (dp_required_count p)))
           | QUORUM_TYPE_MULTI_CELL_AT_LEAST_N \<Rightarrow>
               (if dp_required_count p \<noteq> 2 then Inl (ErrMultiCellCount (dp_required_count p))
                else Inr multiCellPolicy)
           | _ \<Rightarrow> Inl (ErrUnsupportedQuorumType (dp_quorum_type p))))"

primrec Description :: "DurabilityPolicy \<Rightarrow> string" where
  "Description (AtLeastNPolicy n) = ''AT_LEAST_N(N='' @ show_int n @ '')''"
| "Description multiCellPolicy = ''MULTI_CELL_AT_LEAST_N(N=2)''"

subsection \<open>Sets of poolers\<close>

definition keysOf :: "ID ptr list \<Rightarrow> (ID ptr \<Rightarrow> string) \<Rightarrow> string set" where
  "keysOf poolers keyFn = set (map keyFn poolers)"

definition poolerKeysOf :: "ID ptr list \<Rightarrow> string set" where
  "poolerKeysOf poolers = keysOf poolers ClusterIDString"

definition cellsOf :: "ID ptr list \<Rightarrow> string set" where
  "cellsOf poolers = keysOf poolers GetCell"

definition normalizeIDs :: "ID ptr list \<Rightarrow> ID ptr list" where
  "normalizeIDs ids = sortedmaps_Values (index_by ClusterIDString ids)"

definition cohortIntersect :: "ID ptr list \<Rightarrow> ConsensusStatus ptr list \<Rightarrow> ID ptr list" where
  "cohortIntersect cohort statuses =
     filter (\<lambda>i. i \<noteq> None \<and> ClusterIDString i \<in> poolerKeysOf cohort)
       (map ConsensusStatus_GetId statuses)"

definition intersectStandbys :: "ID ptr list \<Rightarrow> ID ptr list \<Rightarrow> ID ptr list" where
  "intersectStandbys a b = filter (\<lambda>i. ClusterIDString i \<in> poolerKeysOf b) a"

definition cohortIsSubsetOf :: "ID ptr list \<Rightarrow> ID ptr list \<Rightarrow> bool" where
  "cohortIsSubsetOf a b \<longleftrightarrow> length (intersectStandbys a b) = length a"

definition sameCohort :: "ID ptr list \<Rightarrow> ID ptr list \<Rightarrow> bool" where
  "sameCohort a b =
     (if length a \<noteq> length b then False
      else list_all (\<lambda>i. ClusterIDString i \<in> poolerKeysOf a) b)"

definition unrecruitedOf :: "ID ptr list \<Rightarrow> ID ptr list \<Rightarrow> ID ptr list" where
  "unrecruitedOf cohort recruited =
     filter (\<lambda>p. ClusterIDString p \<notin> poolerKeysOf recruited) cohort"

definition formatIDs :: "ID ptr list \<Rightarrow> string" where
  "formatIDs ids =
     ''['' @ concat (case map ClusterIDString ids of
         [] \<Rightarrow> [] | k # ks \<Rightarrow> k # map (\<lambda>x. '', '' @ x) ks) @ '']''"

subsection \<open>What a policy requires\<close>

definition AtLeastNPolicy_SatisfiedBy :: "int \<Rightarrow> ID ptr list \<Rightarrow> durability_error option" where
  "AtLeastNPolicy_SatisfiedBy n poolers =
     (let poolers = normalizeIDs poolers
      in if int (length poolers) < n then Some (ErrNotEnoughPoolers (int (length poolers)) n)
         else None)"

definition multiCellPolicy_SatisfiedBy :: "ID ptr list \<Rightarrow> durability_error option" where
  "multiCellPolicy_SatisfiedBy poolers =
     (let poolers = normalizeIDs poolers;
          cells = cellsOf poolers
      in if card cells < 2 then Some (ErrNotEnoughCells (int (card cells)) 2)
         else None)"

primrec SatisfiedBy :: "DurabilityPolicy \<Rightarrow> ID ptr list \<Rightarrow> durability_error option" where
  "SatisfiedBy (AtLeastNPolicy n) poolers = AtLeastNPolicy_SatisfiedBy n poolers"
| "SatisfiedBy multiCellPolicy poolers = multiCellPolicy_SatisfiedBy poolers"

definition requirePrimaryInCohort :: "ID ptr list \<Rightarrow> ID ptr \<Rightarrow> durability_error option" where
  "requirePrimaryInCohort cohort primary =
     (if primary = None \<or> ClusterIDString primary \<notin> poolerKeysOf cohort
      then Some (ErrPrimaryNotInCohort (ClusterIDString primary)) else None)"

definition AtLeastNPolicy_BuildSyncReplicationConfig ::
  "int \<Rightarrow> ID ptr list \<Rightarrow> ID ptr \<Rightarrow> durability_error + SyncReplicationConfig" where
  "AtLeastNPolicy_BuildSyncReplicationConfig n cohort primary =
     (case requirePrimaryInCohort cohort primary of
        Some err \<Rightarrow> Inl err
      | None \<Rightarrow>
          if n = 1 then
            Inr \<lparr>SyncCommit = SYNCHRONOUS_COMMIT_LOCAL, SyncMethod = SYNCHRONOUS_METHOD_ANY,
                 NumSync = 1, SyncStandbyIDs = []\<rparr>
          else
            let requiredNumSync = n - 1;
                standbys = int (length (normalizeIDs cohort)) - 1
            in if requiredNumSync > standbys
               then Inl (ErrInsufficientStandbys requiredNumSync standbys)
               else Inr \<lparr>SyncCommit = SYNCHRONOUS_COMMIT_ON, SyncMethod = SYNCHRONOUS_METHOD_ANY,
                         NumSync = requiredNumSync, SyncStandbyIDs = cohort\<rparr>)"

definition multiCellPolicy_BuildSyncReplicationConfig ::
  "ID ptr list \<Rightarrow> ID ptr \<Rightarrow> durability_error + SyncReplicationConfig" where
  "multiCellPolicy_BuildSyncReplicationConfig cohort primary =
     (case requirePrimaryInCohort cohort primary of
        Some err \<Rightarrow> Inl err
      | None \<Rightarrow>
          let primaryCell = GetCell primary;
              eligible = filter (\<lambda>s. GetCell s \<noteq> primaryCell) cohort
          in if eligible = [] then Inl (ErrNoStandbyInOtherCell primaryCell)
             else Inr \<lparr>SyncCommit = SYNCHRONOUS_COMMIT_ON, SyncMethod = SYNCHRONOUS_METHOD_ANY,
                       NumSync = 1, SyncStandbyIDs = eligible\<rparr>)"

primrec BuildSyncReplicationConfig ::
  "DurabilityPolicy \<Rightarrow> ID ptr list \<Rightarrow> ID ptr \<Rightarrow> durability_error + SyncReplicationConfig" where
  "BuildSyncReplicationConfig (AtLeastNPolicy n) cohort primary =
     AtLeastNPolicy_BuildSyncReplicationConfig n cohort primary"
| "BuildSyncReplicationConfig multiCellPolicy cohort primary =
     multiCellPolicy_BuildSyncReplicationConfig cohort primary"

lemmas policy_methods [simp] = AtLeastNPolicy_SatisfiedBy_def multiCellPolicy_SatisfiedBy_def
  AtLeastNPolicy_BuildSyncReplicationConfig_def multiCellPolicy_BuildSyncReplicationConfig_def

subsection \<open>Changing a policy or a cohort\<close>

definition NewPolicyWithCohort ::
  "ID ptr list \<Rightarrow> DurabilityPolicyPb ptr \<Rightarrow> durability_error + PolicyWithCohort" where
  "NewPolicyWithCohort cohort dp =
     (case NewPolicyFromProto dp of
        Inl err \<Rightarrow> Inl (ErrWrapped ''invalid durability policy'' err)
      | Inr policy \<Rightarrow> Inr \<lparr>Policy = Some policy, Cohort = cohort\<rparr>)"

definition policyFamily :: "DurabilityPolicy ptr \<Rightarrow> int \<times> string" where
  "policyFamily p =
     (case p of
        Some (AtLeastNPolicy n) \<Rightarrow> (n, ''at_least_n'')
      | Some multiCellPolicy \<Rightarrow> (2, ''multi_cell_at_least_n'')
      | None \<Rightarrow> (0, ''''))"

definition BuildPolicyTransition ::
  "PolicyWithCohort \<Rightarrow> PolicyWithCohort \<Rightarrow> durability_error + PolicyTransition" where
  "BuildPolicyTransition outgoing incoming =
     (let (outN, outFamily) = policyFamily (Policy outgoing);
          (inN, inFamily) = policyFamily (Policy incoming)
      in if outFamily = '''' \<or> inFamily = ''''
         then Inl (ErrPoliciesUnsupported (Policy outgoing) (Policy incoming))
         else if outFamily \<noteq> inFamily
         then Inl (ErrPolicyTypesDiffer (Policy outgoing) (Policy incoming))
         else
           let cohortSame = sameCohort (Cohort outgoing) (Cohort incoming);
               nSame = (outN = inN)
           in if cohortSame \<and> nSame then Inr \<lparr>Both = incoming, Incoming = incoming\<rparr>
              else if \<not> cohortSame \<and> \<not> nSame then Inl ErrCountAndCohortChanged
              else if nSame then
                (if cohortIsSubsetOf (Cohort incoming) (Cohort outgoing)
                 then Inr \<lparr>Both = incoming, Incoming = incoming\<rparr>
                 else if cohortIsSubsetOf (Cohort outgoing) (Cohort incoming)
                 then Inr \<lparr>Both = outgoing, Incoming = incoming\<rparr>
                 else Inl ErrCohortsNotNested)
              else if inN > outN then Inr \<lparr>Both = incoming, Incoming = incoming\<rparr>
              else Inr \<lparr>Both = outgoing, Incoming = incoming\<rparr>)"

subsection \<open>Recruitment\<close>

definition validateRecruitedSubset :: "ID ptr list \<Rightarrow> ID ptr list \<Rightarrow> durability_error option" where
  "validateRecruitedSubset cohort recruited =
     map_option (\<lambda>p. ErrRecruitedNotInCohort (ClusterIDString p))
       (find (\<lambda>p. ClusterIDString p \<notin> poolerKeysOf cohort) recruited)"

definition validateMajority :: "ID ptr list \<Rightarrow> ID ptr list \<Rightarrow> durability_error option" where
  "validateMajority cohort recruited =
     (let majority = length cohort div 2 + 1
      in if length recruited < majority
         then Some (ErrNoMajority (int (length recruited)) (int (length cohort)) (int majority))
         else None)"

definition checkRecruitedMajority :: "ID ptr list \<Rightarrow> ID ptr list \<Rightarrow> durability_error option" where
  "checkRecruitedMajority cohort recruited =
     (let cohort = normalizeIDs cohort;
          recruited = normalizeIDs recruited
      in case validateRecruitedSubset cohort recruited of
           Some err \<Rightarrow> Some err
         | None \<Rightarrow> validateMajority cohort recruited)"

definition checkUnrecruitedCannotCommit ::
  "DurabilityPolicy \<Rightarrow> ID ptr list \<Rightarrow> ID ptr list \<Rightarrow> durability_error option" where
  "checkUnrecruitedCannotCommit policy cohort recruited =
     (let cohort = normalizeIDs cohort;
          recruited = normalizeIDs recruited
      in case validateRecruitedSubset cohort recruited of
           Some err \<Rightarrow> Some err
         | None \<Rightarrow>
             let unrecruited = unrecruitedOf cohort recruited
             in if SatisfiedBy policy unrecruited = None
                then Some (ErrUnrecruitedCouldCommit (formatIDs unrecruited) (Description policy))
                else None)"

definition CheckSufficientRecruitment ::
  "DurabilityPolicy \<Rightarrow> ID ptr list \<Rightarrow> ID ptr list \<Rightarrow> durability_error option" where
  "CheckSufficientRecruitment policy cohort recruited =
     (case checkRecruitedMajority cohort recruited of
        Some err \<Rightarrow> Some err
      | None \<Rightarrow> checkUnrecruitedCannotCommit policy cohort recruited)"

section \<open>Pooler keys\<close>

lemma poolerKeysOf_alt: "poolerKeysOf ps = ClusterIDString ` set ps"
  by (simp add: poolerKeysOf_def keysOf_def)

lemma cellsOf_alt: "cellsOf ps = GetCell ` set ps"
  by (simp add: cellsOf_def keysOf_def)

lemma finite_poolerKeysOf [simp]: "finite (poolerKeysOf ps)"
  by (simp add: poolerKeysOf_alt)

lemma map_key_normalizeIDs:
  "map ClusterIDString (normalizeIDs ids) = sortedmaps_Keys (index_by ClusterIDString ids)"
  by (simp add: normalizeIDs_def map_key_sortedmaps_Values)

lemma keys_normalizeIDs [simp]: "poolerKeysOf (normalizeIDs ids) = poolerKeysOf ids"
proof -
  have "poolerKeysOf (normalizeIDs ids) = set (map ClusterIDString (normalizeIDs ids))"
    by (simp add: poolerKeysOf_alt)
  then show ?thesis by (simp add: map_key_normalizeIDs dom_index_by poolerKeysOf_alt)
qed

lemma distinct_normalizeIDs: "distinct (map ClusterIDString (normalizeIDs ids))"
  by (simp add: map_key_normalizeIDs)

lemma length_normalizeIDs: "length (normalizeIDs ids) = card (poolerKeysOf ids)"
  using distinct_card [OF distinct_normalizeIDs, of ids] keys_normalizeIDs [of ids]
  by (simp add: poolerKeysOf_alt)

lemma set_normalizeIDs: "set (normalizeIDs ids) \<subseteq> set ids"
proof
  fix i assume "i \<in> set (normalizeIDs ids)"
  then obtain k where "map_of (index_by ClusterIDString ids) k = Some i"
    unfolding normalizeIDs_def set_sortedmaps_Values ran_def by blast
  then show "i \<in> set ids" using map_of_index_by_SomeD by fast
qed

lemma keys_unrecruitedOf [simp]:
  "poolerKeysOf (unrecruitedOf cohort recruited) = poolerKeysOf cohort - poolerKeysOf recruited"
  by (auto simp: unrecruitedOf_def poolerKeysOf_alt)

lemma keys_Cons [simp]: "poolerKeysOf (p # ps) = insert (ClusterIDString p) (poolerKeysOf ps)"
  by (simp add: poolerKeysOf_alt)

lemma keys_Nil [simp]: "poolerKeysOf [] = {}"
  by (simp add: poolerKeysOf_alt)

lemma keys_filter_subset: "poolerKeysOf (filter P ps) \<subseteq> poolerKeysOf ps"
  by (auto simp: poolerKeysOf_alt)

lemma unrecruitedOf_normalize [simp]: "unrecruitedOf c (normalizeIDs r) = unrecruitedOf c r"
  by (simp add: unrecruitedOf_def)

lemma set_unrecruitedOf: "set (unrecruitedOf c r) \<subseteq> set c"
  by (auto simp: unrecruitedOf_def)

lemma cells_mono:
  assumes "wf_IDs a" "wf_IDs b" "poolerKeysOf a \<subseteq> poolerKeysOf b"
  shows "cellsOf a \<subseteq> cellsOf b"
proof
  fix c assume "c \<in> cellsOf a"
  then obtain i where i: "i \<in> set a" "c = GetCell i" by (auto simp: cellsOf_alt)
  with assms(3) obtain j where j: "j \<in> set b" "ClusterIDString j = ClusterIDString i"
    by (force simp: poolerKeysOf_alt)
  with i assms(1,2) have "GetCell j = GetCell i" by (auto intro: ClusterIDString_cell)
  with i j(1) show "c \<in> cellsOf b" unfolding cellsOf_alt by (metis imageI)
qed

lemma wf_normalizeIDs [simp]: "wf_IDs ids \<Longrightarrow> wf_IDs (normalizeIDs ids)"
  using set_normalizeIDs by blast

lemma cells_normalizeIDs: "wf_IDs ids \<Longrightarrow> cellsOf (normalizeIDs ids) = cellsOf ids"
  using cells_mono [of ids "normalizeIDs ids"] cells_mono [of "normalizeIDs ids" ids] by simp

section \<open>The policy contract\<close>

lemma SatisfiedBy_AtLeastN: "SatisfiedBy (AtLeastNPolicy n) ps = None \<longleftrightarrow> n \<le> int (card (poolerKeysOf ps))"
  by (simp add: Let_def length_normalizeIDs)

lemma SatisfiedBy_multiCell: "wf_IDs ps \<Longrightarrow> SatisfiedBy multiCellPolicy ps = None \<longleftrightarrow> 2 \<le> card (cellsOf ps)"
  by (simp add: Let_def cells_normalizeIDs)

lemmas SatisfiedBy_iff = SatisfiedBy_AtLeastN SatisfiedBy_multiCell

locale durability_quorum =
  fixes sat :: "ID ptr list \<Rightarrow> bool"
  assumes sat_mono:
    "wf_IDs a \<Longrightarrow> wf_IDs b \<Longrightarrow> poolerKeysOf a \<subseteq> poolerKeysOf b \<Longrightarrow> sat a \<Longrightarrow> sat b"
begin

lemma sat_cong: "wf_IDs a \<Longrightarrow> wf_IDs b \<Longrightarrow> poolerKeysOf a = poolerKeysOf b \<Longrightarrow> sat a = sat b"
  using sat_mono [of a b] sat_mono [of b a] by blast

text \<open>
  When the poolers left over by a recruitment cannot satisfy the policy, every set of cohort
  members that can shares a pooler with the recruits.
\<close>

lemma quorum_meets_recruited:
  assumes "wf_IDs cohort" "wf_IDs q" "poolerKeysOf q \<subseteq> poolerKeysOf cohort" "sat q"
    and "\<not> sat (unrecruitedOf cohort recruited)"
  shows "poolerKeysOf q \<inter> poolerKeysOf recruited \<noteq> {}"
proof
  assume disjoint: "poolerKeysOf q \<inter> poolerKeysOf recruited = {}"
  with assms(3) have "poolerKeysOf q \<subseteq> poolerKeysOf (unrecruitedOf cohort recruited)" by auto
  moreover have "wf_IDs (unrecruitedOf cohort recruited)"
    using assms(1) set_unrecruitedOf by blast
  ultimately have "sat (unrecruitedOf cohort recruited)" using sat_mono assms(2,4) by blast
  with assms(5) show False by contradiction
qed

end

interpretation policy: durability_quorum "\<lambda>ps. SatisfiedBy p ps = None" for p
proof unfold_locales
  fix a b :: "ID ptr list"
  assume wf: "wf_IDs a" "wf_IDs b" and keys: "poolerKeysOf a \<subseteq> poolerKeysOf b"
    and sat: "SatisfiedBy p a = None"
  show "SatisfiedBy p b = None"
  proof (cases p)
    case (AtLeastNPolicy n)
    have "card (poolerKeysOf a) \<le> card (poolerKeysOf b)" using keys by (simp add: card_mono)
    with sat AtLeastNPolicy show ?thesis
      by (simp add: SatisfiedBy_AtLeastN del: SatisfiedBy.simps)
  next
    case multiCellPolicy
    have "card (cellsOf a) \<le> card (cellsOf b)"
      using cells_mono [OF wf keys] by (simp add: card_mono cellsOf_alt)
    with sat wf multiCellPolicy show ?thesis
      by (simp add: SatisfiedBy_multiCell del: SatisfiedBy.simps)
  qed
qed

section \<open>Sufficient recruitment\<close>

lemma validateRecruitedSubset_iff:
  "validateRecruitedSubset cohort recruited = None \<longleftrightarrow> poolerKeysOf recruited \<subseteq> poolerKeysOf cohort"
  by (auto simp: validateRecruitedSubset_def find_None_iff poolerKeysOf_alt)

lemma checkRecruitedMajority_iff:
  "checkRecruitedMajority cohort recruited = None \<longleftrightarrow>
     poolerKeysOf recruited \<subseteq> poolerKeysOf cohort \<and>
     card (poolerKeysOf cohort) div 2 < card (poolerKeysOf recruited)"
  using validateRecruitedSubset_iff [of "normalizeIDs cohort" "normalizeIDs recruited"]
  by (auto simp: checkRecruitedMajority_def validateMajority_def Let_def length_normalizeIDs
      split: option.splits)

lemma checkUnrecruitedCannotCommit_iff:
  "checkUnrecruitedCannotCommit policy cohort recruited = None \<longleftrightarrow>
     poolerKeysOf recruited \<subseteq> poolerKeysOf cohort \<and>
     SatisfiedBy policy (unrecruitedOf (normalizeIDs cohort) recruited) \<noteq> None"
  using validateRecruitedSubset_iff [of "normalizeIDs cohort" "normalizeIDs recruited"]
  by (auto simp: checkUnrecruitedCannotCommit_def Let_def simp del: SatisfiedBy.simps
      split: option.splits if_splits)

text \<open>
  A recruitment is sufficient exactly when the recruits are cohort members, their distinct
  keys are a strict majority of the cohort's distinct keys, and the cohort members left over
  cannot satisfy the policy.
\<close>

lemma CheckSufficientRecruitment_iff:
  "CheckSufficientRecruitment policy cohort recruited = None \<longleftrightarrow>
     poolerKeysOf recruited \<subseteq> poolerKeysOf cohort \<and>
     card (poolerKeysOf cohort) div 2 < card (poolerKeysOf recruited) \<and>
     SatisfiedBy policy (unrecruitedOf (normalizeIDs cohort) recruited) \<noteq> None"
proof -
  have "CheckSufficientRecruitment policy cohort recruited = None \<longleftrightarrow>
      checkRecruitedMajority cohort recruited = None \<and>
      checkUnrecruitedCannotCommit policy cohort recruited = None"
    by (simp add: CheckSufficientRecruitment_def split: option.splits)
  then show ?thesis
    unfolding checkRecruitedMajority_iff checkUnrecruitedCannotCommit_iff by blast
qed

lemma sufficient_recruitments_meet:
  assumes "CheckSufficientRecruitment p c1 r1 = None" "CheckSufficientRecruitment p' c2 r2 = None"
    and "poolerKeysOf c1 = poolerKeysOf c2"
  shows "poolerKeysOf r1 \<inter> poolerKeysOf r2 \<noteq> {}"
proof (rule majorities_overlap)
  show "finite (poolerKeysOf c2)" by simp
  show "poolerKeysOf r1 \<subseteq> poolerKeysOf c2" "poolerKeysOf r2 \<subseteq> poolerKeysOf c2"
    using assms by (simp_all add: CheckSufficientRecruitment_iff)
  show "card (poolerKeysOf c2) < card (poolerKeysOf r1) + card (poolerKeysOf r2)"
    using assms(1,2) unfolding CheckSufficientRecruitment_iff assms(3) by linarith
qed

text \<open>
  C5: two sufficient recruitments of the same cohort share a pooler, whatever policies they were
  checked against, so two coordinators cannot recruit disjoint sets of poolers.
\<close>

theorem sufficient_recruitments_overlap:
  assumes "CheckSufficientRecruitment p cohort r1 = None"
    and "CheckSufficientRecruitment p' cohort r2 = None"
  shows "poolerKeysOf r1 \<inter> poolerKeysOf r2 \<noteq> {}"
  using sufficient_recruitments_meet [OF assms refl] .

lemma sufficient_recruitment_meets_quorum:
  assumes "wf_IDs cohort" "CheckSufficientRecruitment p cohort recruited = None"
    and "wf_IDs q" "poolerKeysOf q \<subseteq> poolerKeysOf cohort" "SatisfiedBy p q = None"
  shows "poolerKeysOf q \<inter> poolerKeysOf recruited \<noteq> {}"
  using policy.quorum_meets_recruited [of "normalizeIDs cohort" q p recruited] assms
  by (simp add: CheckSufficientRecruitment_iff del: SatisfiedBy.simps)

text \<open>
  C6: after a sufficient recruitment, every set of cohort members that can make a write durable
  under the policy contains a recruited pooler: no write becomes durable behind the recruits.
\<close>

theorem sufficient_recruitment_freezes_cohort:
  assumes "wf_IDs cohort" "CheckSufficientRecruitment p cohort recruited = None"
  shows "\<forall>q. wf_IDs q \<and> poolerKeysOf q \<subseteq> poolerKeysOf cohort \<and> SatisfiedBy p q = None \<longrightarrow>
           (\<exists>k. k \<in> poolerKeysOf q \<and> k \<in> poolerKeysOf recruited)"
  using sufficient_recruitment_meets_quorum [OF assms] by blast

section \<open>Synchronous replication settings\<close>

text \<open>
  When a commit returns under a configuration, by PostgreSQL's documented rule for
  \<open>synchronous_standby_names\<close>: with \<open>local\<close> the primary alone, and with \<open>ANY n (list)\<close> once
  \<open>n\<close> listed standbys other than the primary have acknowledged it.
\<close>

definition commit_acked :: "SyncReplicationConfig \<Rightarrow> ID ptr \<Rightarrow> ID ptr list \<Rightarrow> bool" where
  "commit_acked cfg primary acks \<longleftrightarrow>
     SyncCommit cfg = SYNCHRONOUS_COMMIT_LOCAL \<or>
     set acks \<subseteq> set (SyncStandbyIDs cfg) \<and> ClusterIDString primary \<notin> poolerKeysOf acks \<and>
     NumSync cfg \<le> int (card (poolerKeysOf acks))"

lemma card_keys_Cons:
  "card (poolerKeysOf (p # ps)) =
     (if ClusterIDString p \<in> poolerKeysOf ps then card (poolerKeysOf ps)
      else Suc (card (poolerKeysOf ps)))"
  by (simp add: insert_absorb)

lemma two_cells:
  "p \<in> set ps \<Longrightarrow> q \<in> set ps \<Longrightarrow> GetCell p \<noteq> GetCell q \<Longrightarrow> 2 \<le> card (cellsOf ps)"
  by (subst two_le_card_iff) (auto simp: cellsOf_alt)

text \<open>
  A commit that returns under the configuration a policy builds has been acknowledged by
  poolers (the primary among them) that satisfy the policy.
\<close>

theorem BuildSyncReplicationConfig_durable:
  assumes "BuildSyncReplicationConfig policy cohort primary = Inr cfg"
    and "wf_ID primary" "wf_IDs acks" "commit_acked cfg primary acks"
  shows "SatisfiedBy policy (primary # acks) = None"
proof (cases policy)
  case (AtLeastNPolicy n)
  show ?thesis
  proof (cases "n = 1")
    case True
    have "1 \<le> card (poolerKeysOf (primary # acks))" by (simp add: Suc_le_eq card_gt_0_iff)
    with True AtLeastNPolicy show ?thesis by (simp add: SatisfiedBy_AtLeastN del: SatisfiedBy.simps keys_Cons)
  next
    case False
    with assms(1) AtLeastNPolicy have "SyncCommit cfg = SYNCHRONOUS_COMMIT_ON" "NumSync cfg = n - 1"
      by (auto simp: Let_def split: option.splits if_splits)
    with assms(4) have "n \<le> int (card (poolerKeysOf (primary # acks)))"
      by (auto simp: commit_acked_def card_keys_Cons)
    with AtLeastNPolicy show ?thesis by (simp add: SatisfiedBy_AtLeastN del: SatisfiedBy.simps keys_Cons)
  qed
next
  case multiCellPolicy
  with assms(1) have cfg: "SyncCommit cfg = SYNCHRONOUS_COMMIT_ON" "NumSync cfg = 1"
    "\<forall>s \<in> set (SyncStandbyIDs cfg). GetCell s \<noteq> GetCell primary"
    by (auto simp: Let_def split: option.splits if_splits)
  with assms(4) obtain s where "s \<in> set acks" "GetCell s \<noteq> GetCell primary"
    by (cases acks) (auto simp: commit_acked_def)
  then have "2 \<le> card (cellsOf (primary # acks))" by (intro two_cells [of primary _ s]) auto
  with multiCellPolicy assms(2,3) show ?thesis
    by (simp add: SatisfiedBy_multiCell del: SatisfiedBy.simps)
qed

text \<open>
  For a primary in the cohort, a configuration exists exactly when the whole cohort satisfies
  the policy.
\<close>

theorem BuildSyncReplicationConfig_feasible:
  assumes "primary \<in> set cohort" "primary \<noteq> None" "wf_IDs cohort"
  shows "(\<exists>cfg. BuildSyncReplicationConfig policy cohort primary = Inr cfg) \<longleftrightarrow>
           SatisfiedBy policy cohort = None"
proof -
  have req: "requirePrimaryInCohort cohort primary = None"
    using assms by (simp add: requirePrimaryInCohort_def poolerKeysOf_alt)
  show ?thesis
  proof (cases policy)
    case (AtLeastNPolicy n)
    have "1 \<le> card (poolerKeysOf cohort)"
      using assms(1) by (auto simp: Suc_le_eq card_gt_0_iff poolerKeysOf_alt)
    then show ?thesis
      using AtLeastNPolicy req
      by (auto simp: SatisfiedBy_AtLeastN Let_def length_normalizeIDs simp del: SatisfiedBy.simps)
  next
    case multiCellPolicy
    have "2 \<le> card (cellsOf cohort) \<longleftrightarrow> (\<exists>s \<in> set cohort. GetCell s \<noteq> GetCell primary)"
      using assms(1) by (subst two_le_card_iff) (auto simp: cellsOf_alt, metis)
    with multiCellPolicy req assms(3) show ?thesis
      by (auto simp: SatisfiedBy_multiCell Let_def filter_empty_conv simp del: SatisfiedBy.simps)
  qed
qed

section \<open>Policy transitions\<close>

lemma cohortIsSubsetOf_iff: "cohortIsSubsetOf a b \<longleftrightarrow> poolerKeysOf a \<subseteq> poolerKeysOf b"
proof -
  have "length (intersectStandbys a b) = length a \<longleftrightarrow> (\<forall>i \<in> set a. ClusterIDString i \<in> poolerKeysOf b)"
    unfolding intersectStandbys_def
    by (metis filter_True filter_id_conv length_filter_less less_irrefl)
  then show ?thesis by (auto simp: cohortIsSubsetOf_def poolerKeysOf_alt)
qed

lemma sameCohort_subset: "sameCohort a b \<Longrightarrow> poolerKeysOf b \<subseteq> poolerKeysOf a"
  by (auto simp: sameCohort_def poolerKeysOf_alt list_all_iff split: if_splits)

text \<open>
  For an incoming cohort without duplicate keys, \<open>sameCohort\<close> implies that both cohorts hold the
  same poolers.
\<close>

lemma sameCohort_keys:
  assumes "sameCohort a b" "distinct (map ClusterIDString b)"
  shows "poolerKeysOf a = poolerKeysOf b"
proof -
  have sub: "poolerKeysOf b \<subseteq> poolerKeysOf a" using assms(1) by (rule sameCohort_subset)
  have len: "length a = length b" using assms(1) by (simp add: sameCohort_def split: if_splits)
  have "card (poolerKeysOf a) \<le> length a"
    by (metis card_length length_map poolerKeysOf_alt set_map)
  also have "\<dots> = card (poolerKeysOf b)"
    using distinct_card [OF assms(2)] len by (simp add: poolerKeysOf_alt)
  finally show ?thesis using sub by (metis card_seteq finite_poolerKeysOf)
qed

text \<open>The two policies of a transition, and what the code's family tags say of them.\<close>

lemma policyFamily_eq:
  "snd (policyFamily p) \<noteq> '''' \<Longrightarrow> policyFamily p = policyFamily q \<Longrightarrow> p = q"
  by (auto simp: policyFamily_def split: option.splits DurabilityPolicy.splits)

lemma policyFamily_less:
  "policyFamily p = (m, f) \<Longrightarrow> policyFamily q = (n, f) \<Longrightarrow> m < n \<Longrightarrow>
     p = Some (AtLeastNPolicy m) \<and> q = Some (AtLeastNPolicy n) \<or> f = ''''"
  by (auto simp: policyFamily_def split: option.splits DurabilityPolicy.splits)

lemma SatisfiedBy_AtLeastN_le:
  "SatisfiedBy (AtLeastNPolicy n) q = None \<Longrightarrow> m \<le> n \<Longrightarrow> SatisfiedBy (AtLeastNPolicy m) q = None"
  by (simp add: SatisfiedBy_AtLeastN del: SatisfiedBy.simps)

text \<open>The shape of a successful transition: which side \<open>Both\<close> is, and why.\<close>

lemma BuildPolicyTransition_InrE:
  assumes "BuildPolicyTransition outgoing incoming = Inr t"
  obtains m n f where
    "policyFamily (Policy outgoing) = (m, f)" "policyFamily (Policy incoming) = (n, f)" "f \<noteq> ''''"
    "Incoming t = incoming"
    "Both t = incoming \<and> m \<le> n \<and>
       (sameCohort (Cohort outgoing) (Cohort incoming) \<or>
        m = n \<and> poolerKeysOf (Cohort incoming) \<subseteq> poolerKeysOf (Cohort outgoing)) \<or>
     Both t = outgoing \<and> n \<le> m \<and>
       (sameCohort (Cohort outgoing) (Cohort incoming) \<or>
        m = n \<and> poolerKeysOf (Cohort outgoing) \<subseteq> poolerKeysOf (Cohort incoming))"
proof -
  obtain m f where out: "policyFamily (Policy outgoing) = (m, f)" by fastforce
  obtain n g where inc: "policyFamily (Policy incoming) = (n, g)" by fastforce
  have "f = g" "f \<noteq> ''''"
    using assms by (auto simp: BuildPolicyTransition_def out inc split: if_splits)
  with assms out inc show thesis
    by (intro that [of m f n])
      (auto simp: BuildPolicyTransition_def cohortIsSubsetOf_iff Let_def split: if_splits)
qed

text \<open>
  A leader-led transition keeps the incoming policy as its target, and its intermediate policy
  \<open>Both\<close> is at least as strict as the outgoing and the incoming one: its cohort lies within both
  cohorts, and poolers that satisfy it satisfy both policies.
\<close>

theorem BuildPolicyTransition_both:
  assumes "BuildPolicyTransition outgoing incoming = Inr t"
    and "distinct (map ClusterIDString (Cohort incoming))"
  shows "Incoming t = incoming \<and>
         poolerKeysOf (Cohort (Both t)) \<subseteq>
           poolerKeysOf (Cohort outgoing) \<inter> poolerKeysOf (Cohort incoming) \<and>
         (\<exists>b out inc. Policy (Both t) = Some b \<and> Policy outgoing = Some out \<and>
            Policy incoming = Some inc \<and>
            (\<forall>q. SatisfiedBy b q = None \<longrightarrow> SatisfiedBy out q = None \<and> SatisfiedBy inc q = None))"
proof -
  from BuildPolicyTransition_InrE [OF assms(1)] obtain m n f where
    fam: "policyFamily (Policy outgoing) = (m, f)" "policyFamily (Policy incoming) = (n, f)" "f \<noteq> ''''"
    and inc: "Incoming t = incoming"
    and both: "Both t = incoming \<and> m \<le> n \<and>
       (sameCohort (Cohort outgoing) (Cohort incoming) \<or>
        m = n \<and> poolerKeysOf (Cohort incoming) \<subseteq> poolerKeysOf (Cohort outgoing)) \<or>
     Both t = outgoing \<and> n \<le> m \<and>
       (sameCohort (Cohort outgoing) (Cohort incoming) \<or>
        m = n \<and> poolerKeysOf (Cohort outgoing) \<subseteq> poolerKeysOf (Cohort incoming))" .
  have keys: "poolerKeysOf (Cohort (Both t)) \<subseteq>
      poolerKeysOf (Cohort outgoing) \<inter> poolerKeysOf (Cohort incoming)"
    using both sameCohort_keys [OF _ assms(2)] by auto
  from fam obtain p q where pq: "Policy outgoing = Some p" "Policy incoming = Some q"
    by (cases "Policy outgoing"; cases "Policy incoming") (auto simp: policyFamily_def)
  have le: "SatisfiedBy x r = None"
    if "policyFamily (Some x) = (i, f)" "policyFamily (Some y) = (j, f)" "i \<le> j"
      "SatisfiedBy y r = None" for x y i j r
  proof (cases "i = j")
    case True
    with that fam(3) policyFamily_eq [of "Some x" "Some y"] show ?thesis by simp
  next
    case False
    with that fam(3) policyFamily_less [of "Some x" i f "Some y" j]
    have "x = AtLeastNPolicy i" "y = AtLeastNPolicy j" by auto
    with that(3,4) SatisfiedBy_AtLeastN_le [of j r i] show ?thesis by (simp del: SatisfiedBy.simps)
  qed
  have famp: "policyFamily (Some p) = (m, f)" "policyFamily (Some q) = (n, f)"
    using fam pq by simp_all
  have "\<exists>b. Policy (Both t) = Some b \<and>
      (\<forall>r. SatisfiedBy b r = None \<longrightarrow> SatisfiedBy p r = None \<and> SatisfiedBy q r = None)"
  proof (cases "Both t = incoming \<and> m \<le> n")
    case True
    with pq(2) le [OF famp] show ?thesis by simp
  next
    case False
    with both have "Both t = outgoing" "n \<le> m" by auto
    with pq(1) le [OF famp(2,1)] show ?thesis by simp
  qed
  with inc keys pq show ?thesis by blast
qed

text \<open>
  Without that distinctness \<open>sameCohort\<close> also accepts cohorts that differ: it compares lengths and
  looks only for the members of its second argument in its first.
\<close>

lemma sameCohort_duplicates:
  "sameCohort [Some \<lparr>id_component = MULTIPOOLER, id_cell = ''z'', id_name = ''a''\<rparr>,
               Some \<lparr>id_component = MULTIPOOLER, id_cell = ''z'', id_name = ''b''\<rparr>]
              [Some \<lparr>id_component = MULTIPOOLER, id_cell = ''z'', id_name = ''a''\<rparr>,
               Some \<lparr>id_component = MULTIPOOLER, id_cell = ''z'', id_name = ''a''\<rparr>]"
  by (simp add: sameCohort_def poolerKeysOf_alt)

section \<open>Concrete instances\<close>

theorem sufficient_recruitments_overlap_witness:
  "poolerKeysOf [ex_a, ex_b] \<inter> poolerKeysOf [ex_c, ex_b] \<noteq> {}"
proof -
  have "CheckSufficientRecruitment (AtLeastNPolicy 2) [ex_a, ex_b, ex_c] [ex_a, ex_b] = None"
    "CheckSufficientRecruitment (AtLeastNPolicy 2) [ex_a, ex_b, ex_c] [ex_c, ex_b] = None"
    by code_simp+
  then show ?thesis by (rule sufficient_recruitments_overlap)
qed

theorem sufficient_recruitment_freezes_cohort_witness:
  "\<exists>k. k \<in> poolerKeysOf [ex_a, ex_c] \<and> k \<in> poolerKeysOf [ex_b, ex_c]"
proof -
  have wf: "wf_IDs [ex_a, ex_b, ex_c]" by code_simp
  have c: "CheckSufficientRecruitment (AtLeastNPolicy 2) [ex_a, ex_b, ex_c] [ex_b, ex_c] = None"
    by code_simp
  have "wf_IDs [ex_a, ex_c] \<and> poolerKeysOf [ex_a, ex_c] \<subseteq> poolerKeysOf [ex_a, ex_b, ex_c] \<and>
      SatisfiedBy (AtLeastNPolicy 2) [ex_a, ex_c] = None" by code_simp
  with sufficient_recruitment_freezes_cohort [OF wf c] show ?thesis by blast
qed

theorem BuildSyncReplicationConfig_durable_witness:
  "SatisfiedBy multiCellPolicy [ex_a, ex_c] = None"
proof -
  let ?cfg = "\<lparr>SyncCommit = SYNCHRONOUS_COMMIT_ON, SyncMethod = SYNCHRONOUS_METHOD_ANY,
    NumSync = 1, SyncStandbyIDs = [ex_b, ex_c]\<rparr>"
  have b: "BuildSyncReplicationConfig multiCellPolicy [ex_a, ex_b, ex_c] ex_a = Inr ?cfg" by code_simp
  have w: "wf_ID ex_a" "wf_IDs [ex_c]" by code_simp+
  have "commit_acked ?cfg ex_a [ex_c]" by code_simp
  from BuildSyncReplicationConfig_durable [OF b w this] show ?thesis .
qed

theorem BuildSyncReplicationConfig_feasible_witness:
  "\<exists>cfg. BuildSyncReplicationConfig (AtLeastNPolicy 3) [ex_a, ex_b, ex_c] ex_a = Inr cfg"
proof -
  have w: "ex_a \<in> set [ex_a, ex_b, ex_c]" "ex_a \<noteq> None" "wf_IDs [ex_a, ex_b, ex_c]" by code_simp+
  have "SatisfiedBy (AtLeastNPolicy 3) [ex_a, ex_b, ex_c] = None" by code_simp
  with BuildSyncReplicationConfig_feasible [OF w] show ?thesis by blast
qed

theorem BuildPolicyTransition_both_witness:
  "poolerKeysOf [ex_a, ex_b] \<subseteq> poolerKeysOf [ex_a, ex_b, ex_c]"
proof -
  let ?out = "\<lparr>Policy = Some (AtLeastNPolicy 2), Cohort = [ex_a, ex_b, ex_c]\<rparr>"
  let ?inc = "\<lparr>Policy = Some (AtLeastNPolicy 2), Cohort = [ex_a, ex_b]\<rparr>"
  have "BuildPolicyTransition ?out ?inc = Inr \<lparr>Both = ?inc, Incoming = ?inc\<rparr>" by code_simp
  moreover have "distinct (map ClusterIDString (Cohort ?inc))" by code_simp
  ultimately show ?thesis using BuildPolicyTransition_both [of ?out ?inc "\<lparr>Both = ?inc, Incoming = ?inc\<rparr>"] by simp
qed

end
