(* ===== verification/Cohort_Safety.thy ===== *)
theory Cohort_Safety
  imports Durability
begin

text \<open>
  Whether a cohort can lose a member (go/common/consensus/cohort_safety.go). The checks simulate
  the loss and ask whether the remaining members are still a sufficient recruitment.

  They compare members by \<open>ComponentIDString\<close> where the recruitment checks compare them by
  \<open>ClusterIDString\<close>; \<open>ids_agree\<close> says that the two encodings identify the same members of a cohort.
\<close>

definition cohortSurvivesMemberLoss ::
  "DurabilityPolicy ptr \<Rightarrow> ID ptr list \<Rightarrow> ID ptr \<Rightarrow> bool" where
  "cohortSurvivesMemberLoss policy cohort member =
     (case policy of
        None \<Rightarrow> False
      | Some p \<Rightarrow>
          let recruited =
                (if member \<noteq> None
                 then filter (\<lambda>i. ComponentIDString i \<noteq> ComponentIDString member) cohort
                 else cohort)
          in CheckSufficientRecruitment p cohort recruited = None)"

definition IsCohortMemberRemovalSafe :: "ShardRule ptr \<Rightarrow> ID ptr \<Rightarrow> bool" where
  "IsCohortMemberRemovalSafe rule memberID =
     (if rule = None \<or> memberID = None then False
      else case NewPolicyFromProto (GetDurabilityPolicy rule) of
             Inl err \<Rightarrow> False
           | Inr policy \<Rightarrow>
               let cohort = GetCohortMembers rule;
                   wantedKey = ComponentIDString memberID;
                   found = list_ex (\<lambda>i. ComponentIDString i = wantedKey) cohort;
                   newCohort = filter (\<lambda>i. ComponentIDString i \<noteq> wantedKey) cohort
               in if \<not> found then False
                  else cohortSurvivesMemberLoss (Some policy) newCohort (GetLeaderId rule))"

definition CohortSurvivesAnyMemberLoss :: "DurabilityPolicy ptr \<Rightarrow> ID ptr list \<Rightarrow> bool" where
  "CohortSurvivesAnyMemberLoss policy cohort =
     (let cohort = normalizeIDs cohort
      in if cohort = [] then False
         else list_all (cohortSurvivesMemberLoss policy cohort) cohort)"

definition ids_agree :: "ID ptr list \<Rightarrow> bool" where
  "ids_agree ids \<longleftrightarrow> (\<forall>i \<in> set ids. i \<noteq> None \<and>
     (\<forall>j \<in> set ids. ComponentIDString i = ComponentIDString j \<longleftrightarrow> ClusterIDString i = ClusterIDString j))"

lemma ids_agree_subset: "ids_agree ids \<Longrightarrow> set ids' \<subseteq> set ids \<Longrightarrow> ids_agree ids'"
  unfolding ids_agree_def by (meson subsetD)

lemma keys_without:
  assumes "ids_agree cohort" "m \<in> set cohort"
  shows "poolerKeysOf (filter (\<lambda>i. ComponentIDString i \<noteq> ComponentIDString m) cohort) =
         poolerKeysOf cohort - {ClusterIDString m}"
proof -
  have "filter (\<lambda>i. ComponentIDString i \<noteq> ComponentIDString m) cohort =
      filter (\<lambda>i. ClusterIDString i \<noteq> ClusterIDString m) cohort"
  proof (rule filter_cong [OF refl])
    fix i assume "i \<in> set cohort"
    with assms show "(ComponentIDString i \<noteq> ComponentIDString m) = (ClusterIDString i \<noteq> ClusterIDString m)"
      unfolding ids_agree_def by metis
  qed
  then show ?thesis by (auto simp: poolerKeysOf_alt)
qed

lemma ids_agree_not_nil: "ids_agree cohort \<Longrightarrow> m \<in> set cohort \<Longrightarrow> m \<noteq> None"
  unfolding ids_agree_def by blast

lemma survives_member_loss_AtLeastN:
  assumes "ids_agree cohort" "m \<in> set cohort"
  shows "cohortSurvivesMemberLoss (Some (AtLeastNPolicy n)) cohort m \<longleftrightarrow>
           3 \<le> card (poolerKeysOf cohort) \<and> 2 \<le> n"
proof -
  let ?C = "poolerKeysOf cohort"
  let ?R = "filter (\<lambda>i. ComponentIDString i \<noteq> ComponentIDString m) cohort"
  have m: "m \<noteq> None" "ClusterIDString m \<in> ?C"
    using ids_agree_not_nil [OF assms] assms(2) by (simp_all add: poolerKeysOf_alt)
  have R: "poolerKeysOf ?R = ?C - {ClusterIDString m}" by (rule keys_without [OF assms])
  then have cardR: "card (poolerKeysOf ?R) = card ?C - 1" "poolerKeysOf ?R \<subseteq> ?C"
    using m(2) by auto
  have "poolerKeysOf (unrecruitedOf (normalizeIDs cohort) ?R) = {ClusterIDString m}"
    using m(2) by (auto simp: R)
  then have "SatisfiedBy (AtLeastNPolicy n) (unrecruitedOf (normalizeIDs cohort) ?R) \<noteq> None \<longleftrightarrow> 2 \<le> n"
    by (simp add: SatisfiedBy_AtLeastN del: SatisfiedBy.simps not_None_eq) arith
  moreover have "card ?C div 2 < card ?C - 1 \<longleftrightarrow> 3 \<le> card ?C" by arith
  moreover have "cohortSurvivesMemberLoss (Some (AtLeastNPolicy n)) cohort m \<longleftrightarrow>
      CheckSufficientRecruitment (AtLeastNPolicy n) cohort ?R = None"
    using m(1) by (simp add: cohortSurvivesMemberLoss_def del: not_None_eq)
  ultimately show ?thesis
    unfolding CheckSufficientRecruitment_iff using cardR by simp
qed

text \<open>
  Under AT_LEAST_N a cohort survives the loss of any member exactly when it has at least three
  distinct poolers and N is at least two.
\<close>

theorem CohortSurvivesAnyMemberLoss_AtLeastN:
  assumes "ids_agree cohort"
  shows "CohortSurvivesAnyMemberLoss (Some (AtLeastNPolicy n)) cohort \<longleftrightarrow>
           3 \<le> card (poolerKeysOf cohort) \<and> 2 \<le> n"
proof -
  let ?C = "normalizeIDs cohort"
  have agree: "ids_agree ?C" using assms set_normalizeIDs by (rule ids_agree_subset)
  have "?C = [] \<longleftrightarrow> card (poolerKeysOf cohort) = 0"
    by (simp flip: length_normalizeIDs)
  moreover have "list_all (cohortSurvivesMemberLoss (Some (AtLeastNPolicy n)) ?C) ?C \<longleftrightarrow>
      (\<forall>m \<in> set ?C. 3 \<le> card (poolerKeysOf cohort) \<and> 2 \<le> n)"
    using survives_member_loss_AtLeastN [OF agree] by (simp add: list_all_iff)
  ultimately show ?thesis
    by (cases ?C) (auto simp: CohortSurvivesAnyMemberLoss_def Let_def)
qed

text \<open>
  A member removal judged safe leaves a cohort in which the current leader can fail too: the
  members that remain are sufficient to recruit, so whatever quorum made a write durable in the
  reduced cohort, one of its members remains besides the leader.
\<close>

theorem IsCohortMemberRemovalSafe_survives:
  assumes "IsCohortMemberRemovalSafe rule memberID" "wf_IDs (GetCohortMembers rule)"
  defines "reduced \<equiv> filter (\<lambda>i. ComponentIDString i \<noteq> ComponentIDString memberID) (GetCohortMembers rule)"
  shows "\<exists>policy. NewPolicyFromProto (GetDurabilityPolicy rule) = Inr policy \<and>
           (\<forall>q. wf_IDs q \<and> poolerKeysOf q \<subseteq> poolerKeysOf reduced \<and> SatisfiedBy policy q = None \<longrightarrow>
              (\<exists>i \<in> set reduced. ClusterIDString i \<in> poolerKeysOf q \<and>
                 (GetLeaderId rule \<noteq> None \<longrightarrow>
                    ComponentIDString i \<noteq> ComponentIDString (GetLeaderId rule))))"
proof -
  from assms(1) obtain policy where policy: "NewPolicyFromProto (GetDurabilityPolicy rule) = Inr policy"
    and surv: "cohortSurvivesMemberLoss (Some policy) reduced (GetLeaderId rule)"
    by (auto simp: IsCohortMemberRemovalSafe_def reduced_def Let_def split: if_splits sum.splits)
  define rest where "rest = (if GetLeaderId rule \<noteq> None
    then filter (\<lambda>i. ComponentIDString i \<noteq> ComponentIDString (GetLeaderId rule)) reduced else reduced)"
  have wf: "wf_IDs reduced" using assms(2) by (auto simp: reduced_def)
  have "CheckSufficientRecruitment policy reduced rest = None"
    using surv by (simp add: cohortSurvivesMemberLoss_def rest_def Let_def)
  note meets = sufficient_recruitment_meets_quorum [OF wf this]
  have "\<exists>i \<in> set reduced. ClusterIDString i \<in> poolerKeysOf q \<and>
      (GetLeaderId rule \<noteq> None \<longrightarrow> ComponentIDString i \<noteq> ComponentIDString (GetLeaderId rule))"
    if q: "wf_IDs q" "poolerKeysOf q \<subseteq> poolerKeysOf reduced" "SatisfiedBy policy q = None" for q
  proof -
    from meets [OF q] obtain i where "i \<in> set rest" "ClusterIDString i \<in> poolerKeysOf q"
      by (force simp: poolerKeysOf_alt [of rest])
    then show ?thesis by (auto simp: rest_def split: if_splits)
  qed
  with policy show ?thesis by blast
qed

section \<open>Concrete instances\<close>

theorem CohortSurvivesAnyMemberLoss_AtLeastN_witness:
  "CohortSurvivesAnyMemberLoss (Some (AtLeastNPolicy 2)) [ex_a, ex_b, ex_c]"
proof -
  have "ids_agree [ex_a, ex_b, ex_c]" by code_simp
  moreover have "3 \<le> card (poolerKeysOf [ex_a, ex_b, ex_c])" by code_simp
  ultimately show ?thesis using CohortSurvivesAnyMemberLoss_AtLeastN [of "[ex_a, ex_b, ex_c]" 2] by simp
qed

theorem IsCohortMemberRemovalSafe_survives_witness:
  "\<exists>policy. NewPolicyFromProto (AtLeastN 2) = Inr policy"
proof -
  let ?rule = "Some \<lparr>sr_rule_number = ex_num 3 0, sr_leader_id = ex_a,
     sr_cohort_members = [ex_a, ex_b, ex_c, Some (ex_pooler ''zone4'' ''d'')], sr_durability_policy = AtLeastN 2,
     sr_coordinator_id = ex_orch, sr_creation_time = None\<rparr>"
  have "IsCohortMemberRemovalSafe ?rule ex_c" by code_simp
  moreover have "wf_IDs (GetCohortMembers ?rule)" by code_simp
  ultimately have "\<exists>policy. NewPolicyFromProto (GetDurabilityPolicy ?rule) = Inr policy"
    using IsCohortMemberRemovalSafe_survives by blast
  then show ?thesis by simp
qed

end
