(* ===== verification/Rule_Compare.thy ===== *)
theory Rule_Compare
  imports Cluster_Ids
begin

text \<open>
  Rule numbers, rule positions and their orders (go/common/consensus/compare.go). A rule number
  is ordered lexicographically by coordinator term and leader subterm; a rule position by its
  decision and then by its outstanding proposal; a pooler position adds the LSN. The parser of
  LSN strings is third-party code (pglogrepl) and is the parameter \<open>parse_lsn\<close>.

  The three comparators are interpretations of \<open>go_ptr_comparator\<close>, from which the results on
  the discovery loops (\<open>HighestKnownRule\<close>, \<open>HighestDecidedRule\<close>, \<open>MostAdvancedPosition\<close>) and on
  \<open>MergeReplicationPrimary\<close> follow.
\<close>

definition CompareRuleNumbers :: "RuleNumber ptr \<Rightarrow> RuleNumber ptr \<Rightarrow> int" where
  "CompareRuleNumbers a b =
     (let aTerm = (if a \<noteq> None then GetCoordinatorTerm a else 0);
          aSubterm = (if a \<noteq> None then GetLeaderSubterm a else 0);
          bTerm = (if b \<noteq> None then GetCoordinatorTerm b else 0);
          bSubterm = (if b \<noteq> None then GetLeaderSubterm b else 0)
      in if aTerm \<noteq> bTerm then (if aTerm < bTerm then - 1 else 1)
         else if aSubterm \<noteq> bSubterm then (if aSubterm < bSubterm then - 1 else 1)
         else 0)"

primrec FormatRuleNumber :: "RuleNumber ptr \<Rightarrow> string" where
  "FormatRuleNumber None = ''none''"
| "FormatRuleNumber (Some rn) =
     show_int (rn_coordinator_term rn) @ ''.'' @ show_int (rn_leader_subterm rn)"

definition ruleNumberIsUnset :: "RuleNumber ptr \<Rightarrow> bool" where
  "ruleNumberIsUnset rn \<longleftrightarrow> max (GetCoordinatorTerm rn) (GetLeaderSubterm rn) = 0"

definition formatDecisionAndProposal :: "RuleNumber ptr \<Rightarrow> RuleNumber ptr \<Rightarrow> string" where
  "formatDecisionAndProposal decision proposal =
     FormatRuleNumber decision @
       (if \<not> ruleNumberIsUnset proposal then '' proposal='' @ FormatRuleNumber proposal else '''')"

definition FormatRulePosition :: "RulePosition ptr \<Rightarrow> string" where
  "FormatRulePosition pos =
     formatDecisionAndProposal (GetRuleNumber (GetDecision pos)) (GetRuleNumber (GetProposal pos))"

definition FormatRuleNumberPosition :: "RuleNumberPositionPb ptr \<Rightarrow> string" where
  "FormatRuleNumberPosition pos =
     formatDecisionAndProposal (RuleNumberPositionPb_GetDecision pos)
       (RuleNumberPositionPb_GetProposal pos)"

definition FormatLsnPosition :: "LsnPosition ptr \<Rightarrow> string" where
  "FormatLsnPosition pos =
     (if pos = None then ''none''
      else FormatRuleNumberPosition (LsnPosition_GetPosition pos) @ ''@'' @ LsnPosition_GetLsn pos)"

definition IsRuleDecided :: "RulePosition ptr \<Rightarrow> bool" where
  "IsRuleDecided pos \<longleftrightarrow> ruleNumberIsUnset (GetRuleNumber (GetProposal pos))"

definition PossiblyUndecidedRule :: "RulePosition ptr \<Rightarrow> ShardRule ptr" where
  "PossiblyUndecidedRule pos = (if \<not> IsRuleDecided pos then GetProposal pos else GetDecision pos)"

record RuleNumberPosition =
  Decision :: "RuleNumber ptr"
  Proposal :: "RuleNumber ptr"

definition RuleNumberPositionOf :: "RulePosition ptr \<Rightarrow> RuleNumberPosition" where
  "RuleNumberPositionOf pos =
     \<lparr>Decision = GetRuleNumber (GetDecision pos), Proposal = GetRuleNumber (GetProposal pos)\<rparr>"

definition RuleNumberPosition_Compare :: "RuleNumberPosition \<Rightarrow> RuleNumberPosition \<Rightarrow> int" where
  "RuleNumberPosition_Compare p other =
     (let cmp = CompareRuleNumbers (Decision p) (Decision other)
      in if cmp \<noteq> 0 then cmp else CompareRuleNumbers (Proposal p) (Proposal other))"

definition CompareRulePosition :: "RulePosition ptr \<Rightarrow> RulePosition ptr \<Rightarrow> int" where
  "CompareRulePosition a b =
     RuleNumberPosition_Compare (RuleNumberPositionOf a) (RuleNumberPositionOf b)"

definition ComparePoolerPosition ::
  "(string \<Rightarrow> lsn option) \<Rightarrow> PoolerPosition ptr \<Rightarrow> PoolerPosition ptr \<Rightarrow> int" where
  "ComparePoolerPosition parse_lsn a b =
     (let cmp = CompareRulePosition (PoolerPosition_GetPosition a) (PoolerPosition_GetPosition b)
      in if cmp \<noteq> 0 then cmp
         else case (parse_lsn (PoolerPosition_GetLsn a), parse_lsn (PoolerPosition_GetLsn b)) of
                (None, None) \<Rightarrow> 0
              | (None, Some _) \<Rightarrow> - 1
              | (Some _, None) \<Rightarrow> 1
              | (Some lsnA, Some lsnB) \<Rightarrow>
                  if lsnA < lsnB then - 1 else if lsnA > lsnB then 1 else 0)"

definition MostAdvancedPosition ::
  "(string \<Rightarrow> lsn option) \<Rightarrow> ConsensusStatus ptr list \<Rightarrow> PoolerPosition ptr" where
  "MostAdvancedPosition parse_lsn statuses =
     foldl (\<lambda>best cs.
         let pos = GetCurrentPosition cs
         in if parse_lsn (PoolerPosition_GetLsn pos) = None then best
            else go_best (ComparePoolerPosition parse_lsn) best pos)
       None statuses"

definition ReplicationPrimaryOrNil :: "ConsensusStatus ptr \<Rightarrow> ReplicationPrimary ptr" where
  "ReplicationPrimaryOrNil cs =
     (let rp = GetReplicationPrimary cs;
          position = ReplicationPrimary_GetPosition rp
      in if ruleNumberIsUnset (GetRuleNumber (GetDecision position)) \<and>
            ruleNumberIsUnset (GetRuleNumber (GetProposal position))
         then None else rp)"

definition HighestKnownRule :: "ConsensusStatus ptr list \<Rightarrow> RulePosition ptr" where
  "HighestKnownRule statuses =
     foldl (\<lambda>best cs. foldl (go_best CompareRulePosition) best
         [PoolerPosition_GetPosition (GetCurrentPosition cs),
          ReplicationPrimary_GetPosition (ReplicationPrimaryOrNil cs)])
       None statuses"

definition HighestDecidedRule :: "ConsensusStatus ptr list \<Rightarrow> RuleNumber ptr" where
  "HighestDecidedRule statuses =
     foldl (\<lambda>decision cs. go_best CompareRuleNumbers decision
         (GetRuleNumber (GetDecision (PoolerPosition_GetPosition (GetCurrentPosition cs)))))
       None statuses"

definition idsEqual :: "ID ptr \<Rightarrow> ID ptr \<Rightarrow> bool" where
  "idsEqual a b \<longleftrightarrow>
     GetComponent a = GetComponent b \<and> GetCell a = GetCell b \<and> GetName a = GetName b"

definition primaryAddressEqual :: "PoolerAddress ptr \<Rightarrow> PoolerAddress ptr \<Rightarrow> bool" where
  "primaryAddressEqual a b \<longleftrightarrow>
     idsEqual (PoolerAddress_GetId a) (PoolerAddress_GetId b) \<and>
     GetHost a = GetHost b \<and> GetPostgresPort a = GetPostgresPort b"

definition ReplicationPrimaryMatches ::
  "ReplicationPrimary ptr \<Rightarrow> PoolerAddress ptr \<Rightarrow> RulePosition ptr \<Rightarrow> bool" where
  "ReplicationPrimaryMatches rp target targetPosition =
     (if rp = None \<or> target = None \<or> targetPosition = None then False
      else if CompareRulePosition (ReplicationPrimary_GetPosition rp) targetPosition < 0 then False
      else let rpPrimary = GetPrimary rp in
        if rpPrimary = None then False
        else if \<not> idsEqual (PoolerAddress_GetId rpPrimary) (PoolerAddress_GetId target) then False
        else if GetHost rpPrimary \<noteq> GetHost target then False
        else if GetPostgresPort rpPrimary \<noteq> GetPostgresPort target then False
        else True)"

definition MergeReplicationPrimary ::
  "ReplicationPrimary ptr \<Rightarrow> ReplicationPrimary ptr \<Rightarrow> ReplicationPrimary ptr \<times> bool" where
  "MergeReplicationPrimary current candidate =
     (let candidateRule = PossiblyUndecidedRule (ReplicationPrimary_GetPosition candidate);
          currentRule = PossiblyUndecidedRule (ReplicationPrimary_GetPosition current)
      in if candidateRule = None then (current, False)
      else
        let rewindReady =
              (if GetCoordinatorTerm (GetRuleNumber candidateRule) =
                  GetCoordinatorTerm (GetRuleNumber currentRule)
               then GetRewindReady candidate \<or> GetRewindReady current
               else GetRewindReady candidate);
            cmp = CompareRulePosition (ReplicationPrimary_GetPosition candidate)
                    (ReplicationPrimary_GetPosition current)
        in if cmp < 0 then (current, False)
        else
          let primary = (if GetPrimary candidate \<noteq> None then GetPrimary candidate
                         else GetPrimary current)
          in if cmp = 0 \<and> primaryAddressEqual primary (GetPrimary current) \<and>
                rewindReady = GetRewindReady current
             then (current, False)
             else
               (Some \<lparr>prim_position =
                        (if cmp > 0 then ReplicationPrimary_GetPosition candidate
                         else ReplicationPrimary_GetPosition current),
                      prim_primary = primary,
                      prim_rewind_ready = rewindReady\<rparr>, True))"

definition RuleNamesLeader :: "ShardRule ptr \<Rightarrow> ID ptr \<Rightarrow> bool" where
  "RuleNamesLeader rule i =
     (let leader = GetLeaderId rule
      in if leader = None \<or> i = None then False else idsEqual leader i)"

subsection \<open>Well-formed rule numbers\<close>

text \<open>
  Terms and subterms start at zero and grow; a \<open>nil\<close> rule number counts as zero. Only then is
  \<open>nil\<close> the least value, on which the discovery loops rely.
\<close>

definition rule_number_ok :: "RuleNumber ptr \<Rightarrow> bool" where
  "rule_number_ok rn \<longleftrightarrow> 0 \<le> GetCoordinatorTerm rn \<and> 0 \<le> GetLeaderSubterm rn"

definition rule_position_ok :: "RulePosition ptr \<Rightarrow> bool" where
  "rule_position_ok pos \<longleftrightarrow>
     rule_number_ok (GetRuleNumber (GetDecision pos)) \<and>
     rule_number_ok (GetRuleNumber (GetProposal pos))"

definition pooler_position_ok :: "(string \<Rightarrow> lsn option) \<Rightarrow> PoolerPosition ptr \<Rightarrow> bool" where
  "pooler_position_ok parse_lsn pos \<longleftrightarrow>
     rule_position_ok (PoolerPosition_GetPosition pos) \<and>
     (case parse_lsn (PoolerPosition_GetLsn pos) of
        None \<Rightarrow> parse_lsn '''' = None
      | Some l \<Rightarrow> (case parse_lsn '''' of None \<Rightarrow> True | Some l0 \<Rightarrow> l0 \<le> l))"

definition status_rules_ok :: "ConsensusStatus ptr \<Rightarrow> bool" where
  "status_rules_ok cs \<longleftrightarrow>
     rule_position_ok (PoolerPosition_GetPosition (GetCurrentPosition cs)) \<and>
     rule_position_ok (ReplicationPrimary_GetPosition (GetReplicationPrimary cs))"

subsection \<open>The comparators as orders\<close>

lemma CompareRuleNumbers_alt:
  "CompareRuleNumbers a b =
     (if GetCoordinatorTerm a < GetCoordinatorTerm b then - 1
      else if GetCoordinatorTerm b < GetCoordinatorTerm a then 1
      else if GetLeaderSubterm a < GetLeaderSubterm b then - 1
      else if GetLeaderSubterm b < GetLeaderSubterm a then 1 else 0)"
  by (cases a; cases b) (auto simp: CompareRuleNumbers_def Let_def)

lemma CompareRuleNumbers_pos_iff:
  "0 < CompareRuleNumbers a b \<longleftrightarrow>
     GetCoordinatorTerm b < GetCoordinatorTerm a \<or>
     GetCoordinatorTerm a = GetCoordinatorTerm b \<and> GetLeaderSubterm b < GetLeaderSubterm a"
  by (auto simp: CompareRuleNumbers_alt)

lemma CompareRuleNumbers_nonneg_iff:
  "0 \<le> CompareRuleNumbers a b \<longleftrightarrow>
     GetCoordinatorTerm b < GetCoordinatorTerm a \<or>
     GetCoordinatorTerm a = GetCoordinatorTerm b \<and> GetLeaderSubterm b \<le> GetLeaderSubterm a"
  by (auto simp: CompareRuleNumbers_alt)

lemma CompareRuleNumbers_zero_iff:
  "CompareRuleNumbers a b = 0 \<longleftrightarrow>
     GetCoordinatorTerm a = GetCoordinatorTerm b \<and> GetLeaderSubterm a = GetLeaderSubterm b"
  by (auto simp: CompareRuleNumbers_alt)

interpretation rule_num: go_ptr_comparator CompareRuleNumbers rule_number_ok
proof unfold_locales
  fix x y z :: "RuleNumber ptr"
  show "CompareRuleNumbers y x = - CompareRuleNumbers x y"
    by (simp add: CompareRuleNumbers_alt)
  show "0 \<le> CompareRuleNumbers x y \<Longrightarrow> 0 \<le> CompareRuleNumbers y z \<Longrightarrow> 0 \<le> CompareRuleNumbers x z"
    by (auto simp: CompareRuleNumbers_nonneg_iff)
  show "rule_number_ok x \<Longrightarrow> 0 \<le> CompareRuleNumbers x None"
    by (auto simp: CompareRuleNumbers_nonneg_iff rule_number_ok_def)
qed

interpretation rule_num_lex: go_lex_comparator CompareRuleNumbers CompareRuleNumbers
  by unfold_locales

lemma CompareRulePosition_alt:
  "CompareRulePosition a b =
     (let cmp = CompareRuleNumbers (GetRuleNumber (GetDecision a)) (GetRuleNumber (GetDecision b))
      in if cmp \<noteq> 0 then cmp
         else CompareRuleNumbers (GetRuleNumber (GetProposal a)) (GetRuleNumber (GetProposal b)))"
  by (simp add: CompareRulePosition_def RuleNumberPosition_Compare_def RuleNumberPositionOf_def Let_def)

lemma CompareRulePosition_nonneg_iff:
  "0 \<le> CompareRulePosition a b \<longleftrightarrow>
     0 < CompareRuleNumbers (GetRuleNumber (GetDecision a)) (GetRuleNumber (GetDecision b)) \<or>
     CompareRuleNumbers (GetRuleNumber (GetDecision a)) (GetRuleNumber (GetDecision b)) = 0 \<and>
     0 \<le> CompareRuleNumbers (GetRuleNumber (GetProposal a)) (GetRuleNumber (GetProposal b))"
  by (auto simp: CompareRulePosition_alt Let_def)

lemma CompareRulePosition_zero_iff:
  "CompareRulePosition a b = 0 \<longleftrightarrow>
     CompareRuleNumbers (GetRuleNumber (GetDecision a)) (GetRuleNumber (GetDecision b)) = 0 \<and>
     CompareRuleNumbers (GetRuleNumber (GetProposal a)) (GetRuleNumber (GetProposal b)) = 0"
  by (auto simp: CompareRulePosition_alt Let_def)

interpretation rule_pos: go_ptr_comparator CompareRulePosition rule_position_ok
proof unfold_locales
  fix x y z :: "RulePosition ptr"
  show "CompareRulePosition y x = - CompareRulePosition x y"
    by (simp add: CompareRulePosition_alt Let_def rule_num.cmp_swap [of "GetRuleNumber (GetDecision y)"]
        rule_num.cmp_swap [of "GetRuleNumber (GetProposal y)"])
  show "0 \<le> CompareRulePosition x y \<Longrightarrow> 0 \<le> CompareRulePosition y z \<Longrightarrow> 0 \<le> CompareRulePosition x z"
    unfolding CompareRulePosition_nonneg_iff by (rule rule_num_lex.lex_trans)
  show "rule_position_ok x \<Longrightarrow> 0 \<le> CompareRulePosition x None"
    using rule_num.nil_least
    by (fastforce simp: CompareRulePosition_nonneg_iff rule_position_ok_def)
qed

text \<open>The LSN tie-break on its own: an unparsable LSN is below every parsable one.\<close>

definition lsn_cmp :: "lsn option \<Rightarrow> lsn option \<Rightarrow> int" where
  "lsn_cmp a b =
     (case (a, b) of
        (None, None) \<Rightarrow> 0
      | (None, Some _) \<Rightarrow> - 1
      | (Some _, None) \<Rightarrow> 1
      | (Some x, Some y) \<Rightarrow> if x < y then - 1 else if x > y then 1 else 0)"

lemma lsn_cmp_nonneg_iff: "0 \<le> lsn_cmp a b \<longleftrightarrow> b = None \<or> (\<exists>x y. a = Some x \<and> b = Some y \<and> y \<le> x)"
  by (cases a; cases b) (auto simp: lsn_cmp_def)

interpretation lsn: go_comparator lsn_cmp
proof unfold_locales
  fix x y z :: "lsn option"
  show "lsn_cmp y x = - lsn_cmp x y"
    by (cases x; cases y) (auto simp: lsn_cmp_def)
  show "0 \<le> lsn_cmp x y \<Longrightarrow> 0 \<le> lsn_cmp y z \<Longrightarrow> 0 \<le> lsn_cmp x z"
    by (auto simp: lsn_cmp_nonneg_iff)
qed

interpretation rule_pos_lsn: go_lex_comparator CompareRulePosition lsn_cmp
  by unfold_locales

lemma ComparePoolerPosition_alt:
  "ComparePoolerPosition parse_lsn a b =
     (let cmp = CompareRulePosition (PoolerPosition_GetPosition a) (PoolerPosition_GetPosition b)
      in if cmp \<noteq> 0 then cmp
         else lsn_cmp (parse_lsn (PoolerPosition_GetLsn a)) (parse_lsn (PoolerPosition_GetLsn b)))"
  by (simp add: ComparePoolerPosition_def lsn_cmp_def Let_def)

lemma ComparePoolerPosition_nonneg_iff:
  "0 \<le> ComparePoolerPosition parse_lsn a b \<longleftrightarrow>
     0 < CompareRulePosition (PoolerPosition_GetPosition a) (PoolerPosition_GetPosition b) \<or>
     CompareRulePosition (PoolerPosition_GetPosition a) (PoolerPosition_GetPosition b) = 0 \<and>
     0 \<le> lsn_cmp (parse_lsn (PoolerPosition_GetLsn a)) (parse_lsn (PoolerPosition_GetLsn b))"
  by (auto simp: ComparePoolerPosition_alt Let_def)

lemma ComparePoolerPosition_imp_rule:
  "0 \<le> ComparePoolerPosition parse_lsn a b \<Longrightarrow>
     0 \<le> CompareRulePosition (PoolerPosition_GetPosition a) (PoolerPosition_GetPosition b)"
  by (auto simp: ComparePoolerPosition_nonneg_iff)

interpretation pooler_pos: go_ptr_comparator "ComparePoolerPosition parse_lsn"
  "pooler_position_ok parse_lsn" for parse_lsn
proof unfold_locales
  fix x y z :: "PoolerPosition ptr"
  show "ComparePoolerPosition parse_lsn y x = - ComparePoolerPosition parse_lsn x y"
    by (simp add: ComparePoolerPosition_alt Let_def
        rule_pos.cmp_swap [of "PoolerPosition_GetPosition y"]
        lsn.cmp_swap [of "parse_lsn (PoolerPosition_GetLsn y)"])
  show "0 \<le> ComparePoolerPosition parse_lsn x y \<Longrightarrow> 0 \<le> ComparePoolerPosition parse_lsn y z \<Longrightarrow>
      0 \<le> ComparePoolerPosition parse_lsn x z"
    unfolding ComparePoolerPosition_nonneg_iff by (rule rule_pos_lsn.lex_trans)
  show "pooler_position_ok parse_lsn x \<Longrightarrow> 0 \<le> ComparePoolerPosition parse_lsn x None"
    using rule_pos.nil_least [of "PoolerPosition_GetPosition x"]
    by (auto simp: ComparePoolerPosition_nonneg_iff pooler_position_ok_def lsn_cmp_nonneg_iff
        split: option.splits)
qed

lemma idsEqual_sym: "idsEqual a b \<longleftrightarrow> idsEqual b a"
  by (auto simp: idsEqual_def)

lemma idsEqual_refl [simp]: "idsEqual a a"
  by (simp add: idsEqual_def)

lemma primaryAddressEqual_refl [simp]: "primaryAddressEqual a a"
  by (simp add: primaryAddressEqual_def)

subsection \<open>Rendering\<close>

lemma show_int_no_dot: "CHR ''.'' \<notin> set (show_int i)"
  using show_int_chars [of "CHR ''.''" i] by (auto simp: is_digit_def)

text \<open>
  Two rule numbers render to the same text only if they are the same rule number, so a log
  line identifies the rule.
\<close>

theorem FormatRuleNumber_inject:
  "FormatRuleNumber a = FormatRuleNumber b \<longleftrightarrow> a = b"
proof -
  have n: "show_int i @ CHR ''.'' # s \<noteq> ''none''" for i s
  proof
    assume "show_int i @ CHR ''.'' # s = ''none''"
    then have "CHR ''.'' \<in> set ''none''" by (metis in_set_conv_decomp)
    then show False by simp
  qed
  show ?thesis
    by (cases a; cases b) (auto simp: append_sep_inject show_int_no_dot n n [symmetric])
qed

subsection \<open>Discovery over a set of statuses\<close>

text \<open>The rule positions a status contributes to \<open>HighestKnownRule\<close>.\<close>

definition known_positions :: "ConsensusStatus ptr \<Rightarrow> RulePosition ptr list" where
  "known_positions cs =
     [PoolerPosition_GetPosition (GetCurrentPosition cs),
      ReplicationPrimary_GetPosition (ReplicationPrimaryOrNil cs)]"

lemma known_positions_ok:
  "status_rules_ok cs \<Longrightarrow> p \<in> set (known_positions cs) \<Longrightarrow> rule_position_ok p"
  by (auto simp: known_positions_def status_rules_ok_def ReplicationPrimaryOrNil_def Let_def
      rule_position_ok_def rule_number_ok_def split: if_splits)

lemma HighestKnownRule_foldl:
  "HighestKnownRule statuses =
     foldl (go_best CompareRulePosition) None (concat (map known_positions statuses))"
  by (simp only: HighestKnownRule_def known_positions_def foldl_nested [symmetric])

text \<open>
  \<open>HighestKnownRule\<close> returns a rule position that ranks at least as high as the current position
  and the (non-phantom) replication primary of every status, and it is \<open>nil\<close> or one of them.
\<close>

theorem HighestKnownRule_greatest:
  assumes "\<forall>cs \<in> set statuses. status_rules_ok cs"
  shows "(\<forall>cs \<in> set statuses. \<forall>p \<in> set (known_positions cs).
            0 \<le> CompareRulePosition (HighestKnownRule statuses) p) \<and>
         (HighestKnownRule statuses = None \<or>
          (\<exists>cs \<in> set statuses. HighestKnownRule statuses \<in> set (known_positions cs)))"
proof -
  let ?ps = "concat (map known_positions statuses)"
  have "\<forall>p \<in> set ?ps. rule_position_ok p" using assms known_positions_ok by auto
  then have "\<forall>p \<in> set ?ps. 0 \<le> CompareRulePosition (HighestKnownRule statuses) p"
    unfolding HighestKnownRule_foldl using rule_pos.foldl_go_best_ge by blast
  moreover have "HighestKnownRule statuses \<in> insert None (set ?ps)"
    unfolding HighestKnownRule_foldl by (rule rule_pos.foldl_go_best_mem)
  ultimately show ?thesis by auto
qed

lemma HighestDecidedRule_ge:
  assumes "\<forall>cs \<in> set statuses. status_rules_ok cs" "cs \<in> set statuses"
  shows "0 \<le> CompareRuleNumbers (HighestDecidedRule statuses)
           (GetRuleNumber (GetDecision (PoolerPosition_GetPosition (GetCurrentPosition cs))))"
proof -
  let ?d = "\<lambda>cs. GetRuleNumber (GetDecision (PoolerPosition_GetPosition (GetCurrentPosition cs)))"
  have "HighestDecidedRule statuses = foldl (go_best CompareRuleNumbers) None (map ?d statuses)"
    unfolding HighestDecidedRule_def by (rule foldl_mapped)
  moreover have "\<forall>d \<in> set (map ?d statuses). rule_number_ok d"
    using assms(1) by (auto simp: status_rules_ok_def rule_position_ok_def)
  ultimately show ?thesis using rule_num.foldl_go_best_ge assms(2) by auto
qed

text \<open>The loop of \<open>MostAdvancedPosition\<close>, as a selection over the parsable positions.\<close>

definition parsable_positions ::
  "(string \<Rightarrow> lsn option) \<Rightarrow> ConsensusStatus ptr list \<Rightarrow> PoolerPosition ptr list" where
  "parsable_positions parse_lsn statuses =
     filter (\<lambda>p. parse_lsn (PoolerPosition_GetLsn p) \<noteq> None) (map GetCurrentPosition statuses)"

lemma MostAdvancedPosition_foldl:
  "MostAdvancedPosition parse_lsn statuses =
     foldl (go_best (ComparePoolerPosition parse_lsn)) None (parsable_positions parse_lsn statuses)"
  using foldl_filtered [of "\<lambda>cs. parse_lsn (PoolerPosition_GetLsn (GetCurrentPosition cs)) = None"
      "go_best (ComparePoolerPosition parse_lsn)" GetCurrentPosition None statuses]
  by (simp add: MostAdvancedPosition_def Let_def parsable_positions_def filter_map comp_def)

lemma parsable_positions_ok:
  assumes "parse_lsn '''' = None" "\<forall>cs \<in> set statuses. status_rules_ok cs"
  shows "\<forall>p \<in> set (parsable_positions parse_lsn statuses). pooler_position_ok parse_lsn p \<and> p \<noteq> None"
  using assms
  by (auto simp: parsable_positions_def pooler_position_ok_def status_rules_ok_def)
    (metis PoolerPosition_GetLsn.simps(1) not_Some_eq)

text \<open>
  \<open>MostAdvancedPosition\<close> returns \<open>nil\<close> exactly when no status reports a parsable LSN, and
  otherwise a reported position with a parsable LSN that no other such position is ahead of. The
  hypothesis on the parser is that it refuses the empty string.
\<close>

theorem MostAdvancedPosition_greatest:
  assumes "parse_lsn '''' = None" "\<forall>cs \<in> set statuses. status_rules_ok cs"
  shows "if parsable_positions parse_lsn statuses = []
         then MostAdvancedPosition parse_lsn statuses = None
         else MostAdvancedPosition parse_lsn statuses \<in> set (parsable_positions parse_lsn statuses) \<and>
           (\<forall>p \<in> set (parsable_positions parse_lsn statuses).
              0 \<le> ComparePoolerPosition parse_lsn (MostAdvancedPosition parse_lsn statuses) p)"
proof -
  let ?ps = "parsable_positions parse_lsn statuses"
  let ?m = "MostAdvancedPosition parse_lsn statuses"
  have ok: "\<forall>p \<in> set ?ps. pooler_position_ok parse_lsn p" "\<forall>p \<in> set ?ps. p \<noteq> None"
    using parsable_positions_ok [of parse_lsn statuses] assms by auto
  have "pooler_position_ok parse_lsn None"
    using assms(1) by (simp add: pooler_position_ok_def rule_position_ok_def rule_number_ok_def)
  then have "?ps \<noteq> [] \<Longrightarrow> ?m \<noteq> None"
    unfolding MostAdvancedPosition_foldl
    using pooler_pos.foldl_go_best_None [OF ok(1)] ok(2) by (metis last_in_set)
  moreover have "?m \<in> insert None (set ?ps)"
    unfolding MostAdvancedPosition_foldl by (rule pooler_pos.foldl_go_best_mem)
  moreover have "\<forall>p \<in> set ?ps. 0 \<le> ComparePoolerPosition parse_lsn ?m p"
    unfolding MostAdvancedPosition_foldl using pooler_pos.foldl_go_best_ge [OF ok(1)] by blast
  ultimately show ?thesis by (auto simp: MostAdvancedPosition_foldl)
qed

subsection \<open>Merging an observed replication primary\<close>

lemma same_position_same_rule:
  assumes "CompareRulePosition p q = 0"
  shows "GetCoordinatorTerm (GetRuleNumber (PossiblyUndecidedRule p)) =
         GetCoordinatorTerm (GetRuleNumber (PossiblyUndecidedRule q))"
  using assms
  by (auto simp: CompareRulePosition_zero_iff CompareRuleNumbers_zero_iff IsRuleDecided_def
      PossiblyUndecidedRule_def ruleNumberIsUnset_def)

abbreviation primary_term :: "ReplicationPrimary ptr \<Rightarrow> int" where
  "primary_term rp \<equiv>
     GetCoordinatorTerm (GetRuleNumber (PossiblyUndecidedRule (ReplicationPrimary_GetPosition rp)))"

lemma MergeReplicationPrimary_alt:
  fixes current candidate :: "ReplicationPrimary ptr"
  defines "cmp \<equiv> CompareRulePosition (ReplicationPrimary_GetPosition candidate)
                   (ReplicationPrimary_GetPosition current)"
    and "rr \<equiv> GetRewindReady candidate \<or>
                primary_term candidate = primary_term current \<and> GetRewindReady current"
    and "prim \<equiv> (if GetPrimary candidate \<noteq> None then GetPrimary candidate else GetPrimary current)"
  shows "MergeReplicationPrimary current candidate =
     (if PossiblyUndecidedRule (ReplicationPrimary_GetPosition candidate) = None \<or> cmp < 0 \<or>
         cmp = 0 \<and> primaryAddressEqual prim (GetPrimary current) \<and> rr = GetRewindReady current
      then (current, False)
      else (Some \<lparr>prim_position = (if cmp > 0 then ReplicationPrimary_GetPosition candidate
                                 else ReplicationPrimary_GetPosition current),
                prim_primary = prim, prim_rewind_ready = rr\<rparr>, True))"
  by (cases "primary_term candidate = primary_term current")
    (simp_all add: MergeReplicationPrimary_def Let_def cmp_def rr_def prim_def del: not_None_eq)

text \<open>
  Merging never moves the recorded primary to an older rule position, ends at least as advanced
  as a candidate that carries a rule, reports a change exactly when there is one, and never takes
  back \<open>rewind_ready\<close> within a coordinator term.
\<close>

theorem MergeReplicationPrimary_monotone:
  assumes "MergeReplicationPrimary current candidate = (result, changed)"
  shows "0 \<le> CompareRulePosition (ReplicationPrimary_GetPosition result)
              (ReplicationPrimary_GetPosition current) \<and>
         (PossiblyUndecidedRule (ReplicationPrimary_GetPosition candidate) \<noteq> None \<longrightarrow>
            0 \<le> CompareRulePosition (ReplicationPrimary_GetPosition result)
                  (ReplicationPrimary_GetPosition candidate)) \<and>
         (changed \<longleftrightarrow> result \<noteq> current) \<and>
         (primary_term result = primary_term current \<and> GetRewindReady current \<longrightarrow>
            GetRewindReady result)"
proof -
  let ?pos = "ReplicationPrimary_GetPosition"
  let ?cmp = "CompareRulePosition (?pos candidate) (?pos current)"
  have swap: "CompareRulePosition (?pos current) (?pos candidate) = - ?cmp"
    by (rule rule_pos.cmp_swap)
  show ?thesis
  proof (cases changed)
    case False
    with assms have "result = current" "PossiblyUndecidedRule (?pos candidate) = None \<or> ?cmp \<le> 0"
      by (auto simp: MergeReplicationPrimary_alt split: if_splits)
    with False swap show ?thesis by auto
  next
    case True
    with assms have nonneg: "0 \<le> ?cmp"
      and res: "result = Some \<lparr>prim_position = (if ?cmp > 0 then ?pos candidate else ?pos current),
        prim_primary = (if GetPrimary candidate \<noteq> None then GetPrimary candidate else GetPrimary current),
        prim_rewind_ready = (GetRewindReady candidate \<or>
          primary_term candidate = primary_term current \<and> GetRewindReady current)\<rparr>"
      and new: "?cmp = 0 \<longrightarrow> \<not> (primaryAddressEqual (GetPrimary result) (GetPrimary current) \<and>
        GetRewindReady result = GetRewindReady current)"
      by (auto simp: MergeReplicationPrimary_alt simp del: not_None_eq split: if_splits)
    have "result \<noteq> current"
    proof
      assume eq: "result = current"
      with new nonneg have "0 < ?cmp" by simp
      then have "?pos result = ?pos candidate" by (simp add: res)
      with eq have "?cmp = 0" by simp
      with \<open>0 < ?cmp\<close> show False by simp
    qed
    moreover have "?cmp = 0 \<Longrightarrow> primary_term candidate = primary_term current"
      by (rule same_position_same_rule)
    ultimately show ?thesis
      using True nonneg swap by (auto simp: res)
  qed
qed

text \<open>
  Merging the same candidate a second time changes nothing.
\<close>

theorem MergeReplicationPrimary_idempotent:
  assumes "MergeReplicationPrimary current candidate = (result, changed)"
  shows "MergeReplicationPrimary result candidate = (result, False)"
proof (cases changed)
  case False
  with assms have "result = current" by (auto simp: MergeReplicationPrimary_alt split: if_splits)
  with assms False show ?thesis by simp
next
  case True
  let ?pos = "ReplicationPrimary_GetPosition"
  let ?cmp = "CompareRulePosition (?pos candidate) (?pos current)"
  from True assms have nonneg: "0 \<le> ?cmp"
    and res: "result = Some \<lparr>prim_position = (if ?cmp > 0 then ?pos candidate else ?pos current),
      prim_primary = (if GetPrimary candidate \<noteq> None then GetPrimary candidate else GetPrimary current),
      prim_rewind_ready = (GetRewindReady candidate \<or>
        primary_term candidate = primary_term current \<and> GetRewindReady current)\<rparr>"
    by (auto simp: MergeReplicationPrimary_alt simp del: not_None_eq split: if_splits)
  have zero: "CompareRulePosition (?pos candidate) (?pos result) = 0"
    using nonneg by (auto simp: res)
  then have "primary_term candidate = primary_term result" by (rule same_position_same_rule)
  moreover have "GetRewindReady candidate \<longrightarrow> GetRewindReady result"
    and "GetPrimary candidate \<noteq> None \<longrightarrow> GetPrimary result = GetPrimary candidate"
    by (simp_all add: res)
  ultimately show ?thesis
    using zero unfolding MergeReplicationPrimary_alt by auto
qed

section \<open>Concrete instances\<close>

abbreviation ex_statuses :: "ConsensusStatus ptr list" where
  "ex_statuses \<equiv> [ex_status ex_a (ex_decided 3) ''100'' None, ex_status ex_b (ex_decided 3) ''120'' None,
     ex_status ex_c (ex_decided 2) ''900'' None]"

theorem HighestKnownRule_greatest_witness:
  "0 \<le> CompareRulePosition (HighestKnownRule ex_statuses) (ex_decided 2)"
proof -
  have "\<forall>cs \<in> set ex_statuses. status_rules_ok cs" by code_simp
  from HighestKnownRule_greatest [OF this] show ?thesis
    by (auto simp: known_positions_def ex_status_def)
qed

theorem MostAdvancedPosition_greatest_witness:
  "0 \<le> ComparePoolerPosition ex_parse (MostAdvancedPosition ex_parse ex_statuses)
     (GetCurrentPosition (ex_status ex_c (ex_decided 2) ''900'' None))"
proof -
  have ok: "\<forall>cs \<in> set ex_statuses. status_rules_ok cs" by code_simp
  have e: "ex_parse '''' = None" by code_simp
  have ne: "parsable_positions ex_parse ex_statuses \<noteq> []" by code_simp
  have "GetCurrentPosition (ex_status ex_c (ex_decided 2) ''900'' None) \<in>
      set (parsable_positions ex_parse ex_statuses)" by code_simp
  with MostAdvancedPosition_greatest [of ex_parse ex_statuses, OF e ok, unfolded if_not_P [OF ne]]
  show ?thesis by blast
qed

theorem MergeReplicationPrimary_monotone_witness:
  "0 \<le> CompareRulePosition (ReplicationPrimary_GetPosition (ex_primary (ex_decided 3) ex_b))
     (ReplicationPrimary_GetPosition (ex_primary (ex_decided 2) ex_a))"
proof -
  have "MergeReplicationPrimary (ex_primary (ex_decided 2) ex_a) (ex_primary (ex_decided 3) ex_b) =
      (ex_primary (ex_decided 3) ex_b, True)" by code_simp
  from MergeReplicationPrimary_monotone [OF this] show ?thesis by blast
qed

theorem MergeReplicationPrimary_idempotent_witness:
  "MergeReplicationPrimary (ex_primary (ex_decided 3) ex_b) (ex_primary (ex_decided 3) ex_b) =
     (ex_primary (ex_decided 3) ex_b, False)"
proof -
  have "MergeReplicationPrimary (ex_primary (ex_decided 2) ex_a) (ex_primary (ex_decided 3) ex_b) =
      (ex_primary (ex_decided 3) ex_b, True)" by code_simp
  from MergeReplicationPrimary_idempotent [OF this] show ?thesis .
qed

end
