(* ===== verification/Revocation.thy ===== *)
theory Revocation
  imports Rule_Compare
begin

text \<open>
  Term revocations (go/common/consensus/revocation.go): the promise a pooler makes to a
  coordinator to refuse work below a coordinator term. \<open>NewTermRevocation\<close> builds one from the
  observed statuses, \<open>IsRuleRevoked\<close> says which rule positions it forbids, and
  \<open>ValidateRevocation\<close> is the acceptance test of a pooler.
\<close>

datatype revocation_error =
    RErr_StatusesEmpty
  | RErr_InitiatedAtNil
  | RErr_NoRecordedRule
  | RErr_Nil
  | RErr_CoordinatorRequired
  | RErr_InitiatedAtRequired
  | RErr_OutgoingRuleRequired
  | RErr_OutgoingTermTooHigh int int
  | RErr_UnknownPosition
  | RErr_BadLSN string
  | RErr_NotRevoked string string int
  | RErr_RecruitBlocked string
  | RErr_TermBelowAccepted int int
  | RErr_OutgoingBelowAccepted string string
  | RErr_OtherCoordinator int string string
  | RErr_TermReused string int

definition highestRevokedBelowTerm :: "ConsensusStatus ptr list \<Rightarrow> int" where
  "highestRevokedBelowTerm statuses =
     foldl (\<lambda>maxTerm cs. let t = GetRevokedBelowTerm (GetTermRevocation cs)
                          in if t > maxTerm then t else maxTerm) 0 statuses"

definition revocationsMatchingDecision ::
  "ConsensusStatus ptr list \<Rightarrow> RuleNumber ptr \<Rightarrow> TermRevocation ptr list" where
  "revocationsMatchingDecision statuses replaceDecision =
     filter (\<lambda>rev. GetRevokedBelowTerm rev > 0 \<and> GetRecruitIntent rev \<noteq> None \<and>
         CompareRuleNumbers (GetReplaceDecision (GetRecruitIntent rev)) replaceDecision = 0)
       (map GetTermRevocation statuses)"

definition HighestRevokedBelowTermRevocation ::
  "TermRevocation ptr list \<Rightarrow> TermRevocation ptr" where
  "HighestRevokedBelowTermRevocation candidates =
     foldl (\<lambda>best rev.
         if best = None then rev
         else if best = rev then best
         else if GetRevokedBelowTerm rev \<noteq> GetRevokedBelowTerm best
         then (if GetRevokedBelowTerm rev > GetRevokedBelowTerm best then rev else best)
         else if ClusterIDString (GetAcceptedCoordinatorId rev) \<noteq>
                 ClusterIDString (GetAcceptedCoordinatorId best)
         then (if ClusterIDString (GetAcceptedCoordinatorId rev) <
                  ClusterIDString (GetAcceptedCoordinatorId best) then rev else best)
         else if AsTime (GetCoordinatorInitiatedAt rev) > AsTime (GetCoordinatorInitiatedAt best)
         then rev
         else best)
       None candidates"

definition recruitAttempt :: "TermRevocation ptr \<Rightarrow> Timestamp ptr \<Rightarrow> duration \<Rightarrow> int" where
  "recruitAttempt previousRecruitForDecision initiatedAt staleRecruitResetWindow =
     (if previousRecruitForDecision = None then 1
      else if staleRecruitResetWindow > 0 \<and>
              time_Sub (AsTime initiatedAt)
                (AsTime (GetCoordinatorInitiatedAt previousRecruitForDecision)) >
                staleRecruitResetWindow
      then 1
      else wrap64 (GetAttempt (GetRecruitIntent previousRecruitForDecision) + 1))"

definition NewTermRevocation ::
  "ConsensusStatus ptr list \<Rightarrow> ID ptr \<Rightarrow> Timestamp ptr \<Rightarrow> duration \<Rightarrow>
     revocation_error + TermRevocation ptr" where
  "NewTermRevocation statuses coordinatorID initiatedAt staleRecruitResetWindow =
     (if statuses = [] then Inl RErr_StatusesEmpty
      else if initiatedAt = None then Inl RErr_InitiatedAtNil
      else
        let maxPosition =
              foldl (\<lambda>maxPosition cs. go_best CompareRulePosition maxPosition
                  (PoolerPosition_GetPosition (GetCurrentPosition cs))) None statuses
        in if maxPosition = None then Inl RErr_NoRecordedRule
        else
          let outgoingRule = GetRuleNumber (PossiblyUndecidedRule maxPosition);
              replaceDecision = HighestDecidedRule statuses;
              maxTerm = (if highestRevokedBelowTerm statuses > GetCoordinatorTerm outgoingRule
                         then highestRevokedBelowTerm statuses
                         else GetCoordinatorTerm outgoingRule);
              previousRecruitForDecision =
                HighestRevokedBelowTermRevocation (revocationsMatchingDecision statuses replaceDecision)
          in Inr (Some \<lparr>tr_revoked_below_term = wrap64 (maxTerm + 1),
               tr_accepted_coordinator_id = coordinatorID,
               tr_coordinator_initiated_at = initiatedAt,
               tr_outgoing_rule = outgoingRule,
               tr_recruit_intent = Some \<lparr>ri_replace_decision = replaceDecision,
                 ri_attempt = recruitAttempt previousRecruitForDecision initiatedAt
                                staleRecruitResetWindow\<rparr>\<rparr>))"

definition IsRuleRevoked :: "RulePosition ptr \<Rightarrow> TermRevocation ptr \<Rightarrow> bool" where
  "IsRuleRevoked position revocation =
     (let revokedBelow = GetRevokedBelowTerm revocation;
          outgoing = GetOutgoingRule revocation;
          decisionNum = GetRuleNumber (GetDecision position)
      in if revokedBelow = 0 then False
         else if ruleNumberIsUnset outgoing then False
         else if GetCoordinatorTerm decisionNum \<ge> revokedBelow then False
         else
           let cmp = CompareRuleNumbers decisionNum outgoing
           in if cmp > 0 then False
              else if cmp = 0
              then revokedBelow > GetCoordinatorTerm (GetRuleNumber (GetProposal position))
              else True)"

definition IsSelfRevoked :: "ConsensusStatus ptr \<Rightarrow> bool" where
  "IsSelfRevoked status =
     (let current = PoolerPosition_GetPosition (GetCurrentPosition status);
          known = ReplicationPrimary_GetPosition (ReplicationPrimaryOrNil status);
          highest = (if CompareRulePosition known current > 0 then known else current)
      in IsRuleRevoked highest (GetTermRevocation status))"

definition checkStoredRevocation ::
  "TermRevocation ptr \<Rightarrow> TermRevocation ptr \<Rightarrow> revocation_error option" where
  "checkStoredRevocation stored revocation =
     (let storedTerm = GetRevokedBelowTerm stored;
          revokedBelowTerm = GetRevokedBelowTerm revocation;
          outgoingRule = GetOutgoingRule revocation;
          storedCoord = ClusterIDString (GetAcceptedCoordinatorId stored);
          reqCoord = ClusterIDString (GetAcceptedCoordinatorId revocation)
      in if stored = None then None
         else if storedTerm > revokedBelowTerm
         then Some (RErr_TermBelowAccepted storedTerm revokedBelowTerm)
         else if CompareRuleNumbers outgoingRule (GetOutgoingRule stored) < 0
         then Some (RErr_OutgoingBelowAccepted (FormatRuleNumber outgoingRule)
                      (FormatRuleNumber (GetOutgoingRule stored)))
         else if storedTerm = revokedBelowTerm then
           (if storedCoord \<noteq> reqCoord
            then Some (RErr_OtherCoordinator storedTerm storedCoord reqCoord)
            else if GetCoordinatorInitiatedAt stored \<noteq> GetCoordinatorInitiatedAt revocation
            then Some (RErr_TermReused storedCoord storedTerm)
            else None)
         else None)"

definition ValidateRevocation ::
  "(string \<Rightarrow> lsn option) \<Rightarrow> ConsensusStatus ptr \<Rightarrow> TermRevocation ptr \<Rightarrow> revocation_error option" where
  "ValidateRevocation parse_lsn status revocation =
     (if revocation = None then Some RErr_Nil
      else if GetName (GetAcceptedCoordinatorId revocation) = '''' then Some RErr_CoordinatorRequired
      else if GetCoordinatorInitiatedAt revocation = None then Some RErr_InitiatedAtRequired
      else
        let outgoingRule = GetOutgoingRule revocation;
            revokedBelowTerm = GetRevokedBelowTerm revocation
        in if ruleNumberIsUnset outgoingRule then Some RErr_OutgoingRuleRequired
        else if GetCoordinatorTerm outgoingRule \<ge> revokedBelowTerm
        then Some (RErr_OutgoingTermTooHigh (GetCoordinatorTerm outgoingRule) revokedBelowTerm)
        else
          let pos = GetCurrentPosition status
          in if pos = None then Some RErr_UnknownPosition
          else if parse_lsn (PoolerPosition_GetLsn pos) = None
          then Some (RErr_BadLSN (PoolerPosition_GetLsn pos))
          else if \<not> IsRuleRevoked (PoolerPosition_GetPosition pos) revocation
          then Some (RErr_NotRevoked (FormatRulePosition (PoolerPosition_GetPosition pos))
                       (FormatRuleNumber outgoingRule) revokedBelowTerm)
          else if GetRecruitBlockedUntil status \<noteq> None
          then Some (RErr_RecruitBlocked (LsnPosition_GetLsn (GetRecruitBlockedUntil status)))
          else checkStoredRevocation (GetTermRevocation status) revocation)"

section \<open>Which positions a revocation forbids\<close>

lemma IsRuleRevoked_iff:
  "IsRuleRevoked pos rv \<longleftrightarrow>
     GetRevokedBelowTerm rv \<noteq> 0 \<and> \<not> ruleNumberIsUnset (GetOutgoingRule rv) \<and>
     GetCoordinatorTerm (GetRuleNumber (GetDecision pos)) < GetRevokedBelowTerm rv \<and>
     (CompareRuleNumbers (GetRuleNumber (GetDecision pos)) (GetOutgoingRule rv) < 0 \<or>
      CompareRuleNumbers (GetRuleNumber (GetDecision pos)) (GetOutgoingRule rv) = 0 \<and>
      GetCoordinatorTerm (GetRuleNumber (GetProposal pos)) < GetRevokedBelowTerm rv)"
  by (auto simp: IsRuleRevoked_def Let_def)

text \<open>
  Revocation respects the order of rule positions: a position that is at least as advanced as
  one the revocation leaves alone is left alone too.
\<close>

theorem IsRuleRevoked_antimono:
  assumes "\<not> IsRuleRevoked p rv" "0 \<le> CompareRulePosition q p"
  shows "\<not> IsRuleRevoked q rv"
proof
  assume "IsRuleRevoked q rv"
  with assms show False
    by (auto simp: IsRuleRevoked_iff CompareRulePosition_nonneg_iff CompareRuleNumbers_alt
        split: if_splits)
qed

section \<open>Acceptance\<close>

lemma ValidateRevocation_acceptD:
  assumes "ValidateRevocation parse_lsn status rv = None"
  shows "rv \<noteq> None"
    and "GetName (GetAcceptedCoordinatorId rv) \<noteq> ''''"
    and "\<not> ruleNumberIsUnset (GetOutgoingRule rv)"
    and "GetCoordinatorTerm (GetOutgoingRule rv) < GetRevokedBelowTerm rv"
    and "GetCurrentPosition status \<noteq> None"
    and "parse_lsn (PoolerPosition_GetLsn (GetCurrentPosition status)) \<noteq> None"
    and "IsRuleRevoked (PoolerPosition_GetPosition (GetCurrentPosition status)) rv"
    and "GetRecruitBlockedUntil status = None"
    and "checkStoredRevocation (GetTermRevocation status) rv = None"
  using assms by (auto simp: ValidateRevocation_def Let_def split: if_splits)

lemma checkStoredRevocation_iff:
  "checkStoredRevocation stored rv = None \<longleftrightarrow>
     (stored \<noteq> None \<longrightarrow>
        GetRevokedBelowTerm stored \<le> GetRevokedBelowTerm rv \<and>
        0 \<le> CompareRuleNumbers (GetOutgoingRule rv) (GetOutgoingRule stored) \<and>
        (GetRevokedBelowTerm stored = GetRevokedBelowTerm rv \<longrightarrow>
           ClusterIDString (GetAcceptedCoordinatorId stored) =
             ClusterIDString (GetAcceptedCoordinatorId rv) \<and>
           GetCoordinatorInitiatedAt stored = GetCoordinatorInitiatedAt rv))"
  by (auto simp: checkStoredRevocation_def Let_def)

text \<open>
  C14: what a pooler accepts never weakens what it promised before: the new term and the new
  outgoing rule are at least the stored ones, and a second acceptance at the same term comes from
  the same coordinator and the same recruitment round.
\<close>

theorem ValidateRevocation_no_weakening:
  assumes "ValidateRevocation parse_lsn status rv = None" "GetTermRevocation status = Some stored"
  shows "GetRevokedBelowTerm (Some stored) \<le> GetRevokedBelowTerm rv \<and>
         0 \<le> CompareRuleNumbers (GetOutgoingRule rv) (GetOutgoingRule (Some stored)) \<and>
         (GetRevokedBelowTerm (Some stored) = GetRevokedBelowTerm rv \<longrightarrow>
            ClusterIDString (GetAcceptedCoordinatorId (Some stored)) =
              ClusterIDString (GetAcceptedCoordinatorId rv) \<and>
            GetCoordinatorInitiatedAt (Some stored) = GetCoordinatorInitiatedAt rv)"
  using ValidateRevocation_acceptD(9) [OF assms(1)] assms(2) by (simp add: checkStoredRevocation_iff)

section \<open>A new revocation\<close>

lemma highestRevokedBelowTerm_ge:
  "cs \<in> set statuses \<Longrightarrow> GetRevokedBelowTerm (GetTermRevocation cs) \<le> highestRevokedBelowTerm statuses"
  and highestRevokedBelowTerm_nonneg: "0 \<le> highestRevokedBelowTerm statuses"
proof -
  let ?t = "\<lambda>cs. GetRevokedBelowTerm (GetTermRevocation cs)"
  have "m \<le> foldl (\<lambda>m cs. let t = ?t cs in if t > m then t else m) m xs \<and>
      (\<forall>cs \<in> set xs. ?t cs \<le> foldl (\<lambda>m cs. let t = ?t cs in if t > m then t else m) m xs)" for m xs
  proof (induction xs arbitrary: m)
    case Nil
    then show ?case by simp
  next
    case (Cons x xs)
    show ?case using Cons.IH [of "max m (?t x)"] by (auto simp: Let_def max_def)
  qed
  from this [of 0 statuses] show
    "cs \<in> set statuses \<Longrightarrow> GetRevokedBelowTerm (GetTermRevocation cs) \<le> highestRevokedBelowTerm statuses"
    "0 \<le> highestRevokedBelowTerm statuses"
    by (auto simp: highestRevokedBelowTerm_def)
qed

text \<open>
  A well-formed position: rule numbers are not negative and a proposal, when there is one, is
  beyond the decision (as the \<open>RulePosition\<close> message requires).
\<close>

definition position_wf :: "RulePosition ptr \<Rightarrow> bool" where
  "position_wf pos \<longleftrightarrow> rule_position_ok pos \<and>
     (ruleNumberIsUnset (GetRuleNumber (GetProposal pos)) \<or>
      0 < CompareRuleNumbers (GetRuleNumber (GetProposal pos)) (GetRuleNumber (GetDecision pos)))"

definition observed_position :: "ConsensusStatus ptr \<Rightarrow> RulePosition ptr" where
  "observed_position cs = PoolerPosition_GetPosition (GetCurrentPosition cs)"

lemma NewTermRevocation_InrE:
  assumes "NewTermRevocation statuses c t w = Inr r"
  obtains hi where
    "hi = foldl (go_best CompareRulePosition) None (map observed_position statuses)"
    "GetOutgoingRule r = GetRuleNumber (PossiblyUndecidedRule hi)"
    "GetRevokedBelowTerm r =
       wrap64 (max (highestRevokedBelowTerm statuses) (GetCoordinatorTerm (GetOutgoingRule r)) + 1)"
    "GetAcceptedCoordinatorId r = c" "GetCoordinatorInitiatedAt r = t" "t \<noteq> None" "r \<noteq> None"
    "GetReplaceDecision (GetRecruitIntent r) = HighestDecidedRule statuses"
proof -
  have fold: "foldl (\<lambda>m cs. go_best CompareRulePosition m
      (PoolerPosition_GetPosition (GetCurrentPosition cs))) None statuses =
    foldl (go_best CompareRulePosition) None (map observed_position statuses)"
    unfolding observed_position_def by (rule foldl_mapped)
  from assms show thesis
    unfolding NewTermRevocation_def fold
    by (intro that [of "foldl (go_best CompareRulePosition) None (map observed_position statuses)"])
      (auto simp: Let_def max_def split: if_splits)
qed

lemma dominated_position_revoked:
  assumes hi: "position_wf hi" "0 \<le> CompareRulePosition hi p" "rule_position_ok p"
    and rv: "GetOutgoingRule rv = GetRuleNumber (PossiblyUndecidedRule hi)"
      "\<not> ruleNumberIsUnset (GetOutgoingRule rv)"
      "GetCoordinatorTerm (GetOutgoingRule rv) < GetRevokedBelowTerm rv"
  shows "IsRuleRevoked p rv"
proof (cases "IsRuleDecided hi")
  case True
  with assms show ?thesis
    by (auto simp: IsRuleRevoked_iff IsRuleDecided_def PossiblyUndecidedRule_def position_wf_def
        rule_position_ok_def rule_number_ok_def CompareRulePosition_nonneg_iff
        CompareRuleNumbers_alt ruleNumberIsUnset_def split: if_splits)
next
  case False
  with assms show ?thesis
    by (auto simp: IsRuleRevoked_iff IsRuleDecided_def PossiblyUndecidedRule_def position_wf_def
        rule_position_ok_def rule_number_ok_def CompareRulePosition_nonneg_iff
        CompareRuleNumbers_alt ruleNumberIsUnset_def split: if_splits)
qed

definition terms_bounded :: "ConsensusStatus ptr \<Rightarrow> bool" where
  "terms_bounded cs \<longleftrightarrow>
     GetRevokedBelowTerm (GetTermRevocation cs) < MaxInt64 \<and>
     GetCoordinatorTerm (GetRuleNumber (GetDecision (observed_position cs))) < MaxInt64 \<and>
     GetCoordinatorTerm (GetRuleNumber (GetProposal (observed_position cs))) < MaxInt64"

lemma highestRevokedBelowTerm_less:
  assumes "\<forall>cs \<in> set statuses. GetRevokedBelowTerm (GetTermRevocation cs) < b" "0 < b"
  shows "highestRevokedBelowTerm statuses < b"
proof -
  have "m < b \<Longrightarrow> \<forall>cs \<in> set xs. GetRevokedBelowTerm (GetTermRevocation cs) < b \<Longrightarrow>
      foldl (\<lambda>m cs. let t = GetRevokedBelowTerm (GetTermRevocation cs) in if t > m then t else m) m xs < b"
    for m xs by (induction xs arbitrary: m) (auto simp: Let_def)
  with assms show ?thesis by (simp add: highestRevokedBelowTerm_def)
qed

text \<open>Some status carries a decided rule, as every initialised pooler does.\<close>

definition some_decision :: "ConsensusStatus ptr list \<Rightarrow> bool" where
  "some_decision statuses \<longleftrightarrow>
     (\<exists>cs \<in> set statuses. \<not> ruleNumberIsUnset (GetRuleNumber (GetDecision (observed_position cs))))"

lemma unset_mono:
  "rule_number_ok a \<Longrightarrow> rule_number_ok b \<Longrightarrow> 0 \<le> CompareRuleNumbers a b \<Longrightarrow>
     \<not> ruleNumberIsUnset b \<Longrightarrow> \<not> ruleNumberIsUnset a"
  by (auto simp: rule_number_ok_def CompareRuleNumbers_nonneg_iff ruleNumberIsUnset_def max_def
      split: if_splits)

lemma CompareRulePosition_decision:
  "0 \<le> CompareRulePosition p q \<Longrightarrow>
     0 \<le> CompareRuleNumbers (GetRuleNumber (GetDecision p)) (GetRuleNumber (GetDecision q))"
  by (auto simp: CompareRulePosition_nonneg_iff)

lemma new_revocation_facts:
  assumes new: "NewTermRevocation statuses c t w = Inr rv"
    and wf: "\<forall>cs \<in> set statuses. position_wf (observed_position cs) \<and> terms_bounded cs"
    and dec: "some_decision statuses"
  shows "\<not> ruleNumberIsUnset (GetOutgoingRule rv)"
    and "GetCoordinatorTerm (GetOutgoingRule rv) < GetRevokedBelowTerm rv"
    and "cs \<in> set statuses \<Longrightarrow> GetRevokedBelowTerm (GetTermRevocation cs) < GetRevokedBelowTerm rv"
    and "cs \<in> set statuses \<Longrightarrow> IsRuleRevoked (observed_position cs) rv"
proof -
  from NewTermRevocation_InrE [OF new] obtain hi where
    hi: "hi = foldl (go_best CompareRulePosition) None (map observed_position statuses)"
    and out: "GetOutgoingRule rv = GetRuleNumber (PossiblyUndecidedRule hi)"
    and rterm: "GetRevokedBelowTerm rv =
       wrap64 (max (highestRevokedBelowTerm statuses) (GetCoordinatorTerm (GetOutgoingRule rv)) + 1)" .
  have ok: "\<forall>p \<in> set (map observed_position statuses). rule_position_ok p"
    using wf by (simp add: position_wf_def)
  have ge: "0 \<le> CompareRulePosition hi (observed_position cs)" if "cs \<in> set statuses" for cs
    unfolding hi using rule_pos.foldl_go_best_ge [OF ok] that by auto
  have "hi \<in> insert None (observed_position ` set statuses)"
    unfolding hi using rule_pos.foldl_go_best_mem [of None "map observed_position statuses"] by simp
  then have hi_wf: "position_wf hi" and hi_bd: "GetCoordinatorTerm (GetOutgoingRule rv) < MaxInt64"
    using wf by (auto simp: out terms_bounded_def PossiblyUndecidedRule_def position_wf_def
        rule_position_ok_def rule_number_ok_def ruleNumberIsUnset_def MaxInt64_def)
  from dec obtain d where d: "d \<in> set statuses"
    "\<not> ruleNumberIsUnset (GetRuleNumber (GetDecision (observed_position d)))"
    by (auto simp: some_decision_def)
  show unset: "\<not> ruleNumberIsUnset (GetOutgoingRule rv)"
  proof (cases "IsRuleDecided hi")
    case True
    have "\<not> ruleNumberIsUnset (GetRuleNumber (GetDecision hi))"
      using unset_mono [OF _ _ CompareRulePosition_decision [OF ge [OF d(1)]] d(2)] hi_wf ok d(1)
      by (simp add: position_wf_def rule_position_ok_def)
    with True show ?thesis by (simp add: out PossiblyUndecidedRule_def)
  next
    case False
    then show ?thesis by (simp add: out PossiblyUndecidedRule_def IsRuleDecided_def)
  qed
  have "highestRevokedBelowTerm statuses < MaxInt64"
    using wf by (intro highestRevokedBelowTerm_less) (auto simp: terms_bounded_def MaxInt64_def)
  with hi_bd highestRevokedBelowTerm_nonneg [of statuses]
  have "is_int64 (max (highestRevokedBelowTerm statuses) (GetCoordinatorTerm (GetOutgoingRule rv)) + 1)"
    by (simp add: is_int64_def MinInt64_def)
  then have rterm': "GetRevokedBelowTerm rv =
      max (highestRevokedBelowTerm statuses) (GetCoordinatorTerm (GetOutgoingRule rv)) + 1"
    using rterm by simp
  then show less: "GetCoordinatorTerm (GetOutgoingRule rv) < GetRevokedBelowTerm rv" by simp
  show "GetRevokedBelowTerm (GetTermRevocation cs) < GetRevokedBelowTerm rv" if "cs \<in> set statuses"
    using highestRevokedBelowTerm_ge [OF that] rterm' by simp
  show "IsRuleRevoked (observed_position cs) rv" if "cs \<in> set statuses"
    using dominated_position_revoked [OF hi_wf ge [OF that] _ out unset less] ok that by simp
qed

text \<open>
  C33: the revocation a coordinator constructs names an established outgoing rule below its own
  term, its term exceeds every term an observed pooler has promised, and it revokes every
  observed position.
\<close>

theorem NewTermRevocation_revokes_observed:
  assumes "NewTermRevocation statuses c t w = Inr rv"
    and "\<forall>cs \<in> set statuses. position_wf (observed_position cs) \<and> terms_bounded cs"
    and "some_decision statuses"
  shows "\<not> ruleNumberIsUnset (GetOutgoingRule rv) \<and>
         GetCoordinatorTerm (GetOutgoingRule rv) < GetRevokedBelowTerm rv \<and>
         (\<forall>cs \<in> set statuses.
            GetRevokedBelowTerm (GetTermRevocation cs) < GetRevokedBelowTerm rv \<and>
            IsRuleRevoked (observed_position cs) rv)"
  using new_revocation_facts [OF assms] by blast

text \<open>
  An observed pooler accepts the constructed revocation when its WAL position is readable, it
  has no outstanding recruit floor, and its stored promise does not name a later outgoing rule.
\<close>

theorem NewTermRevocation_accepted:
  assumes "NewTermRevocation statuses c t w = Inr rv"
    and "\<forall>cs \<in> set statuses. position_wf (observed_position cs) \<and> terms_bounded cs"
    and "some_decision statuses" "GetName c \<noteq> ''''"
    and cs: "cs \<in> set statuses"
      "parse_lsn (PoolerPosition_GetLsn (GetCurrentPosition cs)) \<noteq> None"
      "GetCurrentPosition cs \<noteq> None" "GetRecruitBlockedUntil cs = None"
      "0 \<le> CompareRuleNumbers (GetOutgoingRule rv) (GetOutgoingRule (GetTermRevocation cs))"
  shows "ValidateRevocation parse_lsn cs rv = None"
proof -
  note facts = new_revocation_facts [OF assms(1-3)]
  have "checkStoredRevocation (GetTermRevocation cs) rv = None"
    using facts(3) [OF cs(1)] cs(5) by (simp add: checkStoredRevocation_iff)
  moreover from NewTermRevocation_InrE [OF assms(1)]
  have "rv \<noteq> None" "GetCoordinatorInitiatedAt rv \<noteq> None" "GetAcceptedCoordinatorId rv = c"
    by metis+
  ultimately show ?thesis
    using facts(1,2) facts(4) [OF cs(1)] cs assms(4)
    by (simp add: ValidateRevocation_def Let_def observed_position_def)
qed

section \<open>The most recent prior revocation\<close>

text \<open>The ranking of the selection loop as a three-way comparison.\<close>

definition CompareRevocations :: "TermRevocation ptr \<Rightarrow> TermRevocation ptr \<Rightarrow> int" where
  "CompareRevocations a b =
     (if GetRevokedBelowTerm a \<noteq> GetRevokedBelowTerm b
      then (if GetRevokedBelowTerm a > GetRevokedBelowTerm b then 1 else - 1)
      else if ClusterIDString (GetAcceptedCoordinatorId a) \<noteq> ClusterIDString (GetAcceptedCoordinatorId b)
      then (if ClusterIDString (GetAcceptedCoordinatorId a) < ClusterIDString (GetAcceptedCoordinatorId b)
            then 1 else - 1)
      else sgn (AsTime (GetCoordinatorInitiatedAt a) - AsTime (GetCoordinatorInitiatedAt b)))"

lemma CompareRevocations_nonneg_iff:
  "0 \<le> CompareRevocations a b \<longleftrightarrow>
     GetRevokedBelowTerm b < GetRevokedBelowTerm a \<or>
     GetRevokedBelowTerm b = GetRevokedBelowTerm a \<and>
     (ClusterIDString (GetAcceptedCoordinatorId a) < ClusterIDString (GetAcceptedCoordinatorId b) \<or>
      ClusterIDString (GetAcceptedCoordinatorId a) = ClusterIDString (GetAcceptedCoordinatorId b) \<and>
      AsTime (GetCoordinatorInitiatedAt b) \<le> AsTime (GetCoordinatorInitiatedAt a))"
  by (auto simp: CompareRevocations_def sgn_if)

lemma CompareRevocations_zero_iff:
  "CompareRevocations a b = 0 \<longleftrightarrow>
     GetRevokedBelowTerm a = GetRevokedBelowTerm b \<and>
     ClusterIDString (GetAcceptedCoordinatorId a) = ClusterIDString (GetAcceptedCoordinatorId b) \<and>
     AsTime (GetCoordinatorInitiatedAt a) = AsTime (GetCoordinatorInitiatedAt b)"
  by (auto simp: CompareRevocations_def sgn_if)

interpretation revocations: go_ptr_comparator CompareRevocations "\<lambda>r. 0 < GetRevokedBelowTerm r"
proof unfold_locales
  fix x y z :: "TermRevocation ptr"
  show "CompareRevocations y x = - CompareRevocations x y"
    by (auto simp: CompareRevocations_def sgn_if)
  show "0 \<le> CompareRevocations x y \<Longrightarrow> 0 \<le> CompareRevocations y z \<Longrightarrow> 0 \<le> CompareRevocations x z"
    unfolding CompareRevocations_nonneg_iff by auto
  show "0 < GetRevokedBelowTerm x \<Longrightarrow> 0 \<le> CompareRevocations x None"
    by (simp add: CompareRevocations_nonneg_iff)
qed

lemma HighestRevokedBelowTermRevocation_foldl:
  "HighestRevokedBelowTermRevocation candidates = foldl (go_best CompareRevocations) None candidates"
proof -
  have "(\<lambda>best rv.
         if best = None then rv
         else if best = rv then best
         else if GetRevokedBelowTerm rv \<noteq> GetRevokedBelowTerm best
         then (if GetRevokedBelowTerm rv > GetRevokedBelowTerm best then rv else best)
         else if ClusterIDString (GetAcceptedCoordinatorId rv) \<noteq> ClusterIDString (GetAcceptedCoordinatorId best)
         then (if ClusterIDString (GetAcceptedCoordinatorId rv) <
                  ClusterIDString (GetAcceptedCoordinatorId best) then rv else best)
         else if AsTime (GetCoordinatorInitiatedAt rv) > AsTime (GetCoordinatorInitiatedAt best) then rv
         else best) = go_best CompareRevocations"
    by (intro ext) (auto simp: go_best_def CompareRevocations_def sgn_if)
  then show ?thesis by (simp add: HighestRevokedBelowTermRevocation_def)
qed

lemma HighestRevokedBelowTermRevocation_greatest:
  assumes "\<forall>r \<in> set xs. 0 < GetRevokedBelowTerm r"
  shows "xs \<noteq> [] \<Longrightarrow> HighestRevokedBelowTermRevocation xs \<in> set xs"
    and "r \<in> set xs \<Longrightarrow> 0 \<le> CompareRevocations (HighestRevokedBelowTermRevocation xs) r"
proof -
  show "HighestRevokedBelowTermRevocation xs \<in> set xs" if "xs \<noteq> []"
  proof -
    from that obtain z zs where z: "xs = z # zs" by (cases xs) auto
    then have "HighestRevokedBelowTermRevocation xs = foldl (go_best CompareRevocations) z zs"
      by (simp add: HighestRevokedBelowTermRevocation_foldl go_best_def)
    with z show ?thesis using revocations.foldl_go_best_mem [of z zs] by simp
  qed
  show "r \<in> set xs \<Longrightarrow> 0 \<le> CompareRevocations (HighestRevokedBelowTermRevocation xs) r"
    unfolding HighestRevokedBelowTermRevocation_foldl
    using revocations.foldl_go_best_ge assms by (metis insertI2)
qed

text \<open>
  The selected revocation has the greatest term among the candidates and, at that term, the
  smallest coordinator key and then the latest start; and whatever order the candidates come in,
  the term, the coordinator and the start time of the result are the same.
\<close>

theorem HighestRevokedBelowTermRevocation_order_independent:
  assumes "\<forall>r \<in> set xs. 0 < GetRevokedBelowTerm r" "set ys = set xs"
  shows "(\<forall>r \<in> set xs. 0 \<le> CompareRevocations (HighestRevokedBelowTermRevocation xs) r) \<and>
         (xs \<noteq> [] \<longrightarrow> HighestRevokedBelowTermRevocation xs \<in> set xs) \<and>
         CompareRevocations (HighestRevokedBelowTermRevocation xs)
           (HighestRevokedBelowTermRevocation ys) = 0"
proof -
  let ?h = HighestRevokedBelowTermRevocation
  note hx = HighestRevokedBelowTermRevocation_greatest [OF assms(1)]
  note hy = HighestRevokedBelowTermRevocation_greatest [OF assms(1) [folded assms(2)]]
  have "CompareRevocations (?h xs) (?h ys) = 0"
  proof (cases "xs = []")
    case True
    with assms(2) show ?thesis by simp
  next
    case False
    then have "ys \<noteq> []" using assms(2) by auto
    with False hx hy assms(2) have "0 \<le> CompareRevocations (?h xs) (?h ys)"
      "0 \<le> CompareRevocations (?h ys) (?h xs)" by metis+
    then show ?thesis using revocations.cmp_swap [of "?h ys" "?h xs"] by linarith
  qed
  with hx show ?thesis by blast
qed

text \<open>
  The rest of the result does depend on the order: two candidates that agree on term,
  coordinator and start but not on the outgoing rule rank equal, and the first one is kept.
\<close>

lemma HighestRevokedBelowTermRevocation_first_wins:
  "HighestRevokedBelowTermRevocation [ex_revocation 4 (ex_num 3 0), ex_revocation 4 (ex_num 2 0)] \<noteq>
   HighestRevokedBelowTermRevocation [ex_revocation 4 (ex_num 2 0), ex_revocation 4 (ex_num 3 0)]"
  by code_simp

section \<open>Concrete instances\<close>

theorem IsRuleRevoked_antimono_witness:
  "\<not> IsRuleRevoked (ex_decided 5) (ex_revocation 4 (ex_num 3 0))"
proof -
  have "\<not> IsRuleRevoked (ex_decided 4) (ex_revocation 4 (ex_num 3 0))"
    "0 \<le> CompareRulePosition (ex_decided 5) (ex_decided 4)" by code_simp+
  then show ?thesis by (rule IsRuleRevoked_antimono)
qed

theorem ValidateRevocation_no_weakening_witness:
  "0 \<le> CompareRuleNumbers (GetOutgoingRule (ex_revocation 5 (ex_num 3 0)))
     (GetOutgoingRule (ex_revocation 4 (ex_num 2 0)))"
proof -
  let ?cs = "ex_status ex_b (ex_decided 3) ''120'' (ex_revocation 4 (ex_num 2 0))"
  have v: "ValidateRevocation ex_parse ?cs (ex_revocation 5 (ex_num 3 0)) = None" by code_simp
  obtain stored where "ex_revocation 4 (ex_num 2 0) = Some stored" by (simp add: ex_revocation_def)
  with ValidateRevocation_no_weakening [OF v] show ?thesis by (simp add: ex_status_def)
qed

abbreviation ex_new_revocation :: "TermRevocation ptr" where
  "ex_new_revocation \<equiv> Some \<lparr>tr_revoked_below_term = 4, tr_accepted_coordinator_id = ex_orch,
     tr_coordinator_initiated_at = ex_time 200, tr_outgoing_rule = ex_num 3 0,
     tr_recruit_intent = Some \<lparr>ri_replace_decision = ex_num 3 0, ri_attempt = 1\<rparr>\<rparr>"

lemma ex_NewTermRevocation:
  "NewTermRevocation ex_statuses ex_orch (ex_time 200) 60 = Inr ex_new_revocation"
  "\<forall>cs \<in> set ex_statuses. position_wf (observed_position cs) \<and> terms_bounded cs"
  "some_decision ex_statuses"
  by code_simp+

theorem NewTermRevocation_revokes_observed_witness:
  "IsRuleRevoked (ex_decided 2) ex_new_revocation"
proof -
  have "ex_status ex_c (ex_decided 2) ''900'' None \<in> set ex_statuses" by simp
  with NewTermRevocation_revokes_observed [OF ex_NewTermRevocation]
  have "IsRuleRevoked (observed_position (ex_status ex_c (ex_decided 2) ''900'' None)) ex_new_revocation"
    by blast
  then show ?thesis by (simp add: observed_position_def ex_status_def)
qed

theorem NewTermRevocation_accepted_witness:
  "ValidateRevocation ex_parse (ex_status ex_b (ex_decided 3) ''120'' None) ex_new_revocation = None"
proof (rule NewTermRevocation_accepted [OF ex_NewTermRevocation])
  show "GetName ex_orch \<noteq> ''''" by code_simp
  show "ex_status ex_b (ex_decided 3) ''120'' None \<in> set ex_statuses" by simp
  show "ex_parse (PoolerPosition_GetLsn (GetCurrentPosition (ex_status ex_b (ex_decided 3) ''120'' None))) \<noteq> None"
    by code_simp
  show "GetCurrentPosition (ex_status ex_b (ex_decided 3) ''120'' None) \<noteq> None" by code_simp
  show "GetRecruitBlockedUntil (ex_status ex_b (ex_decided 3) ''120'' None) = None" by code_simp
  show "0 \<le> CompareRuleNumbers (GetOutgoingRule ex_new_revocation)
      (GetOutgoingRule (GetTermRevocation (ex_status ex_b (ex_decided 3) ''120'' None)))" by code_simp
qed

theorem HighestRevokedBelowTermRevocation_order_independent_witness:
  "CompareRevocations
     (HighestRevokedBelowTermRevocation [ex_revocation 4 (ex_num 3 0), ex_revocation 5 (ex_num 3 0)])
     (HighestRevokedBelowTermRevocation [ex_revocation 5 (ex_num 3 0), ex_revocation 4 (ex_num 3 0)]) = 0"
proof -
  let ?xs = "[ex_revocation 4 (ex_num 3 0), ex_revocation 5 (ex_num 3 0)]"
  have "\<forall>r \<in> set ?xs. 0 < GetRevokedBelowTerm r" by code_simp
  moreover have "set [ex_revocation 5 (ex_num 3 0), ex_revocation 4 (ex_num 3 0)] = set ?xs" by auto
  ultimately show ?thesis using HighestRevokedBelowTermRevocation_order_independent by blast
qed

end
