(* ===== verification/Action_Lock.thy ===== *)
theory Action_Lock
  imports Go_Prelude
begin

text \<open>
  The pooler's action lock (go/services/multipooler/internal/manager/actionlock/action_lock.go):
  a semaphore whose ownership is proved by a context. A context is modelled by the lock value it
  carries, if any. The \<open>released\<close> flag of a lock value is a shared \<open>*atomic.Bool\<close>, which
  several contexts may point to, so the flags live in the lock state, in the order they were
  allocated, and a lock value holds the address of its flag.

  The semaphore is third-party code (golang.org/x/sync) and is the parameter \<open>sema\<close>: given
  whether it is taken, it grants, fails (the context was cancelled) or blocks. What the lock
  relies on is \<open>sema_exclusive\<close>.
\<close>

datatype PostgresAction = POSTGRES_ACTION_UNSPECIFIED | PostgresActionOther int

datatype sema_outcome = SemaGranted | SemaFailed string | SemaBlocked

record actionLockValue =
  lockID :: "64 word"
  operation :: string
  released :: nat

type_synonym lock_ctx = "actionLockValue ptr"

record ActionLock =
  sema_taken :: bool
  currentID :: "64 word"
  nextID :: "64 word"
  activeAction :: PostgresAction
  activeActionStartedAt :: go_time
  released_flags :: "bool list"

datatype acquire_outcome =
    AcquireAlreadyHeld string
  | AcquireFailed string
  | AcquireBlocked
  | Acquired ActionLock lock_ctx

datatype lock_error =
    ErrNoActionLock
  | ErrActionLockReleased

datatype release_panic =
    PanicNoLockInfo
  | PanicReleasedTwice string
  | PanicNotHolder string "64 word" "64 word"

definition NewActionLock :: ActionLock where
  "NewActionLock = \<lparr>sema_taken = False, currentID = 0, nextID = 1,
     activeAction = POSTGRES_ACTION_UNSPECIFIED, activeActionStartedAt = zero_time, released_flags = []\<rparr>"

definition is_released :: "ActionLock \<Rightarrow> actionLockValue \<Rightarrow> bool" where
  "is_released al val \<longleftrightarrow> released val < length (released_flags al) \<and> released_flags al ! released val"

definition holds_lock :: "ActionLock \<Rightarrow> lock_ctx \<Rightarrow> bool" where
  "holds_lock al ctx = (case ctx of None \<Rightarrow> False | Some val \<Rightarrow> \<not> is_released al val)"

definition Acquire :: "(bool \<Rightarrow> sema_outcome) \<Rightarrow> ActionLock \<Rightarrow> lock_ctx \<Rightarrow> string \<Rightarrow> acquire_outcome" where
  "Acquire sema al ctx op =
     (if holds_lock al ctx then AcquireAlreadyHeld (operation (the ctx))
      else case sema (sema_taken al) of
             SemaFailed err \<Rightarrow> AcquireFailed err
           | SemaBlocked \<Rightarrow> AcquireBlocked
           | SemaGranted \<Rightarrow>
               let i = nextID al;
                   val = \<lparr>lockID = i, operation = op, released = length (released_flags al)\<rparr>
               in Acquired (al\<lparr>sema_taken := True, nextID := i + 1, currentID := i,
                               released_flags := released_flags al @ [False]\<rparr>) (Some val))"

definition Release :: "ActionLock \<Rightarrow> lock_ctx \<Rightarrow> release_panic + ActionLock" where
  "Release al ctx =
     (case ctx of
        None \<Rightarrow> Inl PanicNoLockInfo
      | Some val \<Rightarrow>
          if is_released al val then Inl (PanicReleasedTwice (operation val))
          else if lockID val \<noteq> currentID al
          then Inl (PanicNotHolder (operation val) (lockID val) (currentID al))
          else Inr (al\<lparr>released_flags := (released_flags al)[released val := True],
                      currentID := 0, activeAction := POSTGRES_ACTION_UNSPECIFIED,
                      activeActionStartedAt := zero_time, sema_taken := False\<rparr>))"

definition AssertActionLockHeld :: "ActionLock \<Rightarrow> lock_ctx \<Rightarrow> lock_error option" where
  "AssertActionLockHeld al ctx =
     (case ctx of
        None \<Rightarrow> Some ErrNoActionLock
      | Some val \<Rightarrow> if is_released al val then Some ErrActionLockReleased else None)"

definition SetAction :: "ActionLock \<Rightarrow> lock_ctx \<Rightarrow> PostgresAction \<Rightarrow> go_time \<Rightarrow> lock_error + ActionLock" where
  "SetAction al ctx action now =
     (case AssertActionLockHeld al ctx of
        Some err \<Rightarrow> Inl err
      | None \<Rightarrow> Inr (al\<lparr>activeAction := action, activeActionStartedAt := now\<rparr>))"

definition ActiveAction :: "ActionLock \<Rightarrow> go_time \<Rightarrow> PostgresAction \<times> duration" where
  "ActiveAction al now =
     (if activeAction al = POSTGRES_ACTION_UNSPECIFIED then (POSTGRES_ACTION_UNSPECIFIED, 0)
      else (activeAction al, time_Sub now (activeActionStartedAt al)))"

definition carryLock :: "lock_ctx \<Rightarrow> lock_ctx \<Rightarrow> lock_ctx" where
  "carryLock dst src = (case src of Some val \<Rightarrow> Some val | None \<Rightarrow> dst)"

definition lock_Detach :: "lock_ctx \<Rightarrow> lock_ctx" where
  "lock_Detach ctx = carryLock None ctx"

section \<open>Histories of the lock\<close>

text \<open>The documented contract of a binary semaphore: it is not granted while it is taken.\<close>

definition sema_exclusive :: "(bool \<Rightarrow> sema_outcome) \<Rightarrow> bool" where
  "sema_exclusive sema \<longleftrightarrow> sema True \<noteq> SemaGranted"

text \<open>
  The states of a lock under any sequence of calls, together with the lock values handed out so
  far, in the order they were handed out.
\<close>

inductive lock_run :: "ActionLock \<Rightarrow> actionLockValue list \<Rightarrow> bool" where
  lock_new: "lock_run NewActionLock []"
| lock_acquire: "lock_run al vs \<Longrightarrow> sema_exclusive sema \<Longrightarrow>
    Acquire sema al ctx op = Acquired al' (Some v) \<Longrightarrow> lock_run al' (vs @ [v])"
| lock_release: "lock_run al vs \<Longrightarrow> v \<in> set vs \<Longrightarrow> Release al (Some v) = Inr al' \<Longrightarrow> lock_run al' vs"
| lock_action: "lock_run al vs \<Longrightarrow> v \<in> set vs \<Longrightarrow> SetAction al (Some v) action now = Inr al' \<Longrightarrow>
    lock_run al' vs"

text \<open>
  Each value points to its own flag; the flags not yet released belong to the one holder, whose
  number is the current one, and there is a holder exactly while the semaphore is taken.
\<close>

definition lock_inv :: "ActionLock \<Rightarrow> actionLockValue list \<Rightarrow> bool" where
  "lock_inv al vs \<longleftrightarrow>
     length (released_flags al) = length vs \<and>
     (\<forall>i < length vs. released (vs ! i) = i) \<and>
     (sema_taken al \<longrightarrow> (\<exists>i < length vs. currentID al = lockID (vs ! i) \<and>
        (\<forall>j < length vs. \<not> released_flags al ! j \<longleftrightarrow> j = i))) \<and>
     (\<not> sema_taken al \<longrightarrow> currentID al = 0 \<and> (\<forall>j < length vs. released_flags al ! j)) \<and>
     (\<not> sema_taken al \<longrightarrow> activeAction al = POSTGRES_ACTION_UNSPECIFIED)"

lemma lock_inv_holder:
  assumes "lock_inv al vs" "v \<in> set vs" "\<not> is_released al v"
  shows "sema_taken al" "currentID al = lockID v"
    "\<forall>j < length vs. \<not> released_flags al ! j \<longleftrightarrow> j = released v" "released v < length vs"
    "vs ! released v = v"
proof -
  from assms(2) obtain i where i: "i < length vs" "v = vs ! i" by (auto simp: in_set_conv_nth)
  with assms(1) have r: "released v = i" by (simp add: lock_inv_def)
  with assms i have nr: "\<not> released_flags al ! i" by (simp add: lock_inv_def is_released_def)
  with assms(1) i show taken: "sema_taken al" by (auto simp: lock_inv_def)
  with assms(1) obtain h where h: "h < length vs" "currentID al = lockID (vs ! h)"
    "\<forall>j < length vs. \<not> released_flags al ! j \<longleftrightarrow> j = h" unfolding lock_inv_def by blast
  with nr i have "h = i" by blast
  with h i r show "currentID al = lockID v"
    "\<forall>j < length vs. \<not> released_flags al ! j \<longleftrightarrow> j = released v" "released v < length vs"
    "vs ! released v = v" by simp_all
qed

lemma lock_inv_acquire:
  assumes inv: "lock_inv al vs" and "sema_exclusive sema"
    and acq: "Acquire sema al ctx op = Acquired al' (Some v)"
  shows "lock_inv al' (vs @ [v])"
proof -
  from acq have g: "sema (sema_taken al) = SemaGranted"
    and v: "v = \<lparr>lockID = nextID al, operation = op, released = length (released_flags al)\<rparr>"
    and al': "al' = al\<lparr>sema_taken := True, nextID := nextID al + 1, currentID := nextID al,
      released_flags := released_flags al @ [False]\<rparr>"
    by (auto simp: Acquire_def Let_def split: if_splits sema_outcome.splits)
  from g assms(2) have free: "\<not> sema_taken al" by (auto simp: sema_exclusive_def)
  with inv have all: "length (released_flags al) = length vs"
    "\<forall>i < length vs. released (vs ! i) = i" "\<forall>j < length vs. released_flags al ! j"
    by (simp_all add: lock_inv_def)
  have "\<forall>j < length (vs @ [v]). \<not> released_flags al' ! j \<longleftrightarrow> j = length vs"
    using all by (auto simp: al' nth_append less_Suc_eq)
  moreover have "\<forall>i < length (vs @ [v]). released ((vs @ [v]) ! i) = i"
    using all by (auto simp: v nth_append less_Suc_eq)
  moreover have "currentID al' = lockID ((vs @ [v]) ! length vs)" by (simp add: al' v)
  ultimately show ?thesis
    using all(1) unfolding lock_inv_def by (auto simp: al' intro!: exI [of _ "length vs"])
qed

lemma lock_inv_release:
  assumes inv: "lock_inv al vs" "v \<in> set vs" and rel: "Release al (Some v) = Inr al'"
  shows "lock_inv al' vs" "\<not> sema_taken al'" "is_released al' v"
proof -
  from rel have nr: "\<not> is_released al v"
    and al': "al' = al\<lparr>released_flags := (released_flags al)[released v := True], currentID := 0,
      activeAction := POSTGRES_ACTION_UNSPECIFIED, activeActionStartedAt := zero_time, sema_taken := False\<rparr>"
    by (auto simp: Release_def split: if_splits)
  note h = lock_inv_holder [OF inv nr]
  have len: "length (released_flags al) = length vs" "\<forall>i < length vs. released (vs ! i) = i"
    using inv(1) by (simp_all add: lock_inv_def)
  have "\<forall>j < length vs. released_flags al' ! j" using h(3) len(1) by (auto simp: al' nth_list_update)
  with len show "lock_inv al' vs" by (simp add: lock_inv_def al')
  show "\<not> sema_taken al'" "is_released al' v" using h(4) len by (simp_all add: al' is_released_def)
qed

lemma lock_inv_setaction:
  assumes "lock_inv al vs" "SetAction al (Some v) action now = Inr al'" "v \<in> set vs"
  shows "lock_inv al' vs"
proof -
  from assms(2) have nr: "\<not> is_released al v"
    and al': "al' = al\<lparr>activeAction := action, activeActionStartedAt := now\<rparr>"
    by (auto simp: SetAction_def AssertActionLockHeld_def split: if_splits option.splits)
  from lock_inv_holder(1) [OF assms(1,3) nr] assms(1) show ?thesis by (simp add: lock_inv_def al')
qed

lemma lock_run_inv: "lock_run al vs \<Longrightarrow> lock_inv al vs"
proof (induction rule: lock_run.induct)
  case lock_new
  then show ?case by (simp add: lock_inv_def NewActionLock_def)
next
  case lock_acquire
  then show ?case by (blast intro: lock_inv_acquire)
next
  case lock_release
  then show ?case by (blast intro: lock_inv_release)
next
  case lock_action
  then show ?case by (blast intro: lock_inv_setaction)
qed

text \<open>
  C35: in every history of the lock, at most one lock value proves ownership at a time, and its
  holder can release it without a panic, after which it proves nothing and the semaphore is free.
\<close>

theorem action_lock_exclusive:
  assumes "lock_run al vs" "v \<in> set vs" "AssertActionLockHeld al (Some v) = None"
  shows "(\<forall>w \<in> set vs. AssertActionLockHeld al (Some w) = None \<longrightarrow> w = v) \<and>
         (\<exists>al'. Release al (Some v) = Inr al' \<and> \<not> sema_taken al' \<and>
            AssertActionLockHeld al' (Some v) = Some ErrActionLockReleased)"
proof -
  note inv = lock_run_inv [OF assms(1)]
  from assms(3) have nr: "\<not> is_released al v" by (simp add: AssertActionLockHeld_def split: if_splits)
  note h = lock_inv_holder [OF inv assms(2) nr]
  have "w = v" if w: "w \<in> set vs" "AssertActionLockHeld al (Some w) = None" for w
  proof -
    from w(2) have "\<not> is_released al w" by (simp add: AssertActionLockHeld_def split: if_splits)
    note hw = lock_inv_holder [OF inv w(1) this]
    from hw(3,4) h(3) have "released w = released v" by blast
    with hw(5) h(5) show ?thesis by metis
  qed
  moreover from h(2) nr obtain al' where rel: "Release al (Some v) = Inr al'"
    by (simp add: Release_def)
  moreover from lock_inv_release [OF inv assms(2) rel]
  have "\<not> sema_taken al'" "AssertActionLockHeld al' (Some v) = Some ErrActionLockReleased"
    by (simp_all add: AssertActionLockHeld_def)
  ultimately show ?thesis by blast
qed

text \<open>
  A context that already proves ownership cannot acquire the lock again, and the lock value
  of a detached context is the caller's, so releasing it once revokes both contexts.
\<close>

theorem action_lock_not_reentrant:
  assumes "AssertActionLockHeld al ctx = None"
  shows "Acquire sema al ctx op = AcquireAlreadyHeld (operation (the ctx)) \<and>
         AssertActionLockHeld al (lock_Detach ctx) = None \<and>
         (\<forall>al'. Release al ctx = Inr al' \<longrightarrow> released (the ctx) < length (released_flags al) \<longrightarrow>
            AssertActionLockHeld al' (lock_Detach ctx) = Some ErrActionLockReleased)"
  using assms
  by (auto simp: AssertActionLockHeld_def Acquire_def holds_lock_def lock_Detach_def carryLock_def
      Release_def is_released_def split: option.splits if_splits)

section \<open>Concrete instances\<close>

text \<open>A semaphore that grants at once when it is free and blocks otherwise.\<close>

definition ex_sema :: "bool \<Rightarrow> sema_outcome" where
  "ex_sema taken = (if taken then SemaBlocked else SemaGranted)"

definition ex_value :: actionLockValue where
  "ex_value = \<lparr>lockID = 1, operation = ''recruit'', released = 0\<rparr>"

definition ex_locked :: ActionLock where
  "ex_locked = NewActionLock\<lparr>sema_taken := True, nextID := 2, currentID := 1, released_flags := [False]\<rparr>"

theorem action_lock_exclusive_witness:
  "\<exists>al'. Release ex_locked (Some ex_value) = Inr al' \<and> \<not> sema_taken al'"
proof -
  have "sema_exclusive ex_sema" by (simp add: sema_exclusive_def ex_sema_def)
  moreover have "Acquire ex_sema NewActionLock None ''recruit'' = Acquired ex_locked (Some ex_value)"
    by (simp add: Acquire_def holds_lock_def ex_sema_def ex_locked_def ex_value_def NewActionLock_def Let_def)
  ultimately have run: "lock_run ex_locked [ex_value]"
    using lock_run.lock_acquire [OF lock_run.lock_new, of ex_sema None "''recruit''"] by fastforce
  have "AssertActionLockHeld ex_locked (Some ex_value) = None"
    by (simp add: AssertActionLockHeld_def is_released_def ex_locked_def ex_value_def)
  from action_lock_exclusive [OF run _ this] show ?thesis by auto
qed

theorem action_lock_not_reentrant_witness:
  "Acquire ex_sema ex_locked (Some ex_value) ''restore'' = AcquireAlreadyHeld ''recruit''"
proof -
  have "AssertActionLockHeld ex_locked (Some ex_value) = None"
    by (simp add: AssertActionLockHeld_def is_released_def ex_locked_def ex_value_def)
  from action_lock_not_reentrant [OF this] show ?thesis by (simp add: ex_value_def)
qed

end
