(* ===== verification/Promises.thy ===== *)
theory Promises
  imports Revocation Action_Lock
begin

text \<open>
  A pooler's durable promises (consensus_promises.go and promise_storage.go under
  go/services/multipooler/internal/manager/consensus, and go/tools/fileutil/atomic.go).

  The file system is the record \<open>disk\<close>: the directory as running processes see it, and as it
  would be found after a power loss. A rename changes only the former; the latter catches up
  when the directory itself is synced. Each system call of \<open>AtomicWriteFile\<close> may fail, which
  the argument of type \<open>write_io\<close> says. protojson is third-party code: the parameter
  \<open>codec\<close>, of which only \<open>codec_ok\<close> is used, that a written message is read back.
\<close>

record ConsensusPromisesPb =
  cpp_term_revocation :: "TermRevocation ptr"
  cpp_recruit_blocked_until :: "LsnPosition ptr"

definition zero_ConsensusPromisesPb :: ConsensusPromisesPb where
  "zero_ConsensusPromisesPb = \<lparr>cpp_term_revocation = None, cpp_recruit_blocked_until = None\<rparr>"

record protojson_codec =
  Marshal :: "ConsensusPromisesPb \<Rightarrow> string option"
  Unmarshal :: "string \<Rightarrow> ConsensusPromisesPb option"

definition codec_ok :: "protojson_codec \<Rightarrow> bool" where
  "codec_ok codec \<longleftrightarrow> (\<forall>m data. Marshal codec m = Some data \<longrightarrow> Unmarshal codec data = Some m)"

record disk =
  dir_view :: "string \<rightharpoonup> string"
  dir_durable :: "string \<rightharpoonup> string"

datatype write_io =
    IoOk | IoFailCreateTemp | IoFailChmod | IoFailWrite | IoFailSync | IoFailClose | IoFailRename

record ConsensusPromises =
  poolerDir :: string
  serviceID :: "ID ptr"
  cp_revocation :: "TermRevocation ptr"
  cp_recruitBlockedUntil :: "LsnPosition ptr"

datatype promise_error =
    PrErr_Lock lock_error
  | PrErr_ReadFile
  | PrErr_Unmarshal
  | PrErr_Marshal
  | PrErr_AtomicWrite write_io
  | PrErr_StatusOutOfDate
  | PrErr_NilDereference
  | PrErr_Refused revocation_error

subsection \<open>The promises file\<close>

definition AtomicWriteFile :: "write_io \<Rightarrow> disk \<Rightarrow> string \<Rightarrow> string \<Rightarrow> write_io option \<times> disk" where
  "AtomicWriteFile io d path data =
     (case io of
        IoOk \<Rightarrow> (None, d\<lparr>dir_view := (dir_view d)(path \<mapsto> data)\<rparr>)
      | err \<Rightarrow> (Some err, d))"

definition promisesFilePath :: "ConsensusPromises \<Rightarrow> string" where
  "promisesFilePath cs = filepath_Join (poolerDir cs) ''consensus_promises.json''"

definition readPromisesFromDisk ::
  "protojson_codec \<Rightarrow> bool \<Rightarrow> ConsensusPromises \<Rightarrow> disk \<Rightarrow> promise_error + ConsensusPromisesPb" where
  "readPromisesFromDisk codec read_ok cs d =
     (case dir_view d (promisesFilePath cs) of
        None \<Rightarrow> Inr zero_ConsensusPromisesPb
      | Some data \<Rightarrow>
          if \<not> read_ok then Inl PrErr_ReadFile
          else case Unmarshal codec data of
                 None \<Rightarrow> Inl PrErr_Unmarshal
               | Some file \<Rightarrow> Inr file)"

definition writePromisesToDisk ::
  "protojson_codec \<Rightarrow> write_io \<Rightarrow> ConsensusPromises \<Rightarrow> disk \<Rightarrow> ConsensusPromisesPb \<Rightarrow>
     promise_error option \<times> disk" where
  "writePromisesToDisk codec io cs d promises =
     (case Marshal codec promises of
        None \<Rightarrow> (Some PrErr_Marshal, d)
      | Some data \<Rightarrow>
          (case AtomicWriteFile io d (promisesFilePath cs) data of
             (Some err, d') \<Rightarrow> (Some (PrErr_AtomicWrite err), d')
           | (None, d') \<Rightarrow> (None, d')))"

subsection \<open>Promises in memory\<close>

definition NewConsensusPromises :: "string \<Rightarrow> ID ptr \<Rightarrow> ConsensusPromises" where
  "NewConsensusPromises dir sid =
     \<lparr>poolerDir = dir, serviceID = sid, cp_revocation = None, cp_recruitBlockedUntil = None\<rparr>"

definition Load ::
  "protojson_codec \<Rightarrow> bool \<Rightarrow> ConsensusPromises \<Rightarrow> disk \<Rightarrow> (promise_error + int) \<times> ConsensusPromises" where
  "Load codec read_ok cs d =
     (case readPromisesFromDisk codec read_ok cs d of
        Inl err \<Rightarrow> (Inl err, cs)
      | Inr file \<Rightarrow>
          let revocation = (if cpp_term_revocation file = None then Some zero_TermRevocation
                            else cpp_term_revocation file)
          in (Inr (GetRevokedBelowTerm revocation),
              cs\<lparr>cp_revocation := revocation,
                 cp_recruitBlockedUntil := cpp_recruit_blocked_until file\<rparr>))"

definition cloneRecruitBlockedUntil :: "LsnPosition ptr \<Rightarrow> LsnPosition ptr" where
  "cloneRecruitBlockedUntil pos = (if pos = None then None else pos)"

definition cloneRevocation :: "TermRevocation ptr \<Rightarrow> TermRevocation ptr" where
  "cloneRevocation rv = (if rv = None then None else rv)"

definition Promises_GetRecruitBlockedUntil :: "ConsensusPromises \<Rightarrow> LsnPosition ptr" where
  "Promises_GetRecruitBlockedUntil cs = cloneRecruitBlockedUntil (cp_recruitBlockedUntil cs)"

definition persistLocked ::
  "protojson_codec \<Rightarrow> write_io \<Rightarrow> ConsensusPromises \<Rightarrow> disk \<Rightarrow> TermRevocation ptr \<Rightarrow> LsnPosition ptr \<Rightarrow>
     promise_error option \<times> disk" where
  "persistLocked codec io cs d revocation floor =
     (let revocation = (if revocation = None then cp_revocation cs else revocation);
          floor = (if floor = None then cp_recruitBlockedUntil cs else floor)
      in writePromisesToDisk codec io cs d
           \<lparr>cpp_term_revocation = revocation, cpp_recruit_blocked_until = floor\<rparr>)"

definition SetRecruitBlockedUntil ::
  "protojson_codec \<Rightarrow> write_io \<Rightarrow> ActionLock \<Rightarrow> lock_ctx \<Rightarrow> ConsensusPromises \<Rightarrow> disk \<Rightarrow> LsnPosition ptr \<Rightarrow>
     promise_error option \<times> ConsensusPromises \<times> disk" where
  "SetRecruitBlockedUntil codec io al ctx cs d pos =
     (case AssertActionLockHeld al ctx of
        Some err \<Rightarrow> (Some (PrErr_Lock err), cs, d)
      | None \<Rightarrow>
          (case persistLocked codec io cs d None pos of
             (Some err, d') \<Rightarrow> (Some err, cs, d')
           | (None, d') \<Rightarrow>
               (None, cs\<lparr>cp_recruitBlockedUntil := cloneRecruitBlockedUntil pos\<rparr>, d')))"

definition GetInconsistentRevocation :: "ConsensusPromises \<Rightarrow> TermRevocation ptr" where
  "GetInconsistentRevocation cs =
     (if cp_revocation cs = None then None else cloneRevocation (cp_revocation cs))"

definition GetRevocation ::
  "ActionLock \<Rightarrow> lock_ctx \<Rightarrow> ConsensusPromises \<Rightarrow> promise_error + TermRevocation ptr" where
  "GetRevocation al ctx cs =
     (case AssertActionLockHeld al ctx of
        Some err \<Rightarrow> Inl (PrErr_Lock err)
      | None \<Rightarrow> if cp_revocation cs = None then Inr None else Inr (cloneRevocation (cp_revocation cs)))"

definition saveAndUpdateLocked ::
  "protojson_codec \<Rightarrow> write_io \<Rightarrow> ConsensusPromises \<Rightarrow> disk \<Rightarrow> TermRevocation ptr \<Rightarrow>
     promise_error option \<times> ConsensusPromises \<times> disk" where
  "saveAndUpdateLocked codec io cs d newRevocation =
     (case persistLocked codec io cs d newRevocation None of
        (Some err, d') \<Rightarrow> (Some err, cs, d')
      | (None, d') \<Rightarrow> (None, cs\<lparr>cp_revocation := cloneRevocation newRevocation\<rparr>, d'))"

definition AcceptRevocation ::
  "(string \<Rightarrow> lsn option) \<Rightarrow> protojson_codec \<Rightarrow> write_io \<Rightarrow> ActionLock \<Rightarrow> lock_ctx \<Rightarrow>
     ConsensusPromises \<Rightarrow> disk \<Rightarrow> ConsensusStatus ptr \<Rightarrow> TermRevocation ptr \<Rightarrow>
     promise_error option \<times> ConsensusPromises \<times> disk" where
  "AcceptRevocation parse_lsn codec io al ctx cs d status revocation =
     (case AssertActionLockHeld al ctx of
        Some err \<Rightarrow> (Some (PrErr_Lock err), cs, d)
      | None \<Rightarrow>
          (case status of
             None \<Rightarrow> (Some PrErr_NilDereference, cs, d)
           | Some st \<Rightarrow>
               if cs_term_revocation st \<noteq> cp_revocation cs then (Some PrErr_StatusOutOfDate, cs, d)
               else case ValidateRevocation parse_lsn status revocation of
                      Some err \<Rightarrow> (Some (PrErr_Refused err), cs, d)
                    | None \<Rightarrow> saveAndUpdateLocked codec io cs d (cloneRevocation revocation)))"

section \<open>Writing and reading back\<close>

lemma clone_simps [simp]: "cloneRevocation rv = rv" "cloneRecruitBlockedUntil pos = pos"
  by (simp_all add: cloneRevocation_def cloneRecruitBlockedUntil_def)

lemma persistLocked_cases:
  assumes "persistLocked codec io cs d rv fl = (err, d')"
  shows "err \<noteq> None \<Longrightarrow> d' = d"
    and "err = None \<Longrightarrow> codec_ok codec \<Longrightarrow> promisesFilePath cs' = promisesFilePath cs \<Longrightarrow>
      readPromisesFromDisk codec True cs' d' =
        Inr \<lparr>cpp_term_revocation = (if rv = None then cp_revocation cs else rv),
             cpp_recruit_blocked_until = (if fl = None then cp_recruitBlockedUntil cs else fl)\<rparr>"
  using assms
  by (auto simp: persistLocked_def writePromisesToDisk_def AtomicWriteFile_def Let_def
      readPromisesFromDisk_def codec_ok_def split: option.splits write_io.splits prod.splits)

lemma promisesFilePath_simps [simp]:
  "promisesFilePath (cs\<lparr>cp_revocation := rv\<rparr>) = promisesFilePath cs"
  "promisesFilePath (cs\<lparr>cp_recruitBlockedUntil := fl\<rparr>) = promisesFilePath cs"
  by (simp_all add: promisesFilePath_def)

section \<open>The life of a promise\<close>

text \<open>What the disk promises: a missing file or a file without a revocation promises nothing.\<close>

definition disk_revocation :: "protojson_codec \<Rightarrow> ConsensusPromises \<Rightarrow> disk \<Rightarrow> TermRevocation ptr" where
  "disk_revocation codec cs d =
     (case readPromisesFromDisk codec True cs d of
        Inl _ \<Rightarrow> None
      | Inr file \<Rightarrow> if cpp_term_revocation file = None then Some zero_TermRevocation
                    else cpp_term_revocation file)"

text \<open>
  The histories of one pooler: it starts by loading its promises; it accepts or refuses
  revocations, sets recruit floors, with any input-output failures; and it may crash and start
  again at any time. The list holds the promise found at the start and those accepted since.
\<close>

inductive promise_run ::
  "(string \<Rightarrow> lsn option) \<Rightarrow> protojson_codec \<Rightarrow> ConsensusPromises \<Rightarrow> disk \<Rightarrow> TermRevocation ptr list \<Rightarrow> bool"
  for parse_lsn :: "string \<Rightarrow> lsn option" and codec :: protojson_codec where
  run_start: "Load codec read_ok (NewConsensusPromises dir sid) d = (Inr t, cs) \<Longrightarrow>
    promise_run parse_lsn codec cs d [cp_revocation cs]"
| run_accept: "promise_run parse_lsn codec cs d hist \<Longrightarrow>
    AcceptRevocation parse_lsn codec io al ctx cs d status rv = (None, cs', d') \<Longrightarrow>
    promise_run parse_lsn codec cs' d' (hist @ [rv])"
| run_refuse: "promise_run parse_lsn codec cs d hist \<Longrightarrow>
    AcceptRevocation parse_lsn codec io al ctx cs d status rv = (Some err, cs', d') \<Longrightarrow>
    promise_run parse_lsn codec cs' d' hist"
| run_floor: "promise_run parse_lsn codec cs d hist \<Longrightarrow>
    SetRecruitBlockedUntil codec io al ctx cs d pos = (res, cs', d') \<Longrightarrow>
    promise_run parse_lsn codec cs' d' hist"
| run_restart: "promise_run parse_lsn codec cs d hist \<Longrightarrow>
    Load codec read_ok (NewConsensusPromises (poolerDir cs) sid) d = (Inr t, cs') \<Longrightarrow>
    promise_run parse_lsn codec cs' d hist"

text \<open>The order in which promises may follow each other.\<close>

definition promise_le :: "TermRevocation ptr \<Rightarrow> TermRevocation ptr \<Rightarrow> bool" where
  "promise_le a b \<longleftrightarrow>
     GetRevokedBelowTerm a \<le> GetRevokedBelowTerm b \<and>
     0 \<le> CompareRuleNumbers (GetOutgoingRule b) (GetOutgoingRule a) \<and>
     (GetRevokedBelowTerm a = GetRevokedBelowTerm b \<longrightarrow>
        ClusterIDString (GetAcceptedCoordinatorId a) = ClusterIDString (GetAcceptedCoordinatorId b) \<and>
        GetCoordinatorInitiatedAt a = GetCoordinatorInitiatedAt b)"

lemma promise_le_refl [simp]: "promise_le a a"
  by (simp add: promise_le_def)

lemma promise_le_trans:
  assumes "promise_le a b" "promise_le b c"
  shows "promise_le a c"
proof -
  have "0 \<le> CompareRuleNumbers (GetOutgoingRule c) (GetOutgoingRule a)"
    using assms rule_num.cmp_trans unfolding promise_le_def by blast
  with assms show ?thesis unfolding promise_le_def by auto
qed

text \<open>Memory, disk and history agree, and the history is sorted.\<close>

definition promises_inv ::
  "protojson_codec \<Rightarrow> ConsensusPromises \<Rightarrow> disk \<Rightarrow> TermRevocation ptr list \<Rightarrow> bool" where
  "promises_inv codec cs d hist \<longleftrightarrow>
     hist \<noteq> [] \<and> last hist = cp_revocation cs \<and> cp_revocation cs \<noteq> None \<and>
     disk_revocation codec cs d = cp_revocation cs \<and> sorted_wrt promise_le hist"

lemma Load_InrD:
  assumes "Load codec read_ok (NewConsensusPromises dir sid) d = (Inr t, cs)"
  shows "cp_revocation cs \<noteq> None" "disk_revocation codec cs d = cp_revocation cs" "poolerDir cs = dir"
    "t = GetRevokedBelowTerm (cp_revocation cs)"
  using assms
  by (auto simp: Load_def disk_revocation_def readPromisesFromDisk_def promisesFilePath_def
      NewConsensusPromises_def Let_def split: sum.splits option.splits if_splits)

lemma disk_revocation_cong:
  "poolerDir cs = poolerDir cs' \<Longrightarrow> disk_revocation codec cs d = disk_revocation codec cs' d"
  by (simp add: disk_revocation_def readPromisesFromDisk_def promisesFilePath_def)

lemma AcceptRevocation_NoneD:
  assumes "AcceptRevocation parse_lsn codec io al ctx cs d status rv = (None, cs', d')"
  shows "AssertActionLockHeld al ctx = None" "GetTermRevocation status = cp_revocation cs"
    "ValidateRevocation parse_lsn status rv = None"
    "cs' = cs\<lparr>cp_revocation := rv\<rparr>" "persistLocked codec io cs d rv None = (None, d')"
  using assms
  by (auto simp: AcceptRevocation_def saveAndUpdateLocked_def split: option.splits if_splits prod.splits)

lemma AcceptRevocation_SomeD:
  assumes "AcceptRevocation parse_lsn codec io al ctx cs d status rv = (Some err, cs', d')"
  shows "cs' = cs \<and> d' = d"
  using assms persistLocked_cases(1)
  by (auto simp: AcceptRevocation_def saveAndUpdateLocked_def
      split: option.splits if_splits prod.splits)

lemma promises_inv_accept:
  assumes inv: "promises_inv codec cs d hist" and "codec_ok codec"
    and acc: "AcceptRevocation parse_lsn codec io al ctx cs d status rv = (None, cs', d')"
  shows "promises_inv codec cs' d' (hist @ [rv])"
proof -
  note A = AcceptRevocation_NoneD [OF acc]
  have rv: "rv \<noteq> None" using ValidateRevocation_acceptD(1) [OF A(3)] .
  have "readPromisesFromDisk codec True cs' d' =
      Inr \<lparr>cpp_term_revocation = rv, cpp_recruit_blocked_until = cp_recruitBlockedUntil cs\<rparr>"
    using persistLocked_cases(2) [OF A(5) refl assms(2), of cs'] rv A(4) by simp
  then have disk: "disk_revocation codec cs' d' = rv" using rv by (simp add: disk_revocation_def)
  have "promise_le (cp_revocation cs) rv"
    using ValidateRevocation_acceptD(9) [OF A(3)] inv A(2)
    by (simp add: promise_le_def checkStoredRevocation_iff promises_inv_def)
  then have "sorted_wrt promise_le (hist @ [rv])"
    using inv sorted_wrt_extend [of promise_le hist rv] promise_le_trans
    by (auto simp: promises_inv_def)
  with disk rv A(4) show ?thesis by (simp add: promises_inv_def)
qed

lemma promises_inv_floor:
  assumes inv: "promises_inv codec cs d hist" and "codec_ok codec"
    and fl: "SetRecruitBlockedUntil codec io al ctx cs d pos = (res, cs', d')"
  shows "promises_inv codec cs' d' hist"
proof (cases "cs' = cs \<and> d' = d")
  case True
  with inv show ?thesis by simp
next
  case False
  with fl persistLocked_cases(1) have p: "persistLocked codec io cs d None pos = (None, d')"
    and cs': "cs' = cs\<lparr>cp_recruitBlockedUntil := pos\<rparr>"
    by (auto simp: SetRecruitBlockedUntil_def split: option.splits prod.splits)
  have "\<exists>f. readPromisesFromDisk codec True cs' d' = Inr \<lparr>cpp_term_revocation = cp_revocation cs,
      cpp_recruit_blocked_until = f\<rparr>"
    using persistLocked_cases(2) [OF p refl assms(2), of cs'] cs' by simp
  then have "disk_revocation codec cs' d' = cp_revocation cs"
    using inv by (auto simp: disk_revocation_def promises_inv_def)
  with inv show ?thesis by (simp add: promises_inv_def cs')
qed

lemma promise_run_inv:
  assumes "promise_run parse_lsn codec cs d hist" "codec_ok codec"
  shows "promises_inv codec cs d hist"
  using assms
proof (induction rule: promise_run.induct)
  case (run_start read_ok dir sid d t cs)
  then show ?case using Load_InrD [of codec read_ok dir sid d t cs] by (simp add: promises_inv_def)
next
  case run_accept
  then show ?case using promises_inv_accept by blast
next
  case run_refuse
  then show ?case using AcceptRevocation_SomeD by metis
next
  case run_floor
  then show ?case using promises_inv_floor by blast
next
  case (run_restart cs d hist read_ok sid t cs')
  note L = Load_InrD [OF run_restart.hyps(2)]
  have "disk_revocation codec cs' d = disk_revocation codec cs d"
    using L(3) by (rule disk_revocation_cong)
  with L run_restart show ?case by (simp add: promises_inv_def)
qed

text \<open>
  C7: through any sequence of accepted and refused revocations, recruit floors, write failures,
  crashes and restarts, the promises of a pooler only grow: each accepted revocation has at least
  the term and the outgoing rule of all before it, and a restart finds exactly the last one.
\<close>

theorem promises_survive_restarts:
  assumes "promise_run parse_lsn codec cs d hist" "codec_ok codec"
  shows "sorted_wrt promise_le hist \<and> last hist = cp_revocation cs \<and>
         (\<exists>cs'. Load codec True (NewConsensusPromises (poolerDir cs) sid) d =
                  (Inr (GetRevokedBelowTerm (last hist)), cs') \<and> cp_revocation cs' = last hist)"
proof -
  have inv: "promises_inv codec cs d hist" by (rule promise_run_inv [OF assms])
  let ?n = "NewConsensusPromises (poolerDir cs) sid"
  have "disk_revocation codec ?n d = last hist" "last hist \<noteq> None"
    using inv disk_revocation_cong [of ?n cs] by (simp_all add: promises_inv_def NewConsensusPromises_def)
  then have "\<exists>cs'. Load codec True ?n d = (Inr (GetRevokedBelowTerm (last hist)), cs') \<and>
      cp_revocation cs' = last hist"
    by (auto simp: Load_def disk_revocation_def Let_def split: sum.splits if_splits)
  with inv show ?thesis by (simp add: promises_inv_def)
qed

lemma promise_unique:
  assumes "promise_run parse_lsn codec cs d hist" "codec_ok codec"
    and "a \<in> set hist" "b \<in> set hist" "GetRevokedBelowTerm a = GetRevokedBelowTerm b"
  shows "ClusterIDString (GetAcceptedCoordinatorId a) = ClusterIDString (GetAcceptedCoordinatorId b) \<and>
         GetCoordinatorInitiatedAt a = GetCoordinatorInitiatedAt b"
proof -
  have s: "sorted_wrt promise_le hist" using promise_run_inv [OF assms(1,2)] by (simp add: promises_inv_def)
  from assms(3,4) obtain i j where ij: "i < length hist" "j < length hist" "a = hist ! i" "b = hist ! j"
    by (auto simp: in_set_conv_nth)
  have "promise_le a b \<or> promise_le b a"
    using s ij unfolding sorted_wrt_iff_nth_less by (metis linorder_neqE_nat promise_le_refl)
  with assms(5) show ?thesis by (auto simp: promise_le_def)
qed

text \<open>
  C8: in any history of a pooler, two promises at the same term were made to the same coordinator
  in the same recruitment round.
\<close>

theorem promise_unique_per_term:
  assumes "promise_run parse_lsn codec cs d hist" "codec_ok codec"
    and "a \<in> set hist" "b \<in> set hist" "GetRevokedBelowTerm a = GetRevokedBelowTerm b"
  shows "ClusterIDString (GetAcceptedCoordinatorId a) = ClusterIDString (GetAcceptedCoordinatorId b) \<and>
         GetCoordinatorInitiatedAt a = GetCoordinatorInitiatedAt b"
  using promise_unique [OF assms] .

text \<open>
  C34: accepting a revocation is all or nothing: on an error neither memory nor the visible disk
  changes; on success the caller held the action lock, the revocation passed validation
  against the stored promise, and memory and a fresh read of the disk both hold it, with the
  recruit floor unchanged.
\<close>

theorem AcceptRevocation_atomic:
  assumes "AcceptRevocation parse_lsn codec io al ctx cs d status rv = (res, cs', d')" "codec_ok codec"
  shows "(res \<noteq> None \<longrightarrow> cs' = cs \<and> d' = d) \<and>
         (res = None \<longrightarrow>
            AssertActionLockHeld al ctx = None \<and>
            GetTermRevocation status = cp_revocation cs \<and>
            ValidateRevocation parse_lsn status rv = None \<and>
            cp_revocation cs' = rv \<and> cp_recruitBlockedUntil cs' = cp_recruitBlockedUntil cs \<and>
            readPromisesFromDisk codec True cs' d' =
              Inr \<lparr>cpp_term_revocation = rv, cpp_recruit_blocked_until = cp_recruitBlockedUntil cs\<rparr>)"
proof (cases res)
  case (Some err)
  with assms(1) AcceptRevocation_SomeD show ?thesis by blast
next
  case None
  note A = AcceptRevocation_NoneD [OF assms(1) [unfolded None]]
  have rv: "rv \<noteq> None" using ValidateRevocation_acceptD(1) [OF A(3)] .
  with persistLocked_cases(2) [OF A(5) refl assms(2), of cs'] A None show ?thesis by simp
qed

section \<open>Concrete instances\<close>

text \<open>A codec for the messages of the example; other messages fail to marshal.\<close>

definition ex_file :: "int \<Rightarrow> ConsensusPromisesPb" where
  "ex_file t = \<lparr>cpp_term_revocation = ex_revocation t (ex_num 3 0), cpp_recruit_blocked_until = None\<rparr>"

definition ex_codec :: protojson_codec where
  "ex_codec = \<lparr>Marshal = (\<lambda>m. if m = ex_file 4 then Some ''4'' else if m = ex_file 5 then Some ''5'' else None),
     Unmarshal = (\<lambda>s. if s = ''4'' then Some (ex_file 4) else if s = ''5'' then Some (ex_file 5) else None)\<rparr>"

definition ex_disk :: disk where
  "ex_disk = \<lparr>dir_view = Map.empty, dir_durable = Map.empty\<rparr>"

definition ex_written :: disk where
  "ex_written = \<lparr>dir_view = [''/pooler/consensus_promises.json'' \<mapsto> ''4''], dir_durable = Map.empty\<rparr>"

definition ex_promises :: "TermRevocation ptr \<Rightarrow> ConsensusPromises" where
  "ex_promises rv = \<lparr>poolerDir = ''/pooler'', serviceID = ex_b, cp_revocation = rv,
     cp_recruitBlockedUntil = None\<rparr>"

lemma ex_codec_ok: "codec_ok ex_codec"
  by (auto simp: codec_ok_def ex_codec_def split: if_splits)

lemma ex_path: "promisesFilePath (ex_promises rv) = ''/pooler/consensus_promises.json''"
  by (simp add: promisesFilePath_def filepath_Join_def filepath_Clean_def clean_step_def
      ex_promises_def Let_def)

lemma ex_start:
  "Load ex_codec True (NewConsensusPromises ''/pooler'' ex_b) ex_disk =
     (Inr 0, ex_promises (Some zero_TermRevocation))"
  by (simp add: Load_def readPromisesFromDisk_def ex_disk_def zero_ConsensusPromisesPb_def
      NewConsensusPromises_def ex_promises_def zero_TermRevocation_def Let_def)

lemma ex_accept:
  "AcceptRevocation ex_parse ex_codec IoOk ex_locked (Some ex_value) (ex_promises (Some zero_TermRevocation))
     ex_disk (ex_status ex_b (ex_decided 3) ''120'' (Some zero_TermRevocation)) (ex_revocation 4 (ex_num 3 0)) =
   (None, ex_promises (ex_revocation 4 (ex_num 3 0)), ex_written)"
proof -
  have "ValidateRevocation ex_parse (ex_status ex_b (ex_decided 3) ''120'' (Some zero_TermRevocation))
      (ex_revocation 4 (ex_num 3 0)) = None" by code_simp
  moreover have "AssertActionLockHeld ex_locked (Some ex_value) = None"
    by (simp add: AssertActionLockHeld_def is_released_def ex_locked_def ex_value_def)
  moreover have "persistLocked ex_codec IoOk (ex_promises (Some zero_TermRevocation)) ex_disk
      (ex_revocation 4 (ex_num 3 0)) None = (None, ex_written)"
    unfolding persistLocked_def writePromisesToDisk_def ex_path
    by (simp add: ex_codec_def ex_file_def AtomicWriteFile_def ex_disk_def ex_written_def Let_def
        ex_promises_def ex_revocation_def)
  ultimately show ?thesis
    by (simp add: AcceptRevocation_def saveAndUpdateLocked_def ex_promises_def ex_status_def)
qed

lemma ex_run:
  "promise_run ex_parse ex_codec (ex_promises (ex_revocation 4 (ex_num 3 0))) ex_written
     [Some zero_TermRevocation, ex_revocation 4 (ex_num 3 0)]"
proof -
  have "promise_run ex_parse ex_codec (ex_promises (Some zero_TermRevocation)) ex_disk [Some zero_TermRevocation]"
    using promise_run.run_start [OF ex_start] by (simp add: ex_promises_def)
  from promise_run.run_accept [OF this ex_accept] show ?thesis by simp
qed

theorem promises_survive_restarts_witness:
  "\<exists>cs'. Load ex_codec True (NewConsensusPromises ''/pooler'' ex_b) ex_written = (Inr 4, cs') \<and>
     cp_revocation cs' = ex_revocation 4 (ex_num 3 0)"
  using promises_survive_restarts [OF ex_run ex_codec_ok, of ex_b]
  by (simp add: ex_promises_def) (simp add: ex_revocation_def)

theorem promise_unique_per_term_witness:
  "GetCoordinatorInitiatedAt (ex_revocation 4 (ex_num 3 0)) = ex_time 200"
  using promise_unique_per_term [OF ex_run ex_codec_ok, of "ex_revocation 4 (ex_num 3 0)" "ex_revocation 4 (ex_num 3 0)"]
  by (simp add: ex_revocation_def)

theorem AcceptRevocation_atomic_witness:
  "readPromisesFromDisk ex_codec True (ex_promises (ex_revocation 4 (ex_num 3 0))) ex_written =
     Inr \<lparr>cpp_term_revocation = ex_revocation 4 (ex_num 3 0), cpp_recruit_blocked_until = None\<rparr>"
  using AcceptRevocation_atomic [OF ex_accept ex_codec_ok] by (simp add: ex_promises_def)

text \<open>
  A power loss is not a restart: nothing in the write syncs the directory, so the rename may be
  undone, and an accepted promise with it.
\<close>

definition power_loss :: "disk \<Rightarrow> disk" where
  "power_loss d = d\<lparr>dir_view := dir_durable d\<rparr>"

lemma power_loss_forgets_promise:
  "\<exists>cs' d'. AcceptRevocation ex_parse ex_codec IoOk ex_locked (Some ex_value)
       (ex_promises (Some zero_TermRevocation)) ex_disk
       (ex_status ex_b (ex_decided 3) ''120'' (Some zero_TermRevocation)) (ex_revocation 4 (ex_num 3 0)) = (None, cs', d') \<and>
     fst (Load ex_codec True (NewConsensusPromises ''/pooler'' ex_b) (power_loss d')) = Inr 0"
proof -
  have "power_loss ex_written = ex_disk" by (simp add: power_loss_def ex_written_def ex_disk_def)
  with ex_accept ex_start show ?thesis by (metis fst_conv)
qed

text \<open>
  \<open>SetRecruitBlockedUntil\<close> with a \<open>nil\<close> floor clears the floor in memory and keeps it on disk.
\<close>

lemma SetRecruitBlockedUntil_nil_diverges:
  assumes "codec_ok codec" "AssertActionLockHeld al ctx = None"
    and "SetRecruitBlockedUntil codec io al ctx cs d None = (None, cs', d')"
  shows "cp_recruitBlockedUntil cs' = None \<and>
         (\<exists>file. readPromisesFromDisk codec True cs' d' = Inr file \<and>
            cpp_recruit_blocked_until file = cp_recruitBlockedUntil cs)"
proof -
  from assms(2,3) have p: "persistLocked codec io cs d None None = (None, d')"
    and cs': "cs' = cs\<lparr>cp_recruitBlockedUntil := None\<rparr>"
    by (auto simp: SetRecruitBlockedUntil_def split: option.splits prod.splits)
  with persistLocked_cases(2) [OF p refl assms(1), of cs'] show ?thesis by simp
qed

end
