(* ===== verification/Pooler_Role.thy ===== *)
theory Pooler_Role
  imports Revocation
begin

text \<open>
  The role a pooler plays by its own consensus status (go/common/consensus/pooler.go), and the
  condition under which it may accept writes.
\<close>

datatype ConsensusRole =
    ConsensusRoleObserver
  | ConsensusRoleFollower
  | ConsensusRoleLeader
  | ConsensusRoleOther int

primrec ConsensusRole_String :: "ConsensusRole \<Rightarrow> string" where
  "ConsensusRole_String ConsensusRoleLeader = ''leader''"
| "ConsensusRole_String ConsensusRoleFollower = ''follower''"
| "ConsensusRole_String ConsensusRoleObserver = ''observer''"
| "ConsensusRole_String (ConsensusRoleOther n) = ''unknown''"

definition SelfConsensusRole :: "ConsensusStatus ptr \<Rightarrow> ConsensusRole" where
  "SelfConsensusRole cs =
     (let rule = PossiblyUndecidedRule (HighestKnownRule [cs]);
          self = ConsensusStatus_GetId cs
      in if self = None then ConsensusRoleObserver
         else if RuleNamesLeader rule self then ConsensusRoleLeader
         else if list_ex (\<lambda>member. idsEqual member self) (GetCohortMembers rule)
         then ConsensusRoleFollower
         else ConsensusRoleObserver)"

definition IsActiveLeader :: "ConsensusStatus ptr \<Rightarrow> bool" where
  "IsActiveLeader cs =
     (let position = PoolerPosition_GetPosition (GetCurrentPosition cs);
          decision = GetDecision position
      in if \<not> RuleNamesLeader decision (ConsensusStatus_GetId cs) then False
         else if \<not> IsRuleDecided position \<and>
                 \<not> RuleNamesLeader (GetProposal position) (ConsensusStatus_GetId cs) then False
         else if IsRuleRevoked position (GetTermRevocation cs) then False
         else SelfConsensusRole cs = ConsensusRoleLeader)"

lemma RuleNamesLeader_unique:
  "RuleNamesLeader rule a \<Longrightarrow> RuleNamesLeader rule b \<Longrightarrow> idsEqual a b"
  by (auto simp: RuleNamesLeader_def idsEqual_def Let_def split: if_splits)

text \<open>
  Once a pooler has accepted a revocation it is no active leader, whatever else its status
  says: a status that passes \<open>ValidateRevocation\<close>, with the revocation stored, names no active
  leader.
\<close>

theorem accepted_revocation_fences_leader:
  assumes "ValidateRevocation parse_lsn (Some cs) rv = None"
  shows "\<not> IsActiveLeader (Some (cs\<lparr>cs_term_revocation := rv\<rparr>))"
  using ValidateRevocation_acceptD(7) [OF assms] by (simp add: IsActiveLeader_def Let_def)

text \<open>
  Poolers that have decided the same rule and are both active leaders are the same pooler.
\<close>

theorem active_leader_unique_per_decision:
  assumes "IsActiveLeader a" "IsActiveLeader b"
    and "GetDecision (PoolerPosition_GetPosition (GetCurrentPosition a)) =
         GetDecision (PoolerPosition_GetPosition (GetCurrentPosition b))"
  shows "idsEqual (ConsensusStatus_GetId a) (ConsensusStatus_GetId b)"
proof -
  let ?d = "\<lambda>cs. GetDecision (PoolerPosition_GetPosition (GetCurrentPosition cs))"
  have "RuleNamesLeader (?d a) (ConsensusStatus_GetId a)" "RuleNamesLeader (?d b) (ConsensusStatus_GetId b)"
    using assms(1,2) by (auto simp: IsActiveLeader_def Let_def split: if_splits)
  with assms(3) show ?thesis by (simp add: RuleNamesLeader_unique)
qed

section \<open>Concrete instances\<close>

theorem accepted_revocation_fences_leader_witness:
  "IsActiveLeader (ex_status ex_a (ex_decided 3) ''120'' None) \<and>
   \<not> IsActiveLeader (ex_status ex_a (ex_decided 3) ''120'' (ex_revocation 4 (ex_num 3 0)))"
proof -
  let ?rv = "ex_revocation 4 (ex_num 3 0)"
  let ?cs = "the (ex_status ex_a (ex_decided 3) ''120'' None)"
  have "ValidateRevocation ex_parse (Some ?cs) ?rv = None" by code_simp
  from accepted_revocation_fences_leader [OF this]
  have "\<not> IsActiveLeader (ex_status ex_a (ex_decided 3) ''120'' ?rv)" by (simp add: ex_status_def)
  moreover have "IsActiveLeader (ex_status ex_a (ex_decided 3) ''120'' None)" by code_simp
  ultimately show ?thesis by blast
qed

theorem active_leader_unique_per_decision_witness: "idsEqual ex_a ex_a"
proof -
  let ?s = "ex_status ex_a (ex_decided 3) ''120'' None" and ?t = "ex_status ex_a (ex_decided 3) ''130'' None"
  have a: "IsActiveLeader ?s" "IsActiveLeader ?t" by code_simp+
  have "GetDecision (PoolerPosition_GetPosition (GetCurrentPosition ?s)) =
      GetDecision (PoolerPosition_GetPosition (GetCurrentPosition ?t))" by code_simp
  from active_leader_unique_per_decision [OF a this] show ?thesis by (simp add: ex_status_def)
qed

end
