(* ===== verification/Backoff.thy ===== *)
theory Backoff
  imports Cluster_Ids
begin

unbundle bit_operations_syntax

text \<open>
  Retry delays (go/tools/retry/backoff.go and retry.go) and the collective failover backoff of
  the orchestrators (go/common/ha/backoff.go).

  A \<open>float64\<close> is a dyadic number, mantissa times a power of two, rounded to 53 bits, ties to
  even, after a conversion or a product; overflow to infinity and subnormal numbers, which
  delays cannot reach, are left out. A draw of \<open>rand.Float64\<close> is its numerator over \<open>2^53\<close>.
  The clock, the context and the draw of an attempt are arguments.
\<close>

subsection \<open>float64\<close>

datatype float64 = Float64 (mantissa: int) (exponent: int)

fun bit_length :: "nat \<Rightarrow> nat" where
  "bit_length n = (if n = 0 then 0 else Suc (bit_length (n div 2)))"

declare bit_length.simps [simp del]

definition round_half_even :: "nat \<Rightarrow> nat \<Rightarrow> nat" where
  "round_half_even n s =
     (let q = n div 2 ^ s; r = n mod 2 ^ s
      in if 2 * r > 2 ^ s \<or> (2 * r = 2 ^ s \<and> odd q) then q + 1 else q)"

definition float64_round :: "int \<Rightarrow> int \<Rightarrow> float64" where
  "float64_round m e =
     (let s = bit_length (nat \<bar>m\<bar>) - 53
      in if s = 0 then Float64 m e
         else Float64 (sgn m * int (round_half_even (nat \<bar>m\<bar>) s)) (e + int s))"

definition float64_of_int :: "int \<Rightarrow> float64" where
  "float64_of_int i = float64_round i 0"

definition float64_mult :: "float64 \<Rightarrow> float64 \<Rightarrow> float64" where
  "float64_mult x y = float64_round (mantissa x * mantissa y) (exponent x + exponent y)"

text \<open>Conversion to an integer type truncates towards zero.\<close>

definition int_of_float64 :: "float64 \<Rightarrow> int" where
  "int_of_float64 x =
     (if 0 \<le> exponent x then mantissa x * 2 ^ nat (exponent x)
      else sgn (mantissa x) * (\<bar>mantissa x\<bar> div 2 ^ nat (- exponent x)))"

subsection \<open>Exponential backoff\<close>

definition ExponentialBackoffMagnitude :: "duration \<Rightarrow> duration \<Rightarrow> int \<Rightarrow> duration" where
  "ExponentialBackoffMagnitude baseDelay maxDelay attempt =
     (let multiplier = (1 :: int) * 2 ^ nat (min (max attempt 0) 62)
      in if baseDelay > 0 \<and> multiplier > MaxInt64 div baseDelay then maxDelay
         else min (wrap64 (baseDelay * multiplier)) maxDelay)"

record exponentialFullJitterBackoff =
  eb_baseDelay :: duration
  eb_maxDelay :: duration
  eb_disableJitter :: bool
  eb_attempt :: int

definition newExponentialFullJitterBackoff :: "duration \<Rightarrow> duration \<Rightarrow> exponentialFullJitterBackoff" where
  "newExponentialFullJitterBackoff baseDelay maxDelay =
     \<lparr>eb_baseDelay = baseDelay, eb_maxDelay = maxDelay, eb_disableJitter = False, eb_attempt = 0\<rparr>"

definition newExponentialBackoffNoJitter :: "duration \<Rightarrow> duration \<Rightarrow> exponentialFullJitterBackoff" where
  "newExponentialBackoffNoJitter baseDelay maxDelay =
     \<lparr>eb_baseDelay = baseDelay, eb_maxDelay = maxDelay, eb_disableJitter = True, eb_attempt = 0\<rparr>"

definition nextDelay ::
  "exponentialFullJitterBackoff \<Rightarrow> nat \<Rightarrow> duration \<times> exponentialFullJitterBackoff" where
  "nextDelay e draw =
     (let delay = ExponentialBackoffMagnitude (eb_baseDelay e) (eb_maxDelay e) (eb_attempt e);
          delay = (if \<not> eb_disableJitter e
                   then int_of_float64 (float64_mult (float64_of_int delay) (Float64 (int draw) (- 53)))
                   else delay)
      in (delay, e\<lparr>eb_attempt := wrap64 (eb_attempt e + 1)\<rparr>))"

definition backoff_reset :: "exponentialFullJitterBackoff \<Rightarrow> exponentialFullJitterBackoff" where
  "backoff_reset e = e\<lparr>eb_attempt := 0\<rparr>"

subsection \<open>Retry loops\<close>

datatype retry_panic = PanicBaseDelay | PanicMaxDelay | PanicBaseAboveMax

datatype RetryOption = WithInitialDelay

record Retry =
  rt_BaseDelay :: duration
  rt_MaxDelay :: duration
  rt_InitialDelay :: bool
  rt_backoff :: exponentialFullJitterBackoff
  rt_attempt :: int

definition retry_New :: "duration \<Rightarrow> duration \<Rightarrow> RetryOption list \<Rightarrow> retry_panic + Retry" where
  "retry_New baseDelay maxDelay opts =
     (if baseDelay \<le> 0 then Inl PanicBaseDelay
      else if maxDelay \<le> 0 then Inl PanicMaxDelay
      else if baseDelay > maxDelay then Inl PanicBaseAboveMax
      else Inr (foldl (\<lambda>r opt. case opt of WithInitialDelay \<Rightarrow> r\<lparr>rt_InitialDelay := True\<rparr>)
        \<lparr>rt_BaseDelay = baseDelay, rt_MaxDelay = maxDelay, rt_InitialDelay = False,
         rt_backoff = newExponentialFullJitterBackoff baseDelay maxDelay, rt_attempt = 0\<rparr> opts))"

text \<open>
  What an attempt meets: the context's error when it starts, the error if the context ends
  during the wait, and the random draw.
\<close>

record attempt_env =
  ctx_err :: "string option"
  wait_err :: "string option"
  rng_draw :: nat

definition startAttempt :: "attempt_env \<Rightarrow> Retry \<Rightarrow> string option \<times> Retry" where
  "startAttempt env r =
     (case ctx_err env of
        Some err \<Rightarrow> (Some err, r)
      | None \<Rightarrow>
          if rt_attempt r > 0 \<or> rt_InitialDelay r then
            let (delay, b) = nextDelay (rt_backoff r) (rng_draw env)
            in case wait_err env of
                 Some err \<Rightarrow> (Some err, r\<lparr>rt_backoff := b\<rparr>)
               | None \<Rightarrow> (None, r\<lparr>rt_backoff := b, rt_attempt := wrap64 (rt_attempt r + 1)\<rparr>)
          else (None, r\<lparr>rt_attempt := wrap64 (rt_attempt r + 1)\<rparr>))"

definition Retry_Reset :: "Retry \<Rightarrow> Retry" where
  "Retry_Reset r = r\<lparr>rt_backoff := backoff_reset (rt_backoff r)\<rparr>"

text \<open>
  The iterator, run against the environments of its attempts: what it yields until the loop body
  breaks (\<open>yield\<close> returns false) or the environments end.
\<close>

fun Attempts ::
  "Retry \<Rightarrow> attempt_env list \<Rightarrow> (int \<Rightarrow> string option \<Rightarrow> bool) \<Rightarrow> (int \<times> string option) list \<times> Retry" where
  "Attempts r [] yield = ([], r)"
| "Attempts r (env # envs) yield =
     (let (err, r') = startAttempt env r
      in if \<not> yield (rt_attempt r') err then ([(rt_attempt r', err)], r')
         else let (ys, r'') = Attempts r' envs yield in ((rt_attempt r', err) # ys, r''))"

subsection \<open>Collective failover backoff\<close>

record BackoffSchedule =
  bs_Base :: duration
  bs_Max :: duration
  bs_JitterFraction :: float64

definition DefaultBackoffSchedule :: BackoffSchedule where
  "DefaultBackoffSchedule = \<lparr>bs_Base = 10 * 10 ^ 9, bs_Max = 5 * 60 * 10 ^ 9,
     bs_JitterFraction = Float64 1 (- 2)\<rparr>"

definition DefaultBackoffResetDuration :: duration where
  "DefaultBackoffResetDuration = 30 * 60 * 10 ^ 9"

definition Schedule_backoff :: "BackoffSchedule \<Rightarrow> int \<Rightarrow> duration" where
  "Schedule_backoff s attempt =
     (let mx = (if bs_Max s \<le> 0 then MaxInt64 else bs_Max s)
      in ExponentialBackoffMagnitude (bs_Base s) mx (wrap64 (attempt - 1)))"

text \<open>FNV-1a, as \<open>hash/fnv\<close> computes it.\<close>

definition fnv64a :: "string \<Rightarrow> 64 word" where
  "fnv64a s = foldl (\<lambda>h c. (h XOR of_nat (of_char c)) * 1099511628211) 14695981039346656037 s"

primrec ComponentNumber :: "ComponentType \<Rightarrow> int" where
  "ComponentNumber COMPONENT_UNKNOWN = 0"
| "ComponentNumber MULTIPOOLER = 1"
| "ComponentNumber MULTIGATEWAY = 2"
| "ComponentNumber MULTIORCH = 3"
| "ComponentNumber (ComponentUnrecognized n) = n"

definition Schedule_jitter ::
  "BackoffSchedule \<Rightarrow> ID ptr \<Rightarrow> RuleNumber ptr \<Rightarrow> int \<Rightarrow> duration \<Rightarrow> duration" where
  "Schedule_jitter s orchID replaceDecision attempt base =
     (let window = int_of_float64 (float64_mult (float64_of_int base) (bs_JitterFraction s))
      in if window \<le> 0 then 0
         else
           let key = show_int (ComponentNumber (GetComponent orchID)) @ ''/'' @ GetCell orchID @ ''/'' @
                 GetName orchID @ ''/'' @ show_int (GetCoordinatorTerm replaceDecision) @ ''.'' @
                 show_int (GetLeaderSubterm replaceDecision) @ ''/'' @ show_int attempt
           in int (unat (fnv64a key mod of_int window)))"

definition NextAttempt :: "BackoffSchedule \<Rightarrow> TermRevocation ptr \<Rightarrow> ID ptr \<Rightarrow> go_time" where
  "NextAttempt s rv orchID =
     (let intent = GetRecruitIntent rv;
          attempt = max (GetAttempt intent) 1;
          base = Schedule_backoff s attempt;
          delay = wrap64 (base + Schedule_jitter s orchID (GetReplaceDecision intent) attempt base);
          delay = (if delay < base then MaxInt64 else delay)
      in AsTime (GetCoordinatorInitiatedAt rv) + delay)"

section \<open>The magnitude\<close>

lemma ExponentialBackoffMagnitude_min:
  assumes "2 \<le> base" "base \<le> MaxInt64" "0 < mx" "mx \<le> MaxInt64" "0 \<le> attempt"
  shows "ExponentialBackoffMagnitude base mx attempt = min (base * 2 ^ nat attempt) mx"
proof -
  let ?m = "2 ^ nat (min attempt 62) :: int"
  have le: "?m \<le> 2 ^ nat attempt" by (intro power_increasing) auto
  show ?thesis
  proof (cases "?m > MaxInt64 div base")
    case True
    have "MaxInt64 < base * (MaxInt64 div base + 1)"
      using assms(1) pos_mod_bound [of base MaxInt64] mult_div_mod_eq [of base MaxInt64]
      unfolding distrib_left mult_1_right by linarith
    also have "\<dots> \<le> base * ?m" using True assms(1) by (intro mult_left_mono) auto
    also have "\<dots> \<le> base * 2 ^ nat attempt" using le assms(1) by (intro mult_left_mono) auto
    finally show ?thesis using True assms by (simp add: ExponentialBackoffMagnitude_def max_absorb1)
  next
    case False
    then have small: "?m \<le> MaxInt64 div base" by simp
    have "base * ?m \<le> base * (MaxInt64 div base)" using small assms(1) by (intro mult_left_mono) auto
    also have "\<dots> \<le> MaxInt64" using assms(1) pos_mod_sign [of base MaxInt64] mult_div_mod_eq [of base MaxInt64]
      by linarith
    finally have fits: "base * ?m \<le> MaxInt64" .
    have "attempt \<le> 62"
    proof (rule ccontr)
      assume "\<not> attempt \<le> 62"
      then have "?m = 2 ^ 62" by (simp add: min_def)
      moreover have "MaxInt64 div base \<le> MaxInt64 div 2"
        using assms(1) by (intro zdiv_mono2) (simp_all add: MaxInt64_def)
      ultimately show False using small by (simp add: MaxInt64_def)
    qed
    then have m: "?m = 2 ^ nat attempt" by (simp add: min_def)
    have "is_int64 (base * ?m)" using fits assms(1) by (simp add: is_int64_def MinInt64_def order_trans [of _ 0])
    with False m assms show ?thesis by (simp add: ExponentialBackoffMagnitude_def max_absorb1)
  qed
qed

text \<open>
  C36: the overflow guards make the magnitude exactly the mathematical one: the base delay doubled
  at each attempt, cut at the maximum, for every attempt number, however large.
\<close>

theorem ExponentialBackoffMagnitude_exact:
  assumes "2 \<le> base" "base \<le> MaxInt64" "0 < mx" "mx \<le> MaxInt64" "0 \<le> attempt"
  shows "ExponentialBackoffMagnitude base mx attempt = min (base * 2 ^ nat attempt) mx"
  using ExponentialBackoffMagnitude_min [OF assms] .

lemma ExponentialBackoffMagnitude_bounds:
  assumes "2 \<le> base" "base \<le> MaxInt64" "0 < mx" "mx \<le> MaxInt64" "0 \<le> attempt"
  shows "min base mx \<le> ExponentialBackoffMagnitude base mx attempt"
    "ExponentialBackoffMagnitude base mx attempt \<le> mx"
proof -
  have "base * 1 \<le> base * 2 ^ nat attempt" using assms(1) by (intro mult_left_mono) auto
  then show "min base mx \<le> ExponentialBackoffMagnitude base mx attempt"
    unfolding ExponentialBackoffMagnitude_min [OF assms] by (simp add: min_def)
  show "ExponentialBackoffMagnitude base mx attempt \<le> mx"
    unfolding ExponentialBackoffMagnitude_min [OF assms] by simp
qed

section \<open>Rounding\<close>

lemma bit_length_less: "n < 2 ^ bit_length n"
proof (induction n rule: bit_length.induct)
  case (1 n)
  show ?case
  proof (cases "n = 0")
    case False
    with "1.IH" have "n div 2 < 2 ^ bit_length (n div 2)" by simp
    then have "n < 2 * 2 ^ bit_length (n div 2)" by linarith
    with False show ?thesis by (simp add: bit_length.simps [of n])
  qed simp
qed

lemma bit_length_le: "n < 2 ^ k \<Longrightarrow> bit_length n \<le> k"
proof (induction n arbitrary: k rule: bit_length.induct)
  case (1 n)
  show ?case
  proof (cases "n = 0")
    case True
    then show ?thesis by (simp add: bit_length.simps [of 0])
  next
    case False
    with "1.prems" obtain k' where k: "k = Suc k'" by (cases k) auto
    with "1.prems" have "n div 2 < 2 ^ k'" by (simp add: less_mult_imp_div_less mult.commute)
    with "1.IH" False have "bit_length (n div 2) \<le> k'" by blast
    with False k show ?thesis by (simp add: bit_length.simps [of n])
  qed
qed

lemma float64_round_exact: "\<bar>i\<bar> < 2 ^ 53 \<Longrightarrow> float64_round i e = Float64 i e"
  using bit_length_le [of "nat \<bar>i\<bar>" 53] by (simp add: float64_round_def nat_less_iff)

lemma float64_of_int_exact: "\<bar>i\<bar> < 2 ^ 53 \<Longrightarrow> float64_of_int i = Float64 i 0"
  by (simp add: float64_of_int_def float64_round_exact)

text \<open>Rounding does not carry a product past a multiple of the rounding unit that bounds it.\<close>

lemma round_half_even_le:
  assumes "n < c * 2 ^ t" "s \<le> t"
  shows "round_half_even n s * 2 ^ s \<le> c * 2 ^ t"
proof -
  have split: "c * 2 ^ t = (c * 2 ^ (t - s)) * 2 ^ s" using assms(2) by (simp flip: power_add)
  have "n div 2 ^ s < c * 2 ^ (t - s)"
    using assms(1) unfolding split by (simp add: less_mult_imp_div_less)
  moreover have "round_half_even n s \<le> n div 2 ^ s + 1" by (simp add: round_half_even_def Let_def)
  ultimately have "round_half_even n s \<le> c * 2 ^ (t - s)" by linarith
  then show ?thesis unfolding split by (rule mult_right_mono) simp
qed

lemma int_of_float64_neg: "int_of_float64 (Float64 (int k) (- int e)) = int (k div 2 ^ e)"
  by (cases "k = 0"; cases "e = 0") (simp_all add: int_of_float64_def zdiv_int)

lemma jittered_delay_bounds:
  assumes "0 \<le> d" "d < 2 ^ 53" "draw < 2 ^ 53"
  shows "0 \<le> int_of_float64 (float64_mult (float64_of_int d) (Float64 (int draw) (- 53)))"
    "int_of_float64 (float64_mult (float64_of_int d) (Float64 (int draw) (- 53))) \<le> d"
proof -
  define n where "n = nat d * draw"
  have dn: "d * int draw = int n" using assms(1) by (simp add: n_def)
  have n: "n \<le> nat d * 2 ^ 53" using assms(3) by (simp add: n_def)
  let ?s = "bit_length n - 53"
  have mult: "float64_mult (float64_of_int d) (Float64 (int draw) (- 53)) =
      (if ?s = 0 then Float64 (int n) (- 53)
       else Float64 (sgn (int n) * int (round_half_even n ?s)) (- 53 + int ?s))"
    using assms(1,2) dn by (simp add: float64_of_int_exact float64_mult_def float64_round_def Let_def)
  have "nat d < 2 ^ 53" using assms(2) by (simp add: nat_less_iff)
  then have "n < 2 ^ 53 * 2 ^ 53" unfolding n_def using assms(3) by (intro mult_strict_mono') auto
  then have "bit_length n \<le> 106" using bit_length_le [of n 106] by (simp flip: power_add)
  then have s: "?s \<le> 53" by simp
  obtain k e where ke: "float64_mult (float64_of_int d) (Float64 (int draw) (- 53)) = Float64 (int k) (- int e)"
    "k \<le> nat d * 2 ^ e"
  proof (cases "?s = 0")
    case True
    with mult n that [of n 53] show thesis by simp
  next
    case False
    then have "n \<noteq> 0" by (metis bit_length.simps zero_diff)
    then have "n < nat d * 2 ^ 53" using assms(3) by (simp add: n_def)
    from round_half_even_le [OF this s]
    have "round_half_even n ?s * 2 ^ ?s \<le> (nat d * 2 ^ (53 - ?s)) * 2 ^ ?s"
      using s by (simp add: mult.assoc flip: power_add)
    then have "round_half_even n ?s \<le> nat d * 2 ^ (53 - ?s)" by simp
    with False s mult \<open>n \<noteq> 0\<close> that [of "round_half_even n ?s" "53 - ?s"] show thesis
      by (simp add: of_nat_diff)
  qed
  have "k div 2 ^ e \<le> nat d" using div_le_mono [OF ke(2), of "2 ^ e"] by simp
  then have "int (k div 2 ^ e) \<le> d" using assms(1) by linarith
  then show "0 \<le> int_of_float64 (float64_mult (float64_of_int d) (Float64 (int draw) (- 53)))"
    "int_of_float64 (float64_mult (float64_of_int d) (Float64 (int draw) (- 53))) \<le> d"
    unfolding ke(1) int_of_float64_neg by simp_all
qed

lemma nextDelay_facts:
  assumes "2 \<le> eb_baseDelay e" "eb_baseDelay e \<le> eb_maxDelay e" "eb_maxDelay e < 2 ^ 53"
    and "0 \<le> eb_attempt e" "eb_attempt e < MaxInt64" "draw < 2 ^ 53"
    and "nextDelay e draw = (delay, e')"
  shows "0 \<le> delay \<and> delay \<le> min (eb_baseDelay e * 2 ^ nat (eb_attempt e)) (eb_maxDelay e) \<and>
         eb_attempt e' = eb_attempt e + 1 \<and> eb_attempt (backoff_reset e') = 0"
proof -
  let ?m = "ExponentialBackoffMagnitude (eb_baseDelay e) (eb_maxDelay e) (eb_attempt e)"
  have big: "(2 :: int) ^ 53 \<le> MaxInt64" by (simp add: MaxInt64_def)
  have m: "?m = min (eb_baseDelay e * 2 ^ nat (eb_attempt e)) (eb_maxDelay e)"
    using assms(1-4) big by (intro ExponentialBackoffMagnitude_min) auto
  moreover have "0 \<le> ?m" "?m < 2 ^ 53" using assms(1-3) unfolding m by (auto simp: min_def)
  moreover have "wrap64 (eb_attempt e + 1) = eb_attempt e + 1"
    using assms(4,5) by (intro wrap64_id) (simp add: is_int64_def MinInt64_def)
  ultimately show ?thesis
    using assms(6,7) jittered_delay_bounds [of ?m draw]
    by (auto simp: nextDelay_def Let_def backoff_reset_def split: if_splits)
qed

text \<open>
  A jittered delay lies between zero and the exponential magnitude of the attempt, which is
  the base delay doubled at each attempt and cut at the maximum; and the call advances the
  attempt number, which \<open>reset\<close> takes back to the first.
\<close>

theorem nextDelay_bounds:
  assumes "2 \<le> eb_baseDelay e" "eb_baseDelay e \<le> eb_maxDelay e" "eb_maxDelay e < 2 ^ 53"
    and "0 \<le> eb_attempt e" "eb_attempt e < MaxInt64" "draw < 2 ^ 53"
    and "nextDelay e draw = (delay, e')"
  shows "0 \<le> delay \<and> delay \<le> min (eb_baseDelay e * 2 ^ nat (eb_attempt e)) (eb_maxDelay e) \<and>
         eb_attempt e' = eb_attempt e + 1 \<and> eb_attempt (backoff_reset e') = 0"
  using nextDelay_facts [OF assms] .

section \<open>Retry loops\<close>

definition quiet_env :: "attempt_env \<Rightarrow> bool" where
  "quiet_env env \<longleftrightarrow> ctx_err env = None \<and> wait_err env = None"

lemma Attempts_numbers:
  assumes "\<forall>env \<in> set envs. quiet_env env" "0 \<le> rt_attempt r"
    "rt_attempt r + int (length envs) \<le> MaxInt64"
  shows "fst (Attempts r envs (\<lambda>_ _. True)) =
    map (\<lambda>i. (rt_attempt r + int i, None)) [1..<Suc (length envs)]"
  using assms
proof (induction envs arbitrary: r)
  case Nil
  then show ?case by simp
next
  case (Cons env envs)
  obtain err r' where st: "startAttempt env r = (err, r')" by fastforce
  have "wrap64 (rt_attempt r + 1) = rt_attempt r + 1"
    using Cons.prems(2,3) by (intro wrap64_id) (simp add: is_int64_def MinInt64_def)
  with st Cons.prems(1) have r': "err = None" "rt_attempt r' = rt_attempt r + 1"
    by (auto simp: startAttempt_def quiet_env_def split: if_splits prod.splits)
  have "fst (Attempts r' envs (\<lambda>_ _. True)) =
      map (\<lambda>i. (rt_attempt r' + int i, None)) [1..<Suc (length envs)]"
    using Cons.IH Cons.prems r' by simp
  moreover have "map (\<lambda>i. (rt_attempt r + 1 + int i, None :: string option)) [1..<Suc (length envs)] =
      map (\<lambda>i. (rt_attempt r + int i, None)) [2..<Suc (Suc (length envs))]"
    by (rule nth_equalityI) (simp_all del: upt_Suc)
  ultimately show ?case
    using st r' by (simp add: split_def upt_conv_Cons [of "Suc 0"] numeral_2_eq_2 del: upt_Suc)
qed

text \<open>
  A retry loop over a context that stays alive is offered the attempts 1, 2, 3 and so on,
  without an error and without a gap, for as long as it asks.
\<close>

theorem Attempts_consecutive:
  assumes "retry_New baseDelay maxDelay opts = Inr r" "\<forall>env \<in> set envs. quiet_env env"
    and "int (length envs) \<le> MaxInt64"
  shows "fst (Attempts r envs (\<lambda>_ _. True)) = map (\<lambda>i. (int i, None)) [1..<Suc (length envs)]"
proof -
  have opts: "rt_attempt (foldl (\<lambda>r opt. case opt of WithInitialDelay \<Rightarrow> r\<lparr>rt_InitialDelay := True\<rparr>) q os) =
      rt_attempt q" for q os
    by (induction os arbitrary: q) (simp_all split: RetryOption.split)
  have "rt_attempt r = 0" using assms(1) by (auto simp: retry_New_def opts split: if_splits)
  with Attempts_numbers [OF assms(2), of r] assms(3) show ?thesis by simp
qed

text \<open>
  The iterator does not stop by itself when the context has ended: a loop body that goes on after
  an error is called again.
\<close>

lemma Attempts_continues_after_error:
  "\<exists>r env. ctx_err env = Some ''canceled'' \<and>
     fst (Attempts r [env, env] (\<lambda>_ _. True)) = [(0, Some ''canceled''), (0, Some ''canceled'')]"
  by (rule exI [of _ "\<lparr>rt_BaseDelay = 1, rt_MaxDelay = 1, rt_InitialDelay = False,
      rt_backoff = newExponentialFullJitterBackoff 1 1, rt_attempt = 0\<rparr>"],
      rule exI [of _ "\<lparr>ctx_err = Some ''canceled'', wait_err = None, rng_draw = 0\<rparr>"])
    (simp add: startAttempt_def)

section \<open>The collective backoff\<close>

definition jitter_window :: "BackoffSchedule \<Rightarrow> duration \<Rightarrow> duration" where
  "jitter_window s base = int_of_float64 (float64_mult (float64_of_int base) (bs_JitterFraction s))"

lemma Schedule_jitter_bounds:
  assumes "jitter_window s base \<le> MaxInt64"
  shows "0 \<le> Schedule_jitter s orch d a base"
    "jitter_window s base \<le> 0 \<Longrightarrow> Schedule_jitter s orch d a base = 0"
    "0 < jitter_window s base \<Longrightarrow> Schedule_jitter s orch d a base < jitter_window s base"
proof -
  let ?w = "jitter_window s base"
  have "int (unat (h mod of_int ?w)) < ?w" if "0 < ?w" for h :: "64 word"
  proof -
    have "?w < 2 ^ 64" using assms by (simp add: MaxInt64_def)
    then have "unat (of_int ?w :: 64 word) = nat ?w"
      using that by (simp add: unat_eq_nat_uint uint_word_of_int)
    then have "unat (h mod of_int ?w) = unat h mod nat ?w" by (simp add: unat_mod_distrib)
    also have "\<dots> < nat ?w" using that by simp
    finally show ?thesis using that by linarith
  qed
  then show "0 \<le> Schedule_jitter s orch d a base" "?w \<le> 0 \<Longrightarrow> Schedule_jitter s orch d a base = 0"
    "0 < ?w \<Longrightarrow> Schedule_jitter s orch d a base < ?w"
    by (simp_all add: Schedule_jitter_def Let_def flip: jitter_window_def)
qed

lemma wrap64_saturates:
  assumes "0 \<le> b" "b \<le> MaxInt64" "0 \<le> j" "j \<le> MaxInt64"
  shows "(if wrap64 (b + j) < b then MaxInt64 else wrap64 (b + j)) = min (b + j) MaxInt64"
proof (cases "b + j \<le> MaxInt64")
  case True
  then have "wrap64 (b + j) = b + j" using assms by (intro wrap64_id) (simp add: is_int64_def MinInt64_def)
  with True assms show ?thesis by simp
next
  case False
  have "(b + j + 2 ^ 63) mod 2 ^ 64 = b + j + 2 ^ 63 - 2 ^ 64"
    using False assms minus_mod_self2 [of "b + j + 2 ^ 63" "2 ^ 64"]
      mod_pos_pos_trivial [of "b + j + 2 ^ 63 - 2 ^ 64" "2 ^ 64"]
    by (simp add: MaxInt64_def)
  then have "wrap64 (b + j) = b + j - 2 ^ 64" by (simp add: wrap64_def)
  with False assms show ?thesis by (simp add: MaxInt64_def min_def)
qed

lemma NextAttempt_bounds:
  fixes s :: BackoffSchedule and rv :: "TermRevocation ptr"
  defines "attempt \<equiv> max (GetAttempt (GetRecruitIntent rv)) 1"
  defines "base \<equiv> min (bs_Base s * 2 ^ nat (attempt - 1)) (if bs_Max s \<le> 0 then MaxInt64 else bs_Max s)"
  assumes "2 \<le> bs_Base s" "bs_Base s \<le> MaxInt64" "bs_Max s \<le> MaxInt64"
    and "GetAttempt (GetRecruitIntent rv) \<le> MaxInt64" "jitter_window s base \<le> MaxInt64"
  shows "\<exists>jitter. NextAttempt s rv orch = AsTime (GetCoordinatorInitiatedAt rv) + min (base + jitter) MaxInt64 \<and>
           0 \<le> jitter \<and> jitter \<le> max 0 (jitter_window s base) \<and> base \<le> MaxInt64 \<and>
           AsTime (GetCoordinatorInitiatedAt rv) + base \<le> NextAttempt s rv orch"
proof -
  let ?j = "Schedule_jitter s orch (GetReplaceDecision (GetRecruitIntent rv)) attempt base"
  have "wrap64 (attempt - 1) = attempt - 1"
    using assms(6) by (intro wrap64_id) (simp add: attempt_def is_int64_def MinInt64_def MaxInt64_def)
  then have base: "Schedule_backoff s attempt = base"
    using assms(3-5) ExponentialBackoffMagnitude_min
      [of "bs_Base s" "if bs_Max s \<le> 0 then MaxInt64 else bs_Max s" "attempt - 1"]
    by (simp add: Schedule_backoff_def base_def attempt_def MaxInt64_def)
  have b: "0 \<le> base" "base \<le> MaxInt64" using assms(3-5) by (auto simp: base_def min_def MaxInt64_def)
  note J = Schedule_jitter_bounds [OF assms(7), of orch "GetReplaceDecision (GetRecruitIntent rv)" attempt]
  have j: "0 \<le> ?j" "?j \<le> max 0 (jitter_window s base)" "?j \<le> MaxInt64"
    using J assms(7) by (cases "jitter_window s base \<le> 0"; force simp: MaxInt64_def)+
  have next': "NextAttempt s rv orch = AsTime (GetCoordinatorInitiatedAt rv) + min (base + ?j) MaxInt64"
    unfolding NextAttempt_def Let_def attempt_def [symmetric] base wrap64_saturates [OF b j(1,3)] ..
  moreover have "base \<le> min (base + ?j) MaxInt64" using b j(1) by simp
  ultimately show ?thesis using j b by (intro exI [of _ ?j]) simp
qed

text \<open>
  The next permitted recruitment is the start of the observed one plus the exponential delay
  plus a jitter, saturating instead of overflowing: never before the exponential delay has
  passed, never later than the jitter window after it, and with a jitter below the window. For an
  uncapped schedule the maximum is the largest duration.
\<close>

theorem NextAttempt_window:
  fixes s :: BackoffSchedule and rv :: "TermRevocation ptr"
  defines "attempt \<equiv> max (GetAttempt (GetRecruitIntent rv)) 1"
  defines "base \<equiv> min (bs_Base s * 2 ^ nat (attempt - 1)) (if bs_Max s \<le> 0 then MaxInt64 else bs_Max s)"
  assumes "2 \<le> bs_Base s" "bs_Base s \<le> MaxInt64" "bs_Max s \<le> MaxInt64"
    and "GetAttempt (GetRecruitIntent rv) \<le> MaxInt64" "jitter_window s base \<le> MaxInt64"
  shows "\<exists>jitter. NextAttempt s rv orch = AsTime (GetCoordinatorInitiatedAt rv) + min (base + jitter) MaxInt64 \<and>
           0 \<le> jitter \<and> jitter \<le> max 0 (jitter_window s base) \<and> base \<le> MaxInt64 \<and>
           AsTime (GetCoordinatorInitiatedAt rv) + base \<le> NextAttempt s rv orch"
  using NextAttempt_bounds [OF assms(3-7) [unfolded base_def attempt_def]]
  unfolding base_def attempt_def .

section \<open>Concrete instances\<close>

theorem ExponentialBackoffMagnitude_exact_witness:
  "ExponentialBackoffMagnitude 100 (10 ^ 9) 1000 = 10 ^ 9"
proof -
  have "ExponentialBackoffMagnitude 100 (10 ^ 9) 1000 = min (100 * 2 ^ nat 1000) (10 ^ 9)"
    by (rule ExponentialBackoffMagnitude_exact) (simp_all add: MaxInt64_def)
  moreover have "(10 :: int) ^ 9 \<le> 2 ^ 40" by simp
  moreover have "(2 :: int) ^ 40 \<le> 2 ^ nat 1000" by (intro power_increasing) simp_all
  ultimately show ?thesis by simp
qed

theorem nextDelay_bounds_witness:
  "fst (nextDelay (newExponentialFullJitterBackoff 1000 60000) (2 ^ 52)) \<le> 1000"
proof -
  let ?e = "newExponentialFullJitterBackoff 1000 60000"
  obtain d e' where d: "nextDelay ?e (2 ^ 52) = (d, e')" by fastforce
  have "d \<le> min (eb_baseDelay ?e * 2 ^ nat (eb_attempt ?e)) (eb_maxDelay ?e)"
    using nextDelay_bounds [OF _ _ _ _ _ _ d]
    by (simp add: newExponentialFullJitterBackoff_def MaxInt64_def)
  with d show ?thesis by (simp add: newExponentialFullJitterBackoff_def)
qed

theorem Attempts_consecutive_witness:
  "\<exists>r. retry_New 100 1000 [WithInitialDelay] = Inr r \<and>
     fst (Attempts r (replicate 2 \<lparr>ctx_err = None, wait_err = None, rng_draw = 7\<rparr>) (\<lambda>_ _. True)) =
       [(1, None), (2, None)]"
proof -
  let ?envs = "replicate 2 \<lparr>ctx_err = None, wait_err = None, rng_draw = 7\<rparr>"
  obtain r where r: "retry_New 100 1000 [WithInitialDelay] = Inr r" by (simp add: retry_New_def)
  have "fst (Attempts r ?envs (\<lambda>_ _. True)) = map (\<lambda>i. (int i, None)) [1..<Suc (length ?envs)]"
    by (rule Attempts_consecutive [OF r]) (simp_all add: quiet_env_def MaxInt64_def)
  with r show ?thesis by (simp add: numeral_2_eq_2)
qed

theorem NextAttempt_window_witness:
  "AsTime (ex_time 200) + 10 * 10 ^ 9 \<le> NextAttempt DefaultBackoffSchedule (ex_revocation 4 (ex_num 3 0)) ex_orch"
proof -
  have w: "jitter_window DefaultBackoffSchedule (10 * 10 ^ 9) \<le> MaxInt64"
    by (simp add: jitter_window_def DefaultBackoffSchedule_def float64_of_int_exact float64_mult_def
        float64_round_exact int_of_float64_def MaxInt64_def)
  show ?thesis
    using NextAttempt_window [of DefaultBackoffSchedule "ex_revocation 4 (ex_num 3 0)" ex_orch] w
    by (auto simp: DefaultBackoffSchedule_def ex_revocation_def MaxInt64_def)
qed

end
