(* ===== verification/Consensus_Manager.thy ===== *)
theory Consensus_Manager
  imports Promises Pooler_Role Backoff
begin

text \<open>
  The pooler's consensus manager
  (go/services/multipooler/internal/manager/consensus/manager.go): the durable promises, the
  recorded replication primary, resignation, cohort eligibility, suspected divergence and the
  rewind backoff, and the \<open>ConsensusStatus\<close> it publishes from them.

  The rule store is read through two methods, whose results are arguments here: \<open>observe\<close> (a
  fresh read, which may fail) and \<open>cached\<close>. The clock is an argument. A \<open>Broadcast\<close> is an
  effect that \<open>cm_broadcasts\<close> counts.
\<close>

datatype pgMode = ModeUnknown | ModePrimary | ModeInRecovery | ModeOther int

primrec Mode_String :: "pgMode \<Rightarrow> string" where
  "Mode_String ModePrimary = ''primary''"
| "Mode_String ModeInRecovery = ''in_recovery''"
| "Mode_String ModeUnknown = ''unknown''"
| "Mode_String (ModeOther n) = ''invalid''"

definition OutOfRecovery :: "pgMode \<Rightarrow> bool" where
  "OutOfRecovery m \<longleftrightarrow> m = ModePrimary"

datatype LeaderRecoveryAction =
    LeaderRecoveryActionNone
  | LeaderRecoveryActionResign
  | LeaderRecoveryActionSelfPromote

record ConsensusManager =
  cm_id :: "ID ptr"
  cm_promises :: ConsensusPromises
  staticLeader :: bool
  has_broadcaster :: bool
  cm_broadcasts :: nat
  replicationPrimary :: "ReplicationPrimary ptr"
  leaderObservedAt :: go_time
  rewindWaitEmittedFor :: go_time
  resignedLeaderAtTerm :: int
  cohortEligibility :: CohortEligibilitySignal
  suspectedDivergence :: bool
  rewindBackoff :: "exponentialFullJitterBackoff ptr"
  rewindReadyAt :: go_time

datatype manager_error =
    MErr_LoadPromises promise_error
  | MErr_Lock lock_error
  | MErr_ReadTerm promise_error
  | MErr_ReadPosition string
  | MErr_StaticLeaderCannotResign

subsection \<open>Construction\<close>

definition newConsensusManager :: "ID ptr \<Rightarrow> ConsensusPromises \<Rightarrow> bool \<Rightarrow> ConsensusManager" where
  "newConsensusManager i promises broadcaster =
     \<lparr>cm_id = i, cm_promises = promises, staticLeader = False, has_broadcaster = broadcaster,
      cm_broadcasts = 0, replicationPrimary = None, leaderObservedAt = zero_time,
      rewindWaitEmittedFor = zero_time, resignedLeaderAtTerm = 0,
      cohortEligibility = COHORT_ELIGIBILITY_SIGNAL_ELIGIBLE, suspectedDivergence = False,
      rewindBackoff = None, rewindReadyAt = zero_time\<rparr>"

definition NewConsensusManager ::
  "protojson_codec \<Rightarrow> bool \<Rightarrow> disk \<Rightarrow> string \<Rightarrow> ID ptr \<Rightarrow> bool \<Rightarrow> bool \<Rightarrow> bool \<Rightarrow>
     manager_error + ConsensusManager" where
  "NewConsensusManager codec read_ok d dir i broadcaster loadPromises static =
     (let promises = NewConsensusPromises dir i;
          loaded = (if loadPromises then Load codec read_ok promises d else (Inr 0, promises))
      in case fst loaded of
           Inl err \<Rightarrow> Inl (MErr_LoadPromises err)
         | Inr _ \<Rightarrow> Inr ((newConsensusManager i (snd loaded) broadcaster)\<lparr>staticLeader := static\<rparr>))"

definition cm_broadcast :: "ConsensusManager \<Rightarrow> ConsensusManager" where
  "cm_broadcast cm = (if has_broadcaster cm then cm\<lparr>cm_broadcasts := Suc (cm_broadcasts cm)\<rparr> else cm)"

subsection \<open>The published status\<close>

definition CM_GetReplicationPrimary :: "ConsensusManager \<Rightarrow> ReplicationPrimary ptr" where
  "CM_GetReplicationPrimary cm = (if replicationPrimary cm = None then None else replicationPrimary cm)"

definition recruitPositionFloorIfOutstanding ::
  "(string \<Rightarrow> lsn option) \<Rightarrow> ConsensusManager \<Rightarrow> PoolerPosition ptr \<Rightarrow> LsnPosition ptr" where
  "recruitPositionFloorIfOutstanding parse_lsn cm pos =
     (let floor = Promises_GetRecruitBlockedUntil (cm_promises cm)
      in if floor = None then None
         else
           let current = RuleNumberPositionOf (PoolerPosition_GetPosition pos);
               floorPos = \<lparr>Decision = RuleNumberPositionPb_GetDecision (LsnPosition_GetPosition floor),
                           Proposal = RuleNumberPositionPb_GetProposal (LsnPosition_GetPosition floor)\<rparr>;
               cmp = RuleNumberPosition_Compare current floorPos
           in if cmp \<noteq> 0 then (if cmp > 0 then None else floor)
              else case (parse_lsn (PoolerPosition_GetLsn pos), parse_lsn (LsnPosition_GetLsn floor)) of
                     (Some currentLSN, Some floorLSN) \<Rightarrow> if currentLSN < floorLSN then floor else None
                   | _ \<Rightarrow> floor)"

definition statusReplicationPrimary ::
  "PoolerPosition ptr \<Rightarrow> ReplicationPrimary ptr \<Rightarrow> ReplicationPrimary ptr" where
  "statusReplicationPrimary pos rp =
     (let ruleStorePosition = PoolerPosition_GetPosition pos;
          highestKnownPosition = ReplicationPrimary_GetPosition rp;
          rpcPrimary = GetPrimary rp
      in if PossiblyUndecidedRule ruleStorePosition = None \<and>
            PossiblyUndecidedRule highestKnownPosition = None \<and> rpcPrimary = None
         then None
         else
           let position = (if CompareRulePosition highestKnownPosition ruleStorePosition \<ge> 0
                           then highestKnownPosition else ruleStorePosition);
               highestRule = PossiblyUndecidedRule highestKnownPosition;
               ruleStoreRule = PossiblyUndecidedRule ruleStorePosition;
               rewindReady =
                 (if highestRule \<noteq> None \<and> GetCoordinatorTerm (GetRuleNumber highestRule) > 0 \<and>
                     (ruleStoreRule = None \<or> GetCoordinatorTerm (GetRuleNumber highestRule) \<ge>
                        GetCoordinatorTerm (GetRuleNumber ruleStoreRule))
                  then GetRewindReady rp else False)
           in Some \<lparr>prim_position = position, prim_primary = rpcPrimary, prim_rewind_ready = rewindReady\<rparr>)"

definition buildStatus ::
  "(string \<Rightarrow> lsn option) \<Rightarrow> ConsensusManager \<Rightarrow> TermRevocation ptr \<Rightarrow> PoolerPosition ptr \<Rightarrow>
     ConsensusStatus ptr" where
  "buildStatus parse_lsn cm revocation pos =
     Some \<lparr>cs_term_revocation = revocation, cs_current_position = pos,
       cs_replication_primary = statusReplicationPrimary pos (CM_GetReplicationPrimary cm),
       cs_id = cm_id cm,
       cs_recruit_blocked_until = recruitPositionFloorIfOutstanding parse_lsn cm pos\<rparr>"

definition staticLeaderStatus :: "ID ptr \<Rightarrow> ConsensusStatus ptr" where
  "staticLeaderStatus i =
     Some \<lparr>cs_term_revocation = None,
       cs_current_position = Some \<lparr>pp_position = Some \<lparr>
         pos_decision = Some \<lparr>sr_rule_number = Some \<lparr>rn_coordinator_term = 1, rn_leader_subterm = 0\<rparr>,
           sr_leader_id = i, sr_cohort_members = [i], sr_durability_policy = None,
           sr_coordinator_id = None, sr_creation_time = None\<rparr>,
         pos_proposal = None\<rparr>, pp_lsn = ''''\<rparr>,
       cs_replication_primary = None, cs_id = i, cs_recruit_blocked_until = None\<rparr>"

definition CM_ConsensusStatus ::
  "(string \<Rightarrow> lsn option) \<Rightarrow> ActionLock \<Rightarrow> lock_ctx \<Rightarrow> ConsensusManager \<Rightarrow> string + PoolerPosition ptr \<Rightarrow>
     manager_error + ConsensusStatus ptr" where
  "CM_ConsensusStatus parse_lsn al ctx cm observe =
     (case GetRevocation al ctx (cm_promises cm) of
        Inl err \<Rightarrow> Inl (MErr_ReadTerm err)
      | Inr revocation \<Rightarrow>
          (case observe of
             Inl err \<Rightarrow> Inl (MErr_ReadPosition err)
           | Inr pos \<Rightarrow> Inr (buildStatus parse_lsn cm revocation pos)))"

definition CachedConsensusStatus ::
  "(string \<Rightarrow> lsn option) \<Rightarrow> ConsensusManager \<Rightarrow> PoolerPosition ptr \<Rightarrow> ConsensusStatus ptr" where
  "CachedConsensusStatus parse_lsn cm cached =
     (if staticLeader cm then staticLeaderStatus (cm_id cm)
      else if cached = None then None
      else buildStatus parse_lsn cm (GetInconsistentRevocation (cm_promises cm)) cached)"

definition InconsistentConsensusStatus ::
  "(string \<Rightarrow> lsn option) \<Rightarrow> ConsensusManager \<Rightarrow> string + PoolerPosition ptr \<Rightarrow>
     manager_error + ConsensusStatus ptr" where
  "InconsistentConsensusStatus parse_lsn cm observe =
     (case observe of
        Inl err \<Rightarrow> Inl (MErr_ReadPosition err)
      | Inr pos \<Rightarrow> Inr (buildStatus parse_lsn cm (GetInconsistentRevocation (cm_promises cm)) pos))"

subsection \<open>Leadership\<close>

definition StartsAsPrimary :: "ConsensusManager \<Rightarrow> bool" where
  "StartsAsPrimary cm = staticLeader cm"

definition LeaderInRecoveryAction :: "ConsensusManager \<Rightarrow> pgMode \<Rightarrow> LeaderRecoveryAction" where
  "LeaderInRecoveryAction cm mode =
     (if staticLeader cm then
        (if mode = ModeInRecovery then LeaderRecoveryActionSelfPromote else LeaderRecoveryActionNone)
      else if resignedLeaderAtTerm cm = 0 then LeaderRecoveryActionResign
      else LeaderRecoveryActionNone)"

definition ResignGuard :: "ConsensusManager \<Rightarrow> manager_error option" where
  "ResignGuard cm = (if staticLeader cm then Some MErr_StaticLeaderCannotResign else None)"

definition CM_LeadershipStatus :: "ConsensusManager \<Rightarrow> LeadershipStatus ptr" where
  "CM_LeadershipStatus cm =
     (let resignedTerm = resignedLeaderAtTerm cm
      in if resignedTerm = 0 then None
         else Some \<lparr>ls_leader_term = resignedTerm, ls_signal = LEADERSHIP_SIGNAL_REQUESTING_DEMOTION\<rparr>)"

definition SetResignedLeaderAtTerm ::
  "ActionLock \<Rightarrow> lock_ctx \<Rightarrow> ConsensusManager \<Rightarrow> RulePosition ptr \<Rightarrow> manager_error option \<times> ConsensusManager" where
  "SetResignedLeaderAtTerm al ctx cm position =
     (case AssertActionLockHeld al ctx of
        Some err \<Rightarrow> (Some (MErr_Lock err), cm)
      | None \<Rightarrow>
          let t = GetCoordinatorTerm (GetRuleNumber (PossiblyUndecidedRule position));
              cm' = cm\<lparr>resignedLeaderAtTerm := t\<rparr>
          in (None, if resignedLeaderAtTerm cm \<noteq> t then cm_broadcast cm' else cm'))"

definition ClearResignedLeaderAtTerm ::
  "ActionLock \<Rightarrow> lock_ctx \<Rightarrow> ConsensusManager \<Rightarrow> manager_error option \<times> ConsensusManager" where
  "ClearResignedLeaderAtTerm al ctx cm =
     (case AssertActionLockHeld al ctx of
        Some err \<Rightarrow> (Some (MErr_Lock err), cm)
      | None \<Rightarrow> (None, cm\<lparr>resignedLeaderAtTerm := 0\<rparr>))"

definition SetCohortEligibility ::
  "ActionLock \<Rightarrow> lock_ctx \<Rightarrow> ConsensusManager \<Rightarrow> CohortEligibilitySignal \<Rightarrow>
     manager_error option \<times> ConsensusManager" where
  "SetCohortEligibility al ctx cm signal =
     (case AssertActionLockHeld al ctx of
        Some err \<Rightarrow> (Some (MErr_Lock err), cm)
      | None \<Rightarrow>
          let cm' = cm\<lparr>cohortEligibility := signal\<rparr>
          in (None, if cohortEligibility cm \<noteq> signal then cm_broadcast cm' else cm'))"

definition SetSuspectedDivergence ::
  "ActionLock \<Rightarrow> lock_ctx \<Rightarrow> ConsensusManager \<Rightarrow> bool \<Rightarrow> (manager_error + bool) \<times> ConsensusManager" where
  "SetSuspectedDivergence al ctx cm suspected =
     (case AssertActionLockHeld al ctx of
        Some err \<Rightarrow> (Inl (MErr_Lock err), cm)
      | None \<Rightarrow> (Inr (suspectedDivergence cm \<noteq> suspected), cm\<lparr>suspectedDivergence := suspected\<rparr>))"

subsection \<open>The recorded primary\<close>

definition RecordTermPrimary ::
  "ActionLock \<Rightarrow> lock_ctx \<Rightarrow> go_time \<Rightarrow> ConsensusManager \<Rightarrow> ReplicationPrimary ptr \<Rightarrow>
     manager_error option \<times> ConsensusManager" where
  "RecordTermPrimary al ctx now cm rp =
     (case AssertActionLockHeld al ctx of
        Some err \<Rightarrow> (Some (MErr_Lock err), cm)
      | None \<Rightarrow>
          let (nxt, changed) = MergeReplicationPrimary (replicationPrimary cm) rp
          in if \<not> changed then (None, cm)
             else
               let cm' = (if PoolerAddress_GetId (GetPrimary (replicationPrimary cm)) \<noteq>
                             PoolerAddress_GetId (GetPrimary nxt)
                          then cm\<lparr>leaderObservedAt := now\<rparr> else cm)
               in (None, cm'\<lparr>replicationPrimary := nxt\<rparr>))"

definition MarkSelfRewindReady ::
  "ConsensusManager \<Rightarrow> ID ptr \<Rightarrow> RulePosition ptr \<Rightarrow> bool \<times> ConsensusManager" where
  "MarkSelfRewindReady cm selfID expectedPosition =
     (case replicationPrimary cm of
        None \<Rightarrow> (False, cm)
      | Some rp \<Rightarrow>
          if prim_rewind_ready rp then (False, cm)
          else if PoolerAddress_GetId (prim_primary rp) \<noteq> selfID then (False, cm)
          else if prim_position rp \<noteq> expectedPosition then (False, cm)
          else (True, cm\<lparr>replicationPrimary := Some (rp\<lparr>prim_rewind_ready := True\<rparr>)\<rparr>))"

subsection \<open>Rewinding a diverged standby\<close>

definition rewindBackoffMin :: duration where
  "rewindBackoffMin = 5 * 10 ^ 9"

definition rewindBackoffMax :: duration where
  "rewindBackoffMax = 5 * 60 * 10 ^ 9"

definition RewindTarget :: "ConsensusManager \<Rightarrow> string \<times> int \<times> bool" where
  "RewindTarget cm =
     (let rp = CM_GetReplicationPrimary cm;
          target = GetPrimary rp
      in if target = None \<or> GetHost target = '''' \<or> GetPostgresPort target = 0 then ('''', 0, False)
         else
           let leader = GetLeaderId (PossiblyUndecidedRule (ReplicationPrimary_GetPosition rp))
           in if leader = None then ('''', 0, False)
              else if cm_id cm \<noteq> None \<and> GetCell leader = GetCell (cm_id cm) \<and>
                      GetName leader = GetName (cm_id cm) then ('''', 0, False)
              else if IsRuleRevoked (ReplicationPrimary_GetPosition rp)
                        (GetInconsistentRevocation (cm_promises cm)) then ('''', 0, False)
              else (GetHost target, GetPostgresPort target, True))"

definition RewindBackoffElapsed :: "go_time \<Rightarrow> ConsensusManager \<Rightarrow> bool" where
  "RewindBackoffElapsed now cm \<longleftrightarrow> rewindReadyAt cm = zero_time \<or> \<not> now < rewindReadyAt cm"

definition RecordRewindAttempt :: "go_time \<Rightarrow> nat \<Rightarrow> ConsensusManager \<Rightarrow> ConsensusManager" where
  "RecordRewindAttempt now draw cm =
     (let b = (case rewindBackoff cm of
                 None \<Rightarrow> newExponentialFullJitterBackoff rewindBackoffMin rewindBackoffMax
               | Some b \<Rightarrow> b);
          (d, b') = nextDelay b draw;
          delay = max d rewindBackoffMin
      in cm\<lparr>rewindBackoff := Some b', rewindReadyAt := now + delay\<rparr>)"

definition ResetRewindBackoff :: "ConsensusManager \<Rightarrow> ConsensusManager" where
  "ResetRewindBackoff cm = cm\<lparr>rewindBackoff := map_option backoff_reset (rewindBackoff cm), rewindReadyAt := zero_time\<rparr>"

definition SetRewindWaitEmittedFor :: "ConsensusManager \<Rightarrow> go_time \<Rightarrow> ConsensusManager" where
  "SetRewindWaitEmittedFor cm t = cm\<lparr>rewindWaitEmittedFor := t\<rparr>"

subsection \<open>Cohort membership\<close>

definition ruleNamesCohortMember :: "ShardRule ptr \<Rightarrow> ID ptr \<Rightarrow> bool" where
  "ruleNamesCohortMember rule selfID =
     list_ex (\<lambda>m. GetCell m = GetCell selfID \<and> GetName m = GetName selfID) (GetCohortMembers rule)"

definition IsPotentialCohortMember ::
  "(string \<Rightarrow> lsn option) \<Rightarrow> ConsensusManager \<Rightarrow> PoolerPosition ptr \<Rightarrow> ID ptr \<Rightarrow> bool" where
  "IsPotentialCohortMember parse_lsn cm cached selfID =
     (let position = HighestKnownRule [CachedConsensusStatus parse_lsn cm cached]
      in ruleNamesCohortMember (GetDecision position) selfID \<or>
         ruleNamesCohortMember (GetProposal position) selfID)"

section \<open>The published status\<close>

lemma floor_reached:
  assumes "recruitPositionFloorIfOutstanding parse_lsn cm pos = None"
    and "cp_recruitBlockedUntil (cm_promises cm) = Some floor"
  defines "cmp \<equiv> RuleNumberPosition_Compare (RuleNumberPositionOf (PoolerPosition_GetPosition pos))
      \<lparr>Decision = RuleNumberPositionPb_GetDecision (lp_position floor),
       Proposal = RuleNumberPositionPb_GetProposal (lp_position floor)\<rparr>"
  shows "0 < cmp \<or> cmp = 0 \<and>
    (\<exists>l lf. parse_lsn (PoolerPosition_GetLsn pos) = Some l \<and> parse_lsn (lp_lsn floor) = Some lf \<and> lf \<le> l)"
  using assms(1,2)
  by (auto simp: recruitPositionFloorIfOutstanding_def Promises_GetRecruitBlockedUntil_def cmp_def Let_def
      split: if_splits option.splits prod.splits)

text \<open>
  A pooler with a recruit floor accepts no revocation on the status it publishes until it has
  reached that floor: its rule position is beyond the floor's, or equal to it with an LSN at
  least the floor's.
\<close>

theorem recruit_floor_enforced:
  assumes "ValidateRevocation parse_lsn (buildStatus parse_lsn cm stored pos) rv = None"
    and "cp_recruitBlockedUntil (cm_promises cm) = Some floor"
  shows "let cmp = RuleNumberPosition_Compare (RuleNumberPositionOf (PoolerPosition_GetPosition pos))
           \<lparr>Decision = RuleNumberPositionPb_GetDecision (lp_position floor),
            Proposal = RuleNumberPositionPb_GetProposal (lp_position floor)\<rparr>
         in 0 < cmp \<or> cmp = 0 \<and>
           (\<exists>l lf. parse_lsn (PoolerPosition_GetLsn pos) = Some l \<and> parse_lsn (lp_lsn floor) = Some lf \<and> lf \<le> l)"
proof -
  have "recruitPositionFloorIfOutstanding parse_lsn cm pos = None"
    using ValidateRevocation_acceptD(8) [OF assms(1)] by (simp add: buildStatus_def)
  from floor_reached [OF this assms(2)] show ?thesis by (simp add: Let_def)
qed


text \<open>
  The published primary's position is the greater of the rule store's and the recorded one,
  whole, and \<open>rewind_ready\<close> is published only if it was recorded for a term no older than the
  rule store's.
\<close>

theorem statusReplicationPrimary_highest:
  assumes "statusReplicationPrimary pos rp = Some hp"
  shows "0 \<le> CompareRulePosition (prim_position hp) (PoolerPosition_GetPosition pos) \<and>
         0 \<le> CompareRulePosition (prim_position hp) (ReplicationPrimary_GetPosition rp) \<and>
         prim_position hp \<in> {PoolerPosition_GetPosition pos, ReplicationPrimary_GetPosition rp} \<and>
         prim_primary hp = GetPrimary rp \<and>
         (prim_rewind_ready hp \<longrightarrow> GetRewindReady rp \<and>
            (PossiblyUndecidedRule (PoolerPosition_GetPosition pos) = None \<or>
             GetCoordinatorTerm (GetRuleNumber (PossiblyUndecidedRule (PoolerPosition_GetPosition pos)))
               \<le> primary_term rp))"
proof -
  let ?p = "PoolerPosition_GetPosition pos" and ?r = "ReplicationPrimary_GetPosition rp"
  have swap: "CompareRulePosition ?p ?r = - CompareRulePosition ?r ?p" by (rule rule_pos.cmp_swap)
  have hp: "prim_position hp = (if 0 \<le> CompareRulePosition ?r ?p then ?r else ?p)"
    "prim_primary hp = GetPrimary rp"
    "prim_rewind_ready hp \<longrightarrow> GetRewindReady rp \<and> (PossiblyUndecidedRule ?p = None \<or>
       GetCoordinatorTerm (GetRuleNumber (PossiblyUndecidedRule ?p)) \<le> primary_term rp)"
    using assms unfolding statusReplicationPrimary_def Let_def by (simp_all only: option.inject split: if_splits)
      (metis ReplicationPrimary.select_convs option.distinct(1) option.inject)+
  show ?thesis
  proof (cases "0 \<le> CompareRulePosition ?r ?p")
    case True
    with hp show ?thesis by simp
  next
    case False
    with hp swap show ?thesis by simp
  qed
qed

section \<open>A static leader\<close>

lemma HighestKnownRule_single:
  "HighestKnownRule [cs] = foldl (go_best CompareRulePosition) None
     [PoolerPosition_GetPosition (GetCurrentPosition cs),
      ReplicationPrimary_GetPosition (ReplicationPrimaryOrNil cs)]"
  by (simp add: HighestKnownRule_def)

text \<open>
  A pooler configured as static leader publishes itself as active leader whatever the rule
  store holds, starts as primary, refuses to resign, is never told to resign, and promotes
  itself exactly when postgres is seen in recovery.
\<close>

theorem static_leader_leads:
  assumes "staticLeader cm" "cm_id cm \<noteq> None"
  shows "IsActiveLeader (CachedConsensusStatus parse_lsn cm cached) \<and> StartsAsPrimary cm \<and>
         ResignGuard cm \<noteq> None \<and> LeaderInRecoveryAction cm mode \<noteq> LeaderRecoveryActionResign \<and>
         (LeaderInRecoveryAction cm mode = LeaderRecoveryActionSelfPromote \<longleftrightarrow> mode = ModeInRecovery)"
proof -
  obtain i where i: "cm_id cm = Some i" using assms(2) by auto
  have st: "CachedConsensusStatus parse_lsn cm cached = staticLeaderStatus (Some i)"
    using assms(1) i by (simp add: CachedConsensusStatus_def)
  have "IsActiveLeader (staticLeaderStatus (Some i))"
    by (simp add: IsActiveLeader_def staticLeaderStatus_def SelfConsensusRole_def HighestKnownRule_single
        go_best_def ReplicationPrimaryOrNil_def PossiblyUndecidedRule_def IsRuleDecided_def
        ruleNumberIsUnset_def RuleNamesLeader_def IsRuleRevoked_iff CompareRulePosition_def
        RuleNumberPosition_Compare_def RuleNumberPositionOf_def CompareRuleNumbers_def Let_def)
  then show ?thesis
    using assms(1) unfolding st
    by (simp add: StartsAsPrimary_def ResignGuard_def LeaderInRecoveryAction_def)
qed

section \<open>The recorded primary\<close>

lemma Merge_position_mono:
  assumes "MergeReplicationPrimary current candidate = (result, changed)"
  shows "0 \<le> CompareRulePosition (ReplicationPrimary_GetPosition result) (ReplicationPrimary_GetPosition current)"
  using assms by (auto simp: MergeReplicationPrimary_alt split: if_splits)

text \<open>The histories of the recorded primary: records under the action lock and rewind marks.\<close>

inductive primary_run :: "ConsensusManager \<Rightarrow> ReplicationPrimary ptr list \<Rightarrow> bool" where
  primary_start: "replicationPrimary cm = None \<Longrightarrow> primary_run cm [None]"
| primary_record: "primary_run cm hist \<Longrightarrow> RecordTermPrimary al ctx now cm rp = (res, cm') \<Longrightarrow>
    primary_run cm' (hist @ [replicationPrimary cm'])"
| primary_mark: "primary_run cm hist \<Longrightarrow> MarkSelfRewindReady cm selfID pos = (res, cm') \<Longrightarrow>
    primary_run cm' (hist @ [replicationPrimary cm'])"

abbreviation primary_le :: "ReplicationPrimary ptr \<Rightarrow> ReplicationPrimary ptr \<Rightarrow> bool" where
  "primary_le a b \<equiv>
     0 \<le> CompareRulePosition (ReplicationPrimary_GetPosition b) (ReplicationPrimary_GetPosition a)"

lemma RecordTermPrimary_mono:
  "RecordTermPrimary al ctx now cm rp = (res, cm') \<Longrightarrow> primary_le (replicationPrimary cm) (replicationPrimary cm')"
  using Merge_position_mono
  by (auto simp: RecordTermPrimary_def Let_def split: option.splits prod.splits if_splits)

lemma MarkSelfRewindReady_mono:
  "MarkSelfRewindReady cm selfID pos = (res, cm') \<Longrightarrow> primary_le (replicationPrimary cm) (replicationPrimary cm')"
  by (auto simp: MarkSelfRewindReady_def split: option.splits if_splits)

lemma primary_run_step:
  assumes "hist \<noteq> [] \<and> last hist = replicationPrimary cm \<and> sorted_wrt primary_le hist"
    and "primary_le (replicationPrimary cm) p"
  shows "sorted_wrt primary_le (hist @ [p])"
proof (rule sorted_wrt_extend)
  show "primary_le a c" if "primary_le a b" "primary_le b c" for a b c
    using rule_pos.cmp_trans [OF that(2,1)] .
qed (use assms in simp_all)

lemma primary_run_sorted:
  "primary_run cm hist \<Longrightarrow> hist \<noteq> [] \<and> last hist = replicationPrimary cm \<and> sorted_wrt primary_le hist"
proof (induction rule: primary_run.induct)
  case primary_start
  then show ?case by simp
next
  case (primary_record cm hist al ctx now rp res cm')
  then show ?case
    using primary_run_step RecordTermPrimary_mono [OF primary_record.hyps(2)] by simp
next
  case (primary_mark cm hist selfID pos res cm')
  then show ?case
    using primary_run_step MarkSelfRewindReady_mono [OF primary_mark.hyps(2)] by simp
qed

text \<open>
  Whatever a pooler is told and whenever it marks itself rewind-ready, the rule position of
  its recorded primary never goes back.
\<close>

theorem recorded_primary_never_regresses:
  assumes "primary_run cm hist"
  shows "sorted_wrt (\<lambda>a b. 0 \<le> CompareRulePosition (ReplicationPrimary_GetPosition b)
           (ReplicationPrimary_GetPosition a)) hist \<and> last hist = replicationPrimary cm"
  using primary_run_sorted [OF assms] by simp

text \<open>
  Marking itself rewind-ready succeeds only for the pooler the record names, at exactly the
  expected position, and it changes the flag and nothing else.
\<close>

theorem MarkSelfRewindReady_guarded:
  assumes "MarkSelfRewindReady cm selfID pos = (changed, cm')"
  shows "(\<not> changed \<longrightarrow> cm' = cm) \<and>
         (changed \<longrightarrow> (\<exists>rp. replicationPrimary cm = Some rp \<and> \<not> prim_rewind_ready rp \<and>
            PoolerAddress_GetId (prim_primary rp) = selfID \<and> prim_position rp = pos \<and>
            cm' = cm\<lparr>replicationPrimary := Some (rp\<lparr>prim_rewind_ready := True\<rparr>)\<rparr>))"
  using assms by (auto simp: MarkSelfRewindReady_def split: option.splits if_splits)

section \<open>Rewind backoff\<close>

definition rewind_backoff_ok :: "ConsensusManager \<Rightarrow> bool" where
  "rewind_backoff_ok cm \<longleftrightarrow>
     (case rewindBackoff cm of None \<Rightarrow> True
      | Some b \<Rightarrow> eb_baseDelay b = rewindBackoffMin \<and> eb_maxDelay b = rewindBackoffMax \<and>
          0 \<le> eb_attempt b \<and> eb_attempt b < MaxInt64 - 1)"

text \<open>
  After a recorded rewind attempt no further one is due for five seconds, one is due after
  five minutes at the latest, and a reset makes one due at once.
\<close>

theorem rewind_attempts_spaced:
  assumes "rewind_backoff_ok cm" "draw < 2 ^ 53" "zero_time < now"
  defines "cm' \<equiv> RecordRewindAttempt now draw cm"
  shows "(later < now + 5 * 10 ^ 9 \<longrightarrow> \<not> RewindBackoffElapsed later cm') \<and>
         (now + 5 * 60 * 10 ^ 9 \<le> later \<longrightarrow> RewindBackoffElapsed later cm') \<and>
         RewindBackoffElapsed later (ResetRewindBackoff cm')"
proof -
  define b where "b = (case rewindBackoff cm of
      None \<Rightarrow> newExponentialFullJitterBackoff rewindBackoffMin rewindBackoffMax | Some b \<Rightarrow> b)"
  have b: "eb_baseDelay b = rewindBackoffMin" "eb_maxDelay b = rewindBackoffMax"
    "0 \<le> eb_attempt b" "eb_attempt b < MaxInt64"
    using assms(1)
    by (auto simp: b_def rewind_backoff_ok_def newExponentialFullJitterBackoff_def MaxInt64_def
        split: option.splits)
  obtain d b' where d: "nextDelay b draw = (d, b')" by fastforce
  have "2 \<le> eb_baseDelay b" "eb_baseDelay b \<le> eb_maxDelay b" "eb_maxDelay b < 2 ^ 53"
    by (simp_all add: b rewindBackoffMin_def rewindBackoffMax_def)
  from nextDelay_facts [OF this b(3,4) assms(2) d]
  have "d \<le> rewindBackoffMax" by (simp add: b min_def split: if_splits)
  then have "rewindBackoffMin \<le> max d rewindBackoffMin" "max d rewindBackoffMin \<le> rewindBackoffMax"
    by (simp_all add: rewindBackoffMin_def rewindBackoffMax_def)
  moreover have "rewindReadyAt cm' = now + max d rewindBackoffMin"
    by (simp add: cm'_def RecordRewindAttempt_def Let_def d flip: b_def)
  ultimately show ?thesis
    using assms(3)
    by (auto simp: RewindBackoffElapsed_def ResetRewindBackoff_def rewindBackoffMin_def rewindBackoffMax_def)
qed

text \<open>
  A rewind target is a recorded primary whose rule names another pooler as leader and is not
  revoked by this pooler's promise.
\<close>

theorem RewindTarget_safe:
  assumes "RewindTarget cm = (host, port, True)"
  shows "\<exists>rp leader. replicationPrimary cm = Some rp \<and>
           GetLeaderId (PossiblyUndecidedRule (prim_position rp)) = Some leader \<and>
           host = GetHost (prim_primary rp) \<and> host \<noteq> '''' \<and>
           port = GetPostgresPort (prim_primary rp) \<and> port \<noteq> 0 \<and>
           (cm_id cm \<noteq> None \<longrightarrow> \<not> (id_cell leader = GetCell (cm_id cm) \<and> id_name leader = GetName (cm_id cm))) \<and>
           \<not> IsRuleRevoked (prim_position rp) (cp_revocation (cm_promises cm))"
proof -
  have "GetInconsistentRevocation p = cp_revocation p" for p by (simp add: GetInconsistentRevocation_def)
  moreover obtain rp where rp: "replicationPrimary cm = Some rp"
    using assms by (cases "replicationPrimary cm") (auto simp: RewindTarget_def CM_GetReplicationPrimary_def Let_def)
  moreover obtain leader where "GetLeaderId (PossiblyUndecidedRule (prim_position rp)) = Some leader"
    using assms rp
    by (cases "GetLeaderId (PossiblyUndecidedRule (prim_position rp))")
      (auto simp: RewindTarget_def CM_GetReplicationPrimary_def Let_def split: if_splits)
  ultimately show ?thesis
    using assms
    by (simp add: RewindTarget_def CM_GetReplicationPrimary_def Let_def split: if_splits) auto
qed

section \<open>Concrete instances\<close>

definition ex_manager :: "ConsensusPromises \<Rightarrow> ConsensusManager" where
  "ex_manager p = newConsensusManager ex_a p True"

definition ex_pos :: "PoolerPosition ptr" where
  "ex_pos = Some \<lparr>pp_position = ex_decided 3, pp_lsn = ''120''\<rparr>"

definition ex_floor :: LsnPosition where
  "ex_floor = \<lparr>lp_position = Some \<lparr>rnp_decision = ex_num 3 0, rnp_proposal = None\<rparr>, lp_lsn = ''110''\<rparr>"

theorem recruit_floor_enforced_witness:
  "\<exists>l lf. ex_parse ''120'' = Some l \<and> ex_parse ''110'' = Some lf \<and> lf \<le> l"
proof -
  let ?cm = "ex_manager ((ex_promises None)\<lparr>cp_recruitBlockedUntil := Some ex_floor\<rparr>)"
  have v: "ValidateRevocation ex_parse (buildStatus ex_parse ?cm None ex_pos) (ex_revocation 4 (ex_num 3 0)) = None"
    by code_simp
  have f: "cp_recruitBlockedUntil (cm_promises ?cm) = Some ex_floor"
    by (simp add: ex_manager_def newConsensusManager_def)
  have "RuleNumberPosition_Compare (RuleNumberPositionOf (PoolerPosition_GetPosition ex_pos))
      \<lparr>Decision = RuleNumberPositionPb_GetDecision (lp_position ex_floor),
       Proposal = RuleNumberPositionPb_GetProposal (lp_position ex_floor)\<rparr> = 0" by code_simp
  moreover have "PoolerPosition_GetLsn ex_pos = ''120''" "lp_lsn ex_floor = ''110''"
    by (simp_all add: ex_pos_def ex_floor_def)
  ultimately show ?thesis using recruit_floor_enforced [OF v f] by (simp add: Let_def)
qed

lemma ex_lock_held: "AssertActionLockHeld ex_locked (Some ex_value) = None"
  by (simp add: AssertActionLockHeld_def is_released_def ex_locked_def ex_value_def)


theorem statusReplicationPrimary_highest_witness:
  "\<exists>hp. statusReplicationPrimary ex_pos (ex_primary (ex_decided 4) ex_b) = Some hp \<and>
     0 \<le> CompareRulePosition (prim_position hp) (ex_decided 3)"
proof -
  have "statusReplicationPrimary ex_pos (ex_primary (ex_decided 4) ex_b) \<noteq> None" by code_simp
  then obtain hp where hp: "statusReplicationPrimary ex_pos (ex_primary (ex_decided 4) ex_b) = Some hp" by blast
  from statusReplicationPrimary_highest [OF hp] hp show ?thesis by (simp add: ex_pos_def)
qed

theorem static_leader_leads_witness:
  "IsActiveLeader (CachedConsensusStatus ex_parse ((ex_manager (ex_promises None))\<lparr>staticLeader := True\<rparr>) None)"
proof -
  let ?cm = "(ex_manager (ex_promises None))\<lparr>staticLeader := True\<rparr>"
  have "staticLeader ?cm" "cm_id ?cm \<noteq> None"
    by (simp_all add: ex_manager_def newConsensusManager_def ex_a_def)
  from static_leader_leads [OF this] show ?thesis by blast
qed

theorem recorded_primary_never_regresses_witness:
  "\<exists>cm. primary_run cm [None, ex_primary (ex_decided 3) ex_b] \<and>
     last [None, ex_primary (ex_decided 3) ex_b] = replicationPrimary cm"
proof -
  let ?cm = "ex_manager (ex_promises None)"
  have start: "primary_run ?cm [None]"
    by (rule primary_run.primary_start) (simp add: ex_manager_def newConsensusManager_def)
  obtain res cm' where rec: "RecordTermPrimary ex_locked (Some ex_value) 7 ?cm (ex_primary (ex_decided 3) ex_b) = (res, cm')"
    by fastforce
  have "MergeReplicationPrimary None (ex_primary (ex_decided 3) ex_b) = (ex_primary (ex_decided 3) ex_b, True)"
    by code_simp
  with rec ex_lock_held have "replicationPrimary cm' = ex_primary (ex_decided 3) ex_b"
    by (auto simp: RecordTermPrimary_def ex_manager_def newConsensusManager_def Let_def split: if_splits)
  with primary_run.primary_record [OF start rec]
  have "primary_run cm' [None, ex_primary (ex_decided 3) ex_b]" by simp
  with recorded_primary_never_regresses [OF this] show ?thesis by blast
qed

theorem MarkSelfRewindReady_guarded_witness:
  "\<exists>rp. replicationPrimary ((ex_manager (ex_promises None))\<lparr>replicationPrimary :=
        Some \<lparr>prim_position = ex_decided 3, prim_primary = ex_address ex_a, prim_rewind_ready = False\<rparr>\<rparr>) = Some rp \<and>
     PoolerAddress_GetId (prim_primary rp) = ex_a"
proof -
  let ?cm = "(ex_manager (ex_promises None))\<lparr>replicationPrimary :=
        Some \<lparr>prim_position = ex_decided 3, prim_primary = ex_address ex_a, prim_rewind_ready = False\<rparr>\<rparr>"
  obtain c cm' where m: "MarkSelfRewindReady ?cm ex_a (ex_decided 3) = (c, cm')" by fastforce
  then have c by (auto simp: MarkSelfRewindReady_def ex_address_def)
  with MarkSelfRewindReady_guarded [OF m] show ?thesis by blast
qed

theorem rewind_attempts_spaced_witness:
  "\<not> RewindBackoffElapsed 1 (RecordRewindAttempt 0 0 (ex_manager (ex_promises None)))"
proof -
  have "rewind_backoff_ok (ex_manager (ex_promises None))"
    by (simp add: rewind_backoff_ok_def ex_manager_def newConsensusManager_def)
  from rewind_attempts_spaced [OF this, of 0 0 1] show ?thesis by (simp add: zero_time_def)
qed

theorem RewindTarget_safe_witness:
  "\<not> IsRuleRevoked (ex_decided 3) None"
proof -
  let ?cm = "(ex_manager (ex_promises None))\<lparr>cm_id := ex_b, replicationPrimary := ex_primary (ex_decided 3) ex_a\<rparr>"
  have "RewindTarget ?cm = (''localhost'', 5432, True)" by code_simp
  from RewindTarget_safe [OF this] show ?thesis
    by (auto simp: ex_manager_def newConsensusManager_def ex_promises_def ex_primary_def)
qed

end
