(* ===== verification/Orch_Health.thy ===== *)
theory Orch_Health
  imports Pooler_Role Cohort_Safety
begin

text \<open>
  What an orchestrator knows of a shard: the health messages of its poolers (go/pb/multiorchdata,
  go/pb/multipoolermanagerdata, the fields that judgments read), the frozen snapshot of a shard
  (go/services/multiorch/internal/snapshot), and the judgments on one pooler
  (recovery/types/pooler_signals.go, recovery/analysis/analyzer_helpers.go).
\<close>

datatype PostgresStatus =
    POSTGRES_STATUS_UNKNOWN
  | POSTGRES_STATUS_STARTING
  | POSTGRES_STATUS_STANDBY
  | POSTGRES_STATUS_PROMOTING
  | POSTGRES_STATUS_PRIMARY
  | PostgresStatusUnrecognized int

record PrimaryConnInfo =
  pci_host :: string
  pci_port :: int

record StandbyReplicationStatus =
  srs_last_receive_lsn :: string
  srs_is_wal_replay_paused :: bool
  srs_primary_conn_info :: "PrimaryConnInfo ptr"
  srs_wal_receiver_status :: string
  srs_last_msg_receive_time :: "Timestamp ptr"
  srs_wal_receiver_status_interval :: "duration ptr"
  srs_wal_receiver_timeout :: "duration ptr"
  srs_last_receive_lsn_advance_time :: "Timestamp ptr"
  srs_quorum_commit_ts :: "Timestamp ptr"

record PrimaryStatus =
  ps_quorum_commit_ts :: "Timestamp ptr"

record PoolerStatus =
  st_primary_status :: "PrimaryStatus ptr"
  st_replication_status :: "StandbyReplicationStatus ptr"
  st_is_initialized :: bool
  st_postgres_running :: bool
  st_postgres_status :: PostgresStatus
  st_postgres_ready :: bool
  st_failover_slots_ready :: int

record CohortEligibilityStatus =
  ces_signal :: CohortEligibilitySignal

record AvailabilityStatus =
  av_leadership_status :: "LeadershipStatus ptr"
  av_cohort_eligibility_status :: "CohortEligibilityStatus ptr"

record ShardKey =
  sk_database :: string
  sk_table_group :: string
  sk_shard :: string

datatype PoolerLifecycleStatus =
    LIFECYCLE_UNKNOWN
  | LIFECYCLE_STARTING
  | LIFECYCLE_ACTIVE
  | LIFECYCLE_STOPPING
  | LIFECYCLE_SHUTDOWN
  | LIFECYCLE_QUARANTINED
  | LifecycleUnrecognized int

record PoolerLifecycle =
  pl_status :: PoolerLifecycleStatus
  pl_reason :: string
  pl_updated :: "Timestamp ptr"

datatype RoutingRole =
    ROUTING_ROLE_UNKNOWN
  | ROUTING_ROLE_PRIMARY
  | ROUTING_ROLE_REPLICA
  | RoutingRoleUnrecognized int

record RoutingState =
  rs_role :: RoutingRole
  rs_rule :: "RuleNumber ptr"

record KeyRange =
  kr_start :: string
  kr_end :: string

record Multipooler =
  mp_id :: "ID ptr"
  mp_shard_key :: "ShardKey ptr"
  mp_key_range :: "KeyRange ptr"
  mp_type :: int
  mp_serving_status :: int
  mp_hostname :: string
  mp_port_map :: "(string \<times> int) list"
  mp_pooler_dir :: string
  mp_pg_data_dir :: string
  mp_lifecycle_status :: "PoolerLifecycle ptr"
  mp_routing_state :: "RoutingState ptr"

record PoolerHealthState =
  phs_multipooler :: "Multipooler ptr"
  phs_last_check_attempted :: "Timestamp ptr"
  phs_last_check_successful :: "Timestamp ptr"
  phs_last_seen :: "Timestamp ptr"
  phs_consensus_status :: "ConsensusStatus ptr"
  phs_last_postgres_ready_time :: "Timestamp ptr"
  phs_availability_status :: "AvailabilityStatus ptr"
  phs_stream_connected :: bool
  phs_stream_connected_since :: "Timestamp ptr"
  phs_status :: "PoolerStatus ptr"
  phs_stream_snapshots_received :: int

text \<open>The zero message, and one that has only the topology record.\<close>

definition empty_health :: PoolerHealthState where
  "empty_health = \<lparr>phs_multipooler = None, phs_last_check_attempted = None, phs_last_check_successful = None,
     phs_last_seen = None, phs_consensus_status = None, phs_last_postgres_ready_time = None,
     phs_availability_status = None, phs_stream_connected = False, phs_stream_connected_since = None,
     phs_status = None, phs_stream_snapshots_received = 0\<rparr>"

definition health_of_pooler :: "Multipooler ptr \<Rightarrow> PoolerHealthState ptr" where
  "health_of_pooler mp = Some (empty_health\<lparr>phs_multipooler := mp\<rparr>)"

lemma health_of_pooler_simps [simp]:
  "phs_multipooler (the (health_of_pooler mp)) = mp" "phs_last_seen (the (health_of_pooler mp)) = None"
  "health_of_pooler mp \<noteq> None"
  by (simp_all add: health_of_pooler_def empty_health_def)

subsection \<open>Nil-safe getters\<close>

primrec ConnInfo_GetHost :: "PrimaryConnInfo ptr \<Rightarrow> string" where
  "ConnInfo_GetHost None = ''''"
| "ConnInfo_GetHost (Some m) = pci_host m"

primrec ConnInfo_GetPort :: "PrimaryConnInfo ptr \<Rightarrow> int" where
  "ConnInfo_GetPort None = 0"
| "ConnInfo_GetPort (Some m) = pci_port m"

primrec GetLastReceiveLsn :: "StandbyReplicationStatus ptr \<Rightarrow> string" where
  "GetLastReceiveLsn None = ''''"
| "GetLastReceiveLsn (Some m) = srs_last_receive_lsn m"

primrec GetIsWalReplayPaused :: "StandbyReplicationStatus ptr \<Rightarrow> bool" where
  "GetIsWalReplayPaused None = False"
| "GetIsWalReplayPaused (Some m) = srs_is_wal_replay_paused m"

primrec GetPrimaryConnInfo :: "StandbyReplicationStatus ptr \<Rightarrow> PrimaryConnInfo ptr" where
  "GetPrimaryConnInfo None = None"
| "GetPrimaryConnInfo (Some m) = srs_primary_conn_info m"

primrec GetWalReceiverStatus :: "StandbyReplicationStatus ptr \<Rightarrow> string" where
  "GetWalReceiverStatus None = ''''"
| "GetWalReceiverStatus (Some m) = srs_wal_receiver_status m"

primrec GetLastMsgReceiveTime :: "StandbyReplicationStatus ptr \<Rightarrow> Timestamp ptr" where
  "GetLastMsgReceiveTime None = None"
| "GetLastMsgReceiveTime (Some m) = srs_last_msg_receive_time m"

primrec GetWalReceiverStatusInterval :: "StandbyReplicationStatus ptr \<Rightarrow> duration ptr" where
  "GetWalReceiverStatusInterval None = None"
| "GetWalReceiverStatusInterval (Some m) = srs_wal_receiver_status_interval m"

primrec GetWalReceiverTimeout :: "StandbyReplicationStatus ptr \<Rightarrow> duration ptr" where
  "GetWalReceiverTimeout None = None"
| "GetWalReceiverTimeout (Some m) = srs_wal_receiver_timeout m"

primrec GetLastReceiveLsnAdvanceTime :: "StandbyReplicationStatus ptr \<Rightarrow> Timestamp ptr" where
  "GetLastReceiveLsnAdvanceTime None = None"
| "GetLastReceiveLsnAdvanceTime (Some m) = srs_last_receive_lsn_advance_time m"

primrec Standby_GetQuorumCommitTs :: "StandbyReplicationStatus ptr \<Rightarrow> Timestamp ptr" where
  "Standby_GetQuorumCommitTs None = None"
| "Standby_GetQuorumCommitTs (Some m) = srs_quorum_commit_ts m"

primrec Primary_GetQuorumCommitTs :: "PrimaryStatus ptr \<Rightarrow> Timestamp ptr" where
  "Primary_GetQuorumCommitTs None = None"
| "Primary_GetQuorumCommitTs (Some m) = ps_quorum_commit_ts m"

primrec GetPrimaryStatus :: "PoolerStatus ptr \<Rightarrow> PrimaryStatus ptr" where
  "GetPrimaryStatus None = None"
| "GetPrimaryStatus (Some m) = st_primary_status m"

primrec GetReplicationStatus :: "PoolerStatus ptr \<Rightarrow> StandbyReplicationStatus ptr" where
  "GetReplicationStatus None = None"
| "GetReplicationStatus (Some m) = st_replication_status m"

primrec GetIsInitialized :: "PoolerStatus ptr \<Rightarrow> bool" where
  "GetIsInitialized None = False"
| "GetIsInitialized (Some m) = st_is_initialized m"

primrec GetPostgresRunning :: "PoolerStatus ptr \<Rightarrow> bool" where
  "GetPostgresRunning None = False"
| "GetPostgresRunning (Some m) = st_postgres_running m"

primrec GetPostgresStatus :: "PoolerStatus ptr \<Rightarrow> PostgresStatus" where
  "GetPostgresStatus None = POSTGRES_STATUS_UNKNOWN"
| "GetPostgresStatus (Some m) = st_postgres_status m"

primrec GetPostgresReady :: "PoolerStatus ptr \<Rightarrow> bool" where
  "GetPostgresReady None = False"
| "GetPostgresReady (Some m) = st_postgres_ready m"

primrec GetFailoverSlotsReady :: "PoolerStatus ptr \<Rightarrow> int" where
  "GetFailoverSlotsReady None = 0"
| "GetFailoverSlotsReady (Some m) = st_failover_slots_ready m"

primrec Eligibility_GetSignal :: "CohortEligibilityStatus ptr \<Rightarrow> CohortEligibilitySignal" where
  "Eligibility_GetSignal None = COHORT_ELIGIBILITY_SIGNAL_UNKNOWN"
| "Eligibility_GetSignal (Some m) = ces_signal m"

primrec GetLeadershipStatus :: "AvailabilityStatus ptr \<Rightarrow> LeadershipStatus ptr" where
  "GetLeadershipStatus None = None"
| "GetLeadershipStatus (Some m) = av_leadership_status m"

primrec GetCohortEligibilityStatus :: "AvailabilityStatus ptr \<Rightarrow> CohortEligibilityStatus ptr" where
  "GetCohortEligibilityStatus None = None"
| "GetCohortEligibilityStatus (Some m) = av_cohort_eligibility_status m"

primrec Multipooler_GetId :: "Multipooler ptr \<Rightarrow> ID ptr" where
  "Multipooler_GetId None = None"
| "Multipooler_GetId (Some m) = mp_id m"

primrec GetDatabase :: "ShardKey ptr \<Rightarrow> string" where
  "GetDatabase None = ''''"
| "GetDatabase (Some k) = sk_database k"

primrec GetTableGroup :: "ShardKey ptr \<Rightarrow> string" where
  "GetTableGroup None = ''''"
| "GetTableGroup (Some k) = sk_table_group k"

primrec GetShard :: "ShardKey ptr \<Rightarrow> string" where
  "GetShard None = ''''"
| "GetShard (Some k) = sk_shard k"

primrec Multipooler_GetShardKey :: "Multipooler ptr \<Rightarrow> ShardKey ptr" where
  "Multipooler_GetShardKey None = None"
| "Multipooler_GetShardKey (Some m) = mp_shard_key m"

primrec GetLifecycleStatus :: "Multipooler ptr \<Rightarrow> PoolerLifecycle ptr" where
  "GetLifecycleStatus None = None"
| "GetLifecycleStatus (Some m) = mp_lifecycle_status m"

primrec Lifecycle_GetStatus :: "PoolerLifecycle ptr \<Rightarrow> PoolerLifecycleStatus" where
  "Lifecycle_GetStatus None = LIFECYCLE_UNKNOWN"
| "Lifecycle_GetStatus (Some m) = pl_status m"

primrec GetHostname :: "Multipooler ptr \<Rightarrow> string" where
  "GetHostname None = ''''"
| "GetHostname (Some m) = mp_hostname m"

primrec GetPortMap :: "Multipooler ptr \<Rightarrow> (string \<times> int) list" where
  "GetPortMap None = []"
| "GetPortMap (Some m) = mp_port_map m"

primrec GetMultipooler :: "PoolerHealthState ptr \<Rightarrow> Multipooler ptr" where
  "GetMultipooler None = None"
| "GetMultipooler (Some m) = phs_multipooler m"

lemma GetMultipooler_health_of_pooler [simp]: "GetMultipooler (health_of_pooler mp) = mp"
  by (simp add: health_of_pooler_def)

primrec GetLastSeen :: "PoolerHealthState ptr \<Rightarrow> Timestamp ptr" where
  "GetLastSeen None = None"
| "GetLastSeen (Some m) = phs_last_seen m"

primrec GetConsensusStatus :: "PoolerHealthState ptr \<Rightarrow> ConsensusStatus ptr" where
  "GetConsensusStatus None = None"
| "GetConsensusStatus (Some m) = phs_consensus_status m"

primrec GetLastPostgresReadyTime :: "PoolerHealthState ptr \<Rightarrow> Timestamp ptr" where
  "GetLastPostgresReadyTime None = None"
| "GetLastPostgresReadyTime (Some m) = phs_last_postgres_ready_time m"

primrec GetAvailabilityStatus :: "PoolerHealthState ptr \<Rightarrow> AvailabilityStatus ptr" where
  "GetAvailabilityStatus None = None"
| "GetAvailabilityStatus (Some m) = phs_availability_status m"

primrec GetStatus :: "PoolerHealthState ptr \<Rightarrow> PoolerStatus ptr" where
  "GetStatus None = None"
| "GetStatus (Some m) = phs_status m"

primrec Leadership_GetSignal :: "LeadershipStatus ptr \<Rightarrow> LeadershipSignal" where
  "Leadership_GetSignal None = LEADERSHIP_SIGNAL_UNKNOWN"
| "Leadership_GetSignal (Some m) = ls_signal m"

text \<open>The string form of a shard key (go/common/types/shard_key.go).\<close>

primrec FormatShardKey :: "ShardKey ptr \<Rightarrow> string" where
  "FormatShardKey None = ''''"
| "FormatShardKey (Some k) = sk_database k @ ''/'' @ sk_table_group k @ ''/'' @ sk_shard k"

subsection \<open>Snapshots\<close>

record AvailabilityPolicy =
  LeaderLivenessFreshness :: duration
  FollowerStreamFreshness :: duration
  LeaderChangeFreshness :: duration
  ConnectReplicasToNewLeaderGrace :: duration
  ObservationFreshness :: duration
  QuorumCommitStaleAfter :: duration
  PreRecheckRefreshTimeout :: duration

definition seconds :: "int \<Rightarrow> duration" where
  "seconds n = n * 10 ^ 9"

definition DefaultQuorumCommitStaleAfter :: duration where
  "DefaultQuorumCommitStaleAfter = seconds 20"

definition DefaultAvailabilityPolicy :: AvailabilityPolicy where
  "DefaultAvailabilityPolicy = \<lparr>LeaderLivenessFreshness = seconds 15, FollowerStreamFreshness = seconds 15,
     LeaderChangeFreshness = seconds 15, ConnectReplicasToNewLeaderGrace = seconds 10,
     ObservationFreshness = seconds 15, QuorumCommitStaleAfter = DefaultQuorumCommitStaleAfter,
     PreRecheckRefreshTimeout = seconds 5\<rparr>"

record Shard =
  sa_ShardKey :: "ShardKey ptr"
  sa_Poolers :: "PoolerHealthState ptr list"
  sa_Now :: go_time
  sa_AvailabilityPolicy :: AvailabilityPolicy
  sa_TombstoneIDs :: "string set"
  sa_BootstrapDurabilityPolicy :: "DurabilityPolicyPb ptr"

definition HighestIntendedRule :: "Shard \<Rightarrow> RulePosition ptr" where
  "HighestIntendedRule sa =
     HighestKnownRule (filter (\<lambda>cs. cs \<noteq> None) (map GetConsensusStatus (sa_Poolers sa)))"

definition IntendedLeaderID :: "Shard \<Rightarrow> ID ptr" where
  "IntendedLeaderID sa = GetLeaderId (PossiblyUndecidedRule (HighestIntendedRule sa))"

definition PoolerHealth :: "Shard \<Rightarrow> ID ptr \<Rightarrow> PoolerHealthState ptr" where
  "PoolerHealth sa i =
     (if i = None then None
      else case find (\<lambda>p. Multipooler_GetId (GetMultipooler p) = i) (sa_Poolers sa) of
             None \<Rightarrow> None
           | Some p \<Rightarrow> p)"

definition IntendedLeaderHealth :: "Shard \<Rightarrow> PoolerHealthState ptr" where
  "IntendedLeaderHealth sa = PoolerHealth sa (IntendedLeaderID sa)"

definition observationAge :: "PoolerHealthState ptr \<Rightarrow> go_time \<Rightarrow> duration \<times> bool" where
  "observationAge h now =
     (let ls = GetLastSeen h
      in if ls = None then (0, False) else (time_Sub now (AsTime ls), True))"

definition HealthWithin ::
  "PoolerHealthState ptr \<Rightarrow> go_time \<Rightarrow> duration \<Rightarrow> PoolerHealthState ptr \<times> bool" where
  "HealthWithin h now maxAge =
     (let (age, ok) = observationAge h now
      in if \<not> ok \<or> age > maxAge then (None, False) else (h, True))"

definition LeaderWritesProgressing ::
  "PoolerHealthState ptr \<Rightarrow> RulePosition ptr \<Rightarrow> go_time \<Rightarrow> duration \<Rightarrow> bool" where
  "LeaderWritesProgressing leader intendedRule now freshness =
     (if leader = None then False
      else
        let (age, ok) = observationAge leader now
        in if \<not> ok \<or> age > freshness then False
           else if GetPostgresStatus (GetStatus leader) \<noteq> POSTGRES_STATUS_PRIMARY then False
           else IsRuleDecided intendedRule)"

subsection \<open>Judgments on one pooler\<close>

definition PoolerIsCohortIneligible :: "AvailabilityStatus ptr \<Rightarrow> bool" where
  "PoolerIsCohortIneligible av \<longleftrightarrow>
     Eligibility_GetSignal (GetCohortEligibilityStatus av) = COHORT_ELIGIBILITY_SIGNAL_INELIGIBLE"

definition LeaderNeedsReplacement :: "PoolerHealthState ptr \<Rightarrow> bool" where
  "LeaderNeedsReplacement p =
     (let av = GetAvailabilityStatus p
      in if PoolerIsCohortIneligible av then True
         else case GetLeadershipStatus av of
                None \<Rightarrow> False
              | Some leadershipStatus \<Rightarrow>
                  if ls_signal leadershipStatus \<noteq> LEADERSHIP_SIGNAL_REQUESTING_DEMOTION then False
                  else
                    let position = PoolerPosition_GetPosition (GetCurrentPosition (GetConsensusStatus p));
                        primaryTerm = GetCoordinatorTerm (GetRuleNumber (PossiblyUndecidedRule position))
                    in ls_leader_term leadershipStatus \<noteq> 0 \<and> ls_leader_term leadershipStatus = primaryTerm)"

definition leaderEndpoint :: "PoolerHealthState ptr \<Rightarrow> string \<times> int" where
  "leaderEndpoint leader =
     (GetHostname (GetMultipooler leader),
      case map_of (GetPortMap (GetMultipooler leader)) ''postgres'' of None \<Rightarrow> 0 | Some p \<Rightarrow> p)"

definition poolerID :: "PoolerHealthState ptr \<Rightarrow> ID ptr" where
  "poolerID p = Multipooler_GetId (GetMultipooler p)"

definition freshAndInitialized :: "PoolerHealthState ptr \<Rightarrow> go_time \<Rightarrow> duration \<Rightarrow> bool" where
  "freshAndInitialized p now freshness =
     (let (hs, ok) = HealthWithin p now freshness in ok \<and> GetIsInitialized (GetStatus hs))"

definition recruitable :: "PoolerHealthState ptr \<Rightarrow> go_time \<Rightarrow> duration \<Rightarrow> bool" where
  "recruitable p now freshness =
     (if \<not> freshAndInitialized p now freshness then False
      else
        let hs = fst (HealthWithin p now freshness)
        in if PoolerIsCohortIneligible (GetAvailabilityStatus hs) then False
           else if GetCurrentPosition (GetConsensusStatus hs) = None then False
           else GetRecruitBlockedUntil (GetConsensusStatus hs) = None)"

definition walReplayNotPaused :: "PoolerHealthState ptr \<Rightarrow> bool" where
  "walReplayNotPaused p =
     (let rs = GetReplicationStatus (GetStatus p)
      in if rs = None then False else \<not> GetIsWalReplayPaused rs)"

definition primaryConnInfoHost :: "PoolerHealthState ptr \<Rightarrow> string" where
  "primaryConnInfoHost p = ConnInfo_GetHost (GetPrimaryConnInfo (GetReplicationStatus (GetStatus p)))"

definition walReceiverActive :: "PoolerHealthState ptr \<Rightarrow> bool" where
  "walReceiverActive p =
     (let rs = GetReplicationStatus (GetStatus p)
      in if rs = None then False
         else GetWalReceiverStatus rs = ''streaming'' \<or> GetWalReceiverStatus rs = ''waiting'')"

definition walReceiverStreaming :: "PoolerHealthState ptr \<Rightarrow> bool" where
  "walReceiverStreaming p =
     (let rs = GetReplicationStatus (GetStatus p)
      in if rs = None then False
         else if GetWalReceiverStatus rs = ''waiting'' then True
         else if GetWalReceiverStatus rs = ''streaming'' then GetLastReceiveLsn rs \<noteq> ''''
         else False)"

definition compareLeaderTimeline :: "PoolerHealthState ptr \<Rightarrow> PoolerHealthState ptr \<Rightarrow> int" where
  "compareLeaderTimeline a b = CompareRulePosition
     (PoolerPosition_GetPosition (GetCurrentPosition (GetConsensusStatus a)))
     (PoolerPosition_GetPosition (GetCurrentPosition (GetConsensusStatus b)))"

definition observationFresh :: "PoolerHealthState ptr \<Rightarrow> go_time \<Rightarrow> duration \<Rightarrow> bool" where
  "observationFresh h now maxAge = snd (HealthWithin h now maxAge)"

definition QuorumCommitStale :: "Timestamp ptr \<Rightarrow> go_time \<Rightarrow> duration \<Rightarrow> bool" where
  "QuorumCommitStale quorumCommitTs now staleAfter \<longleftrightarrow>
     GetSeconds quorumCommitTs \<noteq> 0 \<and> time_Sub now (AsTime quorumCommitTs) > staleAfter"

subsection \<open>Problems\<close>

datatype ProblemCode =
    ProblemShardNeedsInitialization
  | ProblemLeaderUnspecified
  | ProblemLeaderUnreachableByCohort
  | ProblemLeaderUnhealthy
  | ProblemLeaderResigned
  | ProblemLeaderQuorumWritesStalled
  | ProblemReplicaNotReplicating
  | ProblemReplicaRecruitAbandoned
  | ProblemReplicaWrongPrimary
  | ProblemReplicaLagging
  | ProblemReplicaMisconfigured
  | ProblemReplicaIsWritable
  | ProblemStaleLeader
  | ProblemPoolerNotInCohort
  | ProblemCohortMemberIneligible
  | ProblemShardAtRisk
  | ProblemShardStuck
  | ProblemNoHealthyCohortMembers
  | ProblemLeaderHealthUnknown

definition IsFailoverProblem :: "ProblemCode \<Rightarrow> bool" where
  "IsFailoverProblem c \<longleftrightarrow>
     c = ProblemLeaderUnspecified \<or> c = ProblemLeaderUnreachableByCohort \<or> c = ProblemLeaderUnhealthy \<or>
     c = ProblemLeaderResigned \<or> c = ProblemLeaderQuorumWritesStalled"

datatype ProblemScope = ScopeShard | ScopePooler

datatype RecoveryAction =
    AppointLeaderAction
  | AlertOnlyAction
  | ReconcileCohortAction
  | ReconnectRecruitAbandonedAction
  | FixReplicationAction
  | ShardInitAction
  | DemoteStaleLeaderAction

definition PriorityShardBootstrap :: int where "PriorityShardBootstrap = 10000"
definition PriorityEmergency :: int where "PriorityEmergency = 1000"
definition PriorityHigh :: int where "PriorityHigh = 500"
definition PriorityNormal :: int where "PriorityNormal = 100"

text \<open>A problem, without its description text and detection time.\<close>

record Problem =
  pb_Code :: ProblemCode
  pb_CheckName :: string
  pb_PoolerID :: "ID ptr"
  pb_ShardKey :: "ShardKey ptr"
  pb_Priority :: int
  pb_Scope :: ProblemScope
  pb_RecoveryAction :: RecoveryAction
  pb_SkipPreRecheckRefresh :: bool

definition IsShardWide :: "Problem \<Rightarrow> bool" where
  "IsShardWide p \<longleftrightarrow> pb_Scope p = ScopeShard"

definition EntityID :: "Problem \<Rightarrow> string" where
  "EntityID p =
     (if pb_Scope p = ScopePooler \<and> pb_PoolerID p \<noteq> None then ComponentIDString (pb_PoolerID p)
      else FormatShardKey (pb_ShardKey p))"

record OrchConfig =
  cfg_LeaderPostgresResponseThreshold :: duration
  cfg_LeaderFailoverGracePeriodBase :: duration
  cfg_LeaderFailoverGracePeriodMaxJitter :: duration

text \<open>The factory's settings; its stores and clients are handed to the actions only.\<close>

record RecoveryActionFactory =
  rf_config :: "OrchConfig ptr"
  rf_policy :: AvailabilityPolicy

text \<open>\<open>AErr_NilConfig\<close> and \<open>AErr_NilPoolerID\<close> stand for the panics of a nil dereference.\<close>

datatype analysis_error =
    AErr_NoFactory
  | AErr_NilPoolerID
  | AErr_NilConfig
  | AErr_PolicyUnavailable durability_error
  | AErr_BootstrapPolicy durability_error

text \<open>An error of one pooler does not stop the scan of the others; a panic does (\<open>Inl\<close>).\<close>

definition analyzeAllPoolers ::
  "Shard \<Rightarrow> (Shard \<Rightarrow> PoolerHealthState ptr \<Rightarrow> analysis_error + Problem option) \<Rightarrow>
     analysis_error + Problem list \<times> analysis_error option" where
  "analyzeAllPoolers sa fn =
     foldl (\<lambda>acc p.
         case acc of
           Inl panic \<Rightarrow> Inl panic
         | Inr (problems, firstErr) \<Rightarrow>
             (case fn sa p of
                Inl err \<Rightarrow> if err = AErr_NilPoolerID then Inl err
                           else Inr (problems, if firstErr = None then Some err else firstErr)
              | Inr None \<Rightarrow> Inr (problems, firstErr)
              | Inr (Some pb) \<Rightarrow> Inr (problems @ [pb], firstErr)))
       (Inr ([], None)) (sa_Poolers sa)"

text \<open>What a scan collects is what the per-pooler analysis reported for some pooler.\<close>

lemma analyzeAllPoolers_problem:
  assumes "analyzeAllPoolers sa fn = Inr (problems, err)"
  shows "pb \<in> set problems \<longleftrightarrow> (\<exists>p \<in> set (sa_Poolers sa). fn sa p = Inr (Some pb))"
proof -
  let ?step = "\<lambda>acc p.
         case acc of
           Inl panic \<Rightarrow> Inl panic
         | Inr (problems, firstErr) \<Rightarrow>
             (case fn sa p of
                Inl err \<Rightarrow> if err = AErr_NilPoolerID then Inl err
                           else Inr (problems, if firstErr = None then Some err else firstErr)
              | Inr None \<Rightarrow> Inr (problems, firstErr)
              | Inr (Some pb) \<Rightarrow> Inr (problems @ [pb], firstErr))"
  have "foldl ?step (Inr ([], None)) ps = Inr (problems, err) \<Longrightarrow>
      pb \<in> set problems \<longleftrightarrow> (\<exists>p \<in> set ps. fn sa p = Inr (Some pb))" for ps
    by (induction ps arbitrary: problems err rule: rev_induct)
       (auto split: sum.splits option.splits if_splits prod.splits)
  from this [of "sa_Poolers sa"] assms show ?thesis by (simp add: analyzeAllPoolers_def)
qed

section \<open>Concrete instances\<close>

definition ex_multipooler :: "ID ptr \<Rightarrow> string \<Rightarrow> (string \<times> int) list \<Rightarrow> Multipooler ptr" where
  "ex_multipooler i host ports = Some \<lparr>mp_id = i, mp_shard_key = Some \<lparr>sk_database = ''db'',
       sk_table_group = ''default'', sk_shard = ''0-inf''\<rparr>,
     mp_key_range = None, mp_type = 0, mp_serving_status = 0, mp_hostname = host, mp_port_map = ports,
     mp_pooler_dir = [], mp_pg_data_dir = [], mp_lifecycle_status = None, mp_routing_state = None\<rparr>"

end
