(* ===== verification/Pooler_Cache.thy ===== *)
theory Pooler_Cache
  imports Orch_Health "HOL-Library.AList" "HOL-Library.Multiset"
begin

text \<open>
  The cache of poolers discovered in the topology (go/common/topoclient/poolerwatch/cache.go). It
  keeps a caller's rider per pooler, two secondary indexes, and tombstones of poolers that were shut
  down; it calls hooks when a pooler appears, changes or goes.

  The entry objects are shared between the three maps and mutated in place, so they live in a heap
  (\<open>pc_heap\<close>, addresses are positions) and the maps hold addresses. Go maps are association lists; the
  order of the list stands for the order in which a map is iterated, and no result depends on it but
  the order of a returned slice. A hook call is a value of \<open>hook_call\<close>; an operation returns the new
  cache and the calls it makes after it has released the lock. \<open>proto.Equal\<close> is equality of
  messages.
\<close>

section \<open>State\<close>

datatype State = StateLive | StateMissingFromTopo

datatype GoneReason = GoneShutdown | GoneMissingFromTopo | GoneCacheShutdown

record 'r Entry =
  en_Pooler :: Multipooler
  en_Rider :: 'r
  en_State :: State
  en_LastChange :: go_time

record 'r Hooks =
  hk_OnLive :: "(Multipooler \<Rightarrow> 'r \<Rightarrow> 'r) option"
  hk_OnUpdate :: bool
  hk_OnGone :: bool

datatype 'r hook_call =
    CallOnLive Multipooler 'r
  | CallOnUpdate Multipooler Multipooler 'r
  | CallOnGone Multipooler 'r GoneReason

record 'r Config =
  cf_Filter :: "(Multipooler \<Rightarrow> bool) option"
  cf_ShutdownGrace :: duration
  cf_MissingGracePeriod :: duration
  cf_LastReachedTimestamp :: "('r \<Rightarrow> go_time) option"

record shardKey =
  ck_database :: string
  ck_tableGroup :: string
  ck_shard :: string

record 'r internalEntry =
  ie_id :: string
  ie_pooler :: Multipooler
  ie_rider :: 'r
  ie_state :: State
  ie_lastChange :: go_time
  ie_disposeAfter :: go_time

record Tombstone =
  ts_ID :: "ID ptr"
  ts_ShutdownAt :: go_time

record tombstoneEntry =
  te_id :: string
  te_poolerID :: "ID ptr"
  te_shutdownAt :: go_time
  te_disposeAfter :: go_time

type_synonym bucket = "(string \<times> nat) list"
type_synonym 'k index = "('k \<times> bucket) list"

record 'r PoolerCache =
  pc_heap :: "'r internalEntry list"
  pc_entries :: bucket
  pc_byCell :: "string index"
  pc_byShard :: "shardKey index"
  pc_tombstones :: "(string \<times> tombstoneEntry) list"
  pc_closed :: bool
  pc_cellLastActivity :: "(string \<times> go_time) list"

record CellStatus =
  cs_Cell :: string
  cs_LastActivity :: go_time
  cs_Poolers :: "Multipooler list"

definition New :: "'r PoolerCache" where
  "New = \<lparr>pc_heap = [], pc_entries = [], pc_byCell = [], pc_byShard = [], pc_tombstones = [],
     pc_closed = False, pc_cellLastActivity = []\<rparr>"

section \<open>Indexes\<close>

text \<open>A map of buckets: reading, \<open>m[k][id] = a\<close> with the bucket made on demand, and
  \<open>delete(m[k], id)\<close> with the bucket dropped when it becomes empty.\<close>

definition idx_get :: "'k index \<Rightarrow> 'k \<Rightarrow> string \<Rightarrow> nat option" where
  "idx_get m k i = (case map_of m k of None \<Rightarrow> None | Some b \<Rightarrow> map_of b i)"

definition idx_put :: "'k \<Rightarrow> string \<Rightarrow> nat \<Rightarrow> 'k index \<Rightarrow> 'k index" where
  "idx_put k i a m =
     (let b = (case map_of m k of None \<Rightarrow> [] | Some b \<Rightarrow> b) in AList.update k (AList.update i a b) m)"

definition idx_del :: "'k \<Rightarrow> string \<Rightarrow> 'k index \<Rightarrow> 'k index" where
  "idx_del k i m =
     (case map_of m k of
        None \<Rightarrow> m
      | Some b \<Rightarrow>
          (let b' = AList.delete i b
           in if b' = [] then AList.delete k m else AList.update k b' m))"

definition bucket_of :: "'k index \<Rightarrow> 'k \<Rightarrow> bucket" where
  "bucket_of m k = (case map_of m k of None \<Rightarrow> [] | Some b \<Rightarrow> b)"

definition entry_at :: "'r PoolerCache \<Rightarrow> nat \<Rightarrow> 'r internalEntry" where
  "entry_at c a = pc_heap c ! a"

definition set_entry :: "nat \<Rightarrow> 'r internalEntry \<Rightarrow> 'r PoolerCache \<Rightarrow> 'r PoolerCache" where
  "set_entry a e c = c\<lparr>pc_heap := (pc_heap c)[a := e]\<rparr>"

definition cell_of :: "Multipooler \<Rightarrow> string" where
  "cell_of p = GetCell (mp_id p)"

definition shardKeyFor :: "Multipooler \<Rightarrow> shardKey" where
  "shardKeyFor p = (let sk = mp_shard_key p
     in \<lparr>ck_database = GetDatabase sk, ck_tableGroup = GetTableGroup sk, ck_shard = GetShard sk\<rparr>)"

definition indexInsert :: "nat \<Rightarrow> 'r PoolerCache \<Rightarrow> 'r PoolerCache" where
  "indexInsert a c =
     (let e = entry_at c a; cell = cell_of (ie_pooler e);
          c = (if cell \<noteq> '''' then c\<lparr>pc_byCell := idx_put cell (ie_id e) a (pc_byCell c)\<rparr> else c)
      in c\<lparr>pc_byShard := idx_put (shardKeyFor (ie_pooler e)) (ie_id e) a (pc_byShard c)\<rparr>)"

definition indexRemove :: "nat \<Rightarrow> 'r PoolerCache \<Rightarrow> 'r PoolerCache" where
  "indexRemove a c =
     (let e = entry_at c a
      in c\<lparr>pc_byCell := idx_del (cell_of (ie_pooler e)) (ie_id e) (pc_byCell c),
           pc_byShard := idx_del (shardKeyFor (ie_pooler e)) (ie_id e) (pc_byShard c)\<rparr>)"

definition indexUpdate :: "nat \<Rightarrow> Multipooler \<Rightarrow> 'r PoolerCache \<Rightarrow> 'r PoolerCache" where
  "indexUpdate a prevPooler c =
     (let e = entry_at c a; saved = ie_pooler e
      in if cell_of prevPooler = cell_of saved \<and> shardKeyFor prevPooler = shardKeyFor saved then c
         else
           (let c = set_entry a (e\<lparr>ie_pooler := prevPooler\<rparr>) c;
                c = indexRemove a c;
                c = set_entry a (e\<lparr>ie_pooler := saved\<rparr>) c
            in indexInsert a c))"

section \<open>Reads\<close>

definition entrySnapshot :: "'r internalEntry \<Rightarrow> 'r Entry" where
  "entrySnapshot e = \<lparr>en_Pooler = ie_pooler e, en_Rider = ie_rider e, en_State = ie_state e,
     en_LastChange = ie_lastChange e\<rparr>"

definition Get :: "'r PoolerCache \<Rightarrow> string \<Rightarrow> 'r Entry option" where
  "Get c i = map_option (\<lambda>a. entrySnapshot (entry_at c a)) (map_of (pc_entries c) i)"

definition GetRider :: "'r PoolerCache \<Rightarrow> string \<Rightarrow> 'r option" where
  "GetRider c i = map_option (\<lambda>a. ie_rider (entry_at c a)) (map_of (pc_entries c) i)"

definition GetByShard :: "'r PoolerCache \<Rightarrow> string \<Rightarrow> string \<Rightarrow> string \<Rightarrow> 'r Entry list" where
  "GetByShard c database tableGroup shard =
     map (\<lambda>(_, a). entrySnapshot (entry_at c a))
       (bucket_of (pc_byShard c) \<lparr>ck_database = database, ck_tableGroup = tableGroup, ck_shard = shard\<rparr>)"

definition All :: "'r PoolerCache \<Rightarrow> 'r Entry list" where
  "All c = map (\<lambda>(_, a). entrySnapshot (entry_at c a)) (pc_entries c)"

definition Len :: "'r PoolerCache \<Rightarrow> nat" where
  "Len c = length (pc_entries c)"

definition Tombstones :: "'r PoolerCache \<Rightarrow> Tombstone list" where
  "Tombstones c = map (\<lambda>(_, g). \<lparr>ts_ID = te_poolerID g, ts_ShutdownAt = te_shutdownAt g\<rparr>) (pc_tombstones c)"

definition shutdown_record :: "ID ptr \<Rightarrow> Multipooler" where
  "shutdown_record i = \<lparr>mp_id = i, mp_shard_key = None, mp_key_range = None, mp_type = 0, mp_serving_status = 0,
     mp_hostname = '''', mp_port_map = [], mp_pooler_dir = '''', mp_pg_data_dir = '''',
     mp_lifecycle_status = Some \<lparr>pl_status = LIFECYCLE_SHUTDOWN, pl_reason = '''', pl_updated = None\<rparr>,
     mp_routing_state = None\<rparr>"

definition CellStatuses :: "'r PoolerCache \<Rightarrow> CellStatus list" where
  "CellStatuses c =
     (let cellSet = set (map fst (pc_byCell c)) \<union> set (map fst (pc_cellLastActivity c)) \<union>
            set (map (\<lambda>(_, g). GetCell (te_poolerID g)) (pc_tombstones c))
      in map (\<lambda>cell. \<lparr>cs_Cell = cell,
             cs_LastActivity = (case map_of (pc_cellLastActivity c) cell of None \<Rightarrow> zero_time | Some t \<Rightarrow> t),
             cs_Poolers = sort_key (\<lambda>p. ComponentIDString (mp_id p))
               (map (\<lambda>(_, a). ie_pooler (entry_at c a)) (bucket_of (pc_byCell c) cell) @
                map (\<lambda>(_, g). shutdown_record (te_poolerID g))
                  (filter (\<lambda>(_, g). GetCell (te_poolerID g) = cell) (pc_tombstones c)))\<rparr>)
           (sorted_list_of_set cellSet))"

section \<open>Writes\<close>

definition addTombstoneLocked ::
  "'r Config \<Rightarrow> string \<Rightarrow> ID ptr \<Rightarrow> go_time \<Rightarrow> 'r PoolerCache \<Rightarrow> 'r PoolerCache" where
  "addTombstoneLocked cfg i pid now c = c\<lparr>pc_tombstones := AList.update i
     \<lparr>te_id = i, te_poolerID = pid, te_shutdownAt = now, te_disposeAfter = now + cf_ShutdownGrace cfg\<rparr>
     (pc_tombstones c)\<rparr>"

definition note_activity :: "string \<Rightarrow> go_time \<Rightarrow> 'r PoolerCache \<Rightarrow> 'r PoolerCache" where
  "note_activity cell now c =
     (if cell \<noteq> '''' then c\<lparr>pc_cellLastActivity := AList.update cell now (pc_cellLastActivity c)\<rparr> else c)"

definition evict :: "string \<Rightarrow> nat \<Rightarrow> 'r PoolerCache \<Rightarrow> 'r PoolerCache" where
  "evict i a c = indexRemove a (c\<lparr>pc_entries := AList.delete i (pc_entries c)\<rparr>)"

definition gone :: "'r Hooks \<Rightarrow> Multipooler \<Rightarrow> 'r \<Rightarrow> GoneReason \<Rightarrow> 'r hook_call list" where
  "gone hooks p r reason = (if hk_OnGone hooks then [CallOnGone p r reason] else [])"

primrec goneReasonFor :: "State \<Rightarrow> GoneReason" where
  "goneReasonFor StateMissingFromTopo = GoneMissingFromTopo"
| "goneReasonFor StateLive = GoneCacheShutdown"

definition is_shutdown :: "Multipooler \<Rightarrow> bool" where
  "is_shutdown p \<longleftrightarrow> Lifecycle_GetStatus (mp_lifecycle_status p) = LIFECYCLE_SHUTDOWN"

text \<open>
  \<open>upsert\<close> releases the lock around \<open>OnLive\<close>. Its first critical section returns the new cache, the
  hook calls that follow it, and whether a rider is to be made; the second stores the new rider or
  hands it back when the cache was shut down meanwhile.
\<close>

definition upsert_existing ::
  "'r Config \<Rightarrow> 'r Hooks \<Rightarrow> go_time \<Rightarrow> Multipooler \<Rightarrow> string \<Rightarrow> nat \<Rightarrow> 'r PoolerCache \<Rightarrow>
     'r PoolerCache \<times> 'r hook_call list" where
  "upsert_existing cfg hooks now pooler i a c =
     (let e = entry_at c a; prevPooler = ie_pooler e; prevState = ie_state e; rider = ie_rider e;
          unchanged = (prevPooler = pooler);
          updated = (if \<not> unchanged \<and> hk_OnUpdate hooks then [CallOnUpdate prevPooler pooler rider] else []);
          c = set_entry a (e\<lparr>ie_pooler := pooler\<rparr>) c;
          c = indexUpdate a prevPooler c;
          e = entry_at c a
      in if is_shutdown pooler
         then (addTombstoneLocked cfg i (mp_id pooler) now (evict (ie_id e) a c), gone hooks pooler rider GoneShutdown)
         else if prevState = StateLive
         then (if unchanged then c else set_entry a (e\<lparr>ie_lastChange := now\<rparr>) c, updated)
         else (set_entry a (e\<lparr>ie_state := StateLive, ie_lastChange := now, ie_disposeAfter := zero_time\<rparr>) c,
               updated))"

definition upsertLocked ::
  "'r Config \<Rightarrow> 'r Hooks \<Rightarrow> go_time \<Rightarrow> Multipooler \<Rightarrow> 'r PoolerCache \<Rightarrow>
     'r PoolerCache \<times> 'r hook_call list \<times> bool" where
  "upsertLocked cfg hooks now pooler c =
     (let i = ComponentIDString (mp_id pooler)
      in if pc_closed c then (c, [], False)
         else
           (let c = note_activity (cell_of pooler) now c
            in case map_of (pc_entries c) i of
                 Some a \<Rightarrow> (let (c, calls) = upsert_existing cfg hooks now pooler i a c in (c, calls, False))
               | None \<Rightarrow>
                   (case map_of (pc_tombstones c) i of
                      Some g \<Rightarrow>
                        if is_shutdown pooler
                        then (c\<lparr>pc_tombstones := AList.update i (g\<lparr>te_shutdownAt := now\<rparr>) (pc_tombstones c)\<rparr>, [], False)
                        else (c\<lparr>pc_tombstones := AList.delete i (pc_tombstones c)\<rparr>, [], True)
                    | None \<Rightarrow>
                        if is_shutdown pooler then (addTombstoneLocked cfg i (mp_id pooler) now c, [], False)
                        else (c, [], True))))"

definition call_OnLive :: "'r Hooks \<Rightarrow> 'r \<Rightarrow> Multipooler \<Rightarrow> 'r \<times> 'r hook_call list" where
  "call_OnLive hooks zero pooler =
     (case hk_OnLive hooks of None \<Rightarrow> (zero, []) | Some f \<Rightarrow> (f pooler zero, [CallOnLive pooler zero]))"

definition upsertInsert ::
  "'r Hooks \<Rightarrow> go_time \<Rightarrow> Multipooler \<Rightarrow> 'r \<Rightarrow> 'r PoolerCache \<Rightarrow> 'r PoolerCache \<times> 'r hook_call list" where
  "upsertInsert hooks now pooler rider c =
     (let i = ComponentIDString (mp_id pooler)
      in if pc_closed c then (c, gone hooks pooler rider GoneCacheShutdown)
         else
           (let a = length (pc_heap c);
                c = c\<lparr>pc_heap := pc_heap c @ [\<lparr>ie_id = i, ie_pooler = pooler, ie_rider = rider,
                      ie_state = StateLive, ie_lastChange = now, ie_disposeAfter = zero_time\<rparr>],
                    pc_entries := AList.update i a (pc_entries c)\<rparr>
            in (indexInsert a c, [])))"

definition upsert ::
  "'r Config \<Rightarrow> 'r Hooks \<Rightarrow> 'r \<Rightarrow> go_time \<Rightarrow> Multipooler \<Rightarrow> 'r PoolerCache \<Rightarrow>
     'r PoolerCache \<times> 'r hook_call list" where
  "upsert cfg hooks zero now pooler c =
     (let (c, calls, live) = upsertLocked cfg hooks now pooler c
      in if live
         then (let (rider, made) = call_OnLive hooks zero pooler; (c, calls') = upsertInsert hooks now pooler rider c
               in (c, calls @ made @ calls'))
         else (c, calls))"

definition admits :: "'r Config \<Rightarrow> Multipooler \<Rightarrow> bool" where
  "admits cfg pooler \<longleftrightarrow> (case cf_Filter cfg of None \<Rightarrow> True | Some f \<Rightarrow> f pooler)"

definition applyUpsert ::
  "'r Config \<Rightarrow> 'r Hooks \<Rightarrow> 'r \<Rightarrow> go_time \<Rightarrow> Multipooler \<Rightarrow> 'r PoolerCache \<Rightarrow>
     'r PoolerCache \<times> 'r hook_call list" where
  "applyUpsert cfg hooks zero now pooler c =
     (if admits cfg pooler then upsert cfg hooks zero now pooler c else (c, []))"

definition deleteImmediate :: "'r Hooks \<Rightarrow> string \<Rightarrow> 'r PoolerCache \<Rightarrow> 'r PoolerCache \<times> 'r hook_call list" where
  "deleteImmediate hooks i c =
     (if pc_closed c then (c, [])
      else case map_of (pc_entries c) i of
             None \<Rightarrow> (c, [])
           | Some a \<Rightarrow>
               (let e = entry_at c a
                in (evict (ie_id e) a c, gone hooks (ie_pooler e) (ie_rider e) GoneMissingFromTopo)))"

definition applyDelete ::
  "'r Config \<Rightarrow> 'r Hooks \<Rightarrow> go_time \<Rightarrow> string \<Rightarrow> 'r PoolerCache \<Rightarrow> 'r PoolerCache \<times> 'r hook_call list" where
  "applyDelete cfg hooks now i c =
     (if pc_closed c then (c, [])
      else case map_of (pc_entries c) i of
             Some a \<Rightarrow>
               (let e = entry_at c a; c = note_activity (cell_of (ie_pooler e)) now c
                in case ie_state e of
                     StateLive \<Rightarrow>
                       (let c = set_entry a (e\<lparr>ie_state := StateMissingFromTopo, ie_lastChange := now,
                                  ie_disposeAfter := now + cf_MissingGracePeriod cfg\<rparr>) c
                        in if cf_MissingGracePeriod cfg = 0
                           then (evict (ie_id e) a c, gone hooks (ie_pooler e) (ie_rider e) GoneMissingFromTopo)
                           else (c, []))
                   | StateMissingFromTopo \<Rightarrow> (c, []))
           | None \<Rightarrow>
               (case map_of (pc_tombstones c) i of
                  Some _ \<Rightarrow> (c\<lparr>pc_tombstones := AList.delete i (pc_tombstones c)\<rparr>, [])
                | None \<Rightarrow> (c, [])))"

definition deadline :: "'r Config \<Rightarrow> 'r internalEntry \<Rightarrow> go_time" where
  "deadline cfg e =
     (case cf_LastReachedTimestamp cfg of
        None \<Rightarrow> ie_disposeAfter e
      | Some f \<Rightarrow>
          (let lastReached = f (ie_rider e); extended = lastReached + cf_MissingGracePeriod cfg
           in if lastReached \<noteq> zero_time \<and> ie_disposeAfter e < extended then extended else ie_disposeAfter e))"

definition due :: "'r Config \<Rightarrow> go_time \<Rightarrow> 'r internalEntry \<Rightarrow> bool" where
  "due cfg now e \<longleftrightarrow> ie_state e = StateMissingFromTopo \<and> \<not> now < deadline cfg e"

definition sweep ::
  "'r Config \<Rightarrow> 'r Hooks \<Rightarrow> go_time \<Rightarrow> 'r PoolerCache \<Rightarrow> 'r PoolerCache \<times> 'r hook_call list" where
  "sweep cfg hooks now c =
     (if pc_closed c then (c, [])
      else
        (let dues = filter (\<lambda>(_, a). due cfg now (entry_at c a)) (pc_entries c);
             c' = foldl (\<lambda>c (_, a). evict (ie_id (entry_at c a)) a c) c dues
         in (c'\<lparr>pc_tombstones := filter (\<lambda>(_, g). now < te_disposeAfter g) (pc_tombstones c')\<rparr>,
             concat (map (\<lambda>(_, a). let e = entry_at c a
               in gone hooks (ie_pooler e) (ie_rider e) (goneReasonFor (ie_state e))) dues))))"

definition DoUpdate :: "string \<Rightarrow> ('r \<Rightarrow> 'r) \<Rightarrow> 'r PoolerCache \<Rightarrow> 'r PoolerCache" where
  "DoUpdate i fn c =
     (case map_of (pc_entries c) i of
        None \<Rightarrow> c
      | Some a \<Rightarrow> (let e = entry_at c a in set_entry a (e\<lparr>ie_rider := fn (ie_rider e)\<rparr>) c))"

text \<open>The body of \<open>shutdownOnce\<close>: a second call does nothing.\<close>

definition Shutdown :: "'r Hooks \<Rightarrow> 'r PoolerCache \<Rightarrow> 'r PoolerCache \<times> 'r hook_call list" where
  "Shutdown hooks c =
     (if pc_closed c then (c, [])
      else (c\<lparr>pc_closed := True, pc_entries := [], pc_byCell := [], pc_byShard := [], pc_tombstones := []\<rparr>,
            concat (map (\<lambda>(_, a). let e = entry_at c a
              in gone hooks (ie_pooler e) (ie_rider e) (goneReasonFor (ie_state e))) (pc_entries c))))"

text \<open>A sequence of operations, with the calls in order.\<close>

definition then_do ::
  "'r PoolerCache \<times> 'r hook_call list \<Rightarrow> ('r PoolerCache \<Rightarrow> 'r PoolerCache \<times> 'r hook_call list) \<Rightarrow>
     'r PoolerCache \<times> 'r hook_call list" where
  "then_do r f = (let (c, calls) = r; (c', calls') = f c in (c', calls @ calls'))"

definition cellIDs :: "'r PoolerCache \<Rightarrow> string \<Rightarrow> string list" where
  "cellIDs c cell = map fst (bucket_of (pc_byCell c) cell)"

definition reconcileCell ::
  "'r Config \<Rightarrow> 'r Hooks \<Rightarrow> 'r \<Rightarrow> go_time \<Rightarrow> string \<Rightarrow> Multipooler list \<Rightarrow> 'r PoolerCache \<Rightarrow>
     'r PoolerCache \<times> 'r hook_call list" where
  "reconcileCell cfg hooks zero now cell poolers c =
     (let seen = set (map (\<lambda>p. ComponentIDString (mp_id p)) poolers);
          c = c\<lparr>pc_cellLastActivity := AList.update cell now (pc_cellLastActivity c)\<rparr>;
          existing = cellIDs c cell;
          r = foldl (\<lambda>r i. then_do r (applyDelete cfg hooks now i)) (c, []) (filter (\<lambda>i. i \<notin> seen) existing)
      in foldl (\<lambda>r p. then_do r (applyUpsert cfg hooks zero now p)) r poolers)"

definition onCellRemoved ::
  "'r Config \<Rightarrow> 'r Hooks \<Rightarrow> go_time \<Rightarrow> string \<Rightarrow> 'r PoolerCache \<Rightarrow> 'r PoolerCache \<times> 'r hook_call list" where
  "onCellRemoved cfg hooks now cell c =
     (let existing = cellIDs c cell;
          c = c\<lparr>pc_cellLastActivity := AList.delete cell (pc_cellLastActivity c)\<rparr>
      in foldl (\<lambda>r i. then_do r (applyDelete cfg hooks now i)) (c, []) existing)"

section \<open>Index laws\<close>

text \<open>An index is exact for a placement of the entries when it has precisely the placed addresses.\<close>

definition indexed :: "('k \<Rightarrow> string \<Rightarrow> nat option) \<Rightarrow> (string \<Rightarrow> ('k \<times> nat) option) \<Rightarrow> bool" where
  "indexed get place \<longleftrightarrow> (\<forall>k i a. get k i = Some a \<longleftrightarrow> place i = Some (k, a))"

locale bucket_index =
  fixes get :: "'i \<Rightarrow> 'k \<Rightarrow> string \<Rightarrow> nat option"
    and put :: "'k \<Rightarrow> string \<Rightarrow> nat \<Rightarrow> 'i \<Rightarrow> 'i"
    and del :: "'k \<Rightarrow> string \<Rightarrow> 'i \<Rightarrow> 'i"
  assumes get_put: "get (put k i a m) k' i' = (if k' = k \<and> i' = i then Some a else get m k' i')"
    and get_del: "get (del k i m) k' i' = (if k' = k \<and> i' = i then None else get m k' i')"
begin

lemma indexed_put:
  "indexed (get m) place \<Longrightarrow> place i = None \<Longrightarrow> indexed (get (put k i a m)) (place(i \<mapsto> (k, a)))"
  by (auto simp: indexed_def get_put)

lemma indexed_del:
  "indexed (get m) place \<Longrightarrow> (\<And>k' a. place i = Some (k', a) \<Longrightarrow> k' = k) \<Longrightarrow>
     indexed (get (del k i m)) (place(i := None))"
  unfolding indexed_def get_del by (metis fun_upd_apply option.distinct(1))

lemma indexed_move:
  assumes "indexed (get m) place" "\<And>k'' a. place i = Some (k'', a) \<Longrightarrow> k'' = k"
  shows "indexed (get (put k' i a (del k i m))) (place(i \<mapsto> (k', a)))"
proof -
  have "indexed (get (del k i m)) (place(i := None))" by (rule indexed_del) (use assms in auto)
  then show ?thesis using indexed_put [of "del k i m" "place(i := None)" i k' a] by simp
qed

end

lemma emptied_bucket: "AList.delete i b = [] \<Longrightarrow> j \<noteq> i \<Longrightarrow> map_of b j = None"
  using delete_conv [of i b j] by simp

interpretation idx: bucket_index idx_get idx_put idx_del
  by unfold_locales
    (auto simp: idx_get_def idx_put_def idx_del_def AList.update_conv' delete_conv' Let_def emptied_bucket
       split: option.splits if_splits)

definition idx_ok :: "'k index \<Rightarrow> bool" where
  "idx_ok m \<longleftrightarrow> distinct (map fst m) \<and> (\<forall>(k, b) \<in> set m. b \<noteq> [] \<and> distinct (map fst b))"

lemma alist_update_nonempty [simp]: "AList.update i a b \<noteq> []"
  by (cases b) auto

lemma set_alist_update: "x \<in> set (AList.update k v m) \<Longrightarrow> x = (k, v) \<or> x \<in> set m"
  by (induction m) (auto split: if_splits)

lemma set_alist_delete: "x \<in> set (AList.delete k m) \<Longrightarrow> x \<in> set m"
  by (induction m) (auto split: if_splits)

lemma idx_ok_put: "idx_ok m \<Longrightarrow> idx_ok (idx_put k i a m)"
  by (auto simp: idx_ok_def idx_put_def Let_def distinct_update split: option.splits
      dest!: set_alist_update map_of_SomeD)

lemma idx_ok_del: "idx_ok m \<Longrightarrow> idx_ok (idx_del k i m)"
  by (auto simp: idx_ok_def idx_del_def Let_def distinct_update distinct_delete split: option.splits
      dest!: set_alist_update set_alist_delete map_of_SomeD)

section \<open>The invariant\<close>

definition cell_place :: "'r PoolerCache \<Rightarrow> string \<Rightarrow> (string \<times> nat) option" where
  "cell_place c i = (case map_of (pc_entries c) i of
     None \<Rightarrow> None
   | Some a \<Rightarrow> (let cell = cell_of (ie_pooler (entry_at c a)) in if cell = '''' then None else Some (cell, a)))"

definition shard_place :: "'r PoolerCache \<Rightarrow> string \<Rightarrow> (shardKey \<times> nat) option" where
  "shard_place c i =
     map_option (\<lambda>a. (shardKeyFor (ie_pooler (entry_at c a)), a)) (map_of (pc_entries c) i)"

definition identified :: "string \<Rightarrow> 'r internalEntry \<Rightarrow> bool" where
  "identified i e \<longleftrightarrow> ie_id e = i \<and> ComponentIDString (mp_id (ie_pooler e)) = i"

definition keys_distinct :: "'r PoolerCache \<Rightarrow> bool" where
  "keys_distinct c \<longleftrightarrow> distinct (map fst (pc_entries c)) \<and> distinct (map fst (pc_tombstones c)) \<and>
     idx_ok (pc_byCell c) \<and> idx_ok (pc_byShard c)"

definition entries_identified :: "'r PoolerCache \<Rightarrow> bool" where
  "entries_identified c \<longleftrightarrow> (\<forall>i a. map_of (pc_entries c) i = Some a \<longrightarrow> a < length (pc_heap c) \<and>
     identified i (entry_at c a) \<and> map_of (pc_tombstones c) i = None \<and> \<not> pc_closed c)"

definition indexes_exact :: "'r PoolerCache \<Rightarrow> bool" where
  "indexes_exact c \<longleftrightarrow> indexed (idx_get (pc_byCell c)) (cell_place c) \<and>
     indexed (idx_get (pc_byShard c)) (shard_place c)"

definition cache_struct :: "'r PoolerCache \<Rightarrow> bool" where
  "cache_struct c \<longleftrightarrow> keys_distinct c \<and> entries_identified c \<and> indexes_exact c"

definition settled :: "'r Config \<Rightarrow> 'r internalEntry \<Rightarrow> bool" where
  "settled cfg e \<longleftrightarrow> \<not> is_shutdown (ie_pooler e) \<and>
     (ie_state e = StateLive \<longleftrightarrow> ie_disposeAfter e = zero_time) \<and>
     (ie_state e = StateMissingFromTopo \<longrightarrow> ie_disposeAfter e = ie_lastChange e + cf_MissingGracePeriod cfg)"

definition entries_settled :: "'r Config \<Rightarrow> 'r PoolerCache \<Rightarrow> bool" where
  "entries_settled cfg c \<longleftrightarrow> (\<forall>i a. map_of (pc_entries c) i = Some a \<longrightarrow> settled cfg (entry_at c a))"

definition cache_inv :: "'r Config \<Rightarrow> 'r PoolerCache \<Rightarrow> bool" where
  "cache_inv cfg c \<longleftrightarrow> cache_struct c \<and> entries_settled cfg c"

text \<open>What the primitives leave alone.\<close>

lemma entry_at_set_entry:
  "a < length (pc_heap c) \<Longrightarrow> entry_at (set_entry a e c) b = (if b = a then e else entry_at c b)"
  by (simp add: entry_at_def set_entry_def nth_list_update)

lemma set_entry_simps [simp]:
  "pc_entries (set_entry a e c) = pc_entries c" "pc_tombstones (set_entry a e c) = pc_tombstones c"
  "pc_byCell (set_entry a e c) = pc_byCell c" "pc_byShard (set_entry a e c) = pc_byShard c"
  "pc_closed (set_entry a e c) = pc_closed c" "length (pc_heap (set_entry a e c)) = length (pc_heap c)"
  by (simp_all add: set_entry_def)

lemma entry_at_simps [simp]:
  "entry_at (c\<lparr>pc_entries := x\<rparr>) a = entry_at c a" "entry_at (c\<lparr>pc_tombstones := t\<rparr>) a = entry_at c a"
  "entry_at (c\<lparr>pc_byCell := y\<rparr>) a = entry_at c a" "entry_at (c\<lparr>pc_byShard := z\<rparr>) a = entry_at c a"
  "entry_at (c\<lparr>pc_cellLastActivity := l\<rparr>) a = entry_at c a" "entry_at (c\<lparr>pc_closed := b\<rparr>) a = entry_at c a"
  by (simp_all add: entry_at_def)

lemma indexInsert_simps [simp]:
  "pc_entries (indexInsert a c) = pc_entries c" "pc_tombstones (indexInsert a c) = pc_tombstones c"
  "pc_closed (indexInsert a c) = pc_closed c" "pc_heap (indexInsert a c) = pc_heap c"
  by (simp_all add: indexInsert_def Let_def)

lemma indexRemove_simps [simp]:
  "pc_entries (indexRemove a c) = pc_entries c" "pc_tombstones (indexRemove a c) = pc_tombstones c"
  "pc_closed (indexRemove a c) = pc_closed c" "pc_heap (indexRemove a c) = pc_heap c"
  "pc_byCell (indexRemove a c) = idx_del (cell_of (ie_pooler (entry_at c a))) (ie_id (entry_at c a)) (pc_byCell c)"
  "pc_byShard (indexRemove a c) = idx_del (shardKeyFor (ie_pooler (entry_at c a))) (ie_id (entry_at c a)) (pc_byShard c)"
  by (simp_all add: indexRemove_def Let_def)

lemma indexInsert_index [simp]:
  "pc_byCell (indexInsert a c) = (let cell = cell_of (ie_pooler (entry_at c a))
     in if cell = '''' then pc_byCell c else idx_put cell (ie_id (entry_at c a)) a (pc_byCell c))"
  "pc_byShard (indexInsert a c) =
     idx_put (shardKeyFor (ie_pooler (entry_at c a))) (ie_id (entry_at c a)) a (pc_byShard c)"
  by (simp_all add: indexInsert_def Let_def)

lemma indexUpdate_simps [simp]:
  "pc_entries (indexUpdate a p c) = pc_entries c" "pc_tombstones (indexUpdate a p c) = pc_tombstones c"
  "pc_closed (indexUpdate a p c) = pc_closed c" "pc_heap (indexUpdate a p c) = pc_heap c"
  "entry_at (indexUpdate a p c) b = entry_at c b"
  by (simp_all add: indexUpdate_def Let_def set_entry_def entry_at_def)

lemma note_activity_simps [simp]:
  "pc_entries (note_activity cell now c) = pc_entries c" "pc_tombstones (note_activity cell now c) = pc_tombstones c"
  "pc_closed (note_activity cell now c) = pc_closed c" "pc_heap (note_activity cell now c) = pc_heap c"
  "pc_byCell (note_activity cell now c) = pc_byCell c" "pc_byShard (note_activity cell now c) = pc_byShard c"
  "entry_at (note_activity cell now c) a = entry_at c a"
  by (simp_all add: note_activity_def entry_at_def)

lemma evict_simps [simp]:
  "pc_entries (evict i a c) = AList.delete i (pc_entries c)" "pc_tombstones (evict i a c) = pc_tombstones c"
  "pc_closed (evict i a c) = pc_closed c" "pc_heap (evict i a c) = pc_heap c"
  "entry_at (evict i a c) b = entry_at c b"
  by (simp_all add: evict_def entry_at_def)

section \<open>Preservation\<close>

lemma cache_structD:
  assumes "cache_struct c" "map_of (pc_entries c) i = Some a"
  shows "a < length (pc_heap c)" "ie_id (entry_at c a) = i" "ComponentIDString (mp_id (ie_pooler (entry_at c a))) = i"
    "map_of (pc_tombstones c) i = None" "\<not> pc_closed c"
  using assms by (auto simp: cache_struct_def entries_identified_def identified_def)

lemma cache_structI:
  "keys_distinct c \<Longrightarrow> entries_identified c \<Longrightarrow> indexes_exact c \<Longrightarrow> cache_struct c"
  by (simp add: cache_struct_def)

lemma cache_struct_parts:
  assumes "cache_struct c"
  shows "keys_distinct c" "entries_identified c" "indexed (idx_get (pc_byCell c)) (cell_place c)"
    "indexed (idx_get (pc_byShard c)) (shard_place c)"
  using assms by (simp_all add: cache_struct_def indexes_exact_def)

lemma address_unique:
  assumes "cache_struct c" "map_of (pc_entries c) i = Some a" "map_of (pc_entries c) j = Some a"
  shows "i = j"
  using cache_structD(2) [OF assms(1,2)] cache_structD(2) [OF assms(1,3)] by simp

lemma cell_place_key:
  "cell_place c i = Some (k, b) \<Longrightarrow> map_of (pc_entries c) i = Some a \<Longrightarrow> k = cell_of (ie_pooler (entry_at c a))"
  by (auto simp: cell_place_def Let_def split: option.splits if_splits)

lemma cell_place_iff:
  "cell_place c i = Some (k, a) \<longleftrightarrow>
     map_of (pc_entries c) i = Some a \<and> cell_of (ie_pooler (entry_at c a)) = k \<and> k \<noteq> ''''"
  by (auto simp: cell_place_def Let_def split: option.splits if_splits)

lemma shard_place_key:
  "shard_place c i = Some (k, b) \<Longrightarrow> map_of (pc_entries c) i = Some a \<Longrightarrow> k = shardKeyFor (ie_pooler (entry_at c a))"
  by (auto simp: shard_place_def)

lemma place_evict:
  "cell_place (evict i a c) = (cell_place c)(i := None)" "shard_place (evict i a c) = (shard_place c)(i := None)"
  by (auto simp: cell_place_def shard_place_def delete_conv' fun_eq_iff split: option.splits)

lemma cache_struct_evict:
  assumes c: "cache_struct c" and i: "map_of (pc_entries c) i = Some a"
  shows "cache_struct (evict i a c)"
proof (rule cache_structI)
  have idx: "pc_byCell (evict i a c) = idx_del (cell_of (ie_pooler (entry_at c a))) i (pc_byCell c)"
    "pc_byShard (evict i a c) = idx_del (shardKeyFor (ie_pooler (entry_at c a))) i (pc_byShard c)"
    by (simp_all add: evict_def cache_structD(2) [OF c i])
  show "indexes_exact (evict i a c)"
    unfolding indexes_exact_def idx place_evict
    by (intro conjI idx.indexed_del cache_struct_parts(3,4) [OF c])
      (auto dest: cell_place_key [OF _ i] shard_place_key [OF _ i])
  show "keys_distinct (evict i a c)"
    using cache_struct_parts(1) [OF c] by (simp add: keys_distinct_def idx idx_ok_del distinct_delete)
  show "entries_identified (evict i a c)"
    using cache_struct_parts(2) [OF c] by (simp add: entries_identified_def delete_conv')
qed

lemma place_set_entry:
  assumes c: "cache_struct c" and i: "map_of (pc_entries c) i = Some a"
  shows "cell_place (set_entry a e c) =
      (cell_place c)(i := (if cell_of (ie_pooler e) = '''' then None else Some (cell_of (ie_pooler e), a)))"
    "shard_place (set_entry a e c) = (shard_place c)(i \<mapsto> (shardKeyFor (ie_pooler e), a))"
proof -
  have other: "entry_at (set_entry a e c) b = entry_at c b" if "j \<noteq> i" "map_of (pc_entries c) j = Some b" for j b
    using that address_unique [OF c i, of j] by (auto simp: entry_at_set_entry [OF cache_structD(1) [OF c i]])
  have own: "entry_at (set_entry a e c) a = e" by (simp add: entry_at_set_entry [OF cache_structD(1) [OF c i]])
  show "cell_place (set_entry a e c) =
      (cell_place c)(i := (if cell_of (ie_pooler e) = '''' then None else Some (cell_of (ie_pooler e), a)))"
    using i by (auto simp: cell_place_def own other fun_eq_iff Let_def split: option.splits)
  show "shard_place (set_entry a e c) = (shard_place c)(i \<mapsto> (shardKeyFor (ie_pooler e), a))"
    using i by (auto simp: shard_place_def own other fun_eq_iff intro!: option.map_cong0)
qed

lemma entries_identified_set_entry:
  assumes c: "cache_struct c" and i: "map_of (pc_entries c) i = Some a" and e: "identified i e"
  shows "entries_identified (set_entry a e c)"
  using cache_struct_parts(2) [OF c] cache_structD(1) [OF c i] address_unique [OF c i] e
  by (simp add: entries_identified_def entry_at_set_entry) metis

lemma cache_struct_set_entry:
  assumes c: "cache_struct c" and i: "map_of (pc_entries c) i = Some a" and e: "identified i e"
    and same: "cell_of (ie_pooler e) = cell_of (ie_pooler (entry_at c a))"
      "shardKeyFor (ie_pooler e) = shardKeyFor (ie_pooler (entry_at c a))"
  shows "cache_struct (set_entry a e c)"
proof -
  have "cell_place (set_entry a e c) = cell_place c" "shard_place (set_entry a e c) = shard_place c"
    using i by (auto simp: place_set_entry [OF c i] same cell_place_def shard_place_def)
  then show ?thesis
    using cache_struct_parts [OF c] entries_identified_set_entry [OF c i e]
    by (simp add: cache_struct_def keys_distinct_def indexes_exact_def)
qed

lemma cache_struct_indexUpdate:
  assumes c: "cache_struct c" and i: "map_of (pc_entries c) i = Some a" and p: "ComponentIDString (mp_id p) = i"
  shows "cache_struct (indexUpdate a (ie_pooler (entry_at c a)) (set_entry a ((entry_at c a)\<lparr>ie_pooler := p\<rparr>) c))"
    (is "cache_struct (indexUpdate a ?prev ?c)")
proof (cases "cell_of ?prev = cell_of p \<and> shardKeyFor ?prev = shardKeyFor p")
  case True
  then show ?thesis
    using cache_struct_set_entry [OF c i, of "(entry_at c a)\<lparr>ie_pooler := p\<rparr>"] cache_structD [OF c i] p
    by (simp add: indexUpdate_def entry_at_set_entry identified_def)
next
  case False
  note d = cache_structD [OF c i]
  let ?u = "indexUpdate a ?prev ?c"
  have place: "cell_place ?u = cell_place ?c" "shard_place ?u = shard_place ?c"
    by (auto simp: cell_place_def shard_place_def fun_eq_iff split: option.splits)
  have idx: "pc_byCell ?u = (if cell_of p = '''' then idx_del (cell_of ?prev) i (pc_byCell c)
        else idx_put (cell_of p) i a (idx_del (cell_of ?prev) i (pc_byCell c)))"
    "pc_byShard ?u = idx_put (shardKeyFor p) i a (idx_del (shardKeyFor ?prev) i (pc_byShard c))"
    using False d by (auto simp: indexUpdate_def Let_def entry_at_set_entry)
  show ?thesis
  proof (rule cache_structI)
    have "indexed (idx_get (pc_byCell ?u)) (cell_place ?u)"
      unfolding idx place place_set_entry [OF c i] using cache_struct_parts(3) [OF c] cell_place_key [OF _ i]
      by (auto intro!: idx.indexed_del idx.indexed_move)
    moreover have "indexed (idx_get (pc_byShard ?u)) (shard_place ?u)"
      unfolding idx place place_set_entry [OF c i] using cache_struct_parts(4) [OF c] shard_place_key [OF _ i]
      by (auto intro!: idx.indexed_move)
    ultimately show "indexes_exact ?u" by (simp add: indexes_exact_def)
    show "keys_distinct ?u"
      using cache_struct_parts(1) [OF c] by (simp add: keys_distinct_def idx idx_ok_put idx_ok_del)
    show "entries_identified ?u"
      using entries_identified_set_entry [OF c i, of "(entry_at c a)\<lparr>ie_pooler := p\<rparr>"] p d(2)
      by (simp add: entries_identified_def identified_def)
  qed
qed

definition clock_ok :: "'r Config \<Rightarrow> go_time \<Rightarrow> bool" where
  "clock_ok cfg now \<longleftrightarrow> zero_time < now \<and> 0 \<le> cf_MissingGracePeriod cfg"

lemma cache_inv_struct: "cache_inv cfg c \<Longrightarrow> cache_struct c"
  by (simp add: cache_inv_def)

lemma cache_inv_settled: "cache_inv cfg c \<Longrightarrow> map_of (pc_entries c) i = Some a \<Longrightarrow> settled cfg (entry_at c a)"
  by (auto simp: cache_inv_def entries_settled_def)

lemma cache_inv_cong:
  assumes "pc_entries c = pc_entries d" "pc_heap c = pc_heap d" "pc_byCell c = pc_byCell d"
    "pc_byShard c = pc_byShard d" "pc_tombstones c = pc_tombstones d" "pc_closed c = pc_closed d"
  shows "cache_inv cfg c = cache_inv cfg d"
proof -
  have "entry_at c = entry_at d" using assms by (simp add: entry_at_def fun_eq_iff)
  moreover from this have "cell_place c = cell_place d" "shard_place c = shard_place d"
    using assms by (auto simp: cell_place_def shard_place_def fun_eq_iff split: option.splits)
  ultimately show ?thesis
    using assms by (simp add: cache_inv_def entries_settled_def cache_struct_def keys_distinct_def
        entries_identified_def indexes_exact_def)
qed

lemma cache_inv_activity [simp]:
  "cache_inv cfg (note_activity cell now c) = cache_inv cfg c"
  "cache_inv cfg (c\<lparr>pc_cellLastActivity := l\<rparr>) = cache_inv cfg c"
  "cache_inv cfg ((note_activity cell now c)\<lparr>pc_tombstones := t\<rparr>) = cache_inv cfg (c\<lparr>pc_tombstones := t\<rparr>)"
  by (rule cache_inv_cong; simp)+

lemma cache_inv_tombstones:
  assumes "cache_inv cfg c" "distinct (map fst t)" "\<And>i. map_of (pc_entries c) i \<noteq> None \<Longrightarrow> map_of t i = None"
  shows "cache_inv cfg (c\<lparr>pc_tombstones := t\<rparr>)"
proof -
  have "cell_place (c\<lparr>pc_tombstones := t\<rparr>) = cell_place c" "shard_place (c\<lparr>pc_tombstones := t\<rparr>) = shard_place c"
    by (auto simp: cell_place_def shard_place_def fun_eq_iff split: option.splits)
  then show ?thesis
    using assms by (simp add: cache_inv_def entries_settled_def cache_struct_def keys_distinct_def
        entries_identified_def indexes_exact_def)
qed

lemma cache_inv_evict:
  "cache_inv cfg c \<Longrightarrow> map_of (pc_entries c) i = Some a \<Longrightarrow> cache_inv cfg (evict i a c)"
  using cache_struct_evict [of c i a] by (auto simp: cache_inv_def entries_settled_def delete_conv' split: if_splits)

lemma cache_inv_set_entry:
  assumes "cache_struct c" "map_of (pc_entries c) i = Some a" "identified i e" "settled cfg e"
    "cell_of (ie_pooler e) = cell_of (ie_pooler (entry_at c a))"
    "shardKeyFor (ie_pooler e) = shardKeyFor (ie_pooler (entry_at c a))"
    "\<And>j b. j \<noteq> i \<Longrightarrow> map_of (pc_entries c) j = Some b \<Longrightarrow> settled cfg (entry_at c b)"
  shows "cache_inv cfg (set_entry a e c)"
proof -
  have "settled cfg (entry_at (set_entry a e c) b)" if "map_of (pc_entries c) j = Some b" for j b
    using that assms(2,4,7) cache_structD(1) [OF assms(1,2)] by (cases "j = i") (auto simp: entry_at_set_entry)
  then show ?thesis
    using cache_struct_set_entry [OF assms(1-3,5,6)] by (simp add: cache_inv_def entries_settled_def)
qed

lemma cache_inv_tombstone_put:
  assumes "cache_inv cfg c" "map_of (pc_entries c) i = None"
  shows "cache_inv cfg (c\<lparr>pc_tombstones := AList.update i g (pc_tombstones c)\<rparr>)"
  using assms cache_struct_parts(1,2) [OF cache_inv_struct [OF assms(1)]]
  by (intro cache_inv_tombstones)
    (auto simp: AList.update_conv' distinct_update keys_distinct_def entries_identified_def split: if_splits)

lemma cache_inv_tombstone_del:
  assumes "cache_inv cfg c"
  shows "cache_inv cfg (c\<lparr>pc_tombstones := AList.delete i (pc_tombstones c)\<rparr>)"
  using assms cache_struct_parts(1,2) [OF cache_inv_struct [OF assms(1)]]
  by (intro cache_inv_tombstones)
    (auto simp: delete_conv' distinct_delete keys_distinct_def entries_identified_def split: if_splits)

lemma cache_inv_empty:
  "pc_entries c = [] \<Longrightarrow> pc_byCell c = [] \<Longrightarrow> pc_byShard c = [] \<Longrightarrow> pc_tombstones c = [] \<Longrightarrow> cache_inv cfg c"
  by (simp add: cache_inv_def cache_struct_def keys_distinct_def entries_identified_def indexes_exact_def
      entries_settled_def indexed_def idx_get_def cell_place_def shard_place_def idx_ok_def)

lemma cache_inv_New: "cache_inv cfg New"
  by (rule cache_inv_empty) (simp_all add: New_def)

lemma upsert_existing_inv:
  assumes inv: "cache_inv cfg c" and i: "map_of (pc_entries c) i = Some a" and p: "ComponentIDString (mp_id p) = i"
  shows "cache_inv cfg (fst (upsert_existing cfg hooks now p i a c))"
proof -
  let ?e = "entry_at c a"
  let ?u = "indexUpdate a (ie_pooler ?e) (set_entry a (?e\<lparr>ie_pooler := p\<rparr>) c)"
  note c = cache_inv_struct [OF inv]
  note d = cache_structD [OF c i]
  have u: "cache_struct ?u" by (rule cache_struct_indexUpdate [OF c i p])
  have iu: "map_of (pc_entries ?u) i = Some a" using i by simp
  note eu = entry_at_set_entry [OF d(1)]
  have others: "settled cfg (entry_at ?u b)" if "j \<noteq> i" "map_of (pc_entries ?u) j = Some b" for j b
    using that cache_inv_settled [OF inv, of j b] address_unique [OF c i, of j] by (auto simp: eu)
  have set: "cache_inv cfg (set_entry a e ?u)" if "settled cfg e" "ie_id e = i" "ie_pooler e = p" for e
    by (rule cache_inv_set_entry [OF u iu]) (use that p others in \<open>auto simp: identified_def eu\<close>)
  have same: "set_entry a (entry_at ?u a) ?u = ?u" by (simp add: set_entry_def entry_at_def)
  show ?thesis
  proof (cases "is_shutdown p")
    case True
    have "entries_settled cfg (evict i a ?u)"
      using others by (auto simp: entries_settled_def delete_conv' split: if_splits)
    then have "cache_inv cfg (evict i a ?u)" using cache_struct_evict [OF u iu] by (simp add: cache_inv_def)
    then show ?thesis
      using True d(2) cache_inv_tombstone_put [of cfg "evict i a ?u" i]
      by (simp add: upsert_existing_def Let_def eu addTombstoneLocked_def delete_conv')
  next
    case False
    have keep: "settled cfg (?e\<lparr>ie_pooler := p\<rparr>)" "ie_id (?e\<lparr>ie_pooler := p\<rparr>) = i"
      using False cache_inv_settled [OF inv i] d(2) by (auto simp: settled_def)
    then have "cache_inv cfg ?u" using set [of "?e\<lparr>ie_pooler := p\<rparr>"] same by (simp add: eu)
    moreover have "cache_inv cfg (set_entry a (?e\<lparr>ie_pooler := p, ie_lastChange := now\<rparr>) ?u)"
      if "ie_state ?e = StateLive"
      by (rule set) (use keep that in \<open>auto simp: settled_def\<close>)
    moreover have "cache_inv cfg (set_entry a
        (?e\<lparr>ie_pooler := p, ie_state := StateLive, ie_lastChange := now, ie_disposeAfter := zero_time\<rparr>) ?u)"
      by (rule set) (use False d(2) in \<open>auto simp: settled_def\<close>)
    ultimately show ?thesis
      using False by (cases "ie_pooler ?e = p"; cases "ie_state ?e") (simp_all add: upsert_existing_def Let_def eu)
  qed
qed

lemma upsertLocked_inv:
  assumes "cache_inv cfg c"
  shows "cache_inv cfg (fst (upsertLocked cfg hooks now p c))"
  using assms upsert_existing_inv [of cfg "note_activity (cell_of p) now c" "ComponentIDString (mp_id p)" _ p]
  by (auto simp: upsertLocked_def Let_def addTombstoneLocked_def case_prod_beta
      intro!: cache_inv_tombstone_put cache_inv_tombstone_del split: option.split)

lemma upsertLocked_live:
  assumes "upsertLocked cfg hooks now p c = (c', calls, True)" "cache_struct c"
  shows "\<not> pc_closed c" "calls = []" "map_of (pc_entries c') (ComponentIDString (mp_id p)) = None"
    "map_of (pc_tombstones c') (ComponentIDString (mp_id p)) = None" "\<not> is_shutdown p"
    "pc_entries c' = pc_entries c"
  using assms by (auto simp: upsertLocked_def Let_def delete_conv' split: if_splits option.splits prod.splits)

lemma upsertInsert_inv:
  assumes inv: "cache_inv cfg c" and new: "map_of (pc_entries c) i = None" "map_of (pc_tombstones c) i = None"
    and p: "ComponentIDString (mp_id p) = i" "\<not> is_shutdown p"
  shows "cache_inv cfg (fst (upsertInsert hooks now p r c))"
proof (cases "pc_closed c")
  case True
  then show ?thesis using inv by (simp add: upsertInsert_def)
next
  case False
  let ?a = "length (pc_heap c)"
  let ?e = "\<lparr>ie_id = i, ie_pooler = p, ie_rider = r, ie_state = StateLive, ie_lastChange = now, ie_disposeAfter = zero_time\<rparr>"
  let ?u = "fst (upsertInsert hooks now p r c)"
  note parts = cache_struct_parts [OF cache_inv_struct [OF inv]]
  have u: "pc_entries ?u = AList.update i ?a (pc_entries c)" "pc_tombstones ?u = pc_tombstones c"
    "pc_heap ?u = pc_heap c @ [?e]" "pc_closed ?u = pc_closed c"
    "pc_byCell ?u = (if cell_of p = '''' then pc_byCell c else idx_put (cell_of p) i ?a (pc_byCell c))"
    "pc_byShard ?u = idx_put (shardKeyFor p) i ?a (pc_byShard c)"
    using False by (simp_all add: upsertInsert_def Let_def p entry_at_def)
  have at: "entry_at ?u ?a = ?e" "\<And>b. b < ?a \<Longrightarrow> entry_at ?u b = entry_at c b"
    by (simp_all add: entry_at_def u nth_append)
  have old: "b < ?a" if "map_of (pc_entries c) j = Some b" for j b
    using cache_structD(1) [OF cache_inv_struct [OF inv] that] .
  have place: "cell_place ?u = (cell_place c)(i := (if cell_of p = '''' then None else Some (cell_of p, ?a)))"
    "shard_place ?u = (shard_place c)(i \<mapsto> (shardKeyFor p, ?a))"
    using old by (auto simp: cell_place_def shard_place_def u AList.update_conv' at fun_eq_iff Let_def
        intro!: option.map_cong0 split: option.splits)
  have none: "cell_place c i = None" "shard_place c i = None" using new by (simp_all add: cell_place_def shard_place_def)
  have "cache_struct ?u"
  proof (rule cache_structI)
    show "indexes_exact ?u"
      unfolding indexes_exact_def u(5,6) place using idx.indexed_put [OF parts(3) none(1)] idx.indexed_put [OF parts(4) none(2)]
        parts(3) none(1) by (auto simp: fun_upd_idem)
    show "keys_distinct ?u"
      using parts(1) by (simp add: keys_distinct_def u idx_ok_put distinct_update)
    show "entries_identified ?u"
      using parts(2) new(2) False at old
      by (auto simp: entries_identified_def u AList.update_conv' identified_def p less_Suc_eq split: if_splits)
  qed
  moreover have "entries_settled cfg ?u"
    using cache_inv_settled [OF inv] old at p(2)
    by (auto simp: entries_settled_def u AList.update_conv' settled_def split: if_splits)
  ultimately show ?thesis by (simp add: cache_inv_def)
qed

lemma DoUpdate_inv:
  assumes inv: "cache_inv cfg c"
  shows "cache_inv cfg (DoUpdate i f c)"
proof (cases "map_of (pc_entries c) i")
  case None
  then show ?thesis using inv by (simp add: DoUpdate_def)
next
  case (Some a)
  note c = cache_inv_struct [OF inv]
  have "cache_inv cfg (set_entry a ((entry_at c a)\<lparr>ie_rider := f (ie_rider (entry_at c a))\<rparr>) c)"
    by (rule cache_inv_set_entry [OF c Some])
      (use cache_structD [OF c Some] cache_inv_settled [OF inv] Some in \<open>auto simp: identified_def settled_def\<close>)
  then show ?thesis using Some by (simp add: DoUpdate_def Let_def)
qed

lemma applyDelete_inv:
  assumes inv: "cache_inv cfg c" and clock: "clock_ok cfg now"
  shows "cache_inv cfg (fst (applyDelete cfg hooks now i c))"
proof (cases "map_of (pc_entries c) i")
  case None
  then show ?thesis
    using inv by (auto simp: applyDelete_def intro!: cache_inv_tombstone_del split: option.splits)
next
  case (Some a)
  let ?c = "note_activity (cell_of (ie_pooler (entry_at c a))) now c"
  let ?e = "(entry_at c a)\<lparr>ie_state := StateMissingFromTopo, ie_lastChange := now,
     ie_disposeAfter := now + cf_MissingGracePeriod cfg\<rparr>"
  have inv': "cache_inv cfg ?c" and some': "map_of (pc_entries ?c) i = Some a" using inv Some by simp_all
  note c = cache_inv_struct [OF inv']
  have set: "cache_inv cfg (set_entry a ?e ?c)"
    by (rule cache_inv_set_entry [OF c some'])
      (use cache_structD [OF c some'] cache_inv_settled [OF inv'] some' clock in
        \<open>auto simp: identified_def settled_def clock_ok_def\<close>)
  have "cache_inv cfg (evict i a (set_entry a ?e ?c))" by (rule cache_inv_evict [OF set]) (use Some in simp)
  then show ?thesis
    using inv set Some cache_structD(2,5) [OF cache_inv_struct [OF inv] Some]
    by (auto simp: applyDelete_def Let_def split: State.splits)
qed

lemma deleteImmediate_inv:
  "cache_inv cfg c \<Longrightarrow> cache_inv cfg (fst (deleteImmediate hooks i c))"
  using cache_structD(2) [OF cache_inv_struct, of cfg c i]
  by (auto simp: deleteImmediate_def Let_def intro: cache_inv_evict split: option.splits)

lemma Shutdown_inv: "cache_inv cfg c \<Longrightarrow> cache_inv cfg (fst (Shutdown hooks c))"
  by (simp add: Shutdown_def cache_inv_empty)

abbreviation evict_all :: "'r PoolerCache \<Rightarrow> (string \<times> nat) list \<Rightarrow> 'r PoolerCache" where
  "evict_all \<equiv> foldl (\<lambda>c (_, a). evict (ie_id (entry_at c a)) a c)"

lemma evict_all_simps [simp]:
  "pc_heap (evict_all c ds) = pc_heap c" "pc_tombstones (evict_all c ds) = pc_tombstones c"
  "pc_closed (evict_all c ds) = pc_closed c" "entry_at (evict_all c ds) a = entry_at c a"
  by (induction ds arbitrary: c) (auto simp: case_prod_beta)

lemma evict_all_inv:
  "cache_inv cfg c \<Longrightarrow> distinct (map fst ds) \<Longrightarrow> (\<And>i a. (i, a) \<in> set ds \<Longrightarrow> map_of (pc_entries c) i = Some a) \<Longrightarrow>
     cache_inv cfg (evict_all c ds) \<and>
     map_of (pc_entries (evict_all c ds)) = (\<lambda>i. if i \<in> fst ` set ds then None else map_of (pc_entries c) i)"
proof (induction ds arbitrary: c)
  case (Cons d ds)
  obtain i a where d: "d = (i, a)" by (cases d)
  have i: "map_of (pc_entries c) i = Some a" using Cons.prems(3) [of i a] d by simp
  have inv: "cache_inv cfg (evict i a c)" by (rule cache_inv_evict [OF Cons.prems(1) i])
  have "cache_inv cfg (evict_all (evict i a c) ds) \<and>
      map_of (pc_entries (evict_all (evict i a c) ds)) =
        (\<lambda>j. if j \<in> fst ` set ds then None else map_of (pc_entries (evict i a c)) j)"
    by (rule Cons.IH [OF inv]) (use Cons.prems(2,3) d in \<open>force simp: delete_conv'\<close>)+
  then show ?case
    using cache_structD(2) [OF cache_inv_struct [OF Cons.prems(1)] i] by (auto simp: d delete_conv' fun_eq_iff)
qed simp

lemma filtered_keys:
  "distinct (map fst m) \<Longrightarrow> i \<in> fst ` set (filter (\<lambda>(_, a). P a) m) \<longleftrightarrow> (\<exists>a. map_of m i = Some a \<and> P a)"
  by (simp add: image_iff)

lemma sweep_effect:
  assumes inv: "cache_inv cfg c" and "\<not> pc_closed c" and c'_def: "c' = fst (sweep cfg hooks now c)"
  shows "cache_inv cfg c'" "pc_heap c' = pc_heap c" "pc_closed c' = pc_closed c"
    "map_of (pc_entries c') = (\<lambda>i. case map_of (pc_entries c) i of
       None \<Rightarrow> None | Some a \<Rightarrow> if due cfg now (entry_at c a) then None else Some a)"
proof -
  let ?ds = "filter (\<lambda>(_, a). due cfg now (entry_at c a)) (pc_entries c)"
  let ?t = "filter (\<lambda>(_, g). now < te_disposeAfter g) (pc_tombstones c)"
  have dist: "distinct (map fst (pc_entries c))" "distinct (map fst (pc_tombstones c))"
    using cache_struct_parts(1) [OF cache_inv_struct [OF inv]] by (simp_all add: keys_distinct_def)
  have "cache_inv cfg (evict_all c ?ds) \<and>
      map_of (pc_entries (evict_all c ?ds)) = (\<lambda>i. if i \<in> fst ` set ?ds then None else map_of (pc_entries c) i)"
    by (rule evict_all_inv [OF inv]) (use dist(1) in \<open>auto simp: distinct_map_filter\<close>)
  then have e: "cache_inv cfg (evict_all c ?ds)"
    and m: "map_of (pc_entries (evict_all c ?ds)) = (\<lambda>i. if i \<in> fst ` set ?ds then None else map_of (pc_entries c) i)"
    by blast+
  have c': "c' = (evict_all c ?ds)\<lparr>pc_tombstones := ?t\<rparr>" using assms(2) by (simp add: c'_def sweep_def Let_def)
  have "map_of ?t i = None" if "map_of (pc_tombstones c) i = None" for i
    using that by (auto simp: map_of_eq_None_iff)
  then show "cache_inv cfg c'"
    unfolding c' using e dist(2) cache_structD(4) [OF cache_inv_struct [OF e]]
    by (intro cache_inv_tombstones) (auto simp: distinct_map_filter)
  show "pc_heap c' = pc_heap c" "pc_closed c' = pc_closed c" by (simp_all add: c')
  show "map_of (pc_entries c') = (\<lambda>i. case map_of (pc_entries c) i of
       None \<Rightarrow> None | Some a \<Rightarrow> if due cfg now (entry_at c a) then None else Some a)"
  proof -
    show ?thesis using filtered_keys [OF dist(1)] by (auto simp: c' m fun_eq_iff split: option.splits)
  qed
qed

section \<open>Interleavings\<close>

text \<open>
  The watchers of the cells, the sweeper, readers and \<open>Shutdown\<close> run concurrently. A step is one
  critical section, the return of an \<open>OnLive\<close> that was called between the two sections of an upsert
  (\<open>cr_pending\<close>), or a hook call that was due when a section ended (\<open>cr_owed\<close>) and may be delayed
  arbitrarily. \<open>cr_decided\<close> has the calls in the order of the sections that decided them, \<open>cr_calls\<close>
  in the order in which they happen. One watcher serves a cell, so a pooler with an upsert in flight
  gets no other event of the topology meanwhile. \<open>OnLive\<close> may return any rider.
\<close>

record 'r cache_run =
  cr_cache :: "'r PoolerCache"
  cr_pending :: "(Multipooler \<times> go_time \<times> 'r option) list"
  cr_owed :: "'r hook_call list"
  cr_decided :: "'r hook_call list"
  cr_calls :: "'r hook_call list"

abbreviation record_key :: "Multipooler \<Rightarrow> string" where
  "record_key p \<equiv> ComponentIDString (mp_id p)"

definition run_start :: "'r cache_run" where
  "run_start = \<lparr>cr_cache = New, cr_pending = [], cr_owed = [], cr_decided = [], cr_calls = []\<rparr>"

definition section_done :: "'r PoolerCache \<times> 'r hook_call list \<Rightarrow> 'r cache_run \<Rightarrow> 'r cache_run" where
  "section_done r s = s\<lparr>cr_cache := fst r, cr_owed := cr_owed s @ snd r, cr_decided := cr_decided s @ snd r\<rparr>"

definition in_flight :: "'r cache_run \<Rightarrow> string set" where
  "in_flight s = (\<lambda>(p, _). record_key p) ` set (cr_pending s)"

inductive cache_step :: "'r Config \<Rightarrow> 'r Hooks \<Rightarrow> 'r \<Rightarrow> 'r cache_run \<Rightarrow> 'r cache_run \<Rightarrow> bool"
  for cfg :: "'r Config" and hooks :: "'r Hooks" and zero :: 'r where
  upsert_step: "admits cfg p \<Longrightarrow> clock_ok cfg now \<Longrightarrow> record_key p \<notin> in_flight s \<Longrightarrow>
    upsertLocked cfg hooks now p (cr_cache s) = (c, calls, live) \<Longrightarrow>
    cache_step cfg hooks zero s
      ((section_done (c, calls) s)\<lparr>cr_pending := (if live then [(p, now, None)] else []) @ cr_pending s\<rparr>)"
| live_step: "cr_pending s = xs @ (p, now, None) # ys \<Longrightarrow> calls = (if hk_OnLive hooks = None then [] else [CallOnLive p zero]) \<Longrightarrow>
    hk_OnLive hooks \<noteq> None \<or> r = zero \<Longrightarrow>
    cache_step cfg hooks zero s (s\<lparr>cr_pending := xs @ (p, now, Some r) # ys,
      cr_decided := cr_decided s @ calls, cr_calls := cr_calls s @ calls\<rparr>)"
| insert_step: "cr_pending s = xs @ (p, now, Some r) # ys \<Longrightarrow>
    cache_step cfg hooks zero s ((section_done (upsertInsert hooks now p r (cr_cache s)) s)\<lparr>cr_pending := xs @ ys\<rparr>)"
| delete_step: "clock_ok cfg now \<Longrightarrow> i \<notin> in_flight s \<Longrightarrow>
    cache_step cfg hooks zero s (section_done (applyDelete cfg hooks now i (cr_cache s)) s)"
| sweep_step: "cache_step cfg hooks zero s (section_done (sweep cfg hooks now (cr_cache s)) s)"
| update_step: "cache_step cfg hooks zero s (section_done (DoUpdate i f (cr_cache s), []) s)"
| activity_step: "cache_step cfg hooks zero s
    (section_done ((cr_cache s)\<lparr>pc_cellLastActivity := l\<rparr>, []) s)"
| shutdown_step: "cache_step cfg hooks zero s (section_done (Shutdown hooks (cr_cache s)) s)"
| call_step: "cr_owed s = xs @ h # ys \<Longrightarrow>
    cache_step cfg hooks zero s (s\<lparr>cr_owed := xs @ ys, cr_calls := cr_calls s @ [h]\<rparr>)"

abbreviation cache_reaches :: "'r Config \<Rightarrow> 'r Hooks \<Rightarrow> 'r \<Rightarrow> 'r cache_run \<Rightarrow> bool" where
  "cache_reaches cfg hooks zero \<equiv> (cache_step cfg hooks zero)\<^sup>*\<^sup>* run_start"

text \<open>
  The life of a rider as its owner sees it: made by \<open>OnLive\<close>, updated while it exists, given back by
  \<open>OnGone\<close>. \<open>phase_from i h calls\<close> follows the calls for one pooler from a state where a rider exists
  or not; it is \<open>None\<close> once a call does not fit.
\<close>

primrec hook_key :: "'r hook_call \<Rightarrow> string" where
  "hook_key (CallOnLive p z) = record_key p"
| "hook_key (CallOnUpdate q p r) = record_key p"
| "hook_key (CallOnGone p r reason) = record_key p"

primrec hook_fits :: "bool \<Rightarrow> 'r hook_call \<Rightarrow> bool option" where
  "hook_fits h (CallOnLive p z) = (if h then None else Some True)"
| "hook_fits h (CallOnUpdate q p r) = (if h then Some True else None)"
| "hook_fits h (CallOnGone p r reason) = (if h then Some False else None)"

fun phase_from :: "string \<Rightarrow> bool \<Rightarrow> 'r hook_call list \<Rightarrow> bool option" where
  "phase_from i h [] = Some h"
| "phase_from i h (x # xs) =
     (if hook_key x \<noteq> i then phase_from i h xs
      else case hook_fits h x of None \<Rightarrow> None | Some h' \<Rightarrow> phase_from i h' xs)"

definition tracked :: "'r PoolerCache \<Rightarrow> string set" where
  "tracked c = dom (map_of (pc_entries c))"

definition riders_held :: "'r cache_run \<Rightarrow> string set" where
  "riders_held s = tracked (cr_cache s) \<union> {record_key p | p now r. (p, now, Some r) \<in> set (cr_pending s)}"

lemma phase_from_append:
  "phase_from i h (xs @ ys) = (case phase_from i h xs of None \<Rightarrow> None | Some h' \<Rightarrow> phase_from i h' ys)"
  by (induction xs arbitrary: h) (auto split: option.splits)

lemma phase_from_other: "i \<notin> hook_key ` set xs \<Longrightarrow> phase_from i h xs = Some h"
  by (induction xs) auto

text \<open>A section that only updates or gives back riders it had.\<close>

definition accounts :: "'r PoolerCache \<Rightarrow> 'r PoolerCache \<times> 'r hook_call list \<Rightarrow> bool" where
  "accounts c r \<longleftrightarrow> tracked (fst r) \<subseteq> tracked c \<and> hook_key ` set (snd r) \<subseteq> tracked c \<and>
     (\<forall>i \<in> tracked c. phase_from i True (snd r) = Some (i \<in> tracked (fst r)))"

lemma accounts_quiet: "pc_entries c' = pc_entries c \<Longrightarrow> accounts c (c', [])"
  by (simp add: accounts_def tracked_def)

lemma gone_list_phase:
  assumes "distinct (map fst ds)" "\<And>i a. (i, a) \<in> set ds \<Longrightarrow> record_key (f a) = i"
  shows "phase_from i True (concat (map (\<lambda>(_, a). [CallOnGone (f a) (g a) (k a)]) ds)) = Some (i \<notin> fst ` set ds)"
  using assms
proof (induction ds)
  case (Cons d ds)
  have "phase_from i False (concat (map (\<lambda>(_, a). [CallOnGone (f a) (g a) (k a)]) ds)) = Some False"
    if "i = fst d" using Cons.prems that by (intro phase_from_other) force
  then show ?case using Cons by (cases d) force
qed simp

lemma accounts_upsert_existing:
  assumes "cache_struct c" "map_of (pc_entries c) i = Some a" "record_key p = i" "hk_OnGone hooks"
  shows "accounts c (upsert_existing cfg hooks now p i a c)"
  using assms(2-4) cache_structD(1,2) [OF assms(1,2)]
  by (auto simp: accounts_def tracked_def upsert_existing_def Let_def gone_def addTombstoneLocked_def
      delete_conv' entry_at_set_entry)

lemma accounts_upsertLocked:
  assumes "cache_struct c" "hk_OnGone hooks" "upsertLocked cfg hooks now p c = (c', calls, live)"
  shows "accounts c (c', calls)"
proof -
  have act: "accounts c r" if "accounts (note_activity (cell_of p) now c) r" for r
    using that by (simp add: accounts_def tracked_def)
  have struct: "cache_struct (note_activity (cell_of p) now c)"
    using assms(1) cache_inv_cong by (auto simp: cache_struct_def keys_distinct_def entries_identified_def
        indexes_exact_def cell_place_def [abs_def] shard_place_def [abs_def] cong: option.case_cong)
  show ?thesis
  proof (cases "map_of (pc_entries c) (record_key p)")
    case None
    then show ?thesis
      using assms(3) by (auto simp: upsertLocked_def Let_def addTombstoneLocked_def
          intro!: accounts_quiet split: if_splits option.splits)
  next
    case (Some a)
    have "accounts (note_activity (cell_of p) now c)
        (upsert_existing cfg hooks now p (record_key p) a (note_activity (cell_of p) now c))"
      by (rule accounts_upsert_existing [OF struct]) (use Some assms(2) in auto)
    then show ?thesis
      using assms(3) Some cache_structD(5) [OF assms(1) Some] act
      by (auto simp: upsertLocked_def Let_def split: prod.splits)
  qed
qed

lemma accounts_applyDelete:
  assumes "cache_struct c" "hk_OnGone hooks"
  shows "accounts c (applyDelete cfg hooks now i c)"
proof (cases "map_of (pc_entries c) i")
  case None
  then show ?thesis by (auto simp: applyDelete_def intro!: accounts_quiet split: option.splits)
next
  case (Some a)
  then show ?thesis
    using cache_structD [OF assms(1) Some] assms(2)
    by (auto simp: applyDelete_def Let_def gone_def accounts_def tracked_def delete_conv' split: State.splits)
qed

lemma accounts_sweep:
  assumes inv: "cache_inv cfg c" and "hk_OnGone hooks"
  shows "accounts c (sweep cfg hooks now c)"
proof (cases "pc_closed c")
  case True
  then show ?thesis by (simp add: sweep_def accounts_quiet)
next
  case False
  let ?ds = "filter (\<lambda>(_, a). due cfg now (entry_at c a)) (pc_entries c)"
  have dist: "distinct (map fst (pc_entries c))"
    using cache_struct_parts(1) [OF cache_inv_struct [OF inv]] by (simp add: keys_distinct_def)
  have key: "record_key (ie_pooler (entry_at c a)) = i \<and> i \<in> tracked c" if "(i, a) \<in> set (pc_entries c)" for i a
    using that dist cache_structD(3) [OF cache_inv_struct [OF inv], of i a] by (auto simp: tracked_def)
  have calls: "snd (sweep cfg hooks now c) = concat (map (\<lambda>(_, a). [CallOnGone (ie_pooler (entry_at c a))
      (ie_rider (entry_at c a)) (goneReasonFor (ie_state (entry_at c a)))]) ?ds)"
    using False assms(2) by (simp add: sweep_def Let_def gone_def)
  have "phase_from i True (snd (sweep cfg hooks now c)) = Some (i \<notin> fst ` set ?ds)" for i
    unfolding calls using dist key by (intro gone_list_phase) (auto simp: distinct_map_filter)
  moreover have "i \<in> tracked (fst (sweep cfg hooks now c)) \<longleftrightarrow> i \<in> tracked c \<and> i \<notin> fst ` set ?ds" for i
    unfolding filtered_keys [OF dist] tracked_def dom_def sweep_effect(4) [OF inv False refl]
    by (auto split: option.splits)
  moreover have "hook_key ` set (snd (sweep cfg hooks now c)) \<subseteq> tracked c" unfolding calls using key by auto
  ultimately show ?thesis by (auto simp: accounts_def)
qed

lemma accounts_Shutdown:
  assumes struct: "cache_struct c" and "hk_OnGone hooks"
  shows "accounts c (Shutdown hooks c)"
proof (cases "pc_closed c")
  case True
  then show ?thesis by (simp add: Shutdown_def accounts_quiet)
next
  case False
  have dist: "distinct (map fst (pc_entries c))" using cache_struct_parts(1) [OF struct] by (simp add: keys_distinct_def)
  have key: "record_key (ie_pooler (entry_at c a)) = i \<and> i \<in> tracked c" if "(i, a) \<in> set (pc_entries c)" for i a
    using that dist cache_structD(3) [OF struct, of i a] by (auto simp: tracked_def)
  have calls: "snd (Shutdown hooks c) = concat (map (\<lambda>(_, a). [CallOnGone (ie_pooler (entry_at c a))
      (ie_rider (entry_at c a)) (goneReasonFor (ie_state (entry_at c a)))]) (pc_entries c))"
    using False assms(2) by (simp add: Shutdown_def Let_def gone_def)
  have "phase_from i True (snd (Shutdown hooks c)) = Some (i \<notin> fst ` set (pc_entries c))" for i
    unfolding calls using dist key by (intro gone_list_phase) auto
  moreover have "hook_key ` set (snd (Shutdown hooks c)) \<subseteq> tracked c" unfolding calls using key by auto
  moreover have "tracked (fst (Shutdown hooks c)) = {}" using False by (simp add: Shutdown_def tracked_def)
  moreover have "tracked c = fst ` set (pc_entries c)" by (auto simp: tracked_def dom_map_of_conv_image_fst)
  ultimately show ?thesis by (auto simp: accounts_def)
qed

definition tombstoned :: "'r PoolerCache \<Rightarrow> string set" where
  "tombstoned c = dom (map_of (pc_tombstones c))"

definition flight_inv :: "'r Config \<Rightarrow> 'r cache_run \<Rightarrow> bool" where
  "flight_inv cfg s \<longleftrightarrow> cache_inv cfg (cr_cache s) \<and> distinct (map (\<lambda>(p, _). record_key p) (cr_pending s)) \<and>
     (\<forall>(p, _) \<in> set (cr_pending s). \<not> is_shutdown p) \<and> in_flight s \<inter> tracked (cr_cache s) = {} \<and>
     (pc_closed (cr_cache s) \<or> in_flight s \<inter> tombstoned (cr_cache s) = {})"

definition calls_inv :: "'r cache_run \<Rightarrow> bool" where
  "calls_inv s \<longleftrightarrow> mset (cr_decided s) = mset (cr_calls s) + mset (cr_owed s) \<and>
     (\<forall>i. phase_from i False (cr_decided s) = Some (i \<in> riders_held s))"

lemma in_flight_simps [simp]:
  "in_flight (section_done r s) = in_flight s"
  "in_flight (s\<lparr>cr_owed := w\<rparr>) = in_flight s" "in_flight (s\<lparr>cr_calls := k\<rparr>) = in_flight s"
  "in_flight (s\<lparr>cr_decided := d\<rparr>) = in_flight s"
  by (simp_all add: in_flight_def section_done_def)

lemma section_done_simps [simp]:
  "cr_cache (section_done r s) = fst r" "cr_pending (section_done r s) = cr_pending s"
  "cr_calls (section_done r s) = cr_calls s" "cr_owed (section_done r s) = cr_owed s @ snd r"
  "cr_decided (section_done r s) = cr_decided s @ snd r"
  by (simp_all add: section_done_def)

lemma section_done_pending [simp]: "(section_done r s)\<lparr>cr_pending := cr_pending s\<rparr> = section_done r s"
  by (simp add: section_done_def)

lemma section_flight_inv:
  assumes "flight_inv cfg s" "cache_inv cfg (fst r)" "tracked (fst r) \<subseteq> tracked (cr_cache s)"
    "tombstoned (fst r) \<inter> in_flight s \<subseteq> tombstoned (cr_cache s)" "pc_closed (cr_cache s) \<Longrightarrow> pc_closed (fst r)"
  shows "flight_inv cfg (section_done r s)"
  using assms by (auto simp: flight_inv_def)

lemma section_calls_inv:
  assumes s: "calls_inv s" and r: "accounts (cr_cache s) r" and d: "in_flight s \<inter> tracked (cr_cache s) = {}"
  shows "calls_inv (section_done r s)"
proof -
  have "phase_from i False (cr_decided s @ snd r) = Some (i \<in> riders_held (section_done r s))" for i
  proof (cases "i \<in> tracked (cr_cache s)")
    case True
    have "phase_from i False (cr_decided s) = Some True" using s True by (simp add: calls_inv_def riders_held_def)
    moreover have "(p, now, x) \<in> set (cr_pending s) \<Longrightarrow> i \<noteq> record_key p" for p now x
      using d True by (force simp: in_flight_def)
    ultimately show ?thesis
      using r True by (auto simp: phase_from_append riders_held_def accounts_def)
  next
    case False
    then have "i \<notin> hook_key ` set (snd r)" "i \<notin> tracked (fst r)" using r by (auto simp: accounts_def)
    then show ?thesis
      using s False by (simp add: phase_from_append calls_inv_def riders_held_def phase_from_other)
  qed
  then show ?thesis using s by (simp add: calls_inv_def)
qed

lemma tombstoned_sections:
  "tombstoned (fst (upsertLocked cfg hooks now p c)) \<subseteq> insert (record_key p) (tombstoned c)"
  "tombstoned (fst (applyDelete cfg hooks now i c)) \<subseteq> tombstoned c"
  "tombstoned (fst (sweep cfg hooks now c)) \<subseteq> tombstoned c"
  "tombstoned (fst (Shutdown hooks c)) \<subseteq> tombstoned c"
  "tombstoned (DoUpdate i f c) = tombstoned c"
  by (auto simp: tombstoned_def upsertLocked_def upsert_existing_def addTombstoneLocked_def applyDelete_def sweep_def
      Shutdown_def DoUpdate_def Let_def dom_map_of_conv_image_fst rev_image_eqI
      dest!: set_alist_update set_alist_delete split: option.splits if_splits State.splits)

lemma closed_sections:
  "pc_closed c \<Longrightarrow> pc_closed (fst (upsertLocked cfg hooks now p c))"
  "pc_closed c \<Longrightarrow> pc_closed (fst (applyDelete cfg hooks now i c))"
  "pc_closed c \<Longrightarrow> pc_closed (fst (sweep cfg hooks now c))"
  "pc_closed (fst (Shutdown hooks c))"
  "pc_closed (DoUpdate i f c) = pc_closed c"
  by (auto simp: upsertLocked_def applyDelete_def sweep_def Shutdown_def DoUpdate_def Let_def split: option.splits)

lemma tracked_upsertInsert:
  "tracked (fst (upsertInsert hooks now p r c)) =
     (if pc_closed c then tracked c else insert (record_key p) (tracked c))"
  by (auto simp: upsertInsert_def tracked_def Let_def AList.update_conv' split: if_splits)

lemma in_flight_insert:
  assumes "flight_inv cfg s" "cr_pending s = xs @ (p, now, x) # ys"
  shows "in_flight s = insert (record_key p) ((\<lambda>(p, _). record_key p) ` set (xs @ ys))"
    "record_key p \<notin> (\<lambda>(p, _). record_key p) ` set (xs @ ys)" "record_key p \<notin> tracked (cr_cache s)" "\<not> is_shutdown p"
  using assms by (auto simp: flight_inv_def in_flight_def)

lemma insert_flight_inv:
  assumes s: "flight_inv cfg s" and pend: "cr_pending s = xs @ (p, now, Some r) # ys"
  shows "flight_inv cfg ((section_done (upsertInsert hooks now p r (cr_cache s)) s)\<lparr>cr_pending := xs @ ys\<rparr>)"
    (is "flight_inv cfg ?s")
proof -
  let ?c = "fst (upsertInsert hooks now p r (cr_cache s))"
  note f = in_flight_insert [OF s pend]
  have inv: "cache_inv cfg ?c"
  proof (cases "pc_closed (cr_cache s)")
    case True
    then show ?thesis using s by (simp add: upsertInsert_def flight_inv_def)
  next
    case False
    show ?thesis
      by (rule upsertInsert_inv [OF _ _ _ refl f(4)])
        (use s False f in \<open>auto simp: flight_inv_def tracked_def tombstoned_def\<close>)
  qed
  have "pc_closed ?c = pc_closed (cr_cache s)" "tombstoned ?c = tombstoned (cr_cache s)"
    by (simp_all add: upsertInsert_def tombstoned_def Let_def)
  moreover have "in_flight ?s = in_flight s - {record_key p}" using f(1,2) by (auto simp: in_flight_def)
  ultimately show ?thesis
    using s inv pend by (auto simp: flight_inv_def tracked_upsertInsert)
qed

lemma flight_inv_pending:
  assumes "flight_inv cfg s" "record_key p \<notin> in_flight s" "record_key p \<notin> tracked (cr_cache s)"
    "record_key p \<notin> tombstoned (cr_cache s)" "\<not> is_shutdown p"
  shows "flight_inv cfg (s\<lparr>cr_pending := (p, now, x) # cr_pending s\<rparr>)"
  using assms by (force simp: flight_inv_def in_flight_def)

lemma upsert_section_flight:
  assumes s: "flight_inv cfg s" and up: "upsertLocked cfg hooks now p (cr_cache s) = (c, calls, live)"
    and fresh: "record_key p \<notin> in_flight s"
  shows "flight_inv cfg (section_done (c, calls) s)"
proof (rule section_flight_inv [OF s])
  have inv: "cache_inv cfg (cr_cache s)" using s by (simp add: flight_inv_def)
  show "cache_inv cfg (fst (c, calls))" using upsertLocked_inv [OF inv, of hooks now p] up by simp
  show "tracked (fst (c, calls)) \<subseteq> tracked (cr_cache s)"
    using up by (auto simp: upsertLocked_def upsert_existing_def Let_def tracked_def addTombstoneLocked_def delete_conv'
        split: if_splits option.splits prod.splits)
  show "tombstoned (fst (c, calls)) \<inter> in_flight s \<subseteq> tombstoned (cr_cache s)"
    using tombstoned_sections(1) [of cfg hooks now p "cr_cache s"] up fresh by auto
  show "pc_closed (cr_cache s) \<Longrightarrow> pc_closed (fst (c, calls))"
    using closed_sections(1) [of "cr_cache s" cfg hooks now p] up by simp
qed

lemma tracked_sections:
  "tracked (fst (applyDelete cfg hooks now i c)) \<subseteq> tracked c"
  "tracked (fst (Shutdown hooks c)) \<subseteq> tracked c"
  "tracked (DoUpdate i f c) = tracked c"
  by (auto simp: applyDelete_def Shutdown_def DoUpdate_def tracked_def Let_def delete_conv'
      split: option.splits State.splits if_splits)

lemma sweep_section:
  assumes "cache_inv cfg c"
  shows "cache_inv cfg (fst (sweep cfg hooks now c))" "tracked (fst (sweep cfg hooks now c)) \<subseteq> tracked c"
proof -
  show "cache_inv cfg (fst (sweep cfg hooks now c))"
    using assms sweep_effect(1) [OF assms _ refl] by (cases "pc_closed c") (simp_all add: sweep_def)
  show "tracked (fst (sweep cfg hooks now c)) \<subseteq> tracked c"
    using sweep_effect(4) [OF assms _ refl, of hooks now]
    by (cases "pc_closed c") (auto simp: sweep_def tracked_def dom_def split: option.splits)
qed

lemma cache_step_flight_inv:
  assumes "cache_step cfg hooks zero s s'" "flight_inv cfg s"
  shows "flight_inv cfg s'"
  using assms
proof (induction rule: cache_step.induct)
  case (upsert_step p now s c calls live)
  note sec = upsert_section_flight [OF upsert_step.prems upsert_step.hyps(4,3)]
  have inv: "cache_inv cfg (cr_cache s)" using upsert_step.prems by (simp add: flight_inv_def)
  show ?case
  proof (cases live)
    case True
    then have "upsertLocked cfg hooks now p (cr_cache s) = (c, calls, True)" using upsert_step.hyps(4) by simp
    note l = upsertLocked_live [OF this cache_inv_struct [OF inv]]
    show ?thesis
      using flight_inv_pending [OF sec, of p now None] l upsert_step.hyps(3) True
      by (auto simp: tracked_def tombstoned_def)
  next
    case False
    then show ?thesis using sec by simp
  qed
next
  case (live_step s xs p now ys calls r)
  then show ?case by (auto simp: flight_inv_def in_flight_def)
next
  case (insert_step s xs p now r ys)
  then show ?case by (intro insert_flight_inv)
next
  case (delete_step now i s)
  then have inv: "cache_inv cfg (cr_cache s)" by (simp add: flight_inv_def)
  show ?case
    using delete_step inv tracked_sections(1) tombstoned_sections(2) closed_sections(2)
    by (intro section_flight_inv applyDelete_inv) blast+
next
  case (sweep_step s now)
  then have inv: "cache_inv cfg (cr_cache s)" by (simp add: flight_inv_def)
  show ?case
    using sweep_step sweep_section [OF inv] tombstoned_sections(3) closed_sections(3)
    by (intro section_flight_inv) blast+
next
  case (update_step s i f)
  then have inv: "cache_inv cfg (cr_cache s)" by (simp add: flight_inv_def)
  show ?case
    by (rule section_flight_inv [OF update_step])
      (simp_all add: DoUpdate_inv [OF inv] tracked_sections tombstoned_sections closed_sections)
next
  case (activity_step s l)
  then have inv: "cache_inv cfg (cr_cache s)" by (simp add: flight_inv_def)
  show ?case
    by (rule section_flight_inv [OF activity_step]) (simp_all add: inv tracked_def tombstoned_def)
next
  case (shutdown_step s)
  then have inv: "cache_inv cfg (cr_cache s)" by (simp add: flight_inv_def)
  show ?case
    using shutdown_step inv tracked_sections(2) tombstoned_sections(4) closed_sections(4)
    by (intro section_flight_inv Shutdown_inv) blast+
next
  case (call_step s xs h ys)
  then show ?case by (auto simp: flight_inv_def in_flight_def)
qed

lemma reachable_flight_inv:
  assumes "cache_reaches cfg hooks zero s"
  shows "flight_inv cfg s"
  using assms
proof (induction rule: rtranclp_induct)
  case base
  show ?case by (simp add: flight_inv_def run_start_def cache_inv_New in_flight_def)
qed (rule cache_step_flight_inv)


lemma live_calls_inv:
  assumes s: "calls_inv s" and f: "flight_inv cfg s" and pend: "cr_pending s = xs @ (p, now, None) # ys"
  shows "calls_inv (s\<lparr>cr_pending := xs @ (p, now, Some r) # ys,
      cr_decided := cr_decided s @ [CallOnLive p zero], cr_calls := cr_calls s @ [CallOnLive p zero]\<rparr>)"
    (is "calls_inv ?s")
proof -
  note g = in_flight_insert [OF f pend]
  have "record_key p \<notin> riders_held s" using g(2,3) pend by (force simp: riders_held_def)
  moreover have "riders_held ?s = insert (record_key p) (riders_held s)" using pend by (auto simp: riders_held_def)
  ultimately have "phase_from i False (cr_decided s @ [CallOnLive p zero]) = Some (i \<in> riders_held ?s)" for i
    using s by (auto simp: phase_from_append calls_inv_def)
  then show ?thesis using s by (simp add: calls_inv_def)
qed

lemma insert_calls_inv:
  assumes s: "calls_inv s" and f: "flight_inv cfg s" and pend: "cr_pending s = xs @ (p, now, Some r) # ys"
    and hooks: "hk_OnGone hooks"
  shows "calls_inv ((section_done (upsertInsert hooks now p r (cr_cache s)) s)\<lparr>cr_pending := xs @ ys\<rparr>)"
    (is "calls_inv ?s")
proof -
  note g = in_flight_insert [OF f pend]
  have held: "record_key p \<in> riders_held s" using pend by (force simp: riders_held_def)
  show ?thesis
  proof (cases "pc_closed (cr_cache s)")
    case True
    have other: "record_key q \<noteq> record_key p" if "(q, n, x) \<in> set xs \<or> (q, n, x) \<in> set ys" for q n x
      using g(2) that by force
    have "riders_held ?s = riders_held s - {record_key p}"
      using pend g(3) True by (auto simp: riders_held_def upsertInsert_def dest: other [OF disjI1] other [OF disjI2])
    moreover have "snd (upsertInsert hooks now p r (cr_cache s)) = [CallOnGone p r GoneCacheShutdown]"
      using True hooks by (simp add: upsertInsert_def gone_def)
    ultimately show ?thesis using s held by (simp add: calls_inv_def phase_from_append)
  next
    case False
    have "riders_held ?s = riders_held s" using pend False by (auto simp: riders_held_def tracked_upsertInsert)
    moreover have "snd (upsertInsert hooks now p r (cr_cache s)) = []" using False by (simp add: upsertInsert_def Let_def)
    ultimately show ?thesis using s by (simp add: calls_inv_def)
  qed
qed

lemma cache_step_calls_inv:
  assumes "cache_step cfg hooks zero s s'" "flight_inv cfg s" "calls_inv s" "hk_OnLive hooks \<noteq> None" "hk_OnGone hooks"
  shows "calls_inv s'"
  using assms
proof (induction rule: cache_step.induct)
  case (upsert_step p now s c calls live)
  have "calls_inv (section_done (c, calls) s)"
    by (rule section_calls_inv [OF upsert_step.prems(2)])
      (use upsert_step accounts_upsertLocked [of "cr_cache s" hooks cfg now p c calls live] in
        \<open>auto simp: flight_inv_def cache_inv_def\<close>)
  moreover have "riders_held ((section_done (c, calls) s)\<lparr>cr_pending := (p, now, None) # cr_pending s\<rparr>) =
      riders_held (section_done (c, calls) s)" by (simp add: riders_held_def)
  ultimately show ?case by (cases live) (simp_all add: calls_inv_def)
next
  case (live_step s xs p now ys calls r)
  then show ?case using live_calls_inv [of s cfg xs p now ys zero r] by simp
next
  case (insert_step s xs p now r ys)
  then show ?case by (intro insert_calls_inv)
next
  case (delete_step now i s)
  then show ?case
    by (intro section_calls_inv accounts_applyDelete) (auto simp: flight_inv_def cache_inv_def)
next
  case (sweep_step s now)
  then show ?case by (intro section_calls_inv accounts_sweep) (auto simp: flight_inv_def)
next
  case (update_step s i f)
  then show ?case
    by (intro section_calls_inv) (auto simp: flight_inv_def accounts_def tracked_sections)
next
  case (activity_step s l)
  then show ?case by (intro section_calls_inv accounts_quiet) (auto simp: flight_inv_def)
next
  case (shutdown_step s)
  then show ?case by (intro section_calls_inv accounts_Shutdown) (auto simp: flight_inv_def cache_inv_def)
next
  case (call_step s xs h ys)
  then show ?case by (simp add: calls_inv_def riders_held_def)
qed

lemma reachable_calls_inv:
  assumes "cache_reaches cfg hooks zero s" "hk_OnLive hooks \<noteq> None" "hk_OnGone hooks"
  shows "calls_inv s"
  using assms
proof (induction rule: rtranclp_induct)
  case base
  show ?case by (simp add: calls_inv_def run_start_def riders_held_def tracked_def New_def)
next
  case (step s t)
  then show ?case using cache_step_calls_inv [OF step.hyps(2) reachable_flight_inv [OF step.hyps(1)]] by simp
qed

section \<open>Sequences of events\<close>

text \<open>A whole event of a watcher, when nothing else happens meanwhile, is a sequence of these steps.\<close>

definition realised ::
  "'r Config \<Rightarrow> 'r Hooks \<Rightarrow> 'r \<Rightarrow> 'r cache_run \<Rightarrow> 'r PoolerCache \<times> 'r hook_call list \<Rightarrow> bool" where
  "realised cfg hooks zero s r \<longleftrightarrow> (\<exists>s'. (cache_step cfg hooks zero)\<^sup>*\<^sup>* s s' \<and> cr_cache s' = fst r \<and>
     cr_pending s' = [] \<and> cr_decided s' = cr_decided s @ snd r)"

lemma realised_step:
  assumes "cr_pending s = []" "cache_step cfg hooks zero s (section_done r s)"
  shows "realised cfg hooks zero s r"
  using assms unfolding realised_def by (intro exI [of _ "section_done r s"]) auto

lemma realised_then:
  assumes "realised cfg hooks zero s r"
    and "\<And>s'. cr_pending s' = [] \<Longrightarrow> cr_cache s' = fst r \<Longrightarrow> realised cfg hooks zero s' (f (fst r))"
  shows "realised cfg hooks zero s (then_do r f)"
proof -
  from assms(1) obtain s' where s': "(cache_step cfg hooks zero)\<^sup>*\<^sup>* s s'" "cr_cache s' = fst r" "cr_pending s' = []"
      "cr_decided s' = cr_decided s @ snd r" by (auto simp: realised_def)
  from assms(2) [OF s'(3,2)] obtain s'' where "(cache_step cfg hooks zero)\<^sup>*\<^sup>* s' s''" "cr_cache s'' = fst (f (fst r))"
      "cr_pending s'' = []" "cr_decided s'' = cr_decided s' @ snd (f (fst r))" by (auto simp: realised_def)
  then show ?thesis
    using s' unfolding realised_def
    by (intro exI [of _ s'']) (auto simp: then_do_def case_prod_beta intro: rtranclp_trans)
qed

lemma realised_fold:
  assumes "realised cfg hooks zero s r"
    and "\<And>x s'. x \<in> set xs \<Longrightarrow> cr_pending s' = [] \<Longrightarrow> realised cfg hooks zero s' (f x (cr_cache s'))"
  shows "realised cfg hooks zero s (foldl (\<lambda>r x. then_do r (f x)) r xs)"
  using assms
proof (induction xs arbitrary: r)
  case (Cons x xs)
  have "realised cfg hooks zero s (then_do r (f x))"
    by (rule realised_then [OF Cons.prems(1)]) (use Cons.prems(2) in force)
  then show ?case using Cons by simp
qed simp

lemma applyUpsert_realised:
  assumes pend: "cr_pending s = []" and clock: "clock_ok cfg now"
  shows "realised cfg hooks zero s (applyUpsert cfg hooks zero now p (cr_cache s))"
proof (cases "admits cfg p")
  case False
  then show ?thesis using pend unfolding realised_def by (intro exI [of _ s]) (simp add: applyUpsert_def)
next
  case True
  obtain c calls live where up: "upsertLocked cfg hooks now p (cr_cache s) = (c, calls, live)"
    using prod_cases3 by blast
  have fresh: "record_key p \<notin> in_flight s" using pend by (simp add: in_flight_def)
  note step1 = cache_step.upsert_step [OF True clock fresh up, of zero]
  show ?thesis
  proof (cases live)
    case False
    then have "cache_step cfg hooks zero s (section_done (c, calls) s)" using step1 by simp
    then show ?thesis using realised_step [OF pend] True False by (simp add: applyUpsert_def upsert_def up)
  next
    case live: True
    obtain r made where made: "call_OnLive hooks zero p = (r, made)" by fastforce
    let ?s1 = "(section_done (c, calls) s)\<lparr>cr_pending := [(p, now, None)]\<rparr>"
    let ?s2 = "?s1\<lparr>cr_pending := [(p, now, Some r)], cr_decided := cr_decided ?s1 @ made, cr_calls := cr_calls ?s1 @ made\<rparr>"
    let ?s3 = "(section_done (upsertInsert hooks now p r (cr_cache ?s2)) ?s2)\<lparr>cr_pending := []\<rparr>"
    have "cache_step cfg hooks zero s ?s1" using step1 live pend by simp
    moreover have "cache_step cfg hooks zero ?s1 ?s2"
      using cache_step.live_step [of ?s1 "[]" p now "[]" made hooks zero r cfg] made
      by (auto simp: call_OnLive_def split: option.splits)
    moreover have "cache_step cfg hooks zero ?s2 ?s3"
      using cache_step.insert_step [of ?s2 "[]" p now r "[]" cfg hooks zero] by simp
    ultimately have "(cache_step cfg hooks zero)\<^sup>*\<^sup>* s ?s3" by (meson r_into_rtranclp rtranclp.rtrancl_into_rtrancl)
    then show ?thesis
      unfolding realised_def using True live
      by (intro exI [of _ ?s3]) (auto simp: applyUpsert_def upsert_def up made split: prod.split)
  qed
qed

lemma applyDelete_realised:
  assumes "cr_pending s = []" "clock_ok cfg now"
  shows "realised cfg hooks zero s (applyDelete cfg hooks now i (cr_cache s))"
  using assms by (intro realised_step cache_step.delete_step) (auto simp: in_flight_def)

lemma reconcileCell_realised:
  assumes "cr_pending s = []" "clock_ok cfg now"
  shows "realised cfg hooks zero s (reconcileCell cfg hooks zero now cell poolers (cr_cache s))"
  unfolding reconcileCell_def Let_def
  by (intro realised_fold realised_step cache_step.activity_step applyDelete_realised applyUpsert_realised assms)

lemma onCellRemoved_realised:
  assumes "cr_pending s = []" "clock_ok cfg now"
  shows "realised cfg hooks zero s (onCellRemoved cfg hooks now cell (cr_cache s))"
  unfolding onCellRemoved_def Let_def
  by (intro realised_fold realised_step cache_step.activity_step applyDelete_realised assms)

section \<open>What the cache promises\<close>

lemma All_entries:
  assumes "cache_struct c"
  shows "e \<in> set (All c) \<longleftrightarrow> (\<exists>i a. map_of (pc_entries c) i = Some a \<and> e = entrySnapshot (entry_at c a))"
  using cache_struct_parts(1) [OF assms] by (force simp: All_def keys_distinct_def)

lemma bucket_exact:
  assumes ok: "idx_ok m" and ex: "indexed (idx_get m) place"
    and place: "\<And>i k a. place i = Some (k, a) \<longleftrightarrow> map_of es i = Some a \<and> key a = k \<and> P k" and "distinct (map fst es)" "P k"
  shows "mset (bucket_of m k) = mset (filter (\<lambda>(_, a). key a = k) es)"
proof -
  have dist: "distinct (map fst (bucket_of m k))"
    using ok by (auto simp: idx_ok_def bucket_of_def split: option.splits dest!: map_of_SomeD)
  have "map_of (bucket_of m k) i = idx_get m k i" for i by (simp add: bucket_of_def idx_get_def split: option.split)
  then have "map_of (bucket_of m k) i = Some a \<longleftrightarrow> map_of es i = Some a \<and> key a = k" for i a
    using ex place assms(5) by (simp add: indexed_def)
  then have "set (bucket_of m k) = set (filter (\<lambda>(_, a). key a = k) es)"
    using dist assms(4) by (auto simp: set_eq_iff)
  then show ?thesis
    using dist assms(4) by (intro set_eq_iff_mset_eq_distinct [THEN iffD1]) (auto simp: distinct_map intro: distinct_filter)
qed

lemma shard_bucket:
  assumes "cache_struct c"
  shows "mset (bucket_of (pc_byShard c) k) =
     mset (filter (\<lambda>(_, a). shardKeyFor (ie_pooler (entry_at c a)) = k) (pc_entries c))"
  by (rule bucket_exact [OF _ cache_struct_parts(4) [OF assms], where P = "\<lambda>_. True"])
    (use cache_struct_parts(1) [OF assms] in \<open>auto simp: keys_distinct_def shard_place_def\<close>)

lemma cell_bucket:
  assumes "cache_struct c" "cell \<noteq> ''''"
  shows "mset (bucket_of (pc_byCell c) cell) =
     mset (filter (\<lambda>(_, a). cell_of (ie_pooler (entry_at c a)) = cell) (pc_entries c))"
  by (rule bucket_exact [OF _ cache_struct_parts(3) [OF assms(1)] cell_place_iff])
    (use cache_struct_parts(1) [OF assms(1)] assms(2) in \<open>auto simp: keys_distinct_def\<close>)

lemma GetByShard_filters_All:
  assumes "cache_struct c"
  shows "mset (GetByShard c db tg sh) =
     mset (filter (\<lambda>e. shardKeyFor (en_Pooler e) = \<lparr>ck_database = db, ck_tableGroup = tg, ck_shard = sh\<rparr>) (All c))"
proof -
  let ?f = "\<lambda>(i :: string, a). entrySnapshot (entry_at c a)"
  have "mset (GetByShard c db tg sh) = image_mset ?f (mset (bucket_of (pc_byShard c) \<lparr>ck_database = db, ck_tableGroup = tg, ck_shard = sh\<rparr>))"
    by (simp add: GetByShard_def)
  also have "\<dots> = mset (map ?f (filter (\<lambda>(_, a). shardKeyFor (ie_pooler (entry_at c a)) =
      \<lparr>ck_database = db, ck_tableGroup = tg, ck_shard = sh\<rparr>) (pc_entries c)))"
    unfolding shard_bucket [OF assms] by simp
  finally show ?thesis
    by (simp add: All_def filter_map o_def entrySnapshot_def case_prod_beta)
qed

lemma entry_key:
  "cache_struct c \<Longrightarrow> map_of (pc_entries c) i = Some a \<Longrightarrow> record_key (en_Pooler (entrySnapshot (entry_at c a))) = i"
  using cache_structD(3) by (simp add: entrySnapshot_def)

lemma Get_iff_All:
  "cache_struct c \<Longrightarrow> Get c i = Some e \<longleftrightarrow> e \<in> set (All c) \<and> record_key (en_Pooler e) = i"
  unfolding All_entries Get_def using entry_key by fastforce

lemma cellIDs_All:
  assumes struct: "cache_struct c" and cell: "cell \<noteq> ''''"
  shows "set (cellIDs c cell) = {record_key (en_Pooler e) | e. e \<in> set (All c) \<and> cell_of (en_Pooler e) = cell}"
proof -
  have "set (bucket_of (pc_byCell c) cell) = set (filter (\<lambda>(_, a). cell_of (ie_pooler (entry_at c a)) = cell) (pc_entries c))"
    using arg_cong [OF cell_bucket [OF assms], of set_mset] by simp
  then have "i \<in> set (cellIDs c cell) \<longleftrightarrow>
      (\<exists>a. map_of (pc_entries c) i = Some a \<and> cell_of (ie_pooler (entry_at c a)) = cell)" for i
    using cache_struct_parts(1) [OF struct] by (force simp: cellIDs_def keys_distinct_def)
  moreover have "i \<in> {record_key (en_Pooler e) | e. e \<in> set (All c) \<and> cell_of (en_Pooler e) = cell} \<longleftrightarrow>
      (\<exists>a. map_of (pc_entries c) i = Some a \<and> cell_of (ie_pooler (entry_at c a)) = cell)" for i
    unfolding All_entries [OF struct] using entry_key [OF struct] by (fastforce simp: entrySnapshot_def)
  ultimately show ?thesis by blast
qed

lemma All_alive:
  assumes inv: "cache_inv cfg c" and "e \<in> set (All c)"
  shows "\<not> is_shutdown (en_Pooler e) \<and> record_key (en_Pooler e) \<notin> tombstoned c"
proof -
  note struct = cache_inv_struct [OF inv]
  from assms(2) obtain j a where a: "map_of (pc_entries c) j = Some a" "e = entrySnapshot (entry_at c a)"
    unfolding All_entries [OF struct] by blast
  then show ?thesis
    using cache_inv_settled [OF inv a(1)] cache_structD(4) [OF struct a(1)] entry_key [OF struct a(1)]
    by (auto simp: settled_def entrySnapshot_def tombstoned_def)
qed

text \<open>
  C37: at every moment of every interleaving the reads of the cache agree: looking an identifier up
  finds the one entry of that identifier, a shard's entries and a cell's identifiers are exactly those
  of the poolers whose latest record names that shard or cell, no tracked pooler is recorded as shut
  down, and none is a tombstone.\<close>

theorem cache_reads_agree:
  assumes "cache_reaches cfg hooks zero s" and "c = cr_cache s"
  shows "(\<forall>i e. Get c i = Some e \<longleftrightarrow> e \<in> set (All c) \<and> record_key (en_Pooler e) = i) \<and>
    (\<forall>db tg sh. mset (GetByShard c db tg sh) =
       mset (filter (\<lambda>e. shardKeyFor (en_Pooler e) = \<lparr>ck_database = db, ck_tableGroup = tg, ck_shard = sh\<rparr>) (All c))) \<and>
    (\<forall>cell. cell \<noteq> '''' \<longrightarrow>
       set (cellIDs c cell) = {record_key (en_Pooler e) | e. e \<in> set (All c) \<and> cell_of (en_Pooler e) = cell}) \<and>
    (\<forall>e \<in> set (All c). \<not> is_shutdown (en_Pooler e) \<and> record_key (en_Pooler e) \<notin> tombstoned c)"
proof -
  have inv: "cache_inv cfg c" using reachable_flight_inv [OF assms(1)] by (simp add: flight_inv_def assms(2))
  note struct = cache_inv_struct [OF inv]
  show ?thesis
    by (intro conjI allI ballI impI Get_iff_All [OF struct] GetByShard_filters_All [OF struct]
        cellIDs_All [OF struct] All_alive [OF inv, THEN conjunct1] All_alive [OF inv, THEN conjunct2])
qed

primrec is_OnLive :: "string \<Rightarrow> 'r hook_call \<Rightarrow> bool" where
  "is_OnLive i (CallOnLive p z) \<longleftrightarrow> record_key p = i"
| "is_OnLive i (CallOnUpdate q p r) \<longleftrightarrow> False"
| "is_OnLive i (CallOnGone p r reason) \<longleftrightarrow> False"

primrec is_OnGone :: "string \<Rightarrow> 'r hook_call \<Rightarrow> bool" where
  "is_OnGone i (CallOnLive p z) \<longleftrightarrow> False"
| "is_OnGone i (CallOnUpdate q p r) \<longleftrightarrow> False"
| "is_OnGone i (CallOnGone p r reason) \<longleftrightarrow> record_key p = i"

lemma phase_counts:
  "phase_from i h xs = Some h' \<Longrightarrow>
     length (filter (is_OnLive i) xs) + of_bool h = length (filter (is_OnGone i) xs) + of_bool h'"
proof (induction xs arbitrary: h)
  case (Cons x xs)
  then show ?case by (cases x) (force split: if_splits)+
qed simp

lemma length_filter_mset: "mset xs = mset ys \<Longrightarrow> length (filter P xs) = length (filter P ys)"
  by (metis mset_filter size_mset)

text \<open>
  C38: with \<open>OnLive\<close> and \<open>OnGone\<close> bound, the owner of the riders sees, per pooler, the calls decided in
  the order \<open>OnLive\<close>, any number of \<open>OnUpdate\<close>, \<open>OnGone\<close>, repeated, and a rider exists exactly while
  the pooler is tracked or its upsert is in flight; every decided call is made or still due. Once the
  cache is shut down and nothing is in flight or due, every \<open>OnLive\<close> has been matched by one
  \<open>OnGone\<close>.\<close>

theorem riders_accounted_for:
  assumes "cache_reaches cfg hooks zero s" "hk_OnLive hooks \<noteq> None" "hk_OnGone hooks"
  shows "(\<forall>i. phase_from i False (cr_decided s) = Some (i \<in> riders_held s)) \<and>
    mset (cr_decided s) = mset (cr_calls s) + mset (cr_owed s) \<and>
    (pc_closed (cr_cache s) \<and> cr_pending s = [] \<and> cr_owed s = [] \<longrightarrow>
       (\<forall>i. length (filter (is_OnLive i) (cr_calls s)) = length (filter (is_OnGone i) (cr_calls s))))"
proof -
  have calls: "calls_inv s" by (rule reachable_calls_inv [OF assms])
  have struct: "cache_struct (cr_cache s)"
    using reachable_flight_inv [OF assms(1)] by (simp add: flight_inv_def cache_inv_def)
  have "length (filter (is_OnLive i) (cr_calls s)) = length (filter (is_OnGone i) (cr_calls s))"
    if fin: "pc_closed (cr_cache s)" "cr_pending s = []" "cr_owed s = []" for i
  proof -
    have "map_of (pc_entries (cr_cache s)) j = None" for j using fin(1) cache_structD(5) [OF struct, of j] by fastforce
    then have "riders_held s = {}" using fin by (simp add: riders_held_def tracked_def dom_def)
    then have "length (filter (is_OnLive i) (cr_decided s)) = length (filter (is_OnGone i) (cr_decided s))"
      using calls phase_counts [of i False "cr_decided s" False] by (simp add: calls_inv_def)
    moreover have "mset (cr_decided s) = mset (cr_calls s)" using calls fin(3) by (simp add: calls_inv_def)
    ultimately show ?thesis by (simp add: length_filter_mset [of "cr_decided s" "cr_calls s"])
  qed
  then show ?thesis using calls by (simp add: calls_inv_def)
qed

text \<open>
  A sweep lets go of exactly the poolers that are missing from the topology, have been so for the
  grace period, and were not reached within it; the others keep their entry and rider.\<close>

theorem sweep_respects_grace:
  assumes "cache_reaches cfg hooks zero s" and "c = cr_cache s" and "\<not> pc_closed c"
  shows "Get (fst (sweep cfg hooks now c)) i =
    (case Get c i of
       None \<Rightarrow> None
     | Some e \<Rightarrow>
         if en_State e = StateMissingFromTopo \<and> en_LastChange e + cf_MissingGracePeriod cfg \<le> now \<and>
            (\<forall>f. cf_LastReachedTimestamp cfg = Some f \<longrightarrow> f (en_Rider e) = zero_time \<or>
               f (en_Rider e) + cf_MissingGracePeriod cfg \<le> now)
         then None else Some e)"
proof -
  have inv: "cache_inv cfg c" using reachable_flight_inv [OF assms(1)] by (simp add: flight_inv_def assms(2))
  have at: "entry_at (fst (sweep cfg hooks now c)) = entry_at c"
    by (simp add: entry_at_def sweep_effect(2) [OF inv assms(3) refl] fun_eq_iff)
  have due: "due cfg now (entry_at c a) \<longleftrightarrow> en_State e = StateMissingFromTopo \<and> en_LastChange e + cf_MissingGracePeriod cfg \<le> now \<and>
      (\<forall>f. cf_LastReachedTimestamp cfg = Some f \<longrightarrow> f (en_Rider e) = zero_time \<or> f (en_Rider e) + cf_MissingGracePeriod cfg \<le> now)"
    if "map_of (pc_entries c) i = Some a" "e = entrySnapshot (entry_at c a)" for a e
    using cache_inv_settled [OF inv that(1)] that(2)
    by (auto simp: due_def settled_def deadline_def entrySnapshot_def Let_def split: option.splits)
  show ?thesis
    unfolding Get_def at sweep_effect(4) [OF inv assms(3) refl] using due by (auto split: option.splits)
qed


section \<open>Concrete instances\<close>

text \<open>A pooler appears, goes missing and is swept, and appears again before the sweeper has made its call.\<close>

definition ex_cfg :: "nat Config" where
  "ex_cfg = \<lparr>cf_Filter = None, cf_ShutdownGrace = 0, cf_MissingGracePeriod = 5, cf_LastReachedTimestamp = None\<rparr>"

definition ex_hooks :: "nat Hooks" where
  "ex_hooks = \<lparr>hk_OnLive = Some (\<lambda>_ _. 7), hk_OnUpdate = True, hk_OnGone = True\<rparr>"

definition ex_record :: Multipooler where
  "ex_record = the (ex_multipooler ex_a ''host'' [])"

definition upsert_run :: "go_time \<Rightarrow> Multipooler \<Rightarrow> nat cache_run \<Rightarrow> nat cache_run" where
  "upsert_run now p s = (let (c, calls, live) = upsertLocked ex_cfg ex_hooks now p (cr_cache s)
     in (section_done (c, calls) s)\<lparr>cr_pending := (if live then [(p, now, None)] else []) @ cr_pending s\<rparr>)"

definition live_run :: "nat cache_run \<Rightarrow> nat cache_run" where
  "live_run s = (case cr_pending s of
     (p, now, None) # ys \<Rightarrow> s\<lparr>cr_pending := (p, now, Some 7) # ys, cr_decided := cr_decided s @ [CallOnLive p 0],
       cr_calls := cr_calls s @ [CallOnLive p 0]\<rparr>
   | _ \<Rightarrow> s)"

definition insert_run :: "nat cache_run \<Rightarrow> nat cache_run" where
  "insert_run s = (case cr_pending s of
     (p, now, Some r) # ys \<Rightarrow> (section_done (upsertInsert ex_hooks now p r (cr_cache s)) s)\<lparr>cr_pending := ys\<rparr>
   | _ \<Rightarrow> s)"

definition ex_tracked :: "nat cache_run" where
  "ex_tracked = insert_run (live_run (upsert_run 1 ex_record run_start))"

definition ex_missing :: "nat cache_run" where
  "ex_missing = section_done (applyDelete ex_cfg ex_hooks 10 (record_key ex_record) (cr_cache ex_tracked)) ex_tracked"

definition ex_swept :: "nat cache_run" where
  "ex_swept = section_done (sweep ex_cfg ex_hooks 20 (cr_cache ex_missing)) ex_missing"

definition ex_back :: "nat cache_run" where
  "ex_back = live_run (upsert_run 21 ex_record ex_swept)"

lemma upsert_run_step:
  "zero_time < now \<Longrightarrow> record_key p \<notin> in_flight s \<Longrightarrow> cache_step ex_cfg ex_hooks 0 s (upsert_run now p s)"
proof -
  assume "zero_time < now" and fresh: "record_key p \<notin> in_flight s"
  obtain c calls live where up: "upsertLocked ex_cfg ex_hooks now p (cr_cache s) = (c, calls, live)"
    using prod_cases3 by blast
  have "admits ex_cfg p" "clock_ok ex_cfg now"
    using \<open>zero_time < now\<close> by (simp_all add: admits_def clock_ok_def ex_cfg_def)
  from cache_step.upsert_step [OF this fresh up] show ?thesis unfolding upsert_run_def up by simp
qed

lemma live_run_reaches: "(cache_step ex_cfg ex_hooks 0)\<^sup>*\<^sup>* s (live_run s)"
proof (cases "\<exists>p now ys. cr_pending s = (p, now, None) # ys")
  case True
  then obtain p now ys where "cr_pending s = [] @ (p, now, None) # ys" by auto
  from cache_step.live_step [OF this refl, of ex_hooks 7 0 ex_cfg] this show ?thesis
    by (auto simp: live_run_def ex_hooks_def)
qed (auto simp: live_run_def split: list.splits option.splits)

lemma insert_run_reaches: "(cache_step ex_cfg ex_hooks 0)\<^sup>*\<^sup>* s (insert_run s)"
proof (cases "\<exists>p now r ys. cr_pending s = (p, now, Some r) # ys")
  case True
  then obtain p now r ys where "cr_pending s = [] @ (p, now, Some r) # ys" by auto
  from cache_step.insert_step [OF this, of ex_cfg ex_hooks 0] this show ?thesis by (auto simp: insert_run_def)
qed (auto simp: insert_run_def split: list.splits option.splits)

lemma ex_tracked_reachable: "cache_reaches ex_cfg ex_hooks 0 ex_tracked"
proof -
  have "cache_step ex_cfg ex_hooks 0 run_start (upsert_run 1 ex_record run_start)"
    by (rule upsert_run_step) (simp_all add: zero_time_def run_start_def in_flight_def)
  then show ?thesis
    unfolding ex_tracked_def by (meson live_run_reaches insert_run_reaches rtranclp_trans r_into_rtranclp)
qed

lemma ex_missing_reachable: "cache_reaches ex_cfg ex_hooks 0 ex_missing"
proof -
  have "record_key ex_record \<notin> in_flight ex_tracked" by code_simp
  then have "cache_step ex_cfg ex_hooks 0 ex_tracked ex_missing"
    unfolding ex_missing_def by (intro cache_step.delete_step) (simp_all add: clock_ok_def ex_cfg_def zero_time_def)
  then show ?thesis using ex_tracked_reachable by simp
qed

lemma ex_back_reachable: "cache_reaches ex_cfg ex_hooks 0 ex_back"
proof -
  have "cache_step ex_cfg ex_hooks 0 ex_missing ex_swept" unfolding ex_swept_def by (rule cache_step.sweep_step)
  moreover have "record_key ex_record \<notin> in_flight ex_swept" by code_simp
  then have "cache_step ex_cfg ex_hooks 0 ex_swept (upsert_run 21 ex_record ex_swept)"
    by (intro upsert_run_step) (simp_all add: zero_time_def)
  ultimately show ?thesis
    unfolding ex_back_def
    using ex_missing_reachable live_run_reaches by (meson rtranclp_trans rtranclp.rtrancl_into_rtrancl)
qed

text \<open>
  The calls decided come in order, but the sweeper makes its call after releasing the lock, so a pooler
  that comes back can get its second \<open>OnLive\<close> before the \<open>OnGone\<close> of its first rider.
\<close>

theorem hooks_can_overlap:
  "cache_reaches ex_cfg ex_hooks 0 ex_back \<and> phase_from (record_key ex_record) False (cr_calls ex_back) = None \<and>
   cr_owed ex_back = [CallOnGone ex_record 7 GoneMissingFromTopo]"
proof (intro conjI ex_back_reachable)
  show "phase_from (record_key ex_record) False (cr_calls ex_back) = None" by code_simp
  show "cr_owed ex_back = [CallOnGone ex_record 7 GoneMissingFromTopo]" by code_simp
qed

theorem cache_reads_agree_witness:
  "Get (cr_cache ex_missing) (record_key ex_record) \<noteq> None \<and>
   (\<exists>e. mset (GetByShard (cr_cache ex_missing) ''db'' ''default'' ''0-inf'') = {#e#} \<and> \<not> is_shutdown (en_Pooler e))"
proof -
  have all: "All (cr_cache ex_missing) = [\<lparr>en_Pooler = ex_record, en_Rider = 7, en_State = StateMissingFromTopo, en_LastChange = 10\<rparr>]"
    by code_simp
  have key: "shardKeyFor ex_record = \<lparr>ck_database = ''db'', ck_tableGroup = ''default'', ck_shard = ''0-inf''\<rparr>" by code_simp
  show ?thesis using cache_reads_agree [OF ex_missing_reachable refl] by (auto simp: all key)
qed

theorem riders_accounted_for_witness:
  "phase_from (record_key ex_record) False (cr_decided ex_back) = Some True"
proof -
  have "record_key ex_record \<in> riders_held ex_back"
  proof -
    have "cr_pending ex_back = [(ex_record, 21, Some 7)]" by code_simp
    then show ?thesis by (auto simp: riders_held_def)
  qed
  then show ?thesis
    using riders_accounted_for [OF ex_back_reachable] by (simp add: ex_hooks_def)
qed

theorem sweep_respects_grace_witness:
  "Get (fst (sweep ex_cfg ex_hooks 14 (cr_cache ex_missing))) (record_key ex_record) \<noteq> None \<and>
   Get (fst (sweep ex_cfg ex_hooks 15 (cr_cache ex_missing))) (record_key ex_record) = None"
proof -
  have e: "Get (cr_cache ex_missing) (record_key ex_record) =
      Some \<lparr>en_Pooler = ex_record, en_Rider = 7, en_State = StateMissingFromTopo, en_LastChange = 10\<rparr>" by code_simp
  have "\<not> pc_closed (cr_cache ex_missing)" by code_simp
  from sweep_respects_grace [OF ex_missing_reachable refl this] show ?thesis by (simp add: e ex_cfg_def)
qed

end
