(* ===== verification/Pooler_Watch.thy ===== *)
theory Pooler_Watch
  imports Pooler_Cache "HOL-Library.Sublist"
begin

text \<open>
  The watch of a cell's poolers (go/common/topoclient/poolerwatch/multi_cell_watch.go): raw events of
  the topology store are parsed and handed to the pooler cache. The main result is that the cache
  mirrors the topology of the cell after a snapshot and any sequence of changes, whatever sweeps and
  rider updates come between. Decoding of a record (\<open>proto.Unmarshal\<close>) is an argument.
\<close>

section \<open>Strings\<close>

definition HasSuffix :: "string \<Rightarrow> string \<Rightarrow> bool" where
  "HasSuffix s t \<longleftrightarrow> suffix t s"

definition TrimSuffix :: "string \<Rightarrow> string \<Rightarrow> string" where
  "TrimSuffix s t = (if HasSuffix s t then take (length s - length t) s else s)"

text \<open>\<open>strings.Cut\<close>: around the first occurrence of the separator.\<close>

fun Cut :: "string \<Rightarrow> string \<Rightarrow> (string \<times> string) option" where
  "Cut [] sep = (if sep = [] then Some ([], []) else None)"
| "Cut (x # xs) sep =
     (if take (length sep) (x # xs) = sep then Some ([], drop (length sep) (x # xs))
      else map_option (\<lambda>(before, after). (x # before, after)) (Cut xs sep))"

section \<open>Events\<close>

datatype watch_error = NoNode | WatchErrorOther string

record WatchDataRecursive =
  wd_Path :: string
  wd_Err :: "watch_error option"
  wd_Contents :: "string option"

datatype watch_entry = EntryUpsert Multipooler | EntryDelete string | EntryIgnored

definition PoolerFile :: string where "PoolerFile = ''Pooler''"
definition PoolersPath :: string where "PoolersPath = ''poolers''"

definition extractPoolerIDFromPath :: "string \<Rightarrow> string" where
  "extractPoolerIDFromPath watchPath =
     (case Cut watchPath (PoolersPath @ ''/'') of
        None \<Rightarrow> ''''
      | Some (_, after) \<Rightarrow>
          (let name = TrimSuffix after (''/'' @ PoolerFile) in if name = after then '''' else name))"

definition parsePoolerWatchEntry :: "(string \<Rightarrow> Multipooler option) \<Rightarrow> WatchDataRecursive \<Rightarrow> watch_entry" where
  "parsePoolerWatchEntry unmarshal wd =
     (if \<not> HasSuffix (wd_Path wd) (''/'' @ PoolerFile) then EntryIgnored
      else case wd_Err wd of
             Some NoNode \<Rightarrow>
               (let i = extractPoolerIDFromPath (wd_Path wd) in if i = '''' then EntryIgnored else EntryDelete i)
           | Some _ \<Rightarrow> EntryIgnored
           | None \<Rightarrow>
               (case wd_Contents wd of
                  None \<Rightarrow> EntryIgnored
                | Some bytes \<Rightarrow>
                    (case unmarshal bytes of
                       None \<Rightarrow> EntryIgnored
                     | Some p \<Rightarrow> if mp_id p = None then EntryIgnored else EntryUpsert p)))"

definition processOne ::
  "(string \<Rightarrow> Multipooler option) \<Rightarrow> 'r Config \<Rightarrow> 'r Hooks \<Rightarrow> 'r \<Rightarrow> go_time \<Rightarrow> WatchDataRecursive \<Rightarrow> 'r PoolerCache \<Rightarrow>
     'r PoolerCache \<times> 'r hook_call list" where
  "processOne unmarshal cfg hooks zero now wd c =
     (case parsePoolerWatchEntry unmarshal wd of
        EntryIgnored \<Rightarrow> (c, [])
      | EntryDelete i \<Rightarrow> applyDelete cfg hooks now i c
      | EntryUpsert p \<Rightarrow> applyUpsert cfg hooks zero now p c)"

definition onInitial ::
  "(string \<Rightarrow> Multipooler option) \<Rightarrow> 'r Config \<Rightarrow> 'r Hooks \<Rightarrow> 'r \<Rightarrow> go_time \<Rightarrow> string \<Rightarrow> WatchDataRecursive list \<Rightarrow>
     'r PoolerCache \<Rightarrow> 'r PoolerCache \<times> 'r hook_call list" where
  "onInitial unmarshal cfg hooks zero now cell initial c =
     reconcileCell cfg hooks zero now cell
       (concat (map (\<lambda>wd. case parsePoolerWatchEntry unmarshal wd of EntryUpsert p \<Rightarrow> [p] | _ \<Rightarrow> []) initial)) c"

definition poolerPath :: "string \<Rightarrow> string" where
  "poolerPath i = PoolersPath @ ''/'' @ i @ ''/'' @ PoolerFile"

section \<open>Paths\<close>

lemma TrimSuffix_append: "TrimSuffix (s @ t) t = s"
  by (simp add: TrimSuffix_def HasSuffix_def suffix_def)

lemma Cut_first:
  assumes "\<And>u v. pre @ sep = u @ sep @ v \<Longrightarrow> v = []" "sep \<noteq> []"
  shows "Cut (pre @ sep @ rest) sep = Some (pre, rest)"
  using assms
proof (induction pre)
  case Nil
  then show ?case by (cases sep) auto
next
  case (Cons x pre)
  have "take (length sep) (x # pre @ sep @ rest) \<noteq> sep"
  proof
    assume "take (length sep) (x # pre @ sep @ rest) = sep"
    moreover have "take (length sep) (x # pre @ sep @ rest) = take (length sep) ((x # pre) @ sep)"
      by (simp del: append_Cons add: append_Cons [symmetric])
    ultimately have "take (length sep) ((x # pre) @ sep) = sep" by simp
    then have "(x # pre) @ sep = [] @ sep @ drop (length sep) ((x # pre) @ sep)"
      by (metis append_Nil append_take_drop_id)
    from Cons.prems(1) [OF this] show False by simp
  qed
  moreover have "v = []" if "pre @ sep = u @ sep @ v" for u v using Cons.prems(1) [of "x # u" v] that by simp
  ultimately show ?case using Cons by simp
qed

definition plain_root :: "string \<Rightarrow> bool" where
  "plain_root pre \<longleftrightarrow> (\<forall>u \<in> set (prefixes (pre @ PoolersPath @ ''/'')). suffix (PoolersPath @ ''/'') u \<longrightarrow>
     u = pre @ PoolersPath @ ''/'')"

lemma extract_poolerPath:
  assumes "plain_root pre"
  shows "extractPoolerIDFromPath (pre @ poolerPath i) = i"
proof -
  let ?sep = "PoolersPath @ ''/''"
  have "v = []" if e: "pre @ ?sep = u @ ?sep @ v" for u v
  proof -
    have "prefix (u @ ?sep) (pre @ ?sep)" unfolding e prefix_def by simp
    then have "u @ ?sep \<in> set (prefixes (pre @ ?sep))" by (simp only: in_set_prefixes)
    moreover have "suffix ?sep (u @ ?sep)" unfolding suffix_def by (rule exI [of _ u]) (rule refl)
    ultimately have "u @ ?sep = pre @ ?sep" using bspec [OF assms [unfolded plain_root_def]] by blast
    then show ?thesis using e by simp
  qed
  then have "Cut (pre @ ?sep @ i @ ''/'' @ PoolerFile) ?sep = Some (pre, i @ ''/'' @ PoolerFile)"
    by (intro Cut_first) auto
  then show ?thesis
    unfolding extractPoolerIDFromPath_def poolerPath_def
    using TrimSuffix_append [of i "''/'' @ PoolerFile"] by (simp add: Let_def PoolerFile_def)
qed

lemma parse_put:
  "unmarshal bytes = Some p \<Longrightarrow> mp_id p \<noteq> None \<Longrightarrow>
     parsePoolerWatchEntry unmarshal \<lparr>wd_Path = pre @ poolerPath i, wd_Err = None, wd_Contents = Some bytes\<rparr> = EntryUpsert p"
  by (simp add: parsePoolerWatchEntry_def HasSuffix_def poolerPath_def suffix_def)

lemma parse_delete:
  assumes "plain_root pre" "i \<noteq> ''''"
  shows "parsePoolerWatchEntry unmarshal \<lparr>wd_Path = pre @ poolerPath i, wd_Err = Some NoNode, wd_Contents = None\<rparr> = EntryDelete i"
proof -
  have "HasSuffix (pre @ poolerPath i) (''/'' @ PoolerFile)"
    unfolding HasSuffix_def poolerPath_def by (intro suffixI [of _ "pre @ PoolersPath @ ''/'' @ i"]) simp
  then show ?thesis using assms by (simp add: parsePoolerWatchEntry_def extract_poolerPath)
qed

section \<open>What an event does to the entries\<close>

lemma Get_cong:
  "map_of (pc_entries c) i = map_of (pc_entries d) i \<Longrightarrow>
     (\<And>a. map_of (pc_entries c) i = Some a \<Longrightarrow> entry_at c a = entry_at d a) \<Longrightarrow> Get c i = Get d i"
  by (cases "map_of (pc_entries d) i") (auto simp: Get_def)

lemma Get_applyDelete:
  assumes struct: "cache_struct c" and "\<not> pc_closed c"
  shows "Get (fst (applyDelete cfg hooks now i c)) j =
     (case Get c j of
        None \<Rightarrow> None
      | Some e \<Rightarrow>
          if j \<noteq> i \<or> en_State e = StateMissingFromTopo then Some e
          else if cf_MissingGracePeriod cfg = 0 then None
          else Some (e\<lparr>en_State := StateMissingFromTopo, en_LastChange := now\<rparr>))"
proof (cases "map_of (pc_entries c) i")
  case None
  then show ?thesis
    using assms(2) by (auto simp: applyDelete_def Get_def split: option.splits)
next
  case (Some a)
  note d = cache_structD [OF struct Some]
  have "b \<noteq> a" if "j \<noteq> i" "map_of (pc_entries c) j = Some b" for b
    using that address_unique [OF struct Some, of j] by auto
  then show ?thesis
    using Some assms(2) d(1,2)
    by (cases "j = i"; cases "map_of (pc_entries c) j"; cases "ie_state (entry_at c a)")
      (auto simp: applyDelete_def Get_def Let_def entry_at_set_entry delete_conv' entrySnapshot_def)
qed

text \<open>The transition of one pooler: what the topology record makes of the entry, and the hook calls.\<close>

definition updated_entry :: "go_time \<Rightarrow> Multipooler \<Rightarrow> 'r Entry \<Rightarrow> 'r Entry" where
  "updated_entry now p e = \<lparr>en_Pooler = p, en_Rider = en_Rider e, en_State = StateLive,
     en_LastChange = (if en_State e = StateLive \<and> en_Pooler e = p then en_LastChange e else now)\<rparr>"

definition upsert_entry :: "'r Hooks \<Rightarrow> 'r \<Rightarrow> go_time \<Rightarrow> Multipooler \<Rightarrow> 'r Entry option \<Rightarrow> 'r Entry option" where
  "upsert_entry hooks zero now p g =
     (if is_shutdown p then None
      else case g of
             None \<Rightarrow> Some \<lparr>en_Pooler = p, en_Rider = fst (call_OnLive hooks zero p), en_State = StateLive, en_LastChange = now\<rparr>
           | Some e \<Rightarrow> Some (updated_entry now p e))"

definition upsert_calls :: "'r Hooks \<Rightarrow> 'r \<Rightarrow> Multipooler \<Rightarrow> 'r Entry option \<Rightarrow> 'r hook_call list" where
  "upsert_calls hooks zero p g =
     (case g of
        None \<Rightarrow> if is_shutdown p then [] else snd (call_OnLive hooks zero p)
      | Some e \<Rightarrow>
          if is_shutdown p then gone hooks p (en_Rider e) GoneShutdown
          else if en_Pooler e \<noteq> p \<and> hk_OnUpdate hooks then [CallOnUpdate (en_Pooler e) p (en_Rider e)] else [])"

lemma upsert_existing_spec:
  assumes struct: "cache_struct c" and i: "map_of (pc_entries c) i = Some a" and p: "record_key p = i"
  shows "Get (fst (upsert_existing cfg hooks now p i a c)) = (Get c)(i := upsert_entry hooks zero now p (Get c i))"
    and "snd (upsert_existing cfg hooks now p i a c) = upsert_calls hooks zero p (Get c i)"
proof -
  note d = cache_structD [OF struct i]
  have other: "b \<noteq> a" if "j \<noteq> i" "map_of (pc_entries c) j = Some b" for j b
    using that address_unique [OF struct i, of j] by auto
  have "Get (fst (upsert_existing cfg hooks now p i a c)) j = Get c j" if "j \<noteq> i" for j
    using d(1,2) that other [OF that] by (intro Get_cong)
      (auto simp: upsert_existing_def Let_def addTombstoneLocked_def delete_conv' entry_at_set_entry split: if_splits)
  moreover have "Get (fst (upsert_existing cfg hooks now p i a c)) i = upsert_entry hooks zero now p (Get c i)"
    using d(1,2) i
    by (cases "ie_state (entry_at c a)"; cases "ie_pooler (entry_at c a) = p"; cases "is_shutdown p")
      (simp_all add: upsert_existing_def Let_def addTombstoneLocked_def delete_conv' entry_at_set_entry Get_def
        entrySnapshot_def upsert_entry_def updated_entry_def)
  ultimately show "Get (fst (upsert_existing cfg hooks now p i a c)) = (Get c)(i := upsert_entry hooks zero now p (Get c i))"
    by (simp add: fun_eq_iff)
  show "snd (upsert_existing cfg hooks now p i a c) = upsert_calls hooks zero p (Get c i)"
    using i by (simp add: upsert_existing_def Let_def upsert_calls_def Get_def entrySnapshot_def)
qed

lemma Get_note_activity [simp]: "Get (note_activity cell now c) = Get c"
  by (simp add: Get_def fun_eq_iff)

lemma cache_struct_activity: "cache_inv cfg c \<Longrightarrow> cache_struct (note_activity cell now c)"
  using cache_inv_struct [of cfg "note_activity cell now c"] by simp

lemma Get_upsertInsert:
  assumes "cache_struct c" "\<not> pc_closed c" "map_of (pc_entries c) (record_key p) = None"
  shows "Get (fst (upsertInsert hooks now p r c)) j =
     (if j = record_key p
      then Some \<lparr>en_Pooler = p, en_Rider = r, en_State = StateLive, en_LastChange = now\<rparr> else Get c j)"
proof -
  have "b < length (pc_heap c)" if "map_of (pc_entries c) j = Some b" for b
    using cache_structD(1) [OF assms(1) that] .
  then show ?thesis
    using assms(2,3)
    by (cases "map_of (pc_entries c) j")
      (auto simp: upsertInsert_def Let_def Get_def AList.update_conv' entry_at_def nth_append entrySnapshot_def)
qed

lemma Get_same: "pc_entries d = pc_entries c \<Longrightarrow> entry_at d = entry_at c \<Longrightarrow> Get d = Get c"
  by (simp add: Get_def fun_eq_iff)

lemma applyUpsert_spec:
  assumes inv: "cache_inv cfg c" and opn: "\<not> pc_closed c" and p: "admits cfg p"
  shows "Get (fst (applyUpsert cfg hooks zero now p c)) = (Get c)(record_key p := upsert_entry hooks zero now p (Get c (record_key p))) \<and>
    snd (applyUpsert cfg hooks zero now p c) = upsert_calls hooks zero p (Get c (record_key p))"
proof (cases "map_of (pc_entries c) (record_key p)")
  case (Some a)
  have "applyUpsert cfg hooks zero now p c = upsert_existing cfg hooks now p (record_key p) a (note_activity (cell_of p) now c)"
    using Some opn p by (simp add: applyUpsert_def upsert_def upsertLocked_def Let_def split: prod.splits)
  then show ?thesis
    using upsert_existing_spec [OF cache_struct_activity [OF inv, of "cell_of p" now] _ refl, of p a cfg hooks now zero] Some by simp
next
  case None
  let ?u = "fst (upsertLocked cfg hooks now p c)"
  have none: "Get c (record_key p) = None" using None by (simp add: Get_def)
  have same: "pc_entries ?u = pc_entries c" "entry_at ?u = entry_at c"
    using None opn by (auto simp: upsertLocked_def Let_def addTombstoneLocked_def fun_eq_iff split: option.splits)
  note struct' = cache_inv_struct [OF upsertLocked_inv [OF inv, of hooks now p]]
  show ?thesis
  proof (cases "is_shutdown p")
    case True
    have "applyUpsert cfg hooks zero now p c = (?u, [])"
      using True None opn p by (auto simp: applyUpsert_def upsert_def upsertLocked_def Let_def split: option.splits)
    then show ?thesis
      using True none Get_same [OF same] by (simp add: upsert_entry_def upsert_calls_def fun_eq_iff)
  next
    case False
    let ?r = "fst (call_OnLive hooks zero p)"
    have open': "\<not> pc_closed ?u" using None opn False by (auto simp: upsertLocked_def Let_def split: option.splits)
    have "applyUpsert cfg hooks zero now p c = (fst (upsertInsert hooks now p ?r ?u), snd (call_OnLive hooks zero p))"
      using False None opn p by (auto simp: applyUpsert_def upsert_def upsertLocked_def upsertInsert_def Let_def
          case_prod_beta split: option.splits)
    then show ?thesis
      using False none Get_upsertInsert [OF struct' open', of p hooks now ?r] None Get_same [OF same] same(1)
      by (simp add: upsert_entry_def upsert_calls_def fun_eq_iff)
  qed
qed

lemma Get_applyUpsert:
  assumes inv: "cache_inv cfg c" and opn: "\<not> pc_closed c" and p: "admits cfg p"
  shows "j \<noteq> record_key p \<Longrightarrow> Get (fst (applyUpsert cfg hooks zero now p c)) j = Get c j"
    and "is_shutdown p \<Longrightarrow> Get (fst (applyUpsert cfg hooks zero now p c)) (record_key p) = None"
    and "\<not> is_shutdown p \<Longrightarrow> \<exists>e. Get (fst (applyUpsert cfg hooks zero now p c)) (record_key p) = Some e \<and>
      en_Pooler e = p \<and> en_State e = StateLive"
  by (auto simp: applyUpsert_spec [OF assms] upsert_entry_def updated_entry_def split: option.splits)

section \<open>Mirroring the topology\<close>

text \<open>The records a cell has in the topology, and what the cache must then hold.\<close>

definition holds_as :: "'r Config \<Rightarrow> string \<Rightarrow> Multipooler option \<Rightarrow> 'r Entry option \<Rightarrow> bool" where
  "holds_as cfg cell t g =
     (case t of
        Some p \<Rightarrow> admits cfg p \<longrightarrow>
          (if is_shutdown p then g = None else (\<exists>e. g = Some e \<and> en_Pooler e = p \<and> en_State e = StateLive))
      | None \<Rightarrow> (case g of None \<Rightarrow> True | Some e \<Rightarrow> cell_of (en_Pooler e) = cell \<longrightarrow> en_State e = StateMissingFromTopo))"

definition mirrors :: "'r Config \<Rightarrow> string \<Rightarrow> string set \<Rightarrow> (string \<rightharpoonup> Multipooler) \<Rightarrow> 'r PoolerCache \<Rightarrow> bool" where
  "mirrors cfg cell D T c \<longleftrightarrow> (\<forall>i \<in> D. holds_as cfg cell (T i) (Get c i))"

lemma closed_applyUpsert [simp]:
  "\<not> pc_closed c \<Longrightarrow> pc_closed (fst (applyUpsert cfg hooks zero now p c)) = False"
  by (auto simp: applyUpsert_def upsert_def upsertLocked_def upsertInsert_def upsert_existing_def Let_def
      addTombstoneLocked_def case_prod_beta split: option.splits)

lemma closed_applyDelete [simp]:
  "\<not> pc_closed c \<Longrightarrow> pc_closed (fst (applyDelete cfg hooks now i c)) = False"
  by (auto simp: applyDelete_def Let_def split: option.splits State.splits)

lemma applyUpsert_inv:
  assumes inv: "cache_inv cfg c"
  shows "cache_inv cfg (fst (applyUpsert cfg hooks zero now p c))"
proof -
  obtain c' calls live where up: "upsertLocked cfg hooks now p c = (c', calls, live)" using prod_cases3 by blast
  have inv': "cache_inv cfg c'" using upsertLocked_inv [OF inv, of hooks now p] up by simp
  show ?thesis
  proof (cases live)
    case True
    then have "upsertLocked cfg hooks now p c = (c', calls, True)" using up by simp
    note l = upsertLocked_live [OF this cache_inv_struct [OF inv]]
    then show ?thesis
      using inv up True upsertInsert_inv [OF inv' l(3,4) refl l(5)]
      by (simp add: applyUpsert_def upsert_def case_prod_beta)
  qed (use inv inv' up in \<open>simp add: applyUpsert_def upsert_def\<close>)
qed

lemma upsert_mirrors:
  assumes "mirrors cfg cell D T c" "cache_inv cfg c" "\<not> pc_closed c"
  shows "mirrors cfg cell (insert (record_key p) D) (T(record_key p \<mapsto> p)) (fst (applyUpsert cfg hooks zero now p c))"
proof (cases "admits cfg p")
  case True
  note g = Get_applyUpsert [OF assms(2,3) True]
  have "holds_as cfg cell (Some p) (Get (fst (applyUpsert cfg hooks zero now p c)) (record_key p))"
    using g(2,3) by (simp add: holds_as_def)
  then show ?thesis using assms(1) by (simp add: mirrors_def g(1))
next
  case False
  then show ?thesis using assms(1) by (simp add: mirrors_def applyUpsert_def holds_as_def)
qed

lemma delete_mirrors:
  assumes "mirrors cfg cell D T c" "cache_inv cfg c" "\<not> pc_closed c"
  shows "mirrors cfg cell (insert i D) (T(i := None)) (fst (applyDelete cfg hooks now i c))"
  unfolding mirrors_def
proof
  fix j assume "j \<in> insert i D"
  then have "j \<noteq> i \<Longrightarrow> holds_as cfg cell (T j) (Get c j)" using assms(1) by (simp add: mirrors_def)
  then show "holds_as cfg cell ((T(i := None)) j) (Get (fst (applyDelete cfg hooks now i c)) j)"
    unfolding Get_applyDelete [OF cache_inv_struct [OF assms(2)] assms(3)]
    by (cases "j = i"; cases "Get c j") (auto simp: holds_as_def)
qed

lemma mirrors_mono: "mirrors cfg cell D T c \<Longrightarrow> E \<subseteq> D \<Longrightarrow> mirrors cfg cell E T c"
  by (auto simp: mirrors_def)

lemma fst_then_do [simp]: "fst (then_do r f) = fst (f (fst r))"
  by (simp add: then_do_def case_prod_beta)

lemma deletes_mirror:
  assumes "mirrors cfg cell D Map.empty (fst r)" "cache_inv cfg (fst r)" "\<not> pc_closed (fst r)" "clock_ok cfg now"
    and r': "r' = foldl (\<lambda>r i. then_do r (applyDelete cfg hooks now i)) r is"
  shows "mirrors cfg cell (D \<union> set is) Map.empty (fst r') \<and> cache_inv cfg (fst r') \<and> \<not> pc_closed (fst r')"
  using assms
proof (induction "is" arbitrary: r D)
  case (Cons i "is")
  let ?r = "then_do r (applyDelete cfg hooks now i)"
  have "mirrors cfg cell (insert i D) Map.empty (fst ?r)"
    using delete_mirrors [OF Cons.prems(1-3), of i hooks now] by (simp add: fun_upd_idem)
  moreover have "cache_inv cfg (fst ?r)" "\<not> pc_closed (fst ?r)" using Cons.prems by (simp_all add: applyDelete_inv)
  ultimately show ?case using Cons.IH [of "insert i D" ?r] Cons.prems(4,5) by simp
qed simp

definition snapshot_map :: "(string \<rightharpoonup> Multipooler) \<Rightarrow> Multipooler list \<Rightarrow> string \<rightharpoonup> Multipooler" where
  "snapshot_map = foldl (\<lambda>T p. T(record_key p \<mapsto> p))"

lemma upserts_mirror:
  assumes "mirrors cfg cell D T (fst r)" "cache_inv cfg (fst r)" "\<not> pc_closed (fst r)"
    and r': "r' = foldl (\<lambda>r p. then_do r (applyUpsert cfg hooks zero now p)) r ps"
  shows "mirrors cfg cell (D \<union> record_key ` set ps) (snapshot_map T ps) (fst r') \<and> cache_inv cfg (fst r') \<and> \<not> pc_closed (fst r')"
  using assms
proof (induction ps arbitrary: r D T)
  case (Cons p ps)
  let ?r = "then_do r (applyUpsert cfg hooks zero now p)"
  have m: "mirrors cfg cell (insert (record_key p) D) (T(record_key p \<mapsto> p)) (fst ?r)"
    using upsert_mirrors [OF Cons.prems(1-3)] by simp
  have i: "cache_inv cfg (fst ?r)" "\<not> pc_closed (fst ?r)" using Cons.prems by (simp_all add: applyUpsert_inv)
  have r': "r' = foldl (\<lambda>r p. then_do r (applyUpsert cfg hooks zero now p)) ?r ps" using Cons.prems(4) by simp
  have "snapshot_map T (p # ps) = snapshot_map (T(record_key p \<mapsto> p)) ps"
    "insert (record_key p) D \<union> record_key ` set ps = D \<union> record_key ` set (p # ps)"
    by (auto simp: snapshot_map_def)
  with Cons.IH [OF m i r'] show ?case by metis
qed (simp add: snapshot_map_def)

lemma reconcileCell_mirrors:
  assumes inv: "cache_inv cfg c" "\<not> pc_closed c" and clock: "clock_ok cfg now" and cell: "cell \<noteq> ''''"
    and c': "c' = fst (reconcileCell cfg hooks zero now cell poolers c)"
  shows "mirrors cfg cell UNIV (snapshot_map Map.empty poolers) c' \<and> cache_inv cfg c' \<and> \<not> pc_closed c'"
proof -
  let ?c = "c\<lparr>pc_cellLastActivity := AList.update cell now (pc_cellLastActivity c)\<rparr>"
  let ?gone = "filter (\<lambda>i. i \<notin> record_key ` set poolers) (cellIDs ?c cell)"
  let ?r = "foldl (\<lambda>r i. then_do r (applyDelete cfg hooks now i)) (?c, []) ?gone"
  have inv': "cache_inv cfg ?c" "\<not> pc_closed ?c" using inv by simp_all
  note struct = cache_inv_struct [OF inv'(1)]
  have "mirrors cfg cell (- set (cellIDs ?c cell)) Map.empty ?c"
    unfolding cellIDs_All [OF struct cell] mirrors_def holds_as_def
    using Get_iff_All [OF struct] by (fastforce split: option.splits)
  then have "mirrors cfg cell (- set (cellIDs ?c cell) \<union> set ?gone) Map.empty (fst ?r) \<and>
      cache_inv cfg (fst ?r) \<and> \<not> pc_closed (fst ?r)"
    using inv' clock by (intro deletes_mirror [OF _ _ _ _ refl]) simp_all
  then have d: "mirrors cfg cell (- set (cellIDs ?c cell) \<union> set ?gone) Map.empty (fst ?r)"
    "cache_inv cfg (fst ?r)" "\<not> pc_closed (fst ?r)" by simp_all
  have "mirrors cfg cell (- set (cellIDs ?c cell) \<union> set ?gone \<union> record_key ` set poolers) (snapshot_map Map.empty poolers) c' \<and>
      cache_inv cfg c' \<and> \<not> pc_closed c'"
    using upserts_mirror [OF d refl] unfolding c' reconcileCell_def Let_def by simp
  moreover have "- set (cellIDs ?c cell) \<union> set ?gone \<union> record_key ` set poolers = UNIV" by auto
  ultimately show ?thesis by simp
qed

lemma sweep_mirrors:
  assumes "mirrors cfg cell D T c" "cache_inv cfg c" "\<not> pc_closed c"
  shows "mirrors cfg cell D T (fst (sweep cfg hooks now c))"
  unfolding mirrors_def
proof
  fix i assume "i \<in> D"
  then have h: "holds_as cfg cell (T i) (Get c i)" using assms(1) by (simp add: mirrors_def)
  have at: "entry_at (fst (sweep cfg hooks now c)) = entry_at c"
    by (simp add: entry_at_def sweep_effect(2) [OF assms(2,3) refl] fun_eq_iff)
  have "Get (fst (sweep cfg hooks now c)) i = Get c i \<or>
      Get (fst (sweep cfg hooks now c)) i = None \<and> (\<exists>e. Get c i = Some e \<and> en_State e = StateMissingFromTopo)"
    unfolding Get_def at sweep_effect(4) [OF assms(2,3) refl]
    by (auto simp: due_def entrySnapshot_def split: option.splits)
  then show "holds_as cfg cell (T i) (Get (fst (sweep cfg hooks now c)) i)"
    using h by (auto simp: holds_as_def split: option.splits if_splits)
qed

lemma DoUpdate_mirrors:
  assumes "mirrors cfg cell D T c" "cache_struct c"
  shows "mirrors cfg cell D T (DoUpdate j f c)"
  unfolding mirrors_def
proof
  fix i assume "i \<in> D"
  then have h: "holds_as cfg cell (T i) (Get c i)" using assms(1) by (simp add: mirrors_def)
  show "holds_as cfg cell (T i) (Get (DoUpdate j f c) i)"
  proof (cases "map_of (pc_entries c) j")
    case (Some a)
    have "\<exists>g. Get (DoUpdate j f c) i = map_option (\<lambda>e. e\<lparr>en_Rider := g (en_Rider e)\<rparr>) (Get c i)"
      using Some cache_structD(1) [OF assms(2) Some]
      by (cases "map_of (pc_entries c) i"; cases "map_of (pc_entries c) i = Some a")
        (auto simp: DoUpdate_def Get_def Let_def entry_at_set_entry entrySnapshot_def intro: exI [of _ f] exI [of _ id])
    then show ?thesis using h by (auto simp: holds_as_def split: option.splits if_splits)
  qed (use h in \<open>simp add: DoUpdate_def\<close>)
qed

text \<open>
  What a cell's topology goes through after the snapshot, between sweeps and rider updates. A record is
  written under the path of its own identifier, and deleted from there.
\<close>

datatype 'r cell_event =
    Written Multipooler
  | Deleted string
  | Swept
  | RiderUpdated string "'r \<Rightarrow> 'r"

definition written :: "(Multipooler \<Rightarrow> string) \<Rightarrow> string \<Rightarrow> Multipooler \<Rightarrow> WatchDataRecursive" where
  "written marshal root p = \<lparr>wd_Path = root @ poolerPath (record_key p), wd_Err = None, wd_Contents = Some (marshal p)\<rparr>"

definition deleted :: "string \<Rightarrow> string \<Rightarrow> WatchDataRecursive" where
  "deleted root i = \<lparr>wd_Path = root @ poolerPath i, wd_Err = Some NoNode, wd_Contents = None\<rparr>"

primrec event_effect ::
  "(Multipooler \<Rightarrow> string) \<Rightarrow> (string \<Rightarrow> Multipooler option) \<Rightarrow> string \<Rightarrow> 'r Config \<Rightarrow> 'r Hooks \<Rightarrow> 'r \<Rightarrow> go_time \<Rightarrow>
     'r cell_event \<Rightarrow> 'r PoolerCache \<Rightarrow> 'r PoolerCache" where
  "event_effect marshal unmarshal root cfg hooks zero now (Written p) c =
     fst (processOne unmarshal cfg hooks zero now (written marshal root p) c)"
| "event_effect marshal unmarshal root cfg hooks zero now (Deleted i) c =
     fst (processOne unmarshal cfg hooks zero now (deleted root i) c)"
| "event_effect marshal unmarshal root cfg hooks zero now Swept c = fst (sweep cfg hooks now c)"
| "event_effect marshal unmarshal root cfg hooks zero now (RiderUpdated i f) c = DoUpdate i f c"

primrec topology_effect :: "'r cell_event \<Rightarrow> (string \<rightharpoonup> Multipooler) \<Rightarrow> string \<rightharpoonup> Multipooler" where
  "topology_effect (Written p) T = T(record_key p \<mapsto> p)"
| "topology_effect (Deleted i) T = T(i := None)"
| "topology_effect Swept T = T"
| "topology_effect (RiderUpdated i f) T = T"

primrec event_ok :: "(Multipooler \<Rightarrow> string) \<Rightarrow> (string \<Rightarrow> Multipooler option) \<Rightarrow> 'r cell_event \<Rightarrow> bool" where
  "event_ok marshal unmarshal (Written p) \<longleftrightarrow> mp_id p \<noteq> None \<and> unmarshal (marshal p) = Some p"
| "event_ok marshal unmarshal (Deleted i) \<longleftrightarrow> i \<noteq> ''''"
| "event_ok marshal unmarshal Swept \<longleftrightarrow> True"
| "event_ok marshal unmarshal (RiderUpdated i f) \<longleftrightarrow> True"

lemma closed_quiet [simp]:
  "pc_closed (DoUpdate i f c) = pc_closed c" "\<not> pc_closed c \<Longrightarrow> \<not> pc_closed (fst (sweep cfg hooks now c))"
  by (auto simp: DoUpdate_def sweep_def Let_def split: option.splits)

lemma event_mirrors:
  assumes "mirrors cfg cell UNIV T c" "cache_inv cfg c" "\<not> pc_closed c" "clock_ok cfg now" "plain_root root"
    and "event_ok marshal unmarshal ev"
    and c'_def: "c' = event_effect marshal unmarshal root cfg hooks zero now ev c"
  shows "mirrors cfg cell UNIV (topology_effect ev T) c' \<and> cache_inv cfg c' \<and> \<not> pc_closed c'"
proof (cases ev)
  case (Written p)
  have "parsePoolerWatchEntry unmarshal (written marshal root p) = EntryUpsert p"
    unfolding written_def by (rule parse_put) (use assms(6) Written in simp_all)
  then show ?thesis
    using Written assms(2,3) upsert_mirrors [OF assms(1-3), of p hooks zero now]
    by (simp add: c'_def processOne_def applyUpsert_inv insert_UNIV)
next
  case (Deleted i)
  have "parsePoolerWatchEntry unmarshal (deleted root i) = EntryDelete i"
    unfolding deleted_def by (rule parse_delete) (use assms(5,6) Deleted in simp_all)
  then show ?thesis
    using Deleted assms(2-4) delete_mirrors [OF assms(1-3), of i hooks now]
    by (simp add: c'_def processOne_def applyDelete_inv insert_UNIV)
next
  case Swept
  then show ?thesis
    using assms(2,3) sweep_mirrors [OF assms(1-3)] sweep_section(1) [OF assms(2)] by (simp add: c'_def)
next
  case (RiderUpdated i f)
  then show ?thesis
    using assms(2,3) DoUpdate_mirrors [OF assms(1) cache_inv_struct [OF assms(2)]] by (simp add: c'_def DoUpdate_inv)
qed

definition watch_cell ::
  "(Multipooler \<Rightarrow> string) \<Rightarrow> (string \<Rightarrow> Multipooler option) \<Rightarrow> string \<Rightarrow> 'r Config \<Rightarrow> 'r Hooks \<Rightarrow> 'r \<Rightarrow> string \<Rightarrow>
     go_time \<Rightarrow> Multipooler list \<Rightarrow> (go_time \<times> 'r cell_event) list \<Rightarrow> 'r PoolerCache \<Rightarrow> 'r PoolerCache" where
  "watch_cell marshal unmarshal root cfg hooks zero cell now records evs c =
     foldl (\<lambda>c (t, ev). event_effect marshal unmarshal root cfg hooks zero t ev c)
       (fst (onInitial unmarshal cfg hooks zero now cell (map (written marshal root) records) c)) evs"

lemma initial_records:
  assumes "list_all (\<lambda>p. mp_id p \<noteq> None \<and> unmarshal (marshal p) = Some p) records"
  shows "onInitial unmarshal cfg hooks zero now cell (map (written marshal root) records) c =
     reconcileCell cfg hooks zero now cell records c"
proof -
  have "concat (map (\<lambda>wd. case parsePoolerWatchEntry unmarshal wd of EntryUpsert p \<Rightarrow> [p] | _ \<Rightarrow> [])
      (map (written marshal root) records)) = records"
    using assms by (induction records) (simp_all add: written_def parse_put)
  then show ?thesis by (simp add: onInitial_def)
qed

text \<open>
  C39: however a watched cell changes after its snapshot, and whatever sweeps and rider updates come
  between, the cache mirrors it: every admitted record of the topology that is not shut down has a live
  entry with exactly that record, a record of a pooler that was shut down has none, and an entry of the
  cell without a record is kept only as missing.\<close>

theorem watched_cell_is_mirrored:
  assumes "cache_reaches cfg hooks zero s" "\<not> pc_closed (cr_cache s)" "cell \<noteq> ''''" "plain_root root"
    and "list_all (\<lambda>p. mp_id p \<noteq> None \<and> unmarshal (marshal p) = Some p) records"
    and "clock_ok cfg now" "list_all (\<lambda>(t, ev). clock_ok cfg t \<and> event_ok marshal unmarshal ev) evs"
  shows "mirrors cfg cell UNIV (foldl (\<lambda>T (_, ev). topology_effect ev T) (snapshot_map Map.empty records) evs)
    (watch_cell marshal unmarshal root cfg hooks zero cell now records evs (cr_cache s))"
proof -
  have inv: "cache_inv cfg (cr_cache s)" using reachable_flight_inv [OF assms(1)] by (simp add: flight_inv_def)
  let ?run = "foldl (\<lambda>c (t, ev). event_effect marshal unmarshal root cfg hooks zero t ev c)"
  have "mirrors cfg cell UNIV T c \<and> cache_inv cfg c \<and> \<not> pc_closed c \<Longrightarrow>
      mirrors cfg cell UNIV (foldl (\<lambda>T (_, ev). topology_effect ev T) T evs) (?run c evs)" for T c
    using assms(7)
  proof (induction evs arbitrary: T c)
    case (Cons e evs)
    then show ?case
      using event_mirrors [of cfg cell T c "fst e" root marshal unmarshal "snd e" _ hooks zero, OF _ _ _ _ _ _ refl] assms(4)
      by (cases e) simp
  qed simp
  moreover note reconcileCell_mirrors [OF inv assms(2,6,3) refl, where hooks = hooks and zero = zero and poolers = records]
  ultimately show ?thesis unfolding watch_cell_def initial_records [OF assms(5)] by simp
qed

theorem watched_cell_is_mirrored_witness:
  "mirrors ex_cfg (GetCell ex_a) UNIV Map.empty
     (watch_cell (\<lambda>_. ''bytes'') (\<lambda>_. Some ex_record) ''/global/'' ex_cfg ex_hooks 0 (GetCell ex_a) 1 [ex_record]
        [(2, RiderUpdated (record_key ex_record) Suc), (3, Deleted (record_key ex_record)), (4, Swept)] New)"
proof -
  have root: "plain_root ''/global/''" by code_simp
  have cell: "GetCell ex_a \<noteq> ''''" by code_simp
  have "record_key ex_record \<noteq> ''''" "mp_id ex_record \<noteq> None" by code_simp+
  then have "list_all (\<lambda>p. mp_id p \<noteq> None \<and> Some ex_record = Some p) [ex_record]"
    "list_all (\<lambda>(t, ev). clock_ok ex_cfg t \<and> event_ok (\<lambda>_. ''bytes'') (\<lambda>_. Some ex_record) ev)
      [(2, RiderUpdated (record_key ex_record) Suc), (3, Deleted (record_key ex_record)), (4, Swept)]"
    by (simp_all add: clock_ok_def zero_time_def ex_cfg_def)
  from watched_cell_is_mirrored [OF rtranclp.rtrancl_refl _ cell root this(1) _ this(2), where hooks = ex_hooks and zero = 0 and now = 1]
  show ?thesis
    by (simp add: run_start_def New_def clock_ok_def zero_time_def ex_cfg_def snapshot_map_def)
qed

end
