(* ===== verification/Leader_Analysis.thy ===== *)
theory Leader_Analysis
  imports Orch_Health
begin

text \<open>
  The analyser that decides whether a shard's leader must be replaced
  (go/services/multiorch/recovery/analysis/leader_needs_replacement_analyzer.go): it judges the
  leader from its own fresh report, or through its cohort when there is none, and crosses the
  verdict with whether a failover could succeed.

  \<open>wall\<close> is the wall clock, which the anti-flap guard reads besides the snapshot's own time. A
  verdict is the pair of a cause (\<open>None\<close> for the empty string) and the inconclusive flag.
\<close>

subsection \<open>Replicas of the leader\<close>

definition replicaConfiguredForLeader :: "PoolerHealthState ptr \<Rightarrow> string \<Rightarrow> int \<Rightarrow> bool" where
  "replicaConfiguredForLeader replica primaryHost primaryPort =
     (let connInfo = GetPrimaryConnInfo (GetReplicationStatus (GetStatus replica))
      in ConnInfo_GetHost connInfo \<noteq> '''' \<and> ConnInfo_GetHost connInfo = primaryHost \<and>
         ConnInfo_GetPort connInfo = primaryPort)"

definition replicationHeartbeatStalenessMultiplier :: int where
  "replicationHeartbeatStalenessMultiplier = 3"

definition defaultReplicationHeartbeatStalenessThreshold :: duration where
  "defaultReplicationHeartbeatStalenessThreshold = seconds 30"

definition followerStreamingFromLeader :: "Shard \<Rightarrow> PoolerHealthState ptr \<Rightarrow> string \<Rightarrow> int \<Rightarrow> bool" where
  "followerStreamingFromLeader sa replica primaryHost primaryPort =
     (if \<not> replicaConfiguredForLeader replica primaryHost primaryPort then False
      else
        let rs = GetReplicationStatus (GetStatus replica)
        in if GetLastReceiveLsn rs = '''' \<or> GetWalReceiverStatus rs \<noteq> ''streaming'' then False
           else case GetLastMsgReceiveTime rs of
                  None \<Rightarrow> True
                | Some ts \<Rightarrow>
                    let delay = time_Sub (sa_Now sa) (AsTime (Some ts))
                    in if (case GetWalReceiverTimeout rs of None \<Rightarrow> False | Some d \<Rightarrow> delay > d) then False
                       else
                         let threshold = (case GetWalReceiverStatusInterval rs of
                               None \<Rightarrow> defaultReplicationHeartbeatStalenessThreshold
                             | Some d \<Rightarrow> if d > 0 then wrap64 (replicationHeartbeatStalenessMultiplier * d)
                                         else defaultReplicationHeartbeatStalenessThreshold)
                         in \<not> delay > threshold)"

subsection \<open>The intended leader\<close>

definition intendedLeaderObservedLive :: "Shard \<Rightarrow> bool" where
  "intendedLeaderObservedLive sa =
     (if IntendedLeaderHealth sa = None then False
      else observationFresh (IntendedLeaderHealth sa) (sa_Now sa)
             (LeaderLivenessFreshness (sa_AvailabilityPolicy sa)))"

definition intendedLeaderHasResigned :: "Shard \<Rightarrow> bool" where
  "intendedLeaderHasResigned sa \<longleftrightarrow>
     IntendedLeaderHealth sa \<noteq> None \<and> LeaderNeedsReplacement (IntendedLeaderHealth sa)"

definition intendedLeaderShutdownTombstoned :: "Shard \<Rightarrow> ID ptr \<Rightarrow> bool" where
  "intendedLeaderShutdownTombstoned sa leaderID =
     (if leaderID = None then False else ComponentIDString leaderID \<in> sa_TombstoneIDs sa)"

definition intendedLeaderPostgresReady :: "Shard \<Rightarrow> bool" where
  "intendedLeaderPostgresReady sa \<longleftrightarrow>
     IntendedLeaderHealth sa \<noteq> None \<and> GetPostgresReady (GetStatus (IntendedLeaderHealth sa))"

definition intendedLeaderServing :: "Shard \<Rightarrow> bool" where
  "intendedLeaderServing sa =
     (if IntendedLeaderHealth sa = None then False
      else observationFresh (IntendedLeaderHealth sa) (sa_Now sa)
             (LeaderChangeFreshness (sa_AvailabilityPolicy sa)) \<and>
           intendedLeaderPostgresReady sa \<and> \<not> intendedLeaderHasResigned sa)"

definition intendedLeaderPostgresRunning :: "Shard \<Rightarrow> bool" where
  "intendedLeaderPostgresRunning sa \<longleftrightarrow>
     IntendedLeaderHealth sa \<noteq> None \<and> GetPostgresRunning (GetStatus (IntendedLeaderHealth sa))"

definition intendedLeaderLastPostgresReadyTime :: "Shard \<Rightarrow> go_time" where
  "intendedLeaderLastPostgresReadyTime sa =
     (if IntendedLeaderHealth sa = None then zero_time
      else case GetLastPostgresReadyTime (IntendedLeaderHealth sa) of
             None \<Rightarrow> zero_time
           | Some ts \<Rightarrow> AsTime (Some ts))"

definition intendedLeaderPromoting :: "Shard \<Rightarrow> bool" where
  "intendedLeaderPromoting sa \<longleftrightarrow> IntendedLeaderHealth sa \<noteq> None \<and>
     GetPostgresStatus (GetStatus (IntendedLeaderHealth sa)) = POSTGRES_STATUS_PROMOTING"

definition intendedLeaderInRecovery :: "Shard \<Rightarrow> bool" where
  "intendedLeaderInRecovery sa \<longleftrightarrow> IntendedLeaderHealth sa \<noteq> None \<and>
     GetPostgresStatus (GetStatus (IntendedLeaderHealth sa)) = POSTGRES_STATUS_STANDBY"

definition inPromotionGrace :: "Shard \<Rightarrow> bool" where
  "inPromotionGrace sa =
     (if \<not> intendedLeaderPromoting sa \<or> \<not> intendedLeaderObservedLive sa \<or>
         \<not> intendedLeaderPostgresRunning sa then False
      else
        let ruleAge = time_Sub (sa_Now sa)
              (AsTime (GetCreationTime (PossiblyUndecidedRule (HighestIntendedRule sa))))
        in ruleAge < ConnectReplicasToNewLeaderGrace (sa_AvailabilityPolicy sa))"

subsection \<open>The cohort\<close>

definition recruitmentFeasible :: "DurabilityPolicy \<Rightarrow> ID ptr list \<Rightarrow> ID ptr list \<Rightarrow> bool" where
  "recruitmentFeasible policy cohort reachable \<longleftrightarrow> CheckSufficientRecruitment policy cohort reachable = None"

definition revocationSufficient :: "DurabilityPolicy \<Rightarrow> ID ptr list \<Rightarrow> ID ptr list \<Rightarrow> bool" where
  "revocationSufficient policy cohort cutOff =
     (let cutKeys = set (map ComponentIDString cutOff);
          remaining = filter (\<lambda>m. ComponentIDString m \<notin> cutKeys) cohort
      in SatisfiedBy policy remaining \<noteq> None)"

datatype followerLeaderRelation = relationUnaware | relationAdapting | relationConnected | relationCutOff

definition classifyFollowerToLeader ::
  "Shard \<Rightarrow> PoolerHealthState ptr \<Rightarrow> ID ptr \<Rightarrow> string \<Rightarrow> int \<Rightarrow> followerLeaderRelation" where
  "classifyFollowerToLeader sa pa leaderID primaryHost primaryPort =
     (if \<not> observationFresh pa (sa_Now sa) (FollowerStreamFreshness (sa_AvailabilityPolicy sa))
      then relationUnaware
      else if followerStreamingFromLeader sa pa primaryHost primaryPort then relationConnected
      else
        let rule = PossiblyUndecidedRule (HighestKnownRule [GetConsensusStatus pa])
        in if \<not> RuleNamesLeader rule leaderID then relationUnaware
           else if GetCreationTime rule = None \<or>
                   time_Sub (sa_Now sa) (AsTime (GetCreationTime rule)) \<le>
                     ConnectReplicasToNewLeaderGrace (sa_AvailabilityPolicy sa) then relationAdapting
           else if \<not> replicaConfiguredForLeader pa primaryHost primaryPort then relationUnaware
           else relationCutOff)"

definition classifyCohortReachability ::
  "Shard \<Rightarrow> ID ptr list \<Rightarrow> ID ptr \<Rightarrow> ID ptr list \<times> ID ptr list" where
  "classifyCohortReachability sa cohort leaderID =
     (let leader = IntendedLeaderHealth sa
      in if leader = None then ([], [])
         else
           let (primaryHost, primaryPort) = leaderEndpoint leader;
               leaderKey = ComponentIDString leaderID;
               (vouching, cutOff) = foldl (\<lambda>(vouching, cutOff) member.
                   if ComponentIDString member = leaderKey then (vouching, cutOff)
                   else
                     let pa = PoolerHealth sa member
                     in if pa = None then (vouching, cutOff)
                        else case classifyFollowerToLeader sa pa leaderID primaryHost primaryPort of
                               relationConnected \<Rightarrow> (vouching @ [member], cutOff)
                             | relationCutOff \<Rightarrow> (vouching, cutOff @ [member])
                             | relationAdapting \<Rightarrow> (vouching, cutOff)
                             | relationUnaware \<Rightarrow> (vouching, cutOff))
                 ([], []) cohort
           in if length vouching > 0 then (vouching @ [leaderID], cutOff) else (vouching, cutOff))"

definition cohortWithout :: "ID ptr list \<Rightarrow> ID ptr \<Rightarrow> ID ptr list" where
  "cohortWithout cohort exclude = filter (\<lambda>m. ComponentIDString m \<noteq> ComponentIDString exclude) cohort"

definition cohortSatisfying ::
  "Shard \<Rightarrow> ID ptr list \<Rightarrow> ID ptr \<Rightarrow> (PoolerHealthState ptr \<Rightarrow> bool) \<Rightarrow> ID ptr list" where
  "cohortSatisfying sa cohort exclude pred =
     filter (\<lambda>m. \<not> (exclude \<noteq> None \<and> ComponentIDString m = ComponentIDString exclude) \<and>
                 PoolerHealth sa m \<noteq> None \<and> pred (PoolerHealth sa m)) cohort"

definition freshInitializedCohort :: "Shard \<Rightarrow> ID ptr list \<Rightarrow> ID ptr \<Rightarrow> ID ptr list" where
  "freshInitializedCohort sa cohort exclude = cohortSatisfying sa cohort exclude
     (\<lambda>pa. freshAndInitialized pa (sa_Now sa) (ObservationFreshness (sa_AvailabilityPolicy sa)))"

definition recruitableCohort :: "Shard \<Rightarrow> ID ptr list \<Rightarrow> ID ptr \<Rightarrow> ID ptr list" where
  "recruitableCohort sa cohort exclude = cohortSatisfying sa cohort exclude
     (\<lambda>pa. recruitable pa (sa_Now sa) (ObservationFreshness (sa_AvailabilityPolicy sa)))"

definition hasUsableShardHealth :: "Shard \<Rightarrow> ID ptr list \<Rightarrow> bool" where
  "hasUsableShardHealth sa cohort \<longleftrightarrow> length (freshInitializedCohort sa cohort None) > 0"

subsection \<open>Quorum commits\<close>

definition freshestQuorumCommitTs :: "Shard \<Rightarrow> Timestamp ptr" where
  "freshestQuorumCommitTs sa =
     foldl (\<lambda>freshest pa.
         if pa = None then freshest
         else
           let ts = Standby_GetQuorumCommitTs (GetReplicationStatus (GetStatus pa))
           in if ts = None then freshest
              else if freshest = None \<or> AsTime ts > AsTime freshest then ts else freshest)
       (if IntendedLeaderHealth sa \<noteq> None
        then Primary_GetQuorumCommitTs (GetPrimaryStatus (GetStatus (IntendedLeaderHealth sa)))
        else None)
       (sa_Poolers sa)"

definition receiveLsnStillAdvancing ::
  "Shard \<Rightarrow> ID ptr list \<Rightarrow> ID ptr \<Rightarrow> DurabilityPolicy \<Rightarrow> bool" where
  "receiveLsnStillAdvancing sa cohort leaderID policy =
     (let leader = IntendedLeaderHealth sa
      in if leader = None then False
         else
           let (primaryHost, primaryPort) = leaderEndpoint leader;
               leaderKey = ComponentIDString leaderID;
               vouching = filter (\<lambda>member.
                   ComponentIDString member \<noteq> leaderKey \<and>
                   (let pa = PoolerHealth sa member;
                        ts = GetLastReceiveLsnAdvanceTime (GetReplicationStatus (GetStatus pa))
                    in \<not> (pa = None \<or> \<not> replicaConfiguredForLeader pa primaryHost primaryPort) \<and>
                       ts \<noteq> None \<and> time_Sub (sa_Now sa) (AsTime ts) \<le>
                         FollowerStreamFreshness (sa_AvailabilityPolicy sa))) cohort
           in if length vouching = 0 then False
              else SatisfiedBy policy (vouching @ [leaderID]) = None)"

definition quorumCommitStuckCause ::
  "Shard \<Rightarrow> ID ptr list \<Rightarrow> ID ptr \<Rightarrow> DurabilityPolicy \<Rightarrow> ProblemCode option \<times> bool" where
  "quorumCommitStuckCause sa cohort leaderID policy =
     (if \<not> QuorumCommitStale (freshestQuorumCommitTs sa) (sa_Now sa)
            (QuorumCommitStaleAfter (sa_AvailabilityPolicy sa)) then (None, False)
      else if \<not> IsRuleDecided (HighestIntendedRule sa) \<and>
              receiveLsnStillAdvancing sa cohort leaderID policy then (None, False)
      else (Some ProblemLeaderQuorumWritesStalled, False))"

subsection \<open>The verdict\<close>

definition leaderReplacementCause ::
  "RecoveryActionFactory \<Rightarrow> go_time \<Rightarrow> Shard \<Rightarrow> ID ptr list \<Rightarrow> ID ptr \<Rightarrow> bool \<Rightarrow> DurabilityPolicy \<Rightarrow>
     analysis_error + ProblemCode option \<times> bool" where
  "leaderReplacementCause factory wall sa cohort leaderID leaderLive policy =
     (if intendedLeaderHasResigned sa \<or> intendedLeaderShutdownTombstoned sa leaderID
      then Inr (Some ProblemLeaderResigned, False)
      else if leaderLive \<and> intendedLeaderInRecovery sa then Inr (Some ProblemLeaderUnhealthy, False)
      else if leaderLive \<and> intendedLeaderPostgresReady sa
      then Inr (quorumCommitStuckCause sa cohort leaderID policy)
      else if leaderLive then
        (if intendedLeaderPostgresRunning sa then
           (case rf_config factory of
              None \<Rightarrow> Inl AErr_NilConfig
            | Some cfg \<Rightarrow>
                let lastReady = intendedLeaderLastPostgresReadyTime sa
                in if lastReady \<noteq> zero_time \<and>
                      time_Sub wall lastReady \<le> cfg_LeaderPostgresResponseThreshold cfg
                   then Inr (None, False) else Inr (Some ProblemLeaderUnhealthy, False))
         else Inr (Some ProblemLeaderUnhealthy, False))
      else
        let (vouching, cutOff) = classifyCohortReachability sa cohort leaderID
        in if revocationSufficient policy cohort cutOff
           then Inr (Some ProblemLeaderUnreachableByCohort, False)
           else if SatisfiedBy policy vouching = None
           then Inr (quorumCommitStuckCause sa cohort leaderID policy)
           else Inr (None, True))"

definition causeIsConclusive :: "ProblemCode \<Rightarrow> bool" where
  "causeIsConclusive cause \<longleftrightarrow> cause = ProblemLeaderUnspecified \<or> cause = ProblemLeaderResigned"

definition shardProblem :: "Shard \<Rightarrow> ID ptr \<Rightarrow> ProblemCode \<Rightarrow> int \<Rightarrow> RecoveryAction \<Rightarrow> Problem list" where
  "shardProblem sa leaderID code priority action =
     [\<lparr>pb_Code = code, pb_CheckName = ''LeaderNeedsReplacement'', pb_PoolerID = leaderID,
       pb_ShardKey = sa_ShardKey sa, pb_Priority = priority, pb_Scope = ScopeShard,
       pb_RecoveryAction = action, pb_SkipPreRecheckRefresh = causeIsConclusive code\<rparr>]"

definition atRiskProblem :: "Shard \<Rightarrow> ID ptr \<Rightarrow> Problem list" where
  "atRiskProblem sa leaderID =
     [\<lparr>pb_Code = ProblemShardAtRisk, pb_CheckName = ''LeaderNeedsReplacement'', pb_PoolerID = leaderID,
       pb_ShardKey = sa_ShardKey sa, pb_Priority = PriorityNormal, pb_Scope = ScopePooler,
       pb_RecoveryAction = AlertOnlyAction, pb_SkipPreRecheckRefresh = False\<rparr>]"

definition atRiskProblemIfDegraded ::
  "Shard \<Rightarrow> DurabilityPolicy \<Rightarrow> ID ptr list \<Rightarrow> ID ptr \<Rightarrow> Problem list" where
  "atRiskProblemIfDegraded sa policy cohort leaderID =
     (let recoverableIfLeaderLost = recruitmentFeasible policy cohort (recruitableCohort sa cohort leaderID);
          recoverableIfFullyReachable = recruitmentFeasible policy cohort (cohortWithout cohort leaderID)
      in if \<not> recoverableIfLeaderLost \<and> recoverableIfFullyReachable then atRiskProblem sa leaderID else [])"

definition blindOrStuck :: "Shard \<Rightarrow> ID ptr \<Rightarrow> ID ptr list \<Rightarrow> Problem list" where
  "blindOrStuck sa leaderID cohort =
     (if \<not> hasUsableShardHealth sa cohort
      then shardProblem sa leaderID ProblemNoHealthyCohortMembers PriorityEmergency AlertOnlyAction
      else shardProblem sa leaderID ProblemShardStuck PriorityEmergency AlertOnlyAction)"

definition emitFailover ::
  "Shard \<Rightarrow> ID ptr \<Rightarrow> DurabilityPolicy \<Rightarrow> ID ptr list \<Rightarrow> ProblemCode \<Rightarrow> Problem list" where
  "emitFailover sa leaderID policy cohort cause =
     (if \<not> recruitmentFeasible policy cohort (recruitableCohort sa cohort None)
      then blindOrStuck sa leaderID cohort
      else shardProblem sa leaderID cause PriorityEmergency AppointLeaderAction)"

definition emitInconclusive :: "Shard \<Rightarrow> ID ptr \<Rightarrow> DurabilityPolicy \<Rightarrow> ID ptr list \<Rightarrow> Problem list" where
  "emitInconclusive sa leaderID policy cohort =
     (if recruitmentFeasible policy cohort (recruitableCohort sa cohort None)
      then shardProblem sa leaderID ProblemLeaderHealthUnknown PriorityNormal AlertOnlyAction
      else blindOrStuck sa leaderID cohort)"

definition LeaderNeedsReplacement_Analyze ::
  "RecoveryActionFactory ptr \<Rightarrow> go_time \<Rightarrow> Shard \<Rightarrow> analysis_error + Problem list" where
  "LeaderNeedsReplacement_Analyze factory wall sa =
     (case factory of
        None \<Rightarrow> Inl AErr_NoFactory
      | Some f \<Rightarrow>
          let intendedRule = PossiblyUndecidedRule (HighestIntendedRule sa);
              intendedLeaderID = GetLeaderId intendedRule;
              intendedCohort = GetCohortMembers intendedRule
          in if intendedLeaderID = None \<and> length intendedCohort = 0 then Inr []
             else case NewPolicyFromProto (GetDurabilityPolicy intendedRule) of
                    Inl err \<Rightarrow> Inl (AErr_PolicyUnavailable err)
                  | Inr policy \<Rightarrow>
                      if intendedLeaderID = None
                      then Inr (emitFailover sa None policy intendedCohort ProblemLeaderUnspecified)
                      else if inPromotionGrace sa then Inr []
                      else
                        let leaderLive = intendedLeaderObservedLive sa
                        in case leaderReplacementCause f wall sa intendedCohort intendedLeaderID leaderLive policy of
                             Inl err \<Rightarrow> Inl err
                           | Inr (cause, inconclusive) \<Rightarrow>
                               if inconclusive then Inr (emitInconclusive sa intendedLeaderID policy intendedCohort)
                               else (case cause of
                                       None \<Rightarrow> Inr (atRiskProblemIfDegraded sa policy intendedCohort intendedLeaderID)
                                     | Some c \<Rightarrow> Inr (emitFailover sa intendedLeaderID policy intendedCohort c)))"

section \<open>What an emitted problem means\<close>

text \<open>
  Every member of a filtered cohort is a member whose own health report satisfies the filter.
\<close>

lemma recruitableCohort_iff:
  "m \<in> set (recruitableCohort sa cohort None) \<longleftrightarrow>
     m \<in> set cohort \<and> PoolerHealth sa m \<noteq> None \<and>
     recruitable (PoolerHealth sa m) (sa_Now sa) (ObservationFreshness (sa_AvailabilityPolicy sa))"
  by (simp add: recruitableCohort_def cohortSatisfying_def)

lemma emitInconclusive_alerts:
  "p \<in> set (emitInconclusive sa leaderID policy cohort) \<Longrightarrow>
     pb_RecoveryAction p = AlertOnlyAction \<and> \<not> IsFailoverProblem (pb_Code p)"
  by (auto simp: emitInconclusive_def blindOrStuck_def shardProblem_def IsFailoverProblem_def
      split: if_splits)

lemma atRisk_alerts:
  "p \<in> set (atRiskProblemIfDegraded sa policy cohort leaderID) \<Longrightarrow>
     pb_RecoveryAction p = AlertOnlyAction \<and> pb_Code p = ProblemShardAtRisk"
  by (auto simp: atRiskProblemIfDegraded_def atRiskProblem_def Let_def split: if_splits)

lemma emitFailover_cases:
  assumes "p \<in> set (emitFailover sa leaderID policy cohort cause)" "IsFailoverProblem cause"
  shows "pb_RecoveryAction p = AlertOnlyAction \<and> \<not> IsFailoverProblem (pb_Code p) \<or>
         pb_RecoveryAction p = AppointLeaderAction \<and> pb_Code p = cause \<and> pb_Scope p = ScopeShard \<and>
         recruitmentFeasible policy cohort (recruitableCohort sa cohort None)"
  using assms
  by (auto simp: emitFailover_def blindOrStuck_def shardProblem_def IsFailoverProblem_def split: if_splits)

lemma emit_at_most_one:
  "length (emitInconclusive sa leaderID policy cohort) \<le> Suc 0"
  "length (emitFailover sa leaderID policy cohort cause) \<le> Suc 0"
  "length (atRiskProblemIfDegraded sa policy cohort leaderID) \<le> Suc 0"
  by (auto simp: emitInconclusive_def emitFailover_def blindOrStuck_def shardProblem_def
      atRiskProblemIfDegraded_def atRiskProblem_def Let_def)

text \<open>Every cause of the analyser is a failover problem.\<close>

lemma quorumCommitStuckCause_cases:
  "quorumCommitStuckCause sa cohort leaderID policy = (None, False) \<or>
   quorumCommitStuckCause sa cohort leaderID policy = (Some ProblemLeaderQuorumWritesStalled, False)"
  by (auto simp: quorumCommitStuckCause_def)

lemma leaderReplacementCause_is_failover:
  assumes "leaderReplacementCause f wall sa cohort leaderID live policy = Inr (Some c, inconclusive)"
  shows "IsFailoverProblem c"
  using assms quorumCommitStuckCause_cases [of sa cohort leaderID policy]
  unfolding leaderReplacementCause_def
  by (auto simp: IsFailoverProblem_def Let_def split: if_splits option.splits prod.splits)

text \<open>
  The shapes of a run that returns problems: none, a shard without a leader, an inconclusive
  judgment, a leader without a cause, a leader with one.
\<close>

lemma Analyze_cases:
  assumes "LeaderNeedsReplacement_Analyze factory wall sa = Inr ps"
  defines "rule \<equiv> PossiblyUndecidedRule (HighestIntendedRule sa)"
  defines "leader \<equiv> GetLeaderId rule" and "cohort \<equiv> GetCohortMembers rule"
  obtains
    (none) "ps = []"
  | (unspecified) policy where "NewPolicyFromProto (GetDurabilityPolicy rule) = Inr policy" "leader = None"
      "ps = emitFailover sa None policy cohort ProblemLeaderUnspecified"
  | (judged) f policy cause inconclusive where "NewPolicyFromProto (GetDurabilityPolicy rule) = Inr policy"
      "leader \<noteq> None" "\<not> inPromotionGrace sa"
      "leaderReplacementCause f wall sa cohort leader (intendedLeaderObservedLive sa) policy =
         Inr (cause, inconclusive)"
      "ps = (if inconclusive then emitInconclusive sa leader policy cohort
             else case cause of None \<Rightarrow> atRiskProblemIfDegraded sa policy cohort leader
                              | Some c \<Rightarrow> emitFailover sa leader policy cohort c)"
proof (cases "ps = []")
  case False
  with assms(1) obtain f policy where f: "factory = Some f"
    and policy: "NewPolicyFromProto (GetDurabilityPolicy rule) = Inr policy"
    by (auto simp: LeaderNeedsReplacement_Analyze_def rule_def Let_def
        split: option.splits if_splits sum.splits)
  note run = assms(1) [unfolded LeaderNeedsReplacement_Analyze_def Let_def f option.case
      rule_def [symmetric] leader_def [symmetric] cohort_def [symmetric] policy sum.case]
  show ?thesis
  proof (cases "leader = None")
    case True
    then show ?thesis using run False policy unspecified by (auto split: if_splits)
  next
    case named: False
    then have "\<not> inPromotionGrace sa" using run False by (auto split: if_splits)
    with run named obtain cause inconclusive where
      "leaderReplacementCause f wall sa cohort leader (intendedLeaderObservedLive sa) policy =
         Inr (cause, inconclusive)"
      by (auto split: sum.splits prod.splits)
    with \<open>\<not> inPromotionGrace sa\<close> run named policy judged [of policy f cause inconclusive]
    show ?thesis by (cases inconclusive; cases cause; simp)
  qed
qed (rule none)



lemma Analyze_at_most_one:
  assumes "LeaderNeedsReplacement_Analyze factory wall sa = Inr ps"
  shows "length ps \<le> Suc 0"
  using assms by (cases rule: Analyze_cases) (auto simp: emit_at_most_one split: option.splits)

lemma Analyze_problem_cases:
  assumes "LeaderNeedsReplacement_Analyze factory wall sa = Inr ps" "p \<in> set ps"
  defines "rule \<equiv> PossiblyUndecidedRule (HighestIntendedRule sa)"
  obtains
    (alert) "pb_RecoveryAction p = AlertOnlyAction" "\<not> IsFailoverProblem (pb_Code p)"
  | (failover) policy where "NewPolicyFromProto (GetDurabilityPolicy rule) = Inr policy"
      "pb_RecoveryAction p = AppointLeaderAction" "IsFailoverProblem (pb_Code p)" "pb_Scope p = ScopeShard"
      "recruitmentFeasible policy (GetCohortMembers rule)
         (recruitableCohort sa (GetCohortMembers rule) None)"
proof -
  have emitted: thesis
    if "NewPolicyFromProto (GetDurabilityPolicy rule) = Inr policy" "IsFailoverProblem c"
      "p \<in> set (emitFailover sa i policy (GetCohortMembers rule) c)" for policy i c
    using emitFailover_cases [OF that(3,2)] that(1,2) alert failover by blast
  show thesis using assms(1)
  proof (cases rule: Analyze_cases)
    case (unspecified policy)
    then show ?thesis using emitted [of policy ProblemLeaderUnspecified None] assms(2)
      by (simp add: rule_def IsFailoverProblem_def)
  next
    case (judged f policy cause inconclusive)
    consider "inconclusive" | "\<not> inconclusive" "cause = None" | c where "\<not> inconclusive" "cause = Some c"
      by (cases cause) auto
    then show ?thesis
    proof cases
      case 1
      then show ?thesis using emitInconclusive_alerts judged(5) assms(2) by (intro alert) auto
    next
      case 2
      then show ?thesis using judged(5) assms(2)
        by (intro alert) (simp_all add: atRisk_alerts IsFailoverProblem_def)
    next
      case 3
      with judged leaderReplacementCause_is_failover assms(2) show ?thesis
        by (intro emitted [of policy c "GetLeaderId rule"]) (auto simp: rule_def)
    qed
  qed (use assms(2) in simp)
qed

lemma recruitmentFeasible_meets_quorum:
  assumes "recruitmentFeasible policy cohort (recruitableCohort sa cohort None)" "wf_IDs cohort"
    and "wf_IDs q" "poolerKeysOf q \<subseteq> poolerKeysOf cohort" "SatisfiedBy policy q = None"
  shows "\<exists>m \<in> set cohort. ClusterIDString m \<in> poolerKeysOf q \<and>
    recruitable (PoolerHealth sa m) (sa_Now sa) (ObservationFreshness (sa_AvailabilityPolicy sa))"
  using sufficient_recruitment_meets_quorum [OF assms(2) assms(1) [unfolded recruitmentFeasible_def] assms(3-5)]
  by (force simp: poolerKeysOf_alt [of "recruitableCohort _ _ _"] recruitableCohort_iff)

text \<open>
  C20: the analyser reports at most one problem, and a problem calls for a leader appointment exactly
  when it is a failover problem; a failover is requested only when it can succeed: the cohort members
  seen fresh, initialised, eligible, with a position and without a recruit floor are a sufficient
  recruitment, so one of them is in every set of members that could have made a write durable.
\<close>

theorem failover_requested_only_if_feasible:
  assumes "LeaderNeedsReplacement_Analyze factory wall sa = Inr ps" "p \<in> set ps"
  defines "rule \<equiv> PossiblyUndecidedRule (HighestIntendedRule sa)"
  assumes "wf_IDs (GetCohortMembers rule)"
  shows "ps = [p] \<and> (pb_RecoveryAction p = AppointLeaderAction \<longleftrightarrow> IsFailoverProblem (pb_Code p)) \<and>
    (IsFailoverProblem (pb_Code p) \<longrightarrow> pb_Scope p = ScopeShard \<and>
       (\<exists>policy. NewPolicyFromProto (GetDurabilityPolicy rule) = Inr policy \<and>
          (\<forall>q. wf_IDs q \<and> poolerKeysOf q \<subseteq> poolerKeysOf (GetCohortMembers rule) \<and>
               SatisfiedBy policy q = None \<longrightarrow>
             (\<exists>m \<in> set (GetCohortMembers rule). ClusterIDString m \<in> poolerKeysOf q \<and>
                recruitable (PoolerHealth sa m) (sa_Now sa)
                  (ObservationFreshness (sa_AvailabilityPolicy sa))))))"
proof -
  have one: "ps = [p]" using Analyze_at_most_one [OF assms(1)] assms(2) by (cases ps) auto
  show ?thesis using assms(1,2)
  proof (cases rule: Analyze_problem_cases)
    case (failover policy)
    with one recruitmentFeasible_meets_quorum [OF _ assms(4)] show ?thesis
      unfolding rule_def by simp
  qed (use one in simp)
qed


text \<open>
  C22: a leader that is not resigned, drained or shut down, that is seen fresh with postgres ready
  and out of recovery, and whose cohort commits, is never replaced: the analyser returns nothing or
  one alert that the shard is at risk.
\<close>

theorem healthy_leader_is_kept:
  assumes "LeaderNeedsReplacement_Analyze factory wall sa = Inr ps" "IntendedLeaderID sa \<noteq> None"
    and "intendedLeaderObservedLive sa" "intendedLeaderPostgresReady sa" "\<not> intendedLeaderInRecovery sa"
    and "\<not> intendedLeaderHasResigned sa" "\<not> intendedLeaderShutdownTombstoned sa (IntendedLeaderID sa)"
    and "\<not> QuorumCommitStale (freshestQuorumCommitTs sa) (sa_Now sa)
           (QuorumCommitStaleAfter (sa_AvailabilityPolicy sa))"
  shows "ps = [] \<or> (\<exists>p. ps = [p] \<and> pb_Code p = ProblemShardAtRisk \<and> pb_RecoveryAction p = AlertOnlyAction)"
  using assms(1)
proof (cases rule: Analyze_cases)
  case (judged f policy cause inconclusive)
  then have "cause = None" "\<not> inconclusive"
    using assms(3-8) by (simp_all add: leaderReplacementCause_def quorumCommitStuckCause_def
        flip: IntendedLeaderID_def)
  with judged(5) show ?thesis
    by (simp add: atRiskProblemIfDegraded_def atRiskProblem_def Let_def)
qed (use assms(2) in \<open>simp_all add: IntendedLeaderID_def\<close>)


section \<open>Judging a silent leader through its cohort\<close>

lemma classifyFollowerToLeader_cutOff:
  assumes "classifyFollowerToLeader sa pa leaderID host port = relationCutOff"
  shows "observationFresh pa (sa_Now sa) (FollowerStreamFreshness (sa_AvailabilityPolicy sa)) \<and>
         replicaConfiguredForLeader pa host port \<and> \<not> followerStreamingFromLeader sa pa host port \<and>
         RuleNamesLeader (PossiblyUndecidedRule (HighestKnownRule [GetConsensusStatus pa])) leaderID"
  using assms by (auto simp: classifyFollowerToLeader_def Let_def split: if_splits)

lemma classifyCohortReachability_cutOff:
  assumes "m \<in> set (snd (classifyCohortReachability sa cohort leaderID))"
  shows "m \<in> set cohort \<and> ComponentIDString m \<noteq> ComponentIDString leaderID \<and>
    (\<exists>host port. leaderEndpoint (IntendedLeaderHealth sa) = (host, port) \<and>
       classifyFollowerToLeader sa (PoolerHealth sa m) leaderID host port = relationCutOff)"
proof -
  obtain host port where ep: "leaderEndpoint (IntendedLeaderHealth sa) = (host, port)" by fastforce
  let ?step = "\<lambda>(vouching, cutOff) member.
    if ComponentIDString member = ComponentIDString leaderID then (vouching, cutOff)
    else let pa = PoolerHealth sa member in if pa = None then (vouching, cutOff)
    else case classifyFollowerToLeader sa pa leaderID host port of
           relationConnected \<Rightarrow> (vouching @ [member], cutOff)
         | relationCutOff \<Rightarrow> (vouching, cutOff @ [member])
         | relationAdapting \<Rightarrow> (vouching, cutOff)
         | relationUnaware \<Rightarrow> (vouching, cutOff)"
  have step: "m \<in> set (snd (?step acc x)) \<Longrightarrow> m \<in> set (snd acc) \<or>
      m = x \<and> ComponentIDString m \<noteq> ComponentIDString leaderID \<and>
      classifyFollowerToLeader sa (PoolerHealth sa m) leaderID host port = relationCutOff" for acc x
    by (cases acc) (auto simp: Let_def split: followerLeaderRelation.splits if_splits)
  have "m \<in> set (snd (foldl ?step acc xs)) \<Longrightarrow> m \<in> set (snd acc) \<or>
      m \<in> set xs \<and> ComponentIDString m \<noteq> ComponentIDString leaderID \<and>
      classifyFollowerToLeader sa (PoolerHealth sa m) leaderID host port = relationCutOff" for acc xs
  proof (induction xs arbitrary: acc)
    case (Cons x xs)
    from Cons.prems Cons.IH [of "?step acc x"] step [of acc x] show ?case
      unfolding foldl_Cons set_simps by blast
  qed simp
  from this [of "([], [])" cohort] assms ep show ?thesis
    by (auto simp: classifyCohortReachability_def Let_def split: if_splits prod.splits)
qed

lemma revocationSufficient_meets_quorum:
  assumes "revocationSufficient policy cohort cutOff" "set cutOff \<subseteq> set cohort" "ids_agree cohort" "wf_IDs cohort"
    and q: "wf_IDs q" "poolerKeysOf q \<subseteq> poolerKeysOf cohort" "SatisfiedBy policy q = None"
  shows "\<exists>m \<in> set cutOff. ClusterIDString m \<in> poolerKeysOf q"
proof (rule ccontr)
  assume away: "\<not> ?thesis"
  let ?rest = "filter (\<lambda>m. ComponentIDString m \<notin> set (map ComponentIDString cutOff)) cohort"
  have "poolerKeysOf q \<subseteq> poolerKeysOf ?rest"
  proof
    fix k assume "k \<in> poolerKeysOf q"
    moreover from this q(2) obtain m where m: "m \<in> set cohort" "k = ClusterIDString m"
      by (auto simp: poolerKeysOf_alt)
    moreover have "ComponentIDString m \<noteq> ComponentIDString c" if "c \<in> set cutOff" for c
      using that away calculation assms(2,3) unfolding ids_agree_def by (metis subsetD)
    ultimately show "k \<in> poolerKeysOf ?rest" by (auto simp: poolerKeysOf_alt)
  qed
  moreover have "wf_IDs ?rest" using assms(4) by simp
  ultimately have "SatisfiedBy policy ?rest = None" using policy.sat_mono q(1,3) by blast
  with assms(1) show False by (simp add: revocationSufficient_def Let_def)
qed


lemma unreachable_cause:
  assumes "LeaderNeedsReplacement_Analyze factory wall sa = Inr ps" "p \<in> set ps"
    and "pb_Code p = ProblemLeaderUnreachableByCohort"
  obtains f policy i where
    "NewPolicyFromProto (GetDurabilityPolicy (PossiblyUndecidedRule (HighestIntendedRule sa))) = Inr policy"
    "leaderReplacementCause f wall sa (GetCohortMembers (PossiblyUndecidedRule (HighestIntendedRule sa))) i
       (intendedLeaderObservedLive sa) policy = Inr (Some ProblemLeaderUnreachableByCohort, False)"
  using assms(1)
proof (cases rule: Analyze_cases)
  case (unspecified policy)
  then show ?thesis using assms(2,3)
    by (simp add: emitFailover_def blindOrStuck_def shardProblem_def split: if_splits)
next
  case (judged f policy cause inconclusive)
  have "\<not> inconclusive" using judged(5) assms(2,3) emitInconclusive_alerts
    by (auto simp: IsFailoverProblem_def)
  moreover have "cause = Some ProblemLeaderUnreachableByCohort"
    using judged(5) assms(2,3) calculation
    by (cases cause) (auto simp: emitFailover_def blindOrStuck_def shardProblem_def dest: atRisk_alerts
        split: if_splits)
  ultimately show ?thesis using judged(4) that [OF judged(1)] by simp
qed (use assms(2) in simp)

text \<open>
  C21: a leader is declared unreachable by its cohort only when it is silent itself and every set of
  members that could make a write durable contains a follower that was seen fresh, knows the rule of
  that leader, is configured to stream from it and does not.
\<close>

theorem unreachable_leader_cannot_commit:
  assumes "LeaderNeedsReplacement_Analyze factory wall sa = Inr ps" "p \<in> set ps"
    and "pb_Code p = ProblemLeaderUnreachableByCohort"
  defines "rule \<equiv> PossiblyUndecidedRule (HighestIntendedRule sa)"
  assumes "wf_IDs (GetCohortMembers rule)" "ids_agree (GetCohortMembers rule)"
  shows "\<not> intendedLeaderObservedLive sa \<and>
    (\<exists>policy host port. NewPolicyFromProto (GetDurabilityPolicy rule) = Inr policy \<and>
       leaderEndpoint (IntendedLeaderHealth sa) = (host, port) \<and>
       (\<forall>q. wf_IDs q \<and> poolerKeysOf q \<subseteq> poolerKeysOf (GetCohortMembers rule) \<and>
            SatisfiedBy policy q = None \<longrightarrow>
          (\<exists>m \<in> set (GetCohortMembers rule). ClusterIDString m \<in> poolerKeysOf q \<and>
             observationFresh (PoolerHealth sa m) (sa_Now sa)
               (FollowerStreamFreshness (sa_AvailabilityPolicy sa)) \<and>
             replicaConfiguredForLeader (PoolerHealth sa m) host port \<and>
             \<not> followerStreamingFromLeader sa (PoolerHealth sa m) host port)))"
proof -
  let ?cohort = "GetCohortMembers rule"
  obtain host port where ep: "leaderEndpoint (IntendedLeaderHealth sa) = (host, port)" by fastforce
  obtain f policy i where policy: "NewPolicyFromProto (GetDurabilityPolicy rule) = Inr policy"
    and cause: "leaderReplacementCause f wall sa ?cohort i (intendedLeaderObservedLive sa) policy =
      Inr (Some ProblemLeaderUnreachableByCohort, False)"
    using assms(1,2,3) unfolding rule_def by (rule unreachable_cause)
  let ?cut = "snd (classifyCohortReachability sa ?cohort i)"
  have silent: "\<not> intendedLeaderObservedLive sa" "revocationSufficient policy ?cohort ?cut"
    using cause quorumCommitStuckCause_cases [of sa ?cohort i policy]
    by (auto simp: leaderReplacementCause_def Let_def split: if_splits option.splits prod.splits)
  have cut: "m \<in> set ?cohort \<and> observationFresh (PoolerHealth sa m) (sa_Now sa)
        (FollowerStreamFreshness (sa_AvailabilityPolicy sa)) \<and>
      replicaConfiguredForLeader (PoolerHealth sa m) host port \<and>
      \<not> followerStreamingFromLeader sa (PoolerHealth sa m) host port" if "m \<in> set ?cut" for m
    using classifyCohortReachability_cutOff [OF that] classifyFollowerToLeader_cutOff ep by fastforce
  then have "set ?cut \<subseteq> set ?cohort" by blast
  note meets = revocationSufficient_meets_quorum [OF silent(2) this assms(6,5)]
  show ?thesis using silent(1) policy ep
    by (intro conjI exI allI impI) (use meets cut in blast)+
qed

section \<open>Concrete instances\<close>

text \<open>
  The sample shard at second 1000: every pooler carries the decided rule 3.0 led by the first; a
  standby is configured for the leader and may stream from it.
\<close>

definition ex_standby :: "string \<Rightarrow> PoolerStatus ptr" where
  "ex_standby receiver = Some \<lparr>st_primary_status = None, st_replication_status = Some
     \<lparr>srs_last_receive_lsn = ''0/10'', srs_is_wal_replay_paused = False,
      srs_primary_conn_info = Some \<lparr>pci_host = ''hosta'', pci_port = 5432\<rparr>,
      srs_wal_receiver_status = receiver, srs_last_msg_receive_time = None,
      srs_wal_receiver_status_interval = None, srs_wal_receiver_timeout = None,
      srs_last_receive_lsn_advance_time = None, srs_quorum_commit_ts = None\<rparr>,
     st_is_initialized = True, st_postgres_running = True, st_postgres_status = POSTGRES_STATUS_STANDBY,
     st_postgres_ready = True, st_failover_slots_ready = 0\<rparr>"

definition ex_leading :: "bool \<Rightarrow> PoolerStatus ptr" where
  "ex_leading up = Some \<lparr>st_primary_status = None, st_replication_status = None,
     st_is_initialized = True, st_postgres_running = up, st_postgres_status = POSTGRES_STATUS_PRIMARY,
     st_postgres_ready = up, st_failover_slots_ready = 0\<rparr>"

definition ex_health :: "ID ptr \<Rightarrow> string \<Rightarrow> int \<Rightarrow> PoolerStatus ptr \<Rightarrow> PoolerHealthState ptr" where
  "ex_health i host seen st = Some (empty_health\<lparr>phs_multipooler :=
       ex_multipooler i host [(''postgres'', 5432)],
     phs_last_seen := ex_time seen, phs_consensus_status := ex_status i (ex_decided 3) ''10'' None, phs_status := st\<rparr>)"

definition ex_shard_key :: "ShardKey ptr" where
  "ex_shard_key = Some \<lparr>sk_database = ''db'', sk_table_group = ''default'', sk_shard = ''0-inf''\<rparr>"

definition ex_shard :: "PoolerHealthState ptr list \<Rightarrow> Shard" where
  "ex_shard ps = \<lparr>sa_ShardKey = ex_shard_key, sa_Poolers = ps, sa_Now = AsTime (ex_time 1000),
     sa_AvailabilityPolicy = DefaultAvailabilityPolicy, sa_TombstoneIDs = {},
     sa_BootstrapDurabilityPolicy = ex_policy\<rparr>"

definition ex_followers :: "string \<Rightarrow> PoolerHealthState ptr list" where
  "ex_followers receiver = [ex_health ex_b ''hostb'' 995 (ex_standby receiver),
     ex_health ex_c ''hostc'' 995 (ex_standby receiver)]"

definition ex_factory :: RecoveryActionFactory where
  "ex_factory = \<lparr>rf_config = Some \<lparr>cfg_LeaderPostgresResponseThreshold = seconds 30,
     cfg_LeaderFailoverGracePeriodBase = seconds 4, cfg_LeaderFailoverGracePeriodMaxJitter = seconds 8\<rparr>,
     rf_policy = DefaultAvailabilityPolicy\<rparr>"


definition ex_lost :: Shard where
  "ex_lost = ex_shard (ex_health ex_a ''hosta'' 900 (ex_leading True) # ex_followers '''')"

definition ex_failover :: "ProblemCode \<Rightarrow> Problem" where
  "ex_failover code = \<lparr>pb_Code = code, pb_CheckName = ''LeaderNeedsReplacement'', pb_PoolerID = ex_a,
     pb_ShardKey = ex_shard_key, pb_Priority = 1000, pb_Scope = ScopeShard,
     pb_RecoveryAction = AppointLeaderAction, pb_SkipPreRecheckRefresh = False\<rparr>"

lemma ex_lost_facts:
  "LeaderNeedsReplacement_Analyze (Some ex_factory) (AsTime (ex_time 1000)) ex_lost =
     Inr [ex_failover ProblemLeaderUnreachableByCohort]"
  "wf_IDs (GetCohortMembers (PossiblyUndecidedRule (HighestIntendedRule ex_lost)))"
  "ids_agree (GetCohortMembers (PossiblyUndecidedRule (HighestIntendedRule ex_lost)))"
  by code_simp+

theorem failover_requested_only_if_feasible_witness:
  "pb_Scope (ex_failover ProblemLeaderUnreachableByCohort) = ScopeShard \<and>
   (\<exists>policy. NewPolicyFromProto (GetDurabilityPolicy
      (PossiblyUndecidedRule (HighestIntendedRule ex_lost))) = Inr policy)"
  using failover_requested_only_if_feasible [OF ex_lost_facts(1) _ ex_lost_facts(2),
      of "ex_failover ProblemLeaderUnreachableByCohort"]
  by (auto simp: ex_failover_def IsFailoverProblem_def)

theorem unreachable_leader_cannot_commit_witness:
  "\<not> intendedLeaderObservedLive ex_lost"
  using unreachable_leader_cannot_commit [OF ex_lost_facts(1) _ _ ex_lost_facts(2,3),
      of "ex_failover ProblemLeaderUnreachableByCohort"]
  by (simp add: ex_failover_def)

theorem healthy_leader_is_kept_witness:
  "\<exists>ps. LeaderNeedsReplacement_Analyze (Some ex_factory) (AsTime (ex_time 1000))
       (ex_shard (ex_health ex_a ''hosta'' 995 (ex_leading True) # ex_followers ''streaming'')) = Inr ps \<and>
     (ps = [] \<or> (\<exists>p. ps = [p] \<and> pb_Code p = ProblemShardAtRisk \<and> pb_RecoveryAction p = AlertOnlyAction))"
proof -
  let ?sa = "ex_shard (ex_health ex_a ''hosta'' 995 (ex_leading True) # ex_followers ''streaming'')"
  have run: "LeaderNeedsReplacement_Analyze (Some ex_factory) (AsTime (ex_time 1000)) ?sa = Inr []"
    by code_simp
  have "IntendedLeaderID ?sa \<noteq> None" "intendedLeaderObservedLive ?sa" "intendedLeaderPostgresReady ?sa"
    "\<not> intendedLeaderInRecovery ?sa" "\<not> intendedLeaderHasResigned ?sa"
    "\<not> intendedLeaderShutdownTombstoned ?sa (IntendedLeaderID ?sa)"
    "\<not> QuorumCommitStale (freshestQuorumCommitTs ?sa) (sa_Now ?sa)
       (QuorumCommitStaleAfter (sa_AvailabilityPolicy ?sa))" by code_simp+
  from healthy_leader_is_kept [OF run this] run show ?thesis by blast
qed


end
