(* ===== verification/Shard_Analysis.thy ===== *)
theory Shard_Analysis
  imports Leader_Analysis
begin

text \<open>
  The other analysers of go/services/multiorch/recovery/analysis: drift between the cohort and the
  poolers (cohort_mismatch_analyzer.go), followers stranded by an abandoned recruit
  (recruit_abandoned_analyzer.go), replicas that do not replicate
  (replica_not_replicating_analyzer.go), shards without a cohort
  (shard_needs_initialization_analyzer.go) and leaders of an older rule
  (stale_leader_analyzer.go).

  The order in which Go iterates over a map is the argument \<open>order\<close>: any list with the entries of the
  map. A description that dereferences the name of a pooler without an identifier panics
  (\<open>AErr_NilPoolerID\<close>).
\<close>

subsection \<open>Cohort drift\<close>

definition isAdditionCandidate :: "Shard \<Rightarrow> PoolerHealthState ptr \<Rightarrow> bool" where
  "isAdditionCandidate sa pa =
     (if SelfConsensusRole (GetConsensusStatus pa) = ConsensusRoleLeader then False
      else if \<not> recruitable pa (sa_Now sa) (ObservationFreshness (sa_AvailabilityPolicy sa)) then False
      else if primaryConnInfoHost pa = '''' \<or> \<not> walReplayNotPaused pa then False
      else walReceiverStreaming pa)"

definition cohortProblem :: "Shard \<Rightarrow> ProblemCode \<Rightarrow> ID ptr \<Rightarrow> Problem" where
  "cohortProblem sa code i = \<lparr>pb_Code = code, pb_CheckName = ''CohortMismatch'', pb_PoolerID = i,
     pb_ShardKey = sa_ShardKey sa, pb_Priority = PriorityNormal, pb_Scope = ScopePooler,
     pb_RecoveryAction = ReconcileCohortAction, pb_SkipPreRecheckRefresh = False\<rparr>"

text \<open>One round of the loop over the poolers: the members seen, and the problems so far.\<close>

definition mismatch_pooler ::
  "Shard \<Rightarrow> ShardRule ptr \<Rightarrow> (string \<times> ID ptr) list \<Rightarrow>
     analysis_error + string set \<times> Problem list \<Rightarrow> PoolerHealthState ptr \<Rightarrow>
     analysis_error + string set \<times> Problem list" where
  "mismatch_pooler sa intendedRule cohortIDs acc pa =
     (case acc of
        Inl panic \<Rightarrow> Inl panic
      | Inr (seen, problems) \<Rightarrow>
          let i = poolerID pa;
              key = ComponentIDString i
          in if map_of cohortIDs key \<noteq> None
             then (if PoolerIsCohortIneligible (GetAvailabilityStatus pa) \<and>
                      IsCohortMemberRemovalSafe intendedRule i
                   then (if i = None then Inl AErr_NilPoolerID
                         else Inr (insert key seen,
                                   problems @ [cohortProblem sa ProblemCohortMemberIneligible i]))
                   else Inr (insert key seen, problems))
             else if \<not> isAdditionCandidate sa pa then Inr (seen, problems)
             else if i = None then Inl AErr_NilPoolerID
             else Inr (seen, problems @ [cohortProblem sa ProblemPoolerNotInCohort i]))"

text \<open>One round of the loop over the members that no pooler stands for.\<close>

definition mismatch_member ::
  "Shard \<Rightarrow> ShardRule ptr \<Rightarrow> string set \<Rightarrow> ID ptr \<times> ID ptr \<Rightarrow> string \<times> ID ptr \<Rightarrow> ID ptr \<times> ID ptr" where
  "mismatch_member sa intendedRule seen st entry =
     (let (tombstoneRemove, missingRemove) = st;
          (key, i) = entry
      in if key \<in> seen then st
         else
           let isTombstone = key \<in> sa_TombstoneIDs sa
           in if \<not> isTombstone \<and> \<not> IsCohortMemberRemovalSafe intendedRule i then st
              else if isTombstone
              then (if tombstoneRemove = None then i else tombstoneRemove, missingRemove)
              else (tombstoneRemove, if missingRemove = None then i else missingRemove))"

definition CohortMismatch_Analyze ::
  "((string \<times> ID ptr) list \<Rightarrow> (string \<times> ID ptr) list) \<Rightarrow> RecoveryActionFactory ptr \<Rightarrow> Shard \<Rightarrow>
     analysis_error + Problem list" where
  "CohortMismatch_Analyze order factory sa =
     (if factory = None then Inl AErr_NoFactory
      else if \<not> intendedLeaderServing sa then Inr []
      else
        let intendedRule = PossiblyUndecidedRule (HighestIntendedRule sa);
            cohortIDs = index_by ComponentIDString (GetCohortMembers intendedRule)
        in case foldl (mismatch_pooler sa intendedRule cohortIDs) (Inr ({}, [])) (sa_Poolers sa) of
             Inl panic \<Rightarrow> Inl panic
           | Inr (seen, problems) \<Rightarrow>
               let (tombstoneRemove, missingRemove) =
                     foldl (mismatch_member sa intendedRule seen) (None, None) (order cohortIDs)
               in if tombstoneRemove \<noteq> None
                  then Inr (problems @ [cohortProblem sa ProblemCohortMemberIneligible tombstoneRemove])
                  else if missingRemove \<noteq> None
                  then Inr (problems @ [cohortProblem sa ProblemCohortMemberIneligible missingRemove])
                  else Inr problems)"

subsection \<open>Followers stranded by an abandoned recruit\<close>

definition revocationStrandsFollower :: "Shard \<Rightarrow> PoolerHealthState ptr \<Rightarrow> bool" where
  "revocationStrandsFollower sa p =
     (if HighestIntendedRule sa = None then False
      else IsRuleRevoked (HighestIntendedRule sa) (GetTermRevocation (GetConsensusStatus p)))"

definition revocationAgedPastFailoverGrace ::
  "RecoveryActionFactory \<Rightarrow> Shard \<Rightarrow> PoolerHealthState ptr \<Rightarrow> bool" where
  "revocationAgedPastFailoverGrace factory sa p =
     (let initiatedAt = GetCoordinatorInitiatedAt (GetTermRevocation (GetConsensusStatus p));
          grace = (case rf_config factory of
              None \<Rightarrow> 0
            | Some cfg \<Rightarrow> wrap64 (cfg_LeaderFailoverGracePeriodBase cfg + cfg_LeaderFailoverGracePeriodMaxJitter cfg))
      in if initiatedAt = None then False
         else time_Sub (sa_Now sa) (AsTime initiatedAt) \<ge> grace)"

text \<open>A problem of one pooler; its description reads the pooler's name.\<close>

definition poolerProblem ::
  "Shard \<Rightarrow> PoolerHealthState ptr \<Rightarrow> ProblemCode \<Rightarrow> string \<Rightarrow> RecoveryAction \<Rightarrow>
     analysis_error + Problem option" where
  "poolerProblem sa pa code check action =
     (if poolerID pa = None then Inl AErr_NilPoolerID
      else Inr (Some \<lparr>pb_Code = code, pb_CheckName = check, pb_PoolerID = poolerID pa,
        pb_ShardKey = sa_ShardKey sa, pb_Priority = PriorityHigh, pb_Scope = ScopePooler,
        pb_RecoveryAction = action, pb_SkipPreRecheckRefresh = False\<rparr>))"

definition RecruitAbandoned_analyzePooler ::
  "RecoveryActionFactory ptr \<Rightarrow> Shard \<Rightarrow> PoolerHealthState ptr \<Rightarrow> analysis_error + Problem option" where
  "RecruitAbandoned_analyzePooler factory sa pa =
     (case factory of
        None \<Rightarrow> Inl AErr_NoFactory
      | Some f \<Rightarrow>
          if SelfConsensusRole (GetConsensusStatus pa) = ConsensusRoleLeader then Inr None
          else
            let (hs, ok) = HealthWithin pa (sa_Now sa) (ObservationFreshness (sa_AvailabilityPolicy sa))
            in if \<not> ok \<or> \<not> GetIsInitialized (GetStatus hs) then Inr None
               else if fst (leaderEndpoint (IntendedLeaderHealth sa)) = '''' then Inr None
               else if \<not> LeaderWritesProgressing (IntendedLeaderHealth sa) (HighestIntendedRule sa) (sa_Now sa)
                         (LeaderChangeFreshness (sa_AvailabilityPolicy sa)) then Inr None
               else if \<not> IsSelfRevoked (GetConsensusStatus pa) then Inr None
               else if \<not> revocationStrandsFollower sa pa then Inr None
               else if \<not> revocationAgedPastFailoverGrace f sa pa then Inr None
               else poolerProblem sa pa ProblemReplicaRecruitAbandoned ''ReplicaRecruitAbandoned''
                      ReconnectRecruitAbandonedAction)"

definition RecruitAbandoned_Analyze ::
  "RecoveryActionFactory ptr \<Rightarrow> Shard \<Rightarrow> analysis_error + Problem list \<times> analysis_error option" where
  "RecruitAbandoned_Analyze factory sa = analyzeAllPoolers sa (RecruitAbandoned_analyzePooler factory)"

subsection \<open>Replicas that do not replicate\<close>

definition needsReplicationFix :: "PoolerHealthState ptr \<Rightarrow> bool" where
  "needsReplicationFix pa =
     (if primaryConnInfoHost pa = '''' then True
      else if \<not> walReplayNotPaused pa then True
      else if \<not> walReceiverActive pa then True
      else False)"

definition ReplicaNotReplicating_analyzePooler ::
  "RecoveryActionFactory ptr \<Rightarrow> Shard \<Rightarrow> PoolerHealthState ptr \<Rightarrow> analysis_error + Problem option" where
  "ReplicaNotReplicating_analyzePooler factory sa pa =
     (if factory = None then Inl AErr_NoFactory
      else if SelfConsensusRole (GetConsensusStatus pa) = ConsensusRoleLeader then Inr None
      else
        let (hs, ok) = HealthWithin pa (sa_Now sa) (FollowerStreamFreshness (sa_AvailabilityPolicy sa));
            status = GetStatus hs
        in if \<not> ok \<or> \<not> GetIsInitialized status then Inr None
           else if GetReplicationStatus status = None \<and> GetPostgresRunning status then Inr None
           else if \<not> intendedLeaderServing sa \<or> fst (leaderEndpoint (IntendedLeaderHealth sa)) = '''' then Inr None
           else if revocationStrandsFollower sa pa then Inr None
           else if \<not> needsReplicationFix pa then Inr None
           else poolerProblem sa pa ProblemReplicaNotReplicating ''ReplicaNotReplicating'' FixReplicationAction)"

definition ReplicaNotReplicating_Analyze ::
  "RecoveryActionFactory ptr \<Rightarrow> Shard \<Rightarrow> analysis_error + Problem list \<times> analysis_error option" where
  "ReplicaNotReplicating_Analyze factory sa =
     analyzeAllPoolers sa (ReplicaNotReplicating_analyzePooler factory)"

subsection \<open>Shards without a cohort\<close>

definition ShardNeedsInitialization_Analyze ::
  "RecoveryActionFactory ptr \<Rightarrow> Shard \<Rightarrow> analysis_error + Problem list" where
  "ShardNeedsInitialization_Analyze factory sa =
     (if factory = None then Inl AErr_NoFactory
      else if sa_BootstrapDurabilityPolicy sa = None then Inr []
      else if list_ex (\<lambda>pa. length (GetCohortMembers (PossiblyUndecidedRule
                (PoolerPosition_GetPosition (GetCurrentPosition (GetConsensusStatus pa))))) > 0) (sa_Poolers sa)
      then Inr []
      else case NewPolicyFromProto (sa_BootstrapDurabilityPolicy sa) of
             Inl err \<Rightarrow> Inl (AErr_BootstrapPolicy err)
           | Inr durabilityPolicy \<Rightarrow>
               let initializedIDs = map poolerID (filter (\<lambda>pa.
                     let (hs, ok) = HealthWithin pa (sa_Now sa) (ObservationFreshness (sa_AvailabilityPolicy sa))
                     in ok \<and> GetIsInitialized (GetStatus hs)) (sa_Poolers sa))
               in if SatisfiedBy durabilityPolicy initializedIDs \<noteq> None then Inr []
                  else Inr [\<lparr>pb_Code = ProblemShardNeedsInitialization,
                     pb_CheckName = ''ShardNeedsInitialization'', pb_PoolerID = None,
                     pb_ShardKey = sa_ShardKey sa, pb_Priority = PriorityShardBootstrap, pb_Scope = ScopeShard,
                     pb_RecoveryAction = ShardInitAction, pb_SkipPreRecheckRefresh = False\<rparr>])"

subsection \<open>Leaders of an older rule\<close>

definition staleLeaders :: "Shard \<Rightarrow> PoolerHealthState ptr list" where
  "staleLeaders sa = filter (\<lambda>pa.
     let (hs, ok) = HealthWithin pa (sa_Now sa) (ObservationFreshness (sa_AvailabilityPolicy sa))
     in \<not> (\<not> ok \<or> SelfConsensusRole (GetConsensusStatus hs) \<noteq> ConsensusRoleLeader) \<and>
        poolerID pa \<noteq> IntendedLeaderID sa) (sa_Poolers sa)"

definition staleProblem :: "Shard \<Rightarrow> nat \<Rightarrow> PoolerHealthState ptr \<Rightarrow> Problem" where
  "staleProblem sa i stale = \<lparr>pb_Code = ProblemStaleLeader, pb_CheckName = ''StaleLeader'',
     pb_PoolerID = poolerID stale, pb_ShardKey = sa_ShardKey sa, pb_Priority = PriorityHigh - int i,
     pb_Scope = ScopePooler, pb_RecoveryAction = DemoteStaleLeaderAction, pb_SkipPreRecheckRefresh = False\<rparr>"

definition StaleLeader_Analyze :: "RecoveryActionFactory ptr \<Rightarrow> Shard \<Rightarrow> analysis_error + Problem list" where
  "StaleLeader_Analyze factory sa =
     (if factory = None then Inl AErr_NoFactory
      else if IntendedLeaderID sa = None then Inr []
      else if length (staleLeaders sa) = 0 then Inr []
      else
        let sorted = SortFunc compareLeaderTimeline (staleLeaders sa)
        in if list_ex (\<lambda>stale. poolerID stale = None) sorted then Inl AErr_NilPoolerID
           else Inr (map (\<lambda>(i, stale). staleProblem sa i stale) (enumerate 0 sorted)))"

section \<open>What the analysers report\<close>

subsection \<open>Cohort drift\<close>

text \<open>The loop over the poolers has seen every pooler of the cohort, and reports only candidates.\<close>

definition cohort_candidate :: "Shard \<Rightarrow> ShardRule ptr \<Rightarrow> PoolerHealthState ptr \<Rightarrow> Problem \<Rightarrow> bool" where
  "cohort_candidate sa rule pa p \<longleftrightarrow>
     (let key = ComponentIDString (poolerID pa); cohort = ComponentIDString ` set (GetCohortMembers rule)
      in p = cohortProblem sa ProblemCohortMemberIneligible (poolerID pa) \<and> key \<in> cohort \<and>
           IsCohortMemberRemovalSafe rule (poolerID pa) \<or>
         p = cohortProblem sa ProblemPoolerNotInCohort (poolerID pa) \<and> key \<notin> cohort \<and>
           isAdditionCandidate sa pa)"

lemma map_of_index_by_None: "map_of (index_by key xs) k = None \<longleftrightarrow> k \<notin> key ` set xs"
  by (simp add: map_of_eq_None_iff dom_index_by)

lemma mismatch_pooler_panic: "mismatch_pooler sa rule ids (Inl e) pa = Inl e"
  by (simp add: mismatch_pooler_def)

lemma mismatch_pooler_step:
  assumes "mismatch_pooler sa rule (index_by ComponentIDString (GetCohortMembers rule)) (Inr (seen0, problems0)) pa =
    Inr (seen, problems)"
  shows "seen = (if ComponentIDString (poolerID pa) \<in> ComponentIDString ` set (GetCohortMembers rule)
                 then insert (ComponentIDString (poolerID pa)) seen0 else seen0) \<and>
         (problems = problems0 \<or> (\<exists>p. problems = problems0 @ [p] \<and> cohort_candidate sa rule pa p))"
  using assms by (auto simp: mismatch_pooler_def Let_def map_of_index_by_None cohort_candidate_def
      simp del: not_None_eq split: if_splits)

lemma mismatch_poolers:
  assumes "foldl (mismatch_pooler sa rule (index_by ComponentIDString (GetCohortMembers rule)))
      (Inr ({}, [])) poolers = Inr (seen, problems)"
  shows "seen = {k \<in> (\<lambda>pa. ComponentIDString (poolerID pa)) ` set poolers.
                   k \<in> ComponentIDString ` set (GetCohortMembers rule)} \<and>
         (\<forall>p \<in> set problems. \<exists>pa \<in> set poolers. cohort_candidate sa rule pa p)"
  using assms
proof (induction poolers arbitrary: seen problems rule: rev_induct)
  case (snoc pa poolers)
  let ?ids = "index_by ComponentIDString (GetCohortMembers rule)"
  from snoc.prems obtain seen0 problems0 where
    before: "foldl (mismatch_pooler sa rule ?ids) (Inr ({}, [])) poolers = Inr (seen0, problems0)"
    and step: "mismatch_pooler sa rule ?ids (Inr (seen0, problems0)) pa = Inr (seen, problems)"
    by (cases "foldl (mismatch_pooler sa rule ?ids) (Inr ({}, [])) poolers") (auto simp: mismatch_pooler_panic)
  from snoc.IH [OF before] mismatch_pooler_step [OF step] show ?case
    by (auto split: if_splits) (metis imageI)+
qed simp

text \<open>The loop over the members that were not seen keeps removals that are known dead or safe.\<close>

lemma mismatch_member_step:
  assumes "mismatch_member sa rule seen (tomb0, missing0) (key, i) = (tomb, missing)"
  shows "(tomb = tomb0 \<or> tomb = i \<and> key \<notin> seen \<and> key \<in> sa_TombstoneIDs sa) \<and>
         (missing = missing0 \<or> missing = i \<and> key \<notin> seen \<and> IsCohortMemberRemovalSafe rule i)"
  using assms by (auto simp: mismatch_member_def Let_def split: if_splits)

lemma mismatch_members:
  assumes "foldl (mismatch_member sa rule seen) (None, None) entries = (tomb, missing)"
  shows "(tomb \<noteq> None \<longrightarrow> (\<exists>key. (key, tomb) \<in> set entries \<and> key \<notin> seen \<and> key \<in> sa_TombstoneIDs sa)) \<and>
         (missing \<noteq> None \<longrightarrow> (\<exists>key. (key, missing) \<in> set entries \<and> key \<notin> seen \<and>
            IsCohortMemberRemovalSafe rule missing))"
  using assms
proof (induction entries arbitrary: tomb missing rule: rev_induct)
  case (snoc entry entries)
  obtain tomb0 missing0 where
    before: "foldl (mismatch_member sa rule seen) (None, None) entries = (tomb0, missing0)" by fastforce
  obtain key i where entry: "entry = (key, i)" by fastforce
  have "mismatch_member sa rule seen (tomb0, missing0) (key, i) = (tomb, missing)"
    using snoc.prems before by (simp add: entry)
  note step = mismatch_member_step [OF this]
  have entries: "set (entries @ [entry]) = insert (key, i) (set entries)" by (simp add: entry)
  from step snoc.IH [OF before] show ?case unfolding entries by blast
qed simp

lemma index_by_entry:
  "(key, i) \<in> set (index_by f xs) \<Longrightarrow> key = f i \<and> i \<in> set xs"
  using map_of_index_by_SomeD [of f xs key i] map_of_is_SomeI [OF distinct_index_by] by fastforce


definition reported_keys :: "Shard \<Rightarrow> string set" where
  "reported_keys sa = (\<lambda>pa. ComponentIDString (poolerID pa)) ` set (sa_Poolers sa)"

definition safe_cohort_change :: "Shard \<Rightarrow> ShardRule ptr \<Rightarrow> Problem \<Rightarrow> bool" where
  "safe_cohort_change sa rule p \<longleftrightarrow>
     pb_Code p = ProblemPoolerNotInCohort \<and>
       (\<exists>pa \<in> set (sa_Poolers sa). pb_PoolerID p = poolerID pa \<and> isAdditionCandidate sa pa \<and>
          ComponentIDString (poolerID pa) \<notin> ComponentIDString ` set (GetCohortMembers rule)) \<or>
     pb_Code p = ProblemCohortMemberIneligible \<and>
       ComponentIDString (pb_PoolerID p) \<in> ComponentIDString ` set (GetCohortMembers rule) \<and>
       (IsCohortMemberRemovalSafe rule (pb_PoolerID p) \<or>
        ComponentIDString (pb_PoolerID p) \<in> sa_TombstoneIDs sa - reported_keys sa)"

lemma cohort_candidate_safe:
  assumes "cohort_candidate sa rule pa p" "pa \<in> set (sa_Poolers sa)"
  shows "safe_cohort_change sa rule p \<and> ComponentIDString (pb_PoolerID p) \<in> reported_keys sa"
  using assms unfolding cohort_candidate_def Let_def
  by (elim disjE conjE) (auto simp: safe_cohort_change_def cohortProblem_def reported_keys_def)

lemma unreported_member_safe:
  assumes "foldl (mismatch_pooler sa rule (index_by ComponentIDString (GetCohortMembers rule))) (Inr ({}, []))
      (sa_Poolers sa) = Inr (seen, problems)"
    and "foldl (mismatch_member sa rule seen) (None, None) entries = (tomb, missing)"
    and "set entries = set (index_by ComponentIDString (GetCohortMembers rule))"
    and "i \<noteq> None" "i = tomb \<or> i = missing"
  shows "safe_cohort_change sa rule (cohortProblem sa ProblemCohortMemberIneligible i)"
proof -
  obtain key where key: "(key, i) \<in> set (index_by ComponentIDString (GetCohortMembers rule))" "key \<notin> seen"
    "key \<in> sa_TombstoneIDs sa \<or> IsCohortMemberRemovalSafe rule i"
    using mismatch_members [OF assms(2)] assms(3-5) by metis
  note entry = index_by_entry [OF key(1)]
  with key(2) mismatch_poolers [OF assms(1)] have "key \<notin> reported_keys sa"
    by (auto simp: reported_keys_def)
  with key(3) entry show ?thesis by (auto simp: safe_cohort_change_def cohortProblem_def)
qed

lemma cohort_changes_safe:
  assumes "CohortMismatch_Analyze order factory sa = Inr ps" "\<And>m. set (order m) = set m"
  shows "(ps \<noteq> [] \<longrightarrow> intendedLeaderServing sa) \<and>
    (\<forall>p \<in> set ps. safe_cohort_change sa (PossiblyUndecidedRule (HighestIntendedRule sa)) p) \<and>
    length (filter (\<lambda>p. ComponentIDString (pb_PoolerID p) \<notin> reported_keys sa) ps) \<le> 1"
proof (cases "intendedLeaderServing sa")
  case False
  then show ?thesis using assms(1) by (simp add: CohortMismatch_Analyze_def split: if_splits)
next
  case serving: True
  define rule where "rule = PossiblyUndecidedRule (HighestIntendedRule sa)"
  let ?ids = "index_by ComponentIDString (GetCohortMembers rule)"
  obtain seen problems tomb missing where
    poolers: "foldl (mismatch_pooler sa rule ?ids) (Inr ({}, [])) (sa_Poolers sa) = Inr (seen, problems)"
    and members: "foldl (mismatch_member sa rule seen) (None, None) (order ?ids) = (tomb, missing)"
    and ps: "ps = problems @ (if tomb \<noteq> None then [cohortProblem sa ProblemCohortMemberIneligible tomb]
        else if missing \<noteq> None then [cohortProblem sa ProblemCohortMemberIneligible missing] else [])"
    using assms(1) serving
    by (auto simp: CohortMismatch_Analyze_def rule_def Let_def simp del: not_None_eq
        split: if_splits sum.splits prod.splits)
  have early: "safe_cohort_change sa rule p \<and> ComponentIDString (pb_PoolerID p) \<in> reported_keys sa"
    if "p \<in> set problems" for p
    using mismatch_poolers [OF poolers] cohort_candidate_safe that by blast
  have late: "safe_cohort_change sa rule (cohortProblem sa ProblemCohortMemberIneligible i)"
    if "i \<noteq> None" "i = tomb \<or> i = missing" for i
    by (rule unreported_member_safe [OF poolers members assms(2) that])
  have "filter (\<lambda>p. ComponentIDString (pb_PoolerID p) \<notin> reported_keys sa) problems = []"
    using early by (simp add: filter_empty_conv)
  with serving early late [of tomb] late [of missing] show ?thesis
    by (simp add: ps del: not_None_eq flip: rule_def)
qed

text \<open>
  Cohort changes are proposed only to a serving leader and only where they are safe: a pooler
  to add is recruitable, no leader and streaming; a member to remove is one whose removal still
  leaves a cohort that survives the loss of the leader, or one that is recorded as shut down and
  that no pooler reports for. Of the members that no pooler reports for, at most one is removed.
\<close>

theorem cohort_changes_are_safe:
  assumes "CohortMismatch_Analyze order factory sa = Inr ps" "\<And>m. set (order m) = set m"
  shows "(ps \<noteq> [] \<longrightarrow> intendedLeaderServing sa) \<and>
    (\<forall>p \<in> set ps. safe_cohort_change sa (PossiblyUndecidedRule (HighestIntendedRule sa)) p) \<and>
    length (filter (\<lambda>p. ComponentIDString (pb_PoolerID p) \<notin> reported_keys sa) ps) \<le> 1"
  by (rule cohort_changes_safe [OF assms])

subsection \<open>Repairs of followers\<close>

lemma poolerProblem_fields:
  "poolerProblem sa pa code check action = Inr (Some p) \<Longrightarrow> pb_PoolerID p = poolerID pa \<and> pb_Code p = code"
  by (auto simp: poolerProblem_def split: if_splits)

lemma ReplicaNotReplicating_reported:
  assumes "ReplicaNotReplicating_analyzePooler factory sa pa = Inr (Some p)"
  shows "pb_PoolerID p = poolerID pa \<and> intendedLeaderServing sa \<and> \<not> revocationStrandsFollower sa pa \<and>
         pb_Code p = ProblemReplicaNotReplicating"
  using assms poolerProblem_fields
  by (auto simp: ReplicaNotReplicating_analyzePooler_def Let_def split: if_splits prod.splits)

lemma RecruitAbandoned_reported:
  assumes "RecruitAbandoned_analyzePooler factory sa pa = Inr (Some p)"
  shows "pb_PoolerID p = poolerID pa \<and> revocationStrandsFollower sa pa \<and> IsRuleDecided (HighestIntendedRule sa) \<and>
         pb_Code p = ProblemReplicaRecruitAbandoned"
  using assms poolerProblem_fields
  by (auto simp: RecruitAbandoned_analyzePooler_def LeaderWritesProgressing_def Let_def
      split: if_splits prod.splits option.splits)

text \<open>
  The two repairs of a follower never compete: among poolers with distinct identifiers none is
  reported both as not replicating and as stranded. A replication fix goes to followers whose
  promise does not revoke the intended rule, so that they accept it; a rule advance goes to
  followers whose promise revokes it, and only once that rule is decided.
\<close>

theorem follower_repairs_exclusive:
  assumes "ReplicaNotReplicating_Analyze factory sa = Inr (ps, e)" "RecruitAbandoned_Analyze factory sa = Inr (qs, e')"
    and "distinct (map poolerID (sa_Poolers sa))" "p \<in> set ps" "q \<in> set qs"
  shows "pb_PoolerID p \<noteq> pb_PoolerID q \<and>
    (\<exists>pa \<in> set (sa_Poolers sa). poolerID pa = pb_PoolerID p \<and>
       (HighestIntendedRule sa \<noteq> None \<longrightarrow>
          \<not> IsRuleRevoked (HighestIntendedRule sa) (GetTermRevocation (GetConsensusStatus pa)))) \<and>
    (\<exists>qa \<in> set (sa_Poolers sa). poolerID qa = pb_PoolerID q \<and> IsRuleDecided (HighestIntendedRule sa) \<and>
       IsRuleRevoked (HighestIntendedRule sa) (GetTermRevocation (GetConsensusStatus qa)))"
proof -
  from assms(1,4) obtain pa where pa: "pa \<in> set (sa_Poolers sa)"
    and p: "ReplicaNotReplicating_analyzePooler factory sa pa = Inr (Some p)"
    by (auto simp: ReplicaNotReplicating_Analyze_def analyzeAllPoolers_problem)
  from assms(2,5) obtain qa where qa: "qa \<in> set (sa_Poolers sa)"
    and q: "RecruitAbandoned_analyzePooler factory sa qa = Inr (Some q)"
    by (auto simp: RecruitAbandoned_Analyze_def analyzeAllPoolers_problem)
  note rp = ReplicaNotReplicating_reported [OF p] and rq = RecruitAbandoned_reported [OF q]
  have "pa \<noteq> qa" using rp rq by blast
  with pa qa assms(3) have "poolerID pa \<noteq> poolerID qa" by (auto simp: distinct_map inj_on_def)
  with pa qa rp rq show ?thesis
    by (auto simp: revocationStrandsFollower_def simp del: not_None_eq split: if_splits)
qed

subsection \<open>Stale leaders\<close>

interpretation timeline: go_comparator compareLeaderTimeline
proof unfold_locales
  fix x y z :: "PoolerHealthState ptr"
  show "compareLeaderTimeline y x = - compareLeaderTimeline x y"
    unfolding compareLeaderTimeline_def by (rule rule_pos.cmp_swap)
  show "0 \<le> compareLeaderTimeline x y \<Longrightarrow> 0 \<le> compareLeaderTimeline y z \<Longrightarrow> 0 \<le> compareLeaderTimeline x z"
    unfolding compareLeaderTimeline_def by (rule rule_pos.cmp_trans)
qed

text \<open>
  The analyser of stale leaders reports exactly the poolers that are seen fresh, take themselves
  for leader and are not the intended one, the most outdated first and with descending priorities;
  the intended leader is never among them.
\<close>

theorem stale_leaders_ranked:
  assumes "StaleLeader_Analyze factory sa = Inr ps" "IntendedLeaderID sa \<noteq> None"
  shows "\<exists>stales. mset stales = mset (staleLeaders sa) \<and>
      sorted_wrt (\<lambda>a b. compareLeaderTimeline a b \<le> 0) stales \<and>
      ps = map (\<lambda>(i, stale). staleProblem sa i stale) (enumerate 0 stales) \<and>
      IntendedLeaderID sa \<notin> pb_PoolerID ` set ps"
proof -
  let ?s = "SortFunc compareLeaderTimeline (staleLeaders sa)"
  have "IntendedLeaderID sa \<notin> poolerID ` set ?s" by (auto simp: staleLeaders_def)
  moreover have "ps = map (\<lambda>(i, stale). staleProblem sa i stale) (enumerate 0 ?s)"
    using assms by (auto simp: StaleLeader_Analyze_def Let_def SortFunc_def simp del: not_None_eq split: if_splits)
  moreover from this have "pb_PoolerID ` set ps \<subseteq> poolerID ` set (map snd (enumerate 0 ?s))"
    by (force simp: staleProblem_def simp del: map_snd_enumerate)
  ultimately show ?thesis using timeline.SortFunc_sorted [of "staleLeaders sa"] mset_SortFunc
    unfolding map_snd_enumerate by blast
qed


section \<open>Concrete instances\<close>

text \<open>
  The sample shard with a serving leader, a follower that promised term 4 long ago and is stranded,
  and a follower that has lost its receiver; a fourth pooler outside the cohort streams.
\<close>

definition ex_d :: "ID ptr" where "ex_d = Some (ex_pooler ''zone4'' ''d'')"

definition ex_stranded :: "PoolerHealthState ptr" where
  "ex_stranded = map_option (\<lambda>h. h\<lparr>phs_consensus_status :=
     ex_status ex_b (ex_decided 3) ''10'' (ex_revocation 4 (ex_num 3 0))\<rparr>) (ex_health ex_b ''hostb'' 995 (ex_standby ''''))"

definition ex_drifted :: Shard where
  "ex_drifted = ex_shard [ex_health ex_a ''hosta'' 995 (ex_leading True), ex_stranded,
     ex_health ex_c ''hostc'' 995 (ex_standby ''''), ex_health ex_d ''hostd'' 995 (ex_standby ''streaming'')]"

definition ex_repair :: "ProblemCode \<Rightarrow> string \<Rightarrow> RecoveryAction \<Rightarrow> ID ptr \<Rightarrow> Problem" where
  "ex_repair code check action i = \<lparr>pb_Code = code, pb_CheckName = check, pb_PoolerID = i,
     pb_ShardKey = ex_shard_key, pb_Priority = 500, pb_Scope = ScopePooler,
     pb_RecoveryAction = action, pb_SkipPreRecheckRefresh = False\<rparr>"

theorem cohort_changes_are_safe_witness:
  "safe_cohort_change ex_drifted (PossiblyUndecidedRule (HighestIntendedRule ex_drifted))
     (cohortProblem ex_drifted ProblemPoolerNotInCohort ex_d)"
proof -
  have "CohortMismatch_Analyze rev (Some ex_factory) ex_drifted =
      Inr [cohortProblem ex_drifted ProblemPoolerNotInCohort ex_d]" by code_simp
  from cohort_changes_are_safe [OF this set_rev] show ?thesis by simp
qed

theorem follower_repairs_exclusive_witness:
  "IsRuleDecided (HighestIntendedRule ex_drifted)"
proof -
  have "ReplicaNotReplicating_Analyze (Some ex_factory) ex_drifted =
      Inr ([ex_repair ProblemReplicaNotReplicating ''ReplicaNotReplicating'' FixReplicationAction ex_c], None)"
    "RecruitAbandoned_Analyze (Some ex_factory) ex_drifted =
      Inr ([ex_repair ProblemReplicaRecruitAbandoned ''ReplicaRecruitAbandoned'' ReconnectRecruitAbandonedAction ex_b], None)"
    "distinct (map poolerID (sa_Poolers ex_drifted))" by code_simp+
  from follower_repairs_exclusive [OF this list.set_intros(1) list.set_intros(1)] show ?thesis by blast
qed

definition ex_old_leader :: "PoolerHealthState ptr" where
  "ex_old_leader = map_option (\<lambda>h. h\<lparr>phs_consensus_status :=
     ex_status ex_d (Some \<lparr>pos_decision = ex_rule (ex_num 2 0) ex_d, pos_proposal = None\<rparr>) ''5'' None\<rparr>)
       (ex_health ex_d ''hostd'' 995 (ex_leading True))"

theorem stale_leaders_ranked_witness:
  "IntendedLeaderID (ex_shard [ex_health ex_a ''hosta'' 995 (ex_leading True), ex_old_leader]) \<noteq> ex_d"
proof -
  let ?sa = "ex_shard [ex_health ex_a ''hosta'' 995 (ex_leading True), ex_old_leader]"
  have "StaleLeader_Analyze (Some ex_factory) ?sa = Inr [staleProblem ?sa 0 ex_old_leader]"
    "IntendedLeaderID ?sa \<noteq> None" by code_simp+
  moreover have "pb_PoolerID (staleProblem ?sa 0 ex_old_leader) = ex_d" by code_simp
  ultimately show ?thesis using stale_leaders_ranked [of "Some ex_factory" ?sa] by fastforce
qed

end
