(* ===== verification/Failover_Choice.thy ===== *)
theory Failover_Choice
  imports Orch_Health Backoff
begin

text \<open>
  When an orchestrator may start a failover and whom it prefers: the gate of the collective backoff
  (go/services/multiorch/consensus/failover_backoff.go) and the choice among recruits that are tied
  on their WAL position (leader_fitness.go).

  \<open>now\<close> is the wall clock; \<open>IntN\<close> is the random generator, a number below its argument. A Go map
  from keys to health states is an association list, and a missing key reads as \<open>nil\<close>.
\<close>

subsection \<open>The failover gate\<close>

definition filterCohortIneligible ::
  "PoolerHealthState ptr list \<Rightarrow> PoolerHealthState ptr list \<times> string list" where
  "filterCohortIneligible cohort =
     foldl (\<lambda>(eligible, ineligible) p.
         if PoolerIsCohortIneligible (GetAvailabilityStatus p)
         then (eligible, ineligible @ [GetName (Multipooler_GetId (GetMultipooler p))])
         else (eligible @ [p], ineligible))
       ([], []) cohort"

definition consensusStatusesOf :: "PoolerHealthState ptr list \<Rightarrow> ConsensusStatus ptr list" where
  "consensusStatusesOf poolers = filter (\<lambda>cs. cs \<noteq> None) (map GetConsensusStatus poolers)"

definition eligibleConsensusStatuses :: "PoolerHealthState ptr list \<Rightarrow> ConsensusStatus ptr list" where
  "eligibleConsensusStatuses cohort = consensusStatusesOf (fst (filterCohortIneligible cohort))"

definition backoffRelevantRevocations ::
  "ConsensusStatus ptr list \<Rightarrow> RuleNumber ptr \<Rightarrow> TermRevocation ptr list" where
  "backoffRelevantRevocations statuses decision =
     filter (\<lambda>rev. \<not> GetRevokedBelowTerm rev \<le> 0 \<and>
         \<not> (GetReplaceDecision (GetRecruitIntent rev) \<noteq> None \<and>
             CompareRuleNumbers (GetReplaceDecision (GetRecruitIntent rev)) decision \<noteq> 0))
       (map GetTermRevocation statuses)"

definition NextFailoverAttempt ::
  "ID ptr \<Rightarrow> go_time \<Rightarrow> PoolerHealthState ptr list \<Rightarrow> BackoffSchedule \<Rightarrow> go_time \<times> bool" where
  "NextFailoverAttempt coordinatorID now cohort backoff =
     (let statuses = eligibleConsensusStatuses cohort;
          decision = HighestDecidedRule statuses;
          rev = HighestRevokedBelowTermRevocation (backoffRelevantRevocations statuses decision)
      in if rev = None then (zero_time, True)
         else let readyAt = NextAttempt backoff rev coordinatorID in (readyAt, \<not> now < readyAt))"

subsection \<open>The fittest leader\<close>

type_synonym health_map = "(string \<times> PoolerHealthState ptr) list"

definition health_lookup :: "health_map \<Rightarrow> ID ptr \<Rightarrow> PoolerHealthState ptr" where
  "health_lookup healthByID i = (case map_of healthByID (ClusterIDString i) of None \<Rightarrow> None | Some h \<Rightarrow> h)"

definition postgresReadyLess :: "health_map \<Rightarrow> ConsensusStatus ptr \<Rightarrow> ConsensusStatus ptr \<Rightarrow> bool" where
  "postgresReadyLess healthByID a b =
     (let isReady = (\<lambda>i. GetPostgresReady (GetStatus (health_lookup healthByID i)))
      in isReady (ConsensusStatus_GetId a) \<and> \<not> isReady (ConsensusStatus_GetId b))"

primrec leadershipSignalPriority :: "LeadershipSignal \<Rightarrow> int" where
  "leadershipSignalPriority LEADERSHIP_SIGNAL_UNKNOWN = 0"
| "leadershipSignalPriority LEADERSHIP_SIGNAL_ACTIVE = 0"
| "leadershipSignalPriority LEADERSHIP_SIGNAL_REQUESTING_DEMOTION = 1"
| "leadershipSignalPriority (LeadershipSignalUnrecognized n) = 0"

definition leadershipSignal :: "health_map \<Rightarrow> ConsensusStatus ptr \<Rightarrow> LeadershipSignal" where
  "leadershipSignal healthByID cs = Leadership_GetSignal (GetLeadershipStatus (GetAvailabilityStatus
     (health_lookup healthByID (ConsensusStatus_GetId cs))))"

definition failoverSlotsReady :: "health_map \<Rightarrow> ConsensusStatus ptr \<Rightarrow> int" where
  "failoverSlotsReady healthByID cs =
     GetFailoverSlotsReady (GetStatus (health_lookup healthByID (ConsensusStatus_GetId cs)))"

definition poolerHealthStateLess :: "health_map \<Rightarrow> ConsensusStatus ptr \<Rightarrow> ConsensusStatus ptr \<Rightarrow> bool" where
  "poolerHealthStateLess healthByID a b =
     (let sigA = leadershipSignal healthByID a; sigB = leadershipSignal healthByID b
      in if leadershipSignalPriority sigA \<noteq> leadershipSignalPriority sigB
         then leadershipSignalPriority sigA < leadershipSignalPriority sigB
         else failoverSlotsReady healthByID a > failoverSlotsReady healthByID b)"

definition fitter :: "health_map \<Rightarrow> ConsensusStatus ptr \<Rightarrow> ConsensusStatus ptr \<Rightarrow> bool" where
  "fitter healthByID a b =
     (if postgresReadyLess healthByID a b then True
      else if postgresReadyLess healthByID b a then False
      else poolerHealthStateLess healthByID a b)"

definition tie_step ::
  "health_map \<Rightarrow> ConsensusStatus ptr list \<Rightarrow> ConsensusStatus ptr \<Rightarrow> ConsensusStatus ptr list" where
  "tie_step healthByID tied c =
     (if fitter healthByID c (tied ! 0) then [c]
      else if \<not> fitter healthByID (tied ! 0) c then tied @ [c]
      else tied)"

definition selectFittestLeader ::
  "ConsensusStatus ptr list \<Rightarrow> health_map \<Rightarrow> (nat \<Rightarrow> nat) \<Rightarrow> ConsensusStatus ptr" where
  "selectFittestLeader candidates healthByID IntN =
     (case candidates of
        [] \<Rightarrow> None
      | c # cs \<Rightarrow> let tied = foldl (tie_step healthByID) [c] cs in tied ! IntN (length tied))"

section \<open>Fitness\<close>

interpretation ready: go_less "postgresReadyLess healthByID" for healthByID
  by unfold_locales (auto simp: postgresReadyLess_def Let_def)

interpretation signal: go_less "poolerHealthStateLess healthByID" for healthByID
  by unfold_locales (auto simp: poolerHealthStateLess_def Let_def split: if_splits)

interpretation fitness: go_chained_less "postgresReadyLess healthByID" "poolerHealthStateLess healthByID"
  for healthByID
  by unfold_locales

lemma fitter_alt: "fitter healthByID = go_then_less (postgresReadyLess healthByID) (poolerHealthStateLess healthByID)"
  by (intro ext) (simp add: fitter_def go_then_less_def)

text \<open>The loop over the candidates keeps exactly those that none beats.\<close>

lemma ties_are_best: "foldl (tie_step healthByID) [c] cs = best_of (fitter healthByID) (c # cs) \<and>
    best_of (fitter healthByID) (c # cs) \<noteq> []"
proof (induction cs rule: rev_induct)
  case Nil
  show ?case using fitness.chained.less_irrefl by (simp add: best_of_def fitter_alt)
next
  case (snoc d cs)
  then obtain b bs where b: "best_of (fitter healthByID) (c # cs) = b # bs"
    by (cases "best_of (fitter healthByID) (c # cs)") auto
  have "best_of (fitter healthByID) (c # cs @ [d]) =
      (if fitter healthByID d b then [d] else if \<not> fitter healthByID b d then b # bs @ [d] else b # bs)"
    using fitness.chained.ties_snoc [of healthByID "c # cs"] b by (simp add: fitter_alt)
  with snoc b show ?case by (simp add: tie_step_def)
qed

text \<open>
  The chosen leader is a candidate that no other candidate beats: none is ready while it is not,
  none of equal readiness is less inclined to step down, and none equal in both has more failover
  slots ready; and every such candidate can be chosen.
\<close>

theorem selectFittestLeader_best:
  assumes "candidates \<noteq> []"
  shows "{selectFittestLeader candidates healthByID IntN | IntN. \<forall>n > 0. IntN n < n} =
         {c \<in> set candidates. \<forall>d \<in> set candidates. \<not> fitter healthByID d c}"
proof -
  from assms obtain c cs where cs: "candidates = c # cs" by (cases candidates) auto
  let ?tied = "best_of (fitter healthByID) candidates"
  have choose: "selectFittestLeader candidates healthByID IntN = ?tied ! IntN (length ?tied)" for IntN
    using ties_are_best [of healthByID c cs] by (simp add: selectFittestLeader_def cs Let_def)
  have ne: "0 < length ?tied" using ties_are_best [of healthByID c cs] by (simp add: cs)
  have "{?tied ! IntN (length ?tied) | IntN. \<forall>n > 0. IntN n < n} = set ?tied"
  proof (intro equalityI subsetI)
    fix x assume "x \<in> {?tied ! IntN (length ?tied) | IntN. \<forall>n > 0. IntN n < n}"
    then show "x \<in> set ?tied" using ne by auto
  next
    fix x assume "x \<in> set ?tied"
    then obtain i where i: "i < length ?tied" "x = ?tied ! i" by (metis in_set_conv_nth)
    let ?f = "\<lambda>n. if n = length ?tied then i else 0"
    have "\<forall>n > 0. ?f n < n" "x = ?tied ! ?f (length ?tied)" using i by auto
    then show "x \<in> {?tied ! IntN (length ?tied) | IntN. \<forall>n > 0. IntN n < n}"
      unfolding mem_Collect_eq by (intro exI [of _ ?f] conjI)
  qed
  then show ?thesis unfolding choose by (simp add: best_of_def)
qed


section \<open>The failover gate\<close>

lemma filterCohortIneligible_alt:
  "fst (filterCohortIneligible cohort) =
     filter (\<lambda>p. \<not> PoolerIsCohortIneligible (GetAvailabilityStatus p)) cohort"
proof -
  have "fst (foldl (\<lambda>(eligible, ineligible) p.
         if PoolerIsCohortIneligible (GetAvailabilityStatus p)
         then (eligible, ineligible @ [GetName (Multipooler_GetId (GetMultipooler p))])
         else (eligible @ [p], ineligible)) acc cohort) =
      fst acc @ filter (\<lambda>p. \<not> PoolerIsCohortIneligible (GetAvailabilityStatus p)) cohort" for acc
    by (induction cohort arbitrary: acc) (auto split: prod.splits)
  then show ?thesis by (simp add: filterCohortIneligible_def)
qed

lemma backoffRelevantRevocations_pos:
  "r \<in> set (backoffRelevantRevocations statuses decision) \<Longrightarrow> 0 < GetRevokedBelowTerm r"
  by (auto simp: backoffRelevantRevocations_def)

lemma default_window:
  assumes "0 \<le> base" "base \<le> 300 * 10 ^ 9"
  shows "jitter_window DefaultBackoffSchedule base = base div 4"
proof -
  obtain n where n: "base = int n" using assms(1) nonneg_int_cases by blast
  have "\<bar>base\<bar> < 2 ^ 53" using assms by simp
  then have "jitter_window DefaultBackoffSchedule base = int_of_float64 (Float64 (int n) (- int 2))"
    by (simp add: jitter_window_def DefaultBackoffSchedule_def float64_of_int_exact float64_mult_def
        float64_round_exact n)
  also have "\<dots> = base div 4" unfolding int_of_float64_neg by (simp add: n zdiv_int)
  finally show ?thesis .
qed

lemma default_next_attempt:
  assumes "GetAttempt (GetRecruitIntent rv) \<le> MaxInt64"
  shows "AsTime (GetCoordinatorInitiatedAt rv) + 10 * 10 ^ 9 \<le> NextAttempt DefaultBackoffSchedule rv orch"
    "NextAttempt DefaultBackoffSchedule rv orch \<le> AsTime (GetCoordinatorInitiatedAt rv) + 375 * 10 ^ 9"
proof -
  let ?s = DefaultBackoffSchedule and ?a = "max (GetAttempt (GetRecruitIntent rv)) 1"
  define base where "base = min (bs_Base ?s * 2 ^ nat (?a - 1)) (if bs_Max ?s \<le> 0 then MaxInt64 else bs_Max ?s)"
  have one: "(1 :: int) \<le> 2 ^ nat (?a - 1)" by simp
  have base: "10 * 10 ^ 9 \<le> base" "base \<le> 300 * 10 ^ 9"
    using one by (simp_all add: base_def DefaultBackoffSchedule_def)
  then have window: "jitter_window ?s base = base div 4" by (intro default_window) simp_all
  have "\<exists>jitter. NextAttempt ?s rv orch = AsTime (GetCoordinatorInitiatedAt rv) + min (base + jitter) MaxInt64 \<and>
           0 \<le> jitter \<and> jitter \<le> max 0 (jitter_window ?s base) \<and> base \<le> MaxInt64 \<and>
           AsTime (GetCoordinatorInitiatedAt rv) + base \<le> NextAttempt ?s rv orch"
    using NextAttempt_bounds [of ?s rv orch, folded base_def] assms base(2) window
    by (simp add: MaxInt64_def) (simp add: DefaultBackoffSchedule_def)
  then show "AsTime (GetCoordinatorInitiatedAt rv) + 10 * 10 ^ 9 \<le> NextAttempt ?s rv orch"
    "NextAttempt ?s rv orch \<le> AsTime (GetCoordinatorInitiatedAt rv) + 375 * 10 ^ 9"
    using base window by auto
qed

text \<open>
  C31: the failover gate with the default schedule: an orchestrator acts at once when no recruitment
  that may concern the current decision is observed; otherwise every orchestrator waits at least ten
  seconds from the start of the highest such recruitment, and none waits longer than 375 seconds.
\<close>

theorem failover_gate_window:
  fixes cohort now me
  defines "statuses \<equiv> eligibleConsensusStatuses cohort"
  defines "relevant \<equiv> backoffRelevantRevocations statuses (HighestDecidedRule statuses)"
  assumes "\<forall>rv \<in> set relevant. GetAttempt (GetRecruitIntent rv) \<le> MaxInt64"
  shows "(relevant = [] \<longrightarrow> snd (NextFailoverAttempt me now cohort DefaultBackoffSchedule)) \<and>
    (relevant \<noteq> [] \<longrightarrow> (\<exists>rv \<in> set relevant.
       (\<forall>r \<in> set relevant. GetRevokedBelowTerm r \<le> GetRevokedBelowTerm rv) \<and>
       (now < AsTime (GetCoordinatorInitiatedAt rv) + 10 * 10 ^ 9 \<longrightarrow>
          \<not> snd (NextFailoverAttempt me now cohort DefaultBackoffSchedule)) \<and>
       (AsTime (GetCoordinatorInitiatedAt rv) + 375 * 10 ^ 9 \<le> now \<longrightarrow>
          snd (NextFailoverAttempt me now cohort DefaultBackoffSchedule))))"
proof (cases "relevant = []")
  case True
  then show ?thesis
    by (simp add: NextFailoverAttempt_def Let_def HighestRevokedBelowTermRevocation_def
        flip: statuses_def relevant_def)
next
  case False
  let ?rv = "HighestRevokedBelowTermRevocation relevant"
  have pos: "\<forall>r \<in> set relevant. 0 < GetRevokedBelowTerm r"
    using backoffRelevantRevocations_pos by (simp add: relevant_def)
  note top = HighestRevokedBelowTermRevocation_greatest [OF pos]
  have rv: "?rv \<in> set relevant" by (rule top(1) [OF False])
  with pos have "0 < GetRevokedBelowTerm ?rv" by blast
  then have some: "?rv \<noteq> None" by (cases ?rv) simp_all
  have "GetRevokedBelowTerm r \<le> GetRevokedBelowTerm ?rv" if "r \<in> set relevant" for r
    using top(2) [OF that] by (auto simp: CompareRevocations_nonneg_iff)
  moreover have "snd (NextFailoverAttempt me now cohort DefaultBackoffSchedule) \<longleftrightarrow>
      NextAttempt DefaultBackoffSchedule ?rv me \<le> now"
    using some by (simp add: NextFailoverAttempt_def Let_def not_less del: not_None_eq flip: statuses_def relevant_def)
  moreover note default_next_attempt [OF bspec [OF assms(3) rv], of me]
  ultimately show ?thesis using False rv by (auto intro!: bexI [of _ ?rv])
qed

section \<open>Concrete instances\<close>

definition ex_candidate :: "ID ptr \<Rightarrow> ConsensusStatus ptr" where
  "ex_candidate i = ex_status i (ex_decided 3) ''10'' None"

definition ex_ready :: "ID ptr \<Rightarrow> bool \<Rightarrow> PoolerHealthState ptr" where
  "ex_ready i ready = Some (empty_health\<lparr>phs_multipooler := ex_multipooler i ''host'' [],
     phs_last_seen := ex_time 995,
     phs_consensus_status := ex_status i (ex_decided 3) ''10'' (ex_revocation 4 (ex_num 3 0)),
     phs_status := Some \<lparr>st_primary_status = None, st_replication_status = None, st_is_initialized = True,
       st_postgres_running = True, st_postgres_status = POSTGRES_STATUS_STANDBY, st_postgres_ready = ready,
       st_failover_slots_ready = 0\<rparr>\<rparr>)"

theorem selectFittestLeader_best_witness:
  "{selectFittestLeader [ex_candidate ex_a, ex_candidate ex_b]
      [(ClusterIDString ex_a, ex_ready ex_a False), (ClusterIDString ex_b, ex_ready ex_b True)] IntN | IntN. \<forall>n > 0. IntN n < n} =
   {ex_candidate ex_b}"
proof -
  let ?h = "[(ClusterIDString ex_a, ex_ready ex_a False), (ClusterIDString ex_b, ex_ready ex_b True)]"
  have "fitter ?h (ex_candidate ex_b) (ex_candidate ex_a)" "\<not> fitter ?h (ex_candidate ex_a) (ex_candidate ex_b)"
    "\<not> fitter ?h (ex_candidate ex_b) (ex_candidate ex_b)" by code_simp+
  then show ?thesis
    using selectFittestLeader_best [of "[ex_candidate ex_a, ex_candidate ex_b]" ?h] by auto
qed

theorem failover_gate_window_witness:
  "\<not> snd (NextFailoverAttempt ex_orch (AsTime (ex_time 205)) [ex_ready ex_a True] DefaultBackoffSchedule)"
proof -
  let ?rv = "ex_revocation 4 (ex_num 3 0)"
  have relevant: "backoffRelevantRevocations (eligibleConsensusStatuses [ex_ready ex_a True])
      (HighestDecidedRule (eligibleConsensusStatuses [ex_ready ex_a True])) = [?rv]" by code_simp
  have "GetAttempt (GetRecruitIntent ?rv) \<le> MaxInt64"
    "AsTime (ex_time 205) < AsTime (GetCoordinatorInitiatedAt ?rv) + 10 * 10 ^ 9" by code_simp+
  then show ?thesis
    using failover_gate_window [of "[ex_ready ex_a True]" ex_orch "AsTime (ex_time 205)"] unfolding relevant by auto
qed

end
