(* ===== verification/Grace_Period.thy ===== *)
theory Grace_Period
  imports Orch_Health
begin

text \<open>
  The grace periods of recovery actions: what each action asks for
  (go/services/multiorch/recovery/actions) and the tracker that counts a problem's time down while it
  stays detected (recovery/recovery_grace_period.go).

  A cycle is what one call of \<open>Reconcile\<close> works on: the detected problems, the clock when a key is
  first seen and the random generator (\<open>Int64N\<close>, a number below its argument) for it. The tracker
  reads the settings of the engine's configuration \<open>cfg\<close>.
\<close>

subsection \<open>What actions ask for\<close>

record GracePeriodConfig =
  BaseDelay :: duration
  MaxJitter :: duration

record RecoveryMetadata =
  rm_Name :: string
  rm_Timeout :: duration
  rm_LockTimeout :: duration
  rm_Retryable :: bool
  rm_RefreshBeforeRecheckTimeout :: duration

definition GetLockTimeout :: "RecoveryMetadata \<Rightarrow> duration" where
  "GetLockTimeout m = (if rm_LockTimeout m = 0 then seconds 15 else rm_LockTimeout m)"

definition AlertOnlyActionName :: string where "AlertOnlyActionName = ''AlertOnly''"

definition RuleWriteTimeout :: duration where "RuleWriteTimeout = seconds 30"

definition action_metadata :: "string \<Rightarrow> duration \<Rightarrow> duration \<Rightarrow> RecoveryMetadata" where
  "action_metadata name timeout refresh = \<lparr>rm_Name = name, rm_Timeout = timeout, rm_LockTimeout = seconds 15,
     rm_Retryable = True, rm_RefreshBeforeRecheckTimeout = refresh\<rparr>"

definition AppointLeader_Metadata :: "AvailabilityPolicy \<Rightarrow> RecoveryMetadata" where
  "AppointLeader_Metadata policy =
     action_metadata ''AppointLeader'' (2 * RuleWriteTimeout + seconds 5) (PreRecheckRefreshTimeout policy)"

definition AlertOnly_Metadata :: RecoveryMetadata where
  "AlertOnly_Metadata = \<lparr>rm_Name = AlertOnlyActionName, rm_Timeout = seconds 5,
     rm_LockTimeout = 0, rm_Retryable = False, rm_RefreshBeforeRecheckTimeout = 0\<rparr>"

definition ReconcileCohort_Metadata :: RecoveryMetadata where
  "ReconcileCohort_Metadata = action_metadata ''ReconcileCohort'' (seconds 30) 0"

definition ReconnectRecruitAbandoned_Metadata :: RecoveryMetadata where
  "ReconnectRecruitAbandoned_Metadata = action_metadata ''ReconnectRecruitAbandoned'' (seconds 30) 0"

definition FixReplication_Metadata :: RecoveryMetadata where
  "FixReplication_Metadata = action_metadata ''FixReplication'' (seconds 45) 0"

definition ShardInit_Metadata :: RecoveryMetadata where
  "ShardInit_Metadata = action_metadata ''ShardInit'' (2 * RuleWriteTimeout + seconds 5) 0"

definition DemoteStaleLeader_Metadata :: RecoveryMetadata where
  "DemoteStaleLeader_Metadata = action_metadata ''DemoteStaleLeader'' (seconds 60) 0"

primrec Action_Metadata :: "AvailabilityPolicy \<Rightarrow> RecoveryAction \<Rightarrow> RecoveryMetadata" where
  "Action_Metadata policy AppointLeaderAction = AppointLeader_Metadata policy"
| "Action_Metadata policy AlertOnlyAction = AlertOnly_Metadata"
| "Action_Metadata policy ReconcileCohortAction = ReconcileCohort_Metadata"
| "Action_Metadata policy ReconnectRecruitAbandonedAction = ReconnectRecruitAbandoned_Metadata"
| "Action_Metadata policy FixReplicationAction = FixReplication_Metadata"
| "Action_Metadata policy ShardInitAction = ShardInit_Metadata"
| "Action_Metadata policy DemoteStaleLeaderAction = DemoteStaleLeader_Metadata"

lemmas metadata_defs = AppointLeader_Metadata_def AlertOnly_Metadata_def ReconcileCohort_Metadata_def
  ReconnectRecruitAbandoned_Metadata_def FixReplication_Metadata_def ShardInit_Metadata_def
  DemoteStaleLeader_Metadata_def action_metadata_def

primrec RequiresHealthyLeader :: "RecoveryAction \<Rightarrow> bool" where
  "RequiresHealthyLeader AppointLeaderAction = False"
| "RequiresHealthyLeader AlertOnlyAction = False"
| "RequiresHealthyLeader ReconcileCohortAction = True"
| "RequiresHealthyLeader ReconnectRecruitAbandonedAction = True"
| "RequiresHealthyLeader FixReplicationAction = True"
| "RequiresHealthyLeader ShardInitAction = False"
| "RequiresHealthyLeader DemoteStaleLeaderAction = False"

primrec GracePeriod :: "OrchConfig \<Rightarrow> RecoveryAction \<Rightarrow> GracePeriodConfig ptr" where
  "GracePeriod cfg AppointLeaderAction = Some \<lparr>BaseDelay = cfg_LeaderFailoverGracePeriodBase cfg,
     MaxJitter = cfg_LeaderFailoverGracePeriodMaxJitter cfg\<rparr>"
| "GracePeriod cfg AlertOnlyAction = None"
| "GracePeriod cfg ReconcileCohortAction = None"
| "GracePeriod cfg ReconnectRecruitAbandonedAction = None"
| "GracePeriod cfg FixReplicationAction = None"
| "GracePeriod cfg ShardInitAction = None"
| "GracePeriod cfg DemoteStaleLeaderAction = None"

subsection \<open>The tracker\<close>

type_synonym gracePeriodKey = "ProblemCode \<times> string"
type_synonym deadline_map = "gracePeriodKey \<rightharpoonup> go_time"

record cycle =
  cyc_detected :: "Problem list"
  cyc_now :: "gracePeriodKey \<Rightarrow> go_time"
  cyc_Int64N :: "gracePeriodKey \<Rightarrow> int \<Rightarrow> int"

definition maxAllowedJitter :: duration where "maxAllowedJitter = seconds 60"

definition grace_key :: "Problem \<Rightarrow> gracePeriodKey" where
  "grace_key p = (pb_Code p, EntityID p)"

definition calculateDeadline :: "go_time \<Rightarrow> (int \<Rightarrow> int) \<Rightarrow> GracePeriodConfig \<Rightarrow> go_time" where
  "calculateDeadline now Int64N cfg =
     (let base = BaseDelay cfg;
          maxJitter = max 0 (min (MaxJitter cfg) maxAllowedJitter);
          jitter = (if maxJitter > 0 then Int64N maxJitter else 0)
      in now + wrap64 (base + jitter))"

definition reconcile_step ::
  "OrchConfig \<Rightarrow> cycle \<Rightarrow> gracePeriodKey set \<times> deadline_map \<Rightarrow> Problem \<Rightarrow> gracePeriodKey set \<times> deadline_map" where
  "reconcile_step cfg c st p =
     (let (stillActive, deadlines) = st
      in case GracePeriod cfg (pb_RecoveryAction p) of
           None \<Rightarrow> (stillActive, deadlines)
         | Some g \<Rightarrow>
             let key = grace_key p
             in (insert key stillActive,
                 if deadlines key = None
                 then deadlines(key \<mapsto> calculateDeadline (cyc_now c key) (cyc_Int64N c key) g)
                 else deadlines))"

definition Reconcile :: "OrchConfig \<Rightarrow> deadline_map \<Rightarrow> cycle \<Rightarrow> deadline_map" where
  "Reconcile cfg deadlines c =
     (let (stillActive, deadlines) = foldl (reconcile_step cfg c) ({}, deadlines) (cyc_detected c)
      in (\<lambda>key. if key \<in> stillActive then deadlines key else None))"

definition ForceExpireAll :: "deadline_map \<Rightarrow> deadline_map" where
  "ForceExpireAll deadlines = (\<lambda>key. map_option (\<lambda>_. zero_time) (deadlines key))"

definition ShouldExecute :: "OrchConfig \<Rightarrow> go_time \<Rightarrow> deadline_map \<Rightarrow> Problem \<Rightarrow> go_time \<times> bool" where
  "ShouldExecute cfg now deadlines problem =
     (if GracePeriod cfg (pb_RecoveryAction problem) = None then (zero_time, True)
      else case deadlines (grace_key problem) of
             None \<Rightarrow> (zero_time, False)
           | Some deadline \<Rightarrow> if now > deadline \<or> now = deadline then (deadline, True) else (deadline, False))"

section \<open>What the deadlines mean\<close>

text \<open>
  The specification: the deadline of a key depends on the longest run of latest cycles that all
  detected it, and only on the oldest cycle of that run.
\<close>

definition tracked :: "OrchConfig \<Rightarrow> gracePeriodKey \<Rightarrow> cycle \<Rightarrow> Problem option" where
  "tracked cfg key c = find (\<lambda>p. GracePeriod cfg (pb_RecoveryAction p) \<noteq> None \<and> grace_key p = key) (cyc_detected c)"

definition fresh_deadline :: "OrchConfig \<Rightarrow> gracePeriodKey \<Rightarrow> cycle \<Rightarrow> go_time option" where
  "fresh_deadline cfg key c =
     (case tracked cfg key c of
        None \<Rightarrow> None
      | Some p \<Rightarrow> map_option (calculateDeadline (cyc_now c key) (cyc_Int64N c key))
                    (GracePeriod cfg (pb_RecoveryAction p)))"

definition detected_run :: "OrchConfig \<Rightarrow> gracePeriodKey \<Rightarrow> cycle list \<Rightarrow> cycle list" where
  "detected_run cfg key cycles = takeWhile (\<lambda>c. tracked cfg key c \<noteq> None) (rev cycles)"

definition spec_deadline :: "OrchConfig \<Rightarrow> cycle list \<Rightarrow> deadline_map" where
  "spec_deadline cfg cycles key =
     (case rev (detected_run cfg key cycles) of [] \<Rightarrow> None | c # _ \<Rightarrow> fresh_deadline cfg key c)"

lemma reconcile_fold:
  "foldl (reconcile_step cfg c) (A, d) ps =
     (A \<union> grace_key ` set (filter (\<lambda>p. GracePeriod cfg (pb_RecoveryAction p) \<noteq> None) ps),
      \<lambda>key. if d key \<noteq> None then d key
            else fresh_deadline cfg key (c\<lparr>cyc_detected := ps\<rparr>))"
proof (induction ps rule: rev_induct)
  case Nil
  then show ?case by (auto simp: fresh_deadline_def tracked_def)
next
  case (snoc p ps)
  show ?case
  proof (cases "GracePeriod cfg (pb_RecoveryAction p)")
    case None
    with snoc show ?thesis
      by (auto simp: reconcile_step_def fresh_deadline_def tracked_def find_snoc fun_eq_iff split: option.splits)
  next
    case (Some g)
    with snoc show ?thesis
      by (auto simp: reconcile_step_def fresh_deadline_def tracked_def find_snoc fun_eq_iff Let_def dest: find_SomeD
          split: option.splits)
  qed
qed

lemma tracked_iff:
  "tracked cfg key c \<noteq> None \<longleftrightarrow>
     key \<in> grace_key ` set (filter (\<lambda>p. GracePeriod cfg (pb_RecoveryAction p) \<noteq> None) (cyc_detected c))"
  by (auto simp: tracked_def find_None_iff simp del: not_None_eq)

lemma fresh_deadline_None: "fresh_deadline cfg key c = None \<longleftrightarrow> tracked cfg key c = None"
  by (auto simp: fresh_deadline_def tracked_def split: option.splits dest: find_SomeD)

lemma Reconcile_alt:
  "Reconcile cfg d c key =
     (if tracked cfg key c = None then None else if d key \<noteq> None then d key else fresh_deadline cfg key c)"
proof -
  have same: "c\<lparr>cyc_detected := cyc_detected c\<rparr> = c" by simp
  have "foldl (reconcile_step cfg c) ({}, d) (cyc_detected c) =
     (grace_key ` set (filter (\<lambda>p. GracePeriod cfg (pb_RecoveryAction p) \<noteq> None) (cyc_detected c)),
      \<lambda>key. if d key \<noteq> None then d key else fresh_deadline cfg key c)"
    using reconcile_fold [of cfg c "{}" d "cyc_detected c"] unfolding same by simp
  then show ?thesis
    using tracked_iff [of cfg key c] by (auto simp: Reconcile_def simp del: not_None_eq)
qed

text \<open>
  C30: the tracker implements its specification: after any sequence of cycles a deadline is held
  exactly for the problems with a grace period that the last cycle detected, and it is the one set
  when the current uninterrupted run of detections began, whatever the later cycles brought.
\<close>

theorem Reconcile_refines_spec:
  "foldl (Reconcile cfg) Map.empty cycles = spec_deadline cfg cycles"
proof (induction cycles rule: rev_induct)
  case Nil
  show ?case by (intro ext) (simp add: spec_deadline_def detected_run_def)
next
  case (snoc c cycles)
  show ?case
  proof
    fix key
    have held: "spec_deadline cfg cycles key \<noteq> None \<longleftrightarrow> detected_run cfg key cycles \<noteq> []"
    proof (cases "rev (detected_run cfg key cycles)")
      case (Cons x xs)
      then have "x \<in> set (detected_run cfg key cycles)" by (metis list.set_intros(1) set_rev)
      then have "tracked cfg key x \<noteq> None" by (auto simp: detected_run_def dest: set_takeWhileD)
      then have "fresh_deadline cfg key x \<noteq> None" by (simp only: fresh_deadline_None not_False_eq_True)
      with Cons show ?thesis by (auto simp: spec_deadline_def simp del: not_None_eq)
    qed (simp add: spec_deadline_def)
    have run: "detected_run cfg key (cycles @ [c]) =
        (if tracked cfg key c \<noteq> None then c # detected_run cfg key cycles else [])"
      by (simp add: detected_run_def)
    have "foldl (Reconcile cfg) Map.empty (cycles @ [c]) key = Reconcile cfg (spec_deadline cfg cycles) c key"
      by (simp add: snoc)
    also have "\<dots> = spec_deadline cfg (cycles @ [c]) key"
      using held by (cases "rev (detected_run cfg key cycles)")
        (auto simp: Reconcile_alt spec_deadline_def run simp del: not_None_eq)
    finally show "foldl (Reconcile cfg) Map.empty (cycles @ [c]) key = spec_deadline cfg (cycles @ [c]) key" .
  qed
qed

text \<open>
  Hence an action with a grace period runs only after its problem has been detected in every cycle
  for at least the base delay.
\<close>

lemma GracePeriod_unique:
  "GracePeriod cfg a = Some g \<Longrightarrow> GracePeriod cfg b = Some h \<Longrightarrow> g = h"
  by (cases a; cases b) simp_all

lemma calculateDeadline_ge:
  assumes "0 \<le> BaseDelay g" "BaseDelay g + maxAllowedJitter \<le> MaxInt64" "\<And>n. 0 < n \<Longrightarrow> 0 \<le> draw n \<and> draw n < n"
  shows "now + BaseDelay g \<le> calculateDeadline now draw g"
proof -
  let ?m = "max 0 (min (MaxJitter g) maxAllowedJitter)"
  let ?j = "if ?m > 0 then draw ?m else 0"
  have m: "?m \<le> maxAllowedJitter" by (simp add: maxAllowedJitter_def seconds_def)
  have j: "0 \<le> ?j \<and> ?j \<le> maxAllowedJitter"
  proof (cases "?m > 0")
    case True
    then have j: "?j = draw ?m" by (rule if_P)
    show ?thesis using assms(3) [OF True] m unfolding j by linarith
  qed (simp add: maxAllowedJitter_def seconds_def)
  then have "wrap64 (BaseDelay g + ?j) = BaseDelay g + ?j"
    using assms(1,2) by (intro wrap64_id is_int64I) (simp_all add: MinInt64_def)
  with j show ?thesis by (simp add: calculateDeadline_def Let_def)
qed

lemma ShouldExecute_after_base_delay:
  assumes "ShouldExecute cfg now (spec_deadline cfg cycles) p = (deadline, True)"
    and g: "GracePeriod cfg (pb_RecoveryAction p) = Some g"
    and "0 \<le> BaseDelay g" "BaseDelay g + maxAllowedJitter \<le> MaxInt64"
    and "\<And>(c :: cycle) n. 0 < n \<Longrightarrow> 0 \<le> cyc_Int64N c (grace_key p) n \<and> cyc_Int64N c (grace_key p) n < n"
  shows "\<exists>earlier run. cycles = earlier @ run \<and> run \<noteq> [] \<and>
    (\<forall>c \<in> set run. tracked cfg (grace_key p) c \<noteq> None) \<and>
    cyc_now (hd run) (grace_key p) + BaseDelay g \<le> now"
proof -
  let ?k = "grace_key p" and ?run = "rev (detected_run cfg (grace_key p) cycles)"
  have "rev cycles = detected_run cfg ?k cycles @ dropWhile (\<lambda>c. tracked cfg ?k c \<noteq> None) (rev cycles)"
    by (simp add: detected_run_def)
  then have "cycles = rev (dropWhile (\<lambda>c. tracked cfg ?k c \<noteq> None) (rev cycles)) @ ?run"
    by (metis rev_append rev_rev_ident)
  moreover have all: "\<forall>c \<in> set ?run. tracked cfg ?k c \<noteq> None"
    unfolding detected_run_def set_rev by (blast dest: set_takeWhileD)
  moreover obtain c rest where c: "?run = c # rest" and d: "fresh_deadline cfg ?k c = Some deadline" "deadline \<le> now"
    using assms(1) g by (auto simp: ShouldExecute_def spec_deadline_def split: option.splits list.splits if_splits)
  moreover have "cyc_now c ?k + BaseDelay g \<le> calculateDeadline (cyc_now c ?k) (cyc_Int64N c ?k) g"
    by (rule calculateDeadline_ge [OF assms(3,4)]) (rule assms(5))
  then have "cyc_now c ?k + BaseDelay g \<le> deadline"
    using d(1) GracePeriod_unique [OF g]
    by (auto simp: fresh_deadline_def split: option.splits)
  ultimately show ?thesis by (metis list.sel(1) list.simps(3) order_trans)
qed

end
