(* ===== verification/Recovery_Loop.thy ===== *)
theory Recovery_Loop
  imports Shard_Analysis Failover_Choice Grace_Period
begin

text \<open>
  The recovery loop of an orchestrator: freezing shards from the pooler cache
  (go/services/multiorch/store/snapshot.go, pooler_store.go), the analysers it runs
  (recovery/analysis/analyzer.go) and the loop itself (recovery/recovery_loop.go): detect, gate, rank,
  recheck, act.

  The cache is a list of entries, a shard key with the health of a pooler (\<open>None\<close> for a rider or a
  health that is missing). It changes under the loop, so every read is an argument: \<open>cache\<close> when a
  cycle or a recheck reads it, \<open>refresh\<close> for what a live refresh makes of it before a recheck, and
  \<open>gate\<close> for the clock and the cache as a gate reads them, which is a read of its own each time.
  Shards are processed in parallel and independently; \<open>processShardProblems\<close> returns the problems it
  starts an attempt for.
\<close>

subsection \<open>Freezing shards\<close>

record cache_view =
  cv_entries :: "(ShardKey ptr \<times> PoolerHealthState ptr) list"
  cv_tombstones :: "ID ptr list"

record SnapshotOptions =
  so_Now :: go_time
  so_AvailabilityPolicy :: AvailabilityPolicy
  so_BootstrapDurabilityPolicy :: "(string \<Rightarrow> DurabilityPolicyPb ptr) option"

primrec component_number :: "ComponentType \<Rightarrow> int" where
  "component_number COMPONENT_UNKNOWN = 0"
| "component_number MULTIPOOLER = 1"
| "component_number MULTIGATEWAY = 2"
| "component_number MULTIORCH = 3"
| "component_number (ComponentUnrecognized n) = n"

definition cmp_Compare :: "'a :: linorder \<Rightarrow> 'a \<Rightarrow> int" where
  "cmp_Compare x y = (if x < y then - 1 else if y < x then 1 else 0)"

definition cmp_Or :: "int list \<Rightarrow> int" where
  "cmp_Or xs = (case find (\<lambda>x. x \<noteq> 0) xs of None \<Rightarrow> 0 | Some x \<Rightarrow> x)"

definition comparePoolers :: "PoolerHealthState ptr \<Rightarrow> PoolerHealthState ptr \<Rightarrow> int" where
  "comparePoolers a b =
     (let aID = Multipooler_GetId (GetMultipooler a); bID = Multipooler_GetId (GetMultipooler b)
      in cmp_Or [cmp_Compare (component_number (GetComponent aID)) (component_number (GetComponent bID)),
                 cmp_Compare (GetCell aID) (GetCell bID),
                 cmp_Compare (GetName aID) (GetName bID)])"

definition healthOf :: "PoolerHealthState ptr \<Rightarrow> PoolerHealthState ptr" where
  "healthOf health = (if Multipooler_GetId (GetMultipooler health) = None then None else health)"

definition tombstoneIDs :: "cache_view \<Rightarrow> string set" where
  "tombstoneIDs cache = set (map ComponentIDString (cv_tombstones cache))"

definition newShard ::
  "ShardKey ptr \<Rightarrow> PoolerHealthState ptr list \<Rightarrow> string set \<Rightarrow> SnapshotOptions \<Rightarrow> Shard" where
  "newShard shardKey poolers tombstones opts = \<lparr>sa_ShardKey = shardKey,
     sa_Poolers = SortFunc comparePoolers poolers, sa_Now = so_Now opts,
     sa_AvailabilityPolicy = so_AvailabilityPolicy opts, sa_TombstoneIDs = tombstones,
     sa_BootstrapDurabilityPolicy = (case so_BootstrapDurabilityPolicy opts of
        None \<Rightarrow> None | Some lookup \<Rightarrow> lookup (GetDatabase shardKey))\<rparr>"

definition snapshot_step ::
  "(string \<times> ShardKey ptr \<times> PoolerHealthState ptr list) list \<Rightarrow> ShardKey ptr \<times> PoolerHealthState ptr \<Rightarrow>
     (string \<times> ShardKey ptr \<times> PoolerHealthState ptr list) list" where
  "snapshot_step byKey entry =
     (let (key, rider) = entry; health = healthOf rider; i = FormatShardKey key
      in if health = None then byKey
         else case map_of byKey i of
                None \<Rightarrow> AList.update i (key, [health]) byKey
              | Some (k, poolers) \<Rightarrow> AList.update i (k, poolers @ [health]) byKey)"

definition SnapshotShards ::
  "((string \<times> ShardKey ptr \<times> PoolerHealthState ptr list) list \<Rightarrow>
      (string \<times> ShardKey ptr \<times> PoolerHealthState ptr list) list) \<Rightarrow>
     cache_view \<Rightarrow> SnapshotOptions \<Rightarrow> Shard list" where
  "SnapshotShards order cache opts =
     map (\<lambda>(_, key, poolers). newShard key poolers (tombstoneIDs cache) opts)
       (order (foldl snapshot_step [] (cv_entries cache)))"

definition view_GetByShard :: "cache_view \<Rightarrow> ShardKey ptr \<Rightarrow> PoolerHealthState ptr list" where
  "view_GetByShard cache shardKey = map snd (filter (\<lambda>(key, _).
     GetDatabase key = GetDatabase shardKey \<and> GetTableGroup key = GetTableGroup shardKey \<and>
     GetShard key = GetShard shardKey) (cv_entries cache))"

datatype recovery_error =
    RecErr_ShardNotFound string
  | RecErr_Analyzer string analysis_error
  | RecErr_AnalyzerNotFound string

definition SnapshotShard ::
  "cache_view \<Rightarrow> ShardKey ptr \<Rightarrow> SnapshotOptions \<Rightarrow> recovery_error + Shard" where
  "SnapshotShard cache shardKey opts =
     (let poolers = filter (\<lambda>h. h \<noteq> None) (map healthOf (view_GetByShard cache shardKey))
      in if length poolers = 0 then Inl (RecErr_ShardNotFound (FormatShardKey shardKey))
         else Inr (newShard shardKey poolers (tombstoneIDs cache) opts))"

subsection \<open>The analysers\<close>

text \<open>The outcome of an analyser: a panic (\<open>Inl\<close>), or problems with an error it returned.\<close>

type_synonym analysis_outcome = "analysis_error + Problem list \<times> analysis_error option"

definition is_panic :: "analysis_error \<Rightarrow> bool" where
  "is_panic e \<longleftrightarrow> e = AErr_NilPoolerID \<or> e = AErr_NilConfig"

definition outcome_of :: "analysis_error + Problem list \<Rightarrow> analysis_outcome" where
  "outcome_of r = (case r of Inl e \<Rightarrow> if is_panic e then Inl e else Inr ([], Some e) | Inr ps \<Rightarrow> Inr (ps, None))"

definition NewRecoveryActionFactory :: "OrchConfig ptr \<Rightarrow> RecoveryActionFactory" where
  "NewRecoveryActionFactory cfg = \<lparr>rf_config = cfg, rf_policy = DefaultAvailabilityPolicy\<rparr>"

definition DefaultAnalyzers ::
  "((string \<times> ID ptr) list \<Rightarrow> (string \<times> ID ptr) list) \<Rightarrow> go_time \<Rightarrow> RecoveryActionFactory ptr \<Rightarrow>
     (string \<times> (Shard \<Rightarrow> analysis_outcome)) list" where
  "DefaultAnalyzers order wall factory =
     [(''ShardNeedsInitialization'', \<lambda>sa. outcome_of (ShardNeedsInitialization_Analyze factory sa)),
      (''StaleLeader'', \<lambda>sa. outcome_of (StaleLeader_Analyze factory sa)),
      (''LeaderNeedsReplacement'', \<lambda>sa. outcome_of (LeaderNeedsReplacement_Analyze factory wall sa)),
      (''ReplicaRecruitAbandoned'', RecruitAbandoned_Analyze factory),
      (''ReplicaNotReplicating'', ReplicaNotReplicating_Analyze factory),
      (''CohortMismatch'', \<lambda>sa. outcome_of (CohortMismatch_Analyze order factory sa))]"

subsection \<open>The gates\<close>

record Engine =
  eng_coordinatorID :: "ID ptr"
  eng_config :: OrchConfig
  eng_recruitmentBackoff :: BackoffSchedule
  eng_deadlines :: deadline_map
  eng_detectedProblems :: "Problem list"

definition nextFailoverAttempt :: "Engine \<Rightarrow> go_time \<Rightarrow> cache_view \<Rightarrow> ShardKey ptr \<Rightarrow> go_time \<times> bool" where
  "nextFailoverAttempt re now cache shardKey =
     NextFailoverAttempt (eng_coordinatorID re) now (view_GetByShard cache shardKey) (eng_recruitmentBackoff re)"

definition readyToExecute :: "Engine \<Rightarrow> go_time \<Rightarrow> cache_view \<Rightarrow> Problem \<Rightarrow> go_time \<times> bool" where
  "readyToExecute re now cache problem =
     (if IsFailoverProblem (pb_Code problem) then nextFailoverAttempt re now cache (pb_ShardKey problem)
      else ShouldExecute (eng_config re) now (eng_deadlines re) problem)"

subsection \<open>Choosing what to act on\<close>

definition is_alert_only :: "Problem \<Rightarrow> bool" where
  "is_alert_only p \<longleftrightarrow> rm_Name (Action_Metadata DefaultAvailabilityPolicy (pb_RecoveryAction p)) = AlertOnlyActionName"

definition groupProblemsByShard :: "Problem list \<Rightarrow> (string \<times> Problem list) list" where
  "groupProblemsByShard problems =
     foldl (\<lambda>grouped p. let key = FormatShardKey (pb_ShardKey p)
         in AList.update key ((case map_of grouped key of None \<Rightarrow> [] | Some ps \<Rightarrow> ps) @ [p]) grouped)
       [] problems"

definition hasLeaderProblem :: "Problem list \<Rightarrow> bool" where
  "hasLeaderProblem problems = list_ex IsShardWide problems"

definition candidate_step :: "string set \<times> Problem list \<Rightarrow> Problem \<Rightarrow> string set \<times> Problem list" where
  "candidate_step st p =
     (let (seen, candidates) = st; i = ComponentIDString (pb_PoolerID p)
      in if IsShardWide p then st
         else if i \<notin> seen then (insert i seen, candidates @ [p])
         else st)"

definition filterAndPrioritize :: "(Problem \<Rightarrow> go_time \<times> bool) \<Rightarrow> Problem list \<Rightarrow> Problem list" where
  "filterAndPrioritize ready problems =
     (let actionable = filter (\<lambda>p. \<not> is_alert_only p) problems
      in if length actionable = 0 then []
         else
           let actionable = sort_key (\<lambda>p. - pb_Priority p) actionable;
               shardWideProblems = filter IsShardWide actionable;
               readyShardWide = filter (\<lambda>p. snd (ready p)) shardWideProblems
           in if length readyShardWide > 0 then [readyShardWide ! 0]
              else
                let candidates = snd (foldl candidate_step ({}, []) actionable)
                in filter (\<lambda>p. snd (ready p)) candidates)"

definition processShardProblems :: "(Problem \<Rightarrow> go_time \<times> bool) \<Rightarrow> Problem list \<Rightarrow> Problem list" where
  "processShardProblems ready problems =
     filter (\<lambda>p. \<not> (RequiresHealthyLeader (pb_RecoveryAction p) \<and> hasLeaderProblem problems))
       (filterAndPrioritize ready problems)"

subsection \<open>Acting\<close>

record RecheckedProblem =
  rp_Problem :: Problem
  rp_HighestKnownRule :: "RulePosition ptr"

text \<open>\<open>None\<close> in the right summand: the problem is no longer detected.\<close>

definition recheckProblem ::
  "(string \<times> (Shard \<Rightarrow> analysis_outcome)) list \<Rightarrow> cache_view \<Rightarrow> SnapshotOptions \<Rightarrow> Problem \<Rightarrow>
     recovery_error + RecheckedProblem option" where
  "recheckProblem analyzers cache opts problem =
     (case SnapshotShard cache (pb_ShardKey problem) opts of
        Inl err \<Rightarrow> Inl err
      | Inr snap \<Rightarrow>
          let rule = HighestIntendedRule snap
          in case find (\<lambda>(name, _). name = pb_CheckName problem) analyzers of
               None \<Rightarrow> Inl (RecErr_AnalyzerNotFound (pb_CheckName problem))
             | Some (name, analyze) \<Rightarrow>
                 (case analyze snap of
                    Inl panic \<Rightarrow> Inl (RecErr_Analyzer name panic)
                  | Inr (redetected, Some err) \<Rightarrow> Inl (RecErr_Analyzer name err)
                  | Inr (redetected, None) \<Rightarrow>
                      Inr (map_option (\<lambda>p. \<lparr>rp_Problem = p, rp_HighestKnownRule = rule\<rparr>)
                        (find (\<lambda>p. pb_Code p = pb_Code problem \<and>
                           (IsShardWide problem \<or> pb_PoolerID p = pb_PoolerID problem)) redetected))))"

datatype attempt_result =
    AlertOnly
  | RecheckFailed recovery_error
  | ProblemResolved
  | GatedAfterRecheck go_time
  | Executes RecoveryAction RecheckedProblem

text \<open>The failover gate is read again after the recheck, from the clock and the cache as they are then (\<open>gate\<close>).\<close>

definition attemptRecovery ::
  "Engine \<Rightarrow> (string \<times> (Shard \<Rightarrow> analysis_outcome)) list \<Rightarrow> (cache_view \<Rightarrow> cache_view) \<Rightarrow> cache_view \<Rightarrow>
     SnapshotOptions \<Rightarrow> go_time \<times> cache_view \<Rightarrow> Problem \<Rightarrow> attempt_result" where
  "attemptRecovery re analyzers refresh cache opts gate problem =
     (if is_alert_only problem then AlertOnly
      else
        let metadata = Action_Metadata DefaultAvailabilityPolicy (pb_RecoveryAction problem);
            cache = (if rm_RefreshBeforeRecheckTimeout metadata > 0 \<and> \<not> pb_SkipPreRecheckRefresh problem
                     then refresh cache else cache)
        in case recheckProblem analyzers cache opts problem of
             Inl err \<Rightarrow> RecheckFailed err
           | Inr None \<Rightarrow> ProblemResolved
           | Inr (Some rechecked) \<Rightarrow>
               let (readyAt, ready) = readyToExecute re (fst gate) (snd gate) (rp_Problem rechecked)
               in if IsFailoverProblem (pb_Code (rp_Problem rechecked)) \<and> \<not> ready
                  then GatedAfterRecheck readyAt
                  else Executes (pb_RecoveryAction problem) rechecked)"

text \<open>
  One cycle: the problems of every shard, recorded with the new deadlines, and for each shard the problems for
  which an attempt is started. Each gate reads the clock and the cache for itself (\<open>gate\<close>).
\<close>

definition detect_problems ::
  "(string \<times> (Shard \<Rightarrow> analysis_outcome)) list \<Rightarrow> Shard list \<Rightarrow> analysis_error + Problem list" where
  "detect_problems analyzers snaps =
     foldl (\<lambda>acc (snap, analyzer).
         case acc of
           Inl panic \<Rightarrow> Inl panic
         | Inr problems \<Rightarrow>
             (case snd analyzer snap of
                Inl panic \<Rightarrow> Inl panic
              | Inr (detected, err) \<Rightarrow> Inr (problems @ detected)))
       (Inr []) (List.product snaps analyzers)"

definition performRecoveryCycle ::
  "Engine \<Rightarrow> (string \<times> (Shard \<Rightarrow> analysis_outcome)) list \<Rightarrow> (Problem list \<Rightarrow> cycle) \<Rightarrow> (Problem \<Rightarrow> go_time \<times> cache_view) \<Rightarrow>
     ((string \<times> ShardKey ptr \<times> PoolerHealthState ptr list) list \<Rightarrow>
        (string \<times> ShardKey ptr \<times> PoolerHealthState ptr list) list) \<Rightarrow>
     cache_view \<Rightarrow> SnapshotOptions \<Rightarrow> analysis_error + Engine \<times> (string \<times> Problem list) list" where
  "performRecoveryCycle re analyzers cyc gate shardOrder cache opts =
     (case detect_problems analyzers (SnapshotShards shardOrder cache opts) of
        Inl panic \<Rightarrow> Inl panic
      | Inr problems \<Rightarrow>
          let re = re\<lparr>eng_deadlines := Reconcile (eng_config re) (eng_deadlines re) (cyc problems),
                      eng_detectedProblems := problems\<rparr>
          in Inr (re, map (\<lambda>(key, ps).
                 (key, processShardProblems (\<lambda>p. readyToExecute re (fst (gate p)) (snd (gate p)) p) ps))
               (groupProblemsByShard problems)))"


section \<open>What is acted on\<close>

abbreviation pooler_key :: "Problem \<Rightarrow> string" where
  "pooler_key p \<equiv> ComponentIDString (pb_PoolerID p)"

lemma sorted_by_priority:
  "sorted_wrt (\<lambda>a b. pb_Priority b \<le> pb_Priority a) (sort_key (\<lambda>p. - pb_Priority p) ps)"
  using sorted_sort_key [of "\<lambda>p. - pb_Priority p" ps] by (simp add: sorted_wrt_map)

lemma first_of_filter_greatest:
  assumes "sorted_wrt (\<lambda>a b. pb_Priority b \<le> pb_Priority a) xs" "filter P xs \<noteq> []" "q \<in> set xs" "P q"
  shows "pb_Priority q \<le> pb_Priority (filter P xs ! 0)"
proof -
  obtain y ys where y: "filter P xs = y # ys" using assms(2) by (cases "filter P xs") auto
  have "sorted_wrt (\<lambda>a b. pb_Priority b \<le> pb_Priority a) (y # ys)"
    using sorted_wrt_filter [OF assms(1), of P] y by simp
  moreover have "q \<in> set (y # ys)" using assms(3,4) by (simp flip: y)
  ultimately show ?thesis by (auto simp: y)
qed

lemma candidates_first:
  assumes "sorted_wrt (\<lambda>a b. pb_Priority b \<le> pb_Priority a) xs"
    and "foldl candidate_step ({}, []) xs = (seen, cs)"
  shows "seen = pooler_key ` {p \<in> set xs. \<not> IsShardWide p} \<and> distinct (map pooler_key cs) \<and>
    pooler_key ` set cs = seen \<and>
    (\<forall>p \<in> set cs. p \<in> set xs \<and> \<not> IsShardWide p \<and>
       (\<forall>q \<in> set xs. \<not> IsShardWide q \<and> pooler_key q = pooler_key p \<longrightarrow> pb_Priority q \<le> pb_Priority p))"
  using assms
proof (induction xs arbitrary: seen cs rule: rev_induct)
  case (snoc p xs)
  obtain seen0 cs0 where before: "foldl candidate_step ({}, []) xs = (seen0, cs0)" by fastforce
  have sorted: "sorted_wrt (\<lambda>a b. pb_Priority b \<le> pb_Priority a) xs"
    and last: "\<forall>q \<in> set xs. pb_Priority p \<le> pb_Priority q"
    using snoc.prems(1) by (auto simp: sorted_wrt_append)
  note IH = snoc.IH [OF sorted before]
  have step: "candidate_step (seen0, cs0) p = (seen, cs)" using snoc.prems(2) before by simp
  consider "IsShardWide p \<or> pooler_key p \<in> seen0" "seen = seen0" "cs = cs0"
    | "\<not> IsShardWide p" "pooler_key p \<notin> seen0" "seen = insert (pooler_key p) seen0" "cs = cs0 @ [p]"
    using step by (auto simp: candidate_step_def Let_def split: if_splits)
  then show ?case
  proof cases
    case 1
    with IH last show ?thesis by auto
  next
    case 2
    with IH last show ?thesis by (auto simp: image_iff)
  qed
qed simp

lemma filterAndPrioritize_alt:
  assumes "xs = sort_key (\<lambda>p. - pb_Priority p) (filter (\<lambda>p. \<not> is_alert_only p) problems)"
    and "foldl candidate_step ({}, []) xs = (seen, cs)"
  shows "filterAndPrioritize ready problems =
     (if filter (\<lambda>p. IsShardWide p \<and> snd (ready p)) xs \<noteq> []
      then [filter (\<lambda>p. IsShardWide p \<and> snd (ready p)) xs ! 0] else filter (\<lambda>p. snd (ready p)) cs)"
proof (cases "xs = []")
  case True
  then have "filter (\<lambda>p. \<not> is_alert_only p) problems = []" by (metis assms(1) length_0_conv length_sort)
  with True assms(2) show ?thesis by (simp add: filterAndPrioritize_def)
next
  case False
  then have "filter (\<lambda>p. \<not> is_alert_only p) problems \<noteq> []" using assms(1) by auto
  then show ?thesis
    by (simp add: filterAndPrioritize_def Let_def assms(2) conj_commute flip: assms(1))
qed

text \<open>
  The engine acts on ready problems only and never on alerts. When a shard-wide problem is ready
  it acts on one of the highest priority among these and on nothing else; otherwise it acts on
  problems of distinct poolers, each of the highest priority among those of its pooler.
\<close>

theorem filterAndPrioritize_choice:
  fixes ready problems
  defines "chosen \<equiv> filterAndPrioritize ready problems"
  defines "candidate \<equiv> \<lambda>p. p \<in> set problems \<and> \<not> is_alert_only p"
  defines "wide \<equiv> {p. candidate p \<and> IsShardWide p \<and> snd (ready p)}"
  shows "(\<forall>p \<in> set chosen. candidate p \<and> snd (ready p)) \<and>
    (wide \<noteq> {} \<longrightarrow> (\<exists>p \<in> wide. chosen = [p] \<and> (\<forall>q \<in> wide. pb_Priority q \<le> pb_Priority p))) \<and>
    (wide = {} \<longrightarrow> distinct (map pooler_key chosen) \<and>
       (\<forall>p \<in> set chosen. \<not> IsShardWide p \<and>
          (\<forall>q. candidate q \<and> \<not> IsShardWide q \<and> pooler_key q = pooler_key p \<longrightarrow> pb_Priority q \<le> pb_Priority p)))"
proof -
  define xs where "xs = sort_key (\<lambda>p. - pb_Priority p) (filter (\<lambda>p. \<not> is_alert_only p) problems)"
  have set: "p \<in> set xs \<longleftrightarrow> candidate p" for p by (simp add: xs_def candidate_def conj_commute)
  have sorted: "sorted_wrt (\<lambda>a b. pb_Priority b \<le> pb_Priority a) xs" by (simp add: xs_def sorted_by_priority)
  let ?P = "\<lambda>p. IsShardWide p \<and> snd (ready p)"
  have wide: "wide = set (filter ?P xs)" by (auto simp: wide_def set)
  obtain seen cs where cs: "foldl candidate_step ({}, []) xs = (seen, cs)" by fastforce
  note chosen = filterAndPrioritize_alt [OF xs_def cs, of ready, folded chosen_def]
  note first = candidates_first [OF sorted cs]
  show ?thesis
  proof (cases "filter ?P xs = []")
    case True
    then have "wide = {}" by (simp add: wide)
    moreover from True have "chosen = filter (\<lambda>p. snd (ready p)) cs" by (simp add: chosen)
    ultimately show ?thesis using first by (auto simp: set distinct_map_filter)
  next
    case False
    let ?p = "filter ?P xs ! 0"
    have p: "?p \<in> set (filter ?P xs)" using False by (cases "filter ?P xs") auto
    have "\<forall>q \<in> wide. pb_Priority q \<le> pb_Priority ?p"
      using first_of_filter_greatest [OF sorted False] by (auto simp: wide)
    with p False show ?thesis by (auto simp: chosen wide set)
  qed
qed


subsection \<open>Failover problems come from one analyser\<close>

lemma CohortMismatch_codes:
  assumes "CohortMismatch_Analyze order factory sa = Inr ps" "p \<in> set ps"
  shows "\<not> IsFailoverProblem (pb_Code p)"
proof -
  have poolers: "\<forall>p \<in> set problems. \<not> IsFailoverProblem (pb_Code p)"
    if "foldl (mismatch_pooler sa rule (index_by ComponentIDString (GetCohortMembers rule)))
          (Inr ({}, [])) (sa_Poolers sa) = Inr (seen, problems)" for rule seen problems
    using mismatch_poolers [OF that]
    by (fastforce simp: cohort_candidate_def cohortProblem_def IsFailoverProblem_def Let_def)
  have late: "\<not> IsFailoverProblem (pb_Code (cohortProblem sa ProblemCohortMemberIneligible i))" for i
    by (simp add: cohortProblem_def IsFailoverProblem_def)
  show ?thesis using assms late
    by (auto simp: CohortMismatch_Analyze_def Let_def simp del: not_None_eq
        split: if_splits sum.splits prod.splits dest!: poolers)
qed

lemma scan_codes:
  "RecruitAbandoned_Analyze factory sa = Inr (ps, e) \<Longrightarrow> p \<in> set ps \<Longrightarrow> pb_Code p = ProblemReplicaRecruitAbandoned"
  "ReplicaNotReplicating_Analyze factory sa = Inr (qs, e') \<Longrightarrow> q \<in> set qs \<Longrightarrow> pb_Code q = ProblemReplicaNotReplicating"
  unfolding RecruitAbandoned_Analyze_def ReplicaNotReplicating_Analyze_def
  by (auto simp: analyzeAllPoolers_problem dest: RecruitAbandoned_reported ReplicaNotReplicating_reported)

lemma StaleLeader_code: "StaleLeader_Analyze factory sa = Inr ps \<Longrightarrow> p \<in> set ps \<Longrightarrow> pb_Code p = ProblemStaleLeader"
  by (auto simp: StaleLeader_Analyze_def Let_def staleProblem_def split: if_splits)

lemma Initialization_code:
  "ShardNeedsInitialization_Analyze factory sa = Inr ps \<Longrightarrow> p \<in> set ps \<Longrightarrow>
     pb_Code p = ProblemShardNeedsInitialization"
  by (auto simp: ShardNeedsInitialization_Analyze_def Let_def split: if_splits sum.splits)

lemmas problem_codes = CohortMismatch_codes scan_codes StaleLeader_code Initialization_code

lemma outcome_of_problem: "outcome_of r = Inr (ps, e) \<Longrightarrow> p \<in> set ps \<Longrightarrow> r = Inr ps"
  by (auto simp: outcome_of_def split: sum.splits if_splits)

lemma failover_from_leader_analyser:
  assumes "(name, analyze) \<in> set (DefaultAnalyzers order wall factory)" "analyze sa = Inr (ps, e)"
    and "p \<in> set ps" "IsFailoverProblem (pb_Code p)"
  shows "LeaderNeedsReplacement_Analyze factory wall sa = Inr ps"
proof -
  have "\<not> IsFailoverProblem ProblemReplicaRecruitAbandoned" "\<not> IsFailoverProblem ProblemReplicaNotReplicating"
    "\<not> IsFailoverProblem ProblemStaleLeader" "\<not> IsFailoverProblem ProblemShardNeedsInitialization"
    by (simp_all add: IsFailoverProblem_def)
  then show ?thesis using assms
    by (auto simp: DefaultAnalyzers_def dest!: outcome_of_problem dest: problem_codes)
qed

definition recheck_view :: "(cache_view \<Rightarrow> cache_view) \<Rightarrow> cache_view \<Rightarrow> Problem \<Rightarrow> cache_view" where
  "recheck_view refresh cache problem =
     (if rm_RefreshBeforeRecheckTimeout (Action_Metadata DefaultAvailabilityPolicy (pb_RecoveryAction problem)) > 0 \<and>
         \<not> pb_SkipPreRecheckRefresh problem then refresh cache else cache)"

lemma attemptRecovery_Executes:
  assumes "attemptRecovery re analyzers refresh cache opts gate problem = Executes action rechecked"
  obtains snap name analyze ps where
    "SnapshotShard (recheck_view refresh cache problem) (pb_ShardKey problem) opts = Inr snap" "(name, analyze) \<in> set analyzers"
    "analyze snap = Inr (ps, None)" "rp_Problem rechecked \<in> set ps" "name = pb_CheckName problem"
    "rp_HighestKnownRule rechecked = HighestIntendedRule snap" "action = pb_RecoveryAction problem"
    "\<not> is_alert_only problem" "pb_Code (rp_Problem rechecked) = pb_Code problem"
    "IsFailoverProblem (pb_Code problem) \<Longrightarrow>
       snd (nextFailoverAttempt re (fst gate) (snd gate) (pb_ShardKey (rp_Problem rechecked)))"
proof -
  let ?used = "recheck_view refresh cache problem"
  have run: "\<not> is_alert_only problem" "recheckProblem analyzers ?used opts problem = Inr (Some rechecked)"
    "action = pb_RecoveryAction problem"
    "IsFailoverProblem (pb_Code (rp_Problem rechecked)) \<Longrightarrow>
       snd (readyToExecute re (fst gate) (snd gate) (rp_Problem rechecked))"
    using assms unfolding attemptRecovery_def Let_def recheck_view_def [symmetric]
    by (auto split: if_splits sum.splits option.splits prod.splits)
  from run(2) obtain snap name analyze ps p where recheck: "SnapshotShard ?used (pb_ShardKey problem) opts = Inr snap"
    "find (\<lambda>(name, _). name = pb_CheckName problem) analyzers = Some (name, analyze)" "analyze snap = Inr (ps, None)"
    "find (\<lambda>p. pb_Code p = pb_Code problem \<and> (IsShardWide problem \<or> pb_PoolerID p = pb_PoolerID problem)) ps = Some p"
    "rechecked = \<lparr>rp_Problem = p, rp_HighestKnownRule = HighestIntendedRule snap\<rparr>"
    by (auto simp: recheckProblem_def Let_def split: sum.splits option.splits prod.splits)
  from find_SomeD [OF recheck(2)] find_SomeD [OF recheck(4)] recheck run show thesis
    by (intro that [of snap name analyze ps]) (auto simp: readyToExecute_def)
qed

text \<open>
  C24: a failover that the engine executes was detected again: the leader analyser reports the same
  problem on a second snapshot of the shard, taken after the live refresh if there is one, and on that
  snapshot every set of members that could have made a write durable contains a recruitable one. The
  collective backoff permitted the failover on the cache as it was after the recheck, and the action is
  handed the rule of the snapshot it was judged against.
\<close>

theorem executed_failover_is_justified:
  assumes "attemptRecovery re (DefaultAnalyzers order wall factory) refresh cache opts gate problem =
      Executes action rechecked"
    and "IsFailoverProblem (pb_Code problem)"
  shows "\<exists>snap ps. SnapshotShard (recheck_view refresh cache problem) (pb_ShardKey problem) opts = Inr snap \<and>
    LeaderNeedsReplacement_Analyze factory wall snap = Inr ps \<and> rp_Problem rechecked \<in> set ps \<and>
    pb_Code (rp_Problem rechecked) = pb_Code problem \<and>
    rp_HighestKnownRule rechecked = HighestIntendedRule snap \<and>
    snd (nextFailoverAttempt re (fst gate) (snd gate) (pb_ShardKey (rp_Problem rechecked))) \<and>
    (let rule = PossiblyUndecidedRule (HighestIntendedRule snap) in wf_IDs (GetCohortMembers rule) \<longrightarrow>
       (\<exists>policy. NewPolicyFromProto (GetDurabilityPolicy rule) = Inr policy \<and>
          (\<forall>q. wf_IDs q \<and> poolerKeysOf q \<subseteq> poolerKeysOf (GetCohortMembers rule) \<and> SatisfiedBy policy q = None \<longrightarrow>
             (\<exists>m \<in> set (GetCohortMembers rule). ClusterIDString m \<in> poolerKeysOf q \<and>
                recruitable (PoolerHealth snap m) (sa_Now snap) (ObservationFreshness (sa_AvailabilityPolicy snap))))))"
  using assms(1)
proof (rule attemptRecovery_Executes)
  fix snap name analyze ps
  assume run: "SnapshotShard (recheck_view refresh cache problem) (pb_ShardKey problem) opts = Inr snap"
    "(name, analyze) \<in> set (DefaultAnalyzers order wall factory)" "analyze snap = Inr (ps, None)"
    "rp_Problem rechecked \<in> set ps" "rp_HighestKnownRule rechecked = HighestIntendedRule snap"
    "pb_Code (rp_Problem rechecked) = pb_Code problem"
    "IsFailoverProblem (pb_Code problem) \<Longrightarrow>
       snd (nextFailoverAttempt re (fst gate) (snd gate) (pb_ShardKey (rp_Problem rechecked)))"
  have failover: "IsFailoverProblem (pb_Code (rp_Problem rechecked))" using assms(2) run(6) by simp
  have leader: "LeaderNeedsReplacement_Analyze factory wall snap = Inr ps"
    by (rule failover_from_leader_analyser [OF run(2-4) failover])
  then obtain policy where
    "NewPolicyFromProto (GetDurabilityPolicy (PossiblyUndecidedRule (HighestIntendedRule snap))) = Inr policy"
    "recruitmentFeasible policy (GetCohortMembers (PossiblyUndecidedRule (HighestIntendedRule snap)))
       (recruitableCohort snap (GetCohortMembers (PossiblyUndecidedRule (HighestIntendedRule snap))) None)"
    using run(4) failover by (cases rule: Analyze_problem_cases) auto
  with run assms(2) leader recruitmentFeasible_meets_quorum [OF this(2)] show ?thesis
    unfolding Let_def by (intro exI [of _ snap] exI [of _ ps] conjI impI) blast+
qed


subsection \<open>One cycle\<close>

lemma chosen_problem:
  assumes "p \<in> set (filterAndPrioritize ready problems)"
  shows "p \<in> set problems" and "IsShardWide p \<Longrightarrow> filterAndPrioritize ready problems = [p]"
proof -
  define xs where "xs = sort_key (\<lambda>p. - pb_Priority p) (filter (\<lambda>p. \<not> is_alert_only p) problems)"
  obtain seen cs where cs: "foldl candidate_step ({}, []) xs = (seen, cs)" by fastforce
  note alt = filterAndPrioritize_alt [OF xs_def cs, of ready]
  have cand: "\<forall>p \<in> set cs. p \<in> set xs \<and> \<not> IsShardWide p"
    using candidates_first [OF _ cs] by (simp add: xs_def sorted_by_priority)
  have xs: "set xs \<subseteq> set problems" by (auto simp: xs_def)
  let ?w = "filter (\<lambda>p. IsShardWide p \<and> snd (ready p)) xs"
  show "p \<in> set problems"
    using assms cand xs nth_mem [of 0 ?w] by (auto simp: alt split: if_splits)
  show "IsShardWide p \<Longrightarrow> filterAndPrioritize ready problems = [p]"
    using assms cand by (auto simp: alt split: if_splits)
qed

lemma groupProblemsByShard_alt:
  "map_of (groupProblemsByShard ps) key =
     (let group = filter (\<lambda>p. FormatShardKey (pb_ShardKey p) = key) ps in if group = [] then None else Some group)"
  by (induction ps rule: rev_induct)
     (auto simp: groupProblemsByShard_def Let_def update_conv' split: option.splits if_splits)

lemma distinct_groups: "distinct (map fst (groupProblemsByShard ps))"
  by (induction ps rule: rev_induct) (simp_all add: groupProblemsByShard_def Let_def distinct_update)

lemma group_keys: "fst ` set (groupProblemsByShard ps) = (\<lambda>p. FormatShardKey (pb_ShardKey p)) ` set ps"
proof -
  have "fst ` set (groupProblemsByShard ps) = dom (map_of (groupProblemsByShard ps))"
    by (simp add: dom_map_of_conv_image_fst)
  also have "\<dots> = (\<lambda>p. FormatShardKey (pb_ShardKey p)) ` set ps"
    by (auto simp: groupProblemsByShard_alt Let_def dom_def filter_empty_conv)
  finally show ?thesis .
qed

text \<open>Without a ready shard-wide problem, no pooler with a problem to act on is passed over.\<close>

lemma filterAndPrioritize_complete:
  assumes "\<nexists>p. p \<in> set problems \<and> \<not> is_alert_only p \<and> IsShardWide p \<and> snd (ready p)"
    and "q \<in> set problems" "\<not> is_alert_only q" "\<not> IsShardWide q"
  shows "\<exists>p. p \<in> set problems \<and> \<not> is_alert_only p \<and> \<not> IsShardWide p \<and> pooler_key p = pooler_key q \<and>
    pb_Priority q \<le> pb_Priority p \<and> (snd (ready p) \<longrightarrow> p \<in> set (filterAndPrioritize ready problems))"
proof -
  define xs where "xs = sort_key (\<lambda>p. - pb_Priority p) (filter (\<lambda>p. \<not> is_alert_only p) problems)"
  have set: "p \<in> set xs \<longleftrightarrow> p \<in> set problems \<and> \<not> is_alert_only p" for p by (auto simp: xs_def)
  obtain seen cs where cs: "foldl candidate_step ({}, []) xs = (seen, cs)" by fastforce
  note first = candidates_first [OF sorted_by_priority [of "filter (\<lambda>p. \<not> is_alert_only p) problems", folded xs_def] cs]
  have "filter (\<lambda>p. IsShardWide p \<and> snd (ready p)) xs = []" using assms(1) by (auto simp: filter_empty_conv set)
  then have chosen: "filterAndPrioritize ready problems = filter (\<lambda>p. snd (ready p)) cs"
    by (simp add: filterAndPrioritize_alt [OF xs_def cs])
  have "pooler_key q \<in> seen" using first assms(2-4) set by auto
  then have "pooler_key q \<in> pooler_key ` set cs" using first by simp
  then obtain p where "p \<in> set cs" "pooler_key p = pooler_key q" by (auto simp: image_iff)
  with first set assms(2-4) show ?thesis by (intro exI [of _ p]) (auto simp: chosen)
qed

text \<open>
  C29: in one cycle every shard with a detected problem is handled once, and only with its own
  problems. Attempted are problems that can be acted on, whose gate is open, and, while the shard as a
  whole has a problem, that do not need a healthy leader. If a shard-wide problem is ready, one of the
  highest priority is the only one chosen; otherwise the attempts are on distinct poolers, and for
  every problem of a pooler one at least as urgent of the same pooler is attempted, or held back
  because its gate is closed or it needs a healthy leader.
\<close>

theorem cycle_discipline:
  assumes "performRecoveryCycle re analyzers cyc gate shardOrder cache opts = Inr (re', work)"
    and "detect_problems analyzers (SnapshotShards shardOrder cache opts) = Inr problems"
  defines "mine \<equiv> \<lambda>key p. p \<in> set problems \<and> FormatShardKey (pb_ShardKey p) = key"
  defines "wide \<equiv> \<lambda>key p. mine key p \<and> \<not> is_alert_only p \<and> IsShardWide p \<and>
      snd (readyToExecute re' (fst (gate p)) (snd (gate p)) p)"
  defines "blocked \<equiv> \<lambda>key p. RequiresHealthyLeader (pb_RecoveryAction p) \<and> (\<exists>q. mine key q \<and> IsShardWide q)"
  shows "distinct (map fst work) \<and> fst ` set work = (\<lambda>p. FormatShardKey (pb_ShardKey p)) ` set problems \<and>
    (\<forall>(key, ps) \<in> set work.
       (\<forall>p \<in> set ps. mine key p \<and> \<not> is_alert_only p \<and> \<not> blocked key p \<and>
          snd (readyToExecute re' (fst (gate p)) (snd (gate p)) p)) \<and>
       ((\<exists>p. wide key p) \<longrightarrow> (\<exists>p. wide key p \<and> (\<forall>q. wide key q \<longrightarrow> pb_Priority q \<le> pb_Priority p) \<and>
          ps = (if blocked key p then [] else [p]))) \<and>
       ((\<nexists>p. wide key p) \<longrightarrow> distinct (map pooler_key ps) \<and> (\<forall>p \<in> set ps. \<not> IsShardWide p) \<and>
          (\<forall>q. mine key q \<and> \<not> is_alert_only q \<and> \<not> IsShardWide q \<longrightarrow>
             (\<exists>p. mine key p \<and> \<not> IsShardWide p \<and> pooler_key p = pooler_key q \<and> pb_Priority q \<le> pb_Priority p \<and>
                (p \<in> set ps \<or> blocked key p \<or> \<not> snd (readyToExecute re' (fst (gate p)) (snd (gate p)) p))))))"
proof -
  let ?ready = "\<lambda>p. readyToExecute re' (fst (gate p)) (snd (gate p)) p"
  have work: "work = map (\<lambda>(key, ps). (key, processShardProblems ?ready ps)) (groupProblemsByShard problems)"
    using assms(1,2) by (auto simp: performRecoveryCycle_def Let_def)
  have keys: "map fst work = map fst (groupProblemsByShard problems)"
    by (simp add: work case_prod_beta comp_def)
  then have once: "distinct (map fst work)" using distinct_groups by simp
  have all: "fst ` set work = (\<lambda>p. FormatShardKey (pb_ShardKey p)) ` set problems"
    using arg_cong [OF keys, of set] group_keys by simp
  have each: "(\<forall>p \<in> set ps. mine key p \<and> \<not> is_alert_only p \<and> \<not> blocked key p \<and> snd (?ready p)) \<and>
       ((\<exists>p. wide key p) \<longrightarrow> (\<exists>p. wide key p \<and> (\<forall>q. wide key q \<longrightarrow> pb_Priority q \<le> pb_Priority p) \<and>
          ps = (if blocked key p then [] else [p]))) \<and>
       ((\<nexists>p. wide key p) \<longrightarrow> distinct (map pooler_key ps) \<and> (\<forall>p \<in> set ps. \<not> IsShardWide p) \<and>
          (\<forall>q. mine key q \<and> \<not> is_alert_only q \<and> \<not> IsShardWide q \<longrightarrow>
             (\<exists>p. mine key p \<and> \<not> IsShardWide p \<and> pooler_key p = pooler_key q \<and> pb_Priority q \<le> pb_Priority p \<and>
                (p \<in> set ps \<or> blocked key p \<or> \<not> snd (?ready p)))))" if "(key, ps) \<in> set work" for key ps
  proof -
    from that obtain group where g: "(key, group) \<in> set (groupProblemsByShard problems)"
      and ps: "ps = processShardProblems ?ready group" by (auto simp: work)
    from g have "map_of (groupProblemsByShard problems) key = Some group"
      using distinct_groups by (simp add: map_of_is_SomeI)
    then have group: "p \<in> set group \<longleftrightarrow> mine key p" for p
      by (auto simp: groupProblemsByShard_alt Let_def mine_def split: if_splits)
    have ps: "ps = filter (\<lambda>p. \<not> blocked key p) (filterAndPrioritize ?ready group)"
      by (auto simp: ps processShardProblems_def hasLeaderProblem_def list_ex_iff group blocked_def intro!: filter_cong)
    have wide: "{p. (mine key p \<and> \<not> is_alert_only p) \<and> IsShardWide p \<and> snd (?ready p)} = Collect (wide key)"
      by (auto simp: wide_def)
    note choice = filterAndPrioritize_choice [of ?ready group, unfolded group wide]
    have "\<exists>p. wide key p \<and> (\<forall>q. wide key q \<longrightarrow> pb_Priority q \<le> pb_Priority p) \<and>
        ps = (if blocked key p then [] else [p])" if "\<exists>p. wide key p"
    proof -
      have "Collect (wide key) \<noteq> {}" using that by blast
      from choice [THEN conjunct2, THEN conjunct1, THEN mp, OF this]
      obtain p where "p \<in> Collect (wide key)" "filterAndPrioritize ?ready group = [p]"
        "\<forall>q \<in> Collect (wide key). pb_Priority q \<le> pb_Priority p" by (elim bexE conjE)
      then show ?thesis by (intro exI [of _ p]) (simp add: ps)
    qed
    moreover have "\<exists>p. mine key p \<and> \<not> IsShardWide p \<and> pooler_key p = pooler_key q \<and> pb_Priority q \<le> pb_Priority p \<and>
                (p \<in> set ps \<or> blocked key p \<or> \<not> snd (?ready p))"
      if "\<nexists>p. wide key p" "mine key q" "\<not> is_alert_only q" "\<not> IsShardWide q" for q
      using filterAndPrioritize_complete [of group ?ready q, unfolded group] that by (auto simp: ps wide_def)
    moreover have "distinct (map pooler_key ps) \<and> (\<forall>p \<in> set ps. \<not> IsShardWide p)" if "\<nexists>p. wide key p"
    proof -
      have "Collect (wide key) = {}" using that by blast
      from choice [THEN conjunct2, THEN conjunct2, THEN mp, OF this] show ?thesis
        by (simp add: ps distinct_map_filter)
    qed
    moreover have "\<forall>p \<in> set ps. mine key p \<and> \<not> is_alert_only p \<and> \<not> blocked key p \<and> snd (?ready p)"
      using choice by (simp add: ps)
    ultimately show ?thesis by (intro conjI impI allI) simp_all
  qed
  show ?thesis
    by (intro conjI, rule once, rule all, rule ballI, unfold case_prod_beta, rule each, simp)
qed

section \<open>Concrete instances\<close>

definition ex_cache :: cache_view where
  "ex_cache = \<lparr>cv_entries = map (\<lambda>h. (ex_shard_key, h)) (ex_followers '''' @
     [ex_health ex_a ''hosta'' 900 (ex_leading True)]), cv_tombstones = []\<rparr>"

definition ex_opts :: SnapshotOptions where
  "ex_opts = \<lparr>so_Now = AsTime (ex_time 1000), so_AvailabilityPolicy = DefaultAvailabilityPolicy,
     so_BootstrapDurabilityPolicy = None\<rparr>"

definition ex_engine :: Engine where
  "ex_engine = \<lparr>eng_coordinatorID = ex_orch, eng_config = the (rf_config ex_factory),
     eng_recruitmentBackoff = DefaultBackoffSchedule, eng_deadlines = Map.empty,
     eng_detectedProblems = []\<rparr>"

definition ex_analyzers :: "(string \<times> (Shard \<Rightarrow> analysis_outcome)) list" where
  "ex_analyzers = DefaultAnalyzers id (AsTime (ex_time 1000)) (Some ex_factory)"

definition ex_cycle :: "Problem list \<Rightarrow> cycle" where
  "ex_cycle ps = \<lparr>cyc_detected = ps, cyc_now = (\<lambda>_. AsTime (ex_time 1000)), cyc_Int64N = (\<lambda>_ n. 0)\<rparr>"

theorem filterAndPrioritize_choice_witness:
  "filterAndPrioritize (\<lambda>_. (0, True))
     [ex_repair ProblemReplicaNotReplicating ''ReplicaNotReplicating'' FixReplicationAction ex_c,
      ex_failover ProblemLeaderUnhealthy] = [ex_failover ProblemLeaderUnhealthy]"
proof -
  let ?ps = "[ex_repair ProblemReplicaNotReplicating ''ReplicaNotReplicating'' FixReplicationAction ex_c,
      ex_failover ProblemLeaderUnhealthy]"
  have "{p. (p \<in> set ?ps \<and> \<not> is_alert_only p) \<and> IsShardWide p \<and> snd (0 :: go_time, True)} =
      {ex_failover ProblemLeaderUnhealthy}"
    by (auto simp: ex_repair_def ex_failover_def is_alert_only_def IsShardWide_def AlertOnlyActionName_def
        metadata_defs)
  with filterAndPrioritize_choice [of "\<lambda>_. (0, True)" ?ps] show ?thesis by auto
qed

theorem executed_failover_is_justified_witness:
  "\<exists>snap. SnapshotShard ex_cache ex_shard_key ex_opts = Inr snap \<and> HighestIntendedRule snap = ex_decided 3"
proof -
  have run: "attemptRecovery ex_engine ex_analyzers id ex_cache ex_opts (AsTime (ex_time 1000), ex_cache)
      (ex_failover ProblemLeaderUnreachableByCohort) =
      Executes AppointLeaderAction \<lparr>rp_Problem = ex_failover ProblemLeaderUnreachableByCohort,
        rp_HighestKnownRule = ex_decided 3\<rparr>" by code_simp
  moreover have "IsFailoverProblem (pb_Code (ex_failover ProblemLeaderUnreachableByCohort))"
    by (simp add: IsFailoverProblem_def ex_failover_def)
  moreover have "pb_ShardKey (ex_failover ProblemLeaderUnreachableByCohort) = ex_shard_key"
    by (simp add: ex_failover_def)
  moreover have "recheck_view id ex_cache (ex_failover ProblemLeaderUnreachableByCohort) = ex_cache"
    by (simp add: recheck_view_def)
  ultimately show ?thesis
    using executed_failover_is_justified [OF run [unfolded ex_analyzers_def]] by auto
qed

theorem cycle_discipline_witness:
  "\<exists>re' key. performRecoveryCycle ex_engine ex_analyzers ex_cycle (\<lambda>_. (AsTime (ex_time 1000), ex_cache)) id ex_cache ex_opts =
     Inr (re', [(key, [ex_failover ProblemLeaderUnreachableByCohort])])"
proof -
  let ?p = "ex_failover ProblemLeaderUnreachableByCohort" and ?gate = "\<lambda>_ :: Problem. (AsTime (ex_time 1000), ex_cache)"
  have detect: "detect_problems ex_analyzers (SnapshotShards id ex_cache ex_opts) = Inr [?p]" by code_simp
  then obtain re' key ps where run: "performRecoveryCycle ex_engine ex_analyzers ex_cycle ?gate id ex_cache ex_opts =
      Inr (re', [(key, ps)])" "key = FormatShardKey (pb_ShardKey ?p)" "eng_coordinatorID re' = eng_coordinatorID ex_engine"
      "eng_recruitmentBackoff re' = eng_recruitmentBackoff ex_engine"
    by (auto simp: performRecoveryCycle_def Let_def groupProblemsByShard_def)
  have "snd (nextFailoverAttempt ex_engine (AsTime (ex_time 1000)) ex_cache (pb_ShardKey ?p))" by code_simp
  then have ready: "snd (readyToExecute re' (AsTime (ex_time 1000)) ex_cache ?p)"
    by (simp add: readyToExecute_def nextFailoverAttempt_def run ex_failover_def IsFailoverProblem_def)
  have facts: "\<not> is_alert_only ?p" "IsShardWide ?p" "\<not> RequiresHealthyLeader (pb_RecoveryAction ?p)" by code_simp+
  note discipline = cycle_discipline [OF run(1) detect, THEN conjunct2, THEN conjunct2, THEN bspec,
      of "(key, ps)", unfolded prod.case, THEN conjunct2, THEN conjunct1, THEN mp]
  have "ps = [?p]"
    using discipline ready facts unfolding run(2) by simp
  with run(1) show ?thesis by blast
qed

end
