(* ===== verification/Watch_Targets.thy ===== *)
theory Watch_Targets
  imports Go_Prelude
begin

text \<open>
  The shards an orchestrator watches (go/services/multiorch/config/config.go): parsing and printing of
  watch targets and the tests whether a target covers a database, table group or shard.
\<close>

record WatchTarget =
  wt_Database :: string
  wt_TableGroup :: string
  wt_Shard :: string

datatype target_error =
    ErrEmptyTarget
  | ErrTargetFormat string
  | ErrEmptyDatabase
  | ErrEmptyTableGroup
  | ErrEmptyShard
  | ErrShardWithoutTableGroup

definition WatchTarget_String :: "WatchTarget \<Rightarrow> string" where
  "WatchTarget_String t =
     (if wt_Shard t \<noteq> '''' then wt_Database t @ ''/'' @ wt_TableGroup t @ ''/'' @ wt_Shard t
      else if wt_TableGroup t \<noteq> '''' then wt_Database t @ ''/'' @ wt_TableGroup t
      else wt_Database t)"

definition MatchesDatabase :: "WatchTarget \<Rightarrow> string \<Rightarrow> bool" where
  "MatchesDatabase t db \<longleftrightarrow> wt_Database t = db"

definition MatchesTableGroup :: "WatchTarget \<Rightarrow> string \<Rightarrow> string \<Rightarrow> bool" where
  "MatchesTableGroup t db tablegroup =
     (if wt_Database t \<noteq> db then False
      else if wt_TableGroup t = '''' then True
      else wt_TableGroup t = tablegroup)"

definition MatchesShard :: "WatchTarget \<Rightarrow> string \<Rightarrow> string \<Rightarrow> string \<Rightarrow> bool" where
  "MatchesShard t db tablegroup shard =
     (if wt_Database t \<noteq> db then False
      else if wt_TableGroup t = '''' then True
      else if wt_TableGroup t \<noteq> tablegroup then False
      else if wt_Shard t = '''' then True
      else wt_Shard t = shard)"

definition ParseShardWatchTarget :: "string \<Rightarrow> target_error + WatchTarget" where
  "ParseShardWatchTarget s =
     (if s = '''' then Inl ErrEmptyTarget
      else
        (let parts = Split s (CHR ''/'')
         in if length parts > 3 then Inl (ErrTargetFormat s)
            else if parts ! 0 = '''' then Inl ErrEmptyDatabase
            else
              (let target = \<lparr>wt_Database = parts ! 0, wt_TableGroup = '''', wt_Shard = ''''\<rparr>
               in if length parts \<ge> 2 \<and> parts ! 1 = '''' then Inl ErrEmptyTableGroup
                  else
                    (let target = (if length parts \<ge> 2 then target\<lparr>wt_TableGroup := parts ! 1\<rparr> else target)
                     in if length parts = 3
                        then (if parts ! 2 = '''' then Inl ErrEmptyShard
                              else if wt_TableGroup target = '''' then Inl ErrShardWithoutTableGroup
                              else Inr (target\<lparr>wt_Shard := parts ! 2\<rparr>))
                        else Inr target))))"

fun ParseShardWatchTargets :: "string list \<Rightarrow> target_error + WatchTarget list" where
  "ParseShardWatchTargets [] = Inr []"
| "ParseShardWatchTargets (s # ss) =
     (case ParseShardWatchTarget s of
        Inl err \<Rightarrow> Inl err
      | Inr t \<Rightarrow>
          (case ParseShardWatchTargets ss of Inl err \<Rightarrow> Inl err | Inr ts \<Rightarrow> Inr (t # ts)))"

section \<open>Well-formed targets\<close>

definition target_ok :: "WatchTarget \<Rightarrow> bool" where
  "target_ok t \<longleftrightarrow> wt_Database t \<noteq> '''' \<and> (wt_Shard t \<noteq> '''' \<longrightarrow> wt_TableGroup t \<noteq> '''') \<and>
     list_all (\<lambda>s. CHR ''/'' \<notin> set s) [wt_Database t, wt_TableGroup t, wt_Shard t]"

lemma Split_nonempty [simp]: "Split s c \<noteq> []"
  by (induction s c rule: Split.induct) (auto split: list.splits)

lemma Split_plain: "c \<notin> set s \<Longrightarrow> Split s c = [s]"
  by (induction s c rule: Split.induct) auto

lemma Split_append: "c \<notin> set s \<Longrightarrow> Split (s @ c # t) c = s # Split t c"
  by (induction s) auto

lemma Split_parts: "p \<in> set (Split s c) \<Longrightarrow> c \<notin> set p"
  by (induction s c arbitrary: p rule: Split.induct) (auto split: if_splits list.splits)

definition intercalate_parts :: "char \<Rightarrow> string list \<Rightarrow> string" where
  "intercalate_parts c ps = (case ps of [] \<Rightarrow> [] | p # ps \<Rightarrow> p @ concat (map (\<lambda>q. c # q) ps))"

lemma Split_join: "intercalate_parts c (Split s c) = s"
proof (induction s)
  case (Cons x s)
  then show ?case by (cases "Split s c") (auto simp: intercalate_parts_def)
qed (simp add: intercalate_parts_def)

text \<open>The parser as a case distinction on the parts.\<close>

lemma Parse_parts:
  "s \<noteq> [] \<Longrightarrow> ParseShardWatchTarget s =
     (case Split s (CHR ''/'') of
        [a] \<Rightarrow> if a = [] then Inl ErrEmptyDatabase else Inr \<lparr>wt_Database = a, wt_TableGroup = [], wt_Shard = []\<rparr>
      | [a, b] \<Rightarrow>
          if a = [] then Inl ErrEmptyDatabase else if b = [] then Inl ErrEmptyTableGroup
          else Inr \<lparr>wt_Database = a, wt_TableGroup = b, wt_Shard = []\<rparr>
      | [a, b, c] \<Rightarrow>
          if a = [] then Inl ErrEmptyDatabase else if b = [] then Inl ErrEmptyTableGroup
          else if c = [] then Inl ErrEmptyShard else Inr \<lparr>wt_Database = a, wt_TableGroup = b, wt_Shard = c\<rparr>
      | _ \<Rightarrow> Inl (ErrTargetFormat s))"
  using Split_nonempty [of s "CHR ''/''"]
  by (simp add: ParseShardWatchTarget_def Let_def split: list.split)

lemma Parse_ok:
  assumes "ParseShardWatchTarget s = Inr t"
  shows "target_ok t \<and> WatchTarget_String t = s"
proof -
  have s: "s \<noteq> []" using assms by (auto simp: ParseShardWatchTarget_def)
  have parts: "list_all (\<lambda>c. CHR ''/'' \<notin> set c) (Split s (CHR ''/''))" using Split_parts by (auto simp: list_all_iff)
  show ?thesis
    using assms parts Split_join [of "CHR ''/''" s] unfolding Parse_parts [OF s]
    by (auto simp: target_ok_def WatchTarget_String_def intercalate_parts_def split: list.splits if_splits)
qed

lemma target_split:
  assumes "target_ok t"
  shows "WatchTarget_String t \<noteq> []"
    "Split (WatchTarget_String t) (CHR ''/'') =
       wt_Database t # (if wt_TableGroup t = [] then [] else wt_TableGroup t # (if wt_Shard t = [] then [] else [wt_Shard t]))"
  using assms by (auto simp: target_ok_def WatchTarget_String_def Split_append Split_plain)

text \<open>
  Printing and parsing of watch targets are inverse to each other: the parser accepts exactly the
  printed forms of well-formed targets, and returns the target that was printed.\<close>

theorem watch_target_roundtrip:
  "ParseShardWatchTarget s = Inr t \<longleftrightarrow> target_ok t \<and> WatchTarget_String t = s"
proof
  assume t: "target_ok t \<and> WatchTarget_String t = s"
  then show "ParseShardWatchTarget s = Inr t"
    using target_split [of t] Parse_parts [of s] by (cases t) (auto simp: target_ok_def)
qed (rule Parse_ok)

lemma MatchesShard_iff:
  "MatchesShard t db tg sh \<longleftrightarrow> MatchesDatabase t db \<and>
     (wt_TableGroup t = '''' \<or> wt_TableGroup t = tg \<and> (wt_Shard t = '''' \<or> wt_Shard t = sh))"
  by (auto simp: MatchesShard_def MatchesDatabase_def)

lemma MatchesShard_tablegroup: "MatchesShard t db tg sh \<Longrightarrow> MatchesTableGroup t db tg"
  by (auto simp: MatchesShard_def MatchesTableGroup_def split: if_splits)

end
