(* ===== verification/Pooler_Store.thy ===== *)
theory Pooler_Store
  imports Pooler_Watch Recovery_Loop Watch_Targets
begin

text \<open>
  The orchestrator's use of the pooler cache (go/services/multiorch/store and
  recovery/pooler_watcher.go). A rider is a pointer to a \<open>Pooler\<close>; pointers are numbers, and the store
  has the health published behind each (\<open>os_state\<close>), the riders whose health stream runs with the
  pooler it was started for (\<open>os_streams\<close>), the riders whose stream was cancelled (\<open>os_cancelled\<close>) and
  whether the context of the factory is done. The critical sections of the cache, the hooks, the
  status answers and the streams interleave freely (\<open>orch_step\<close>).
\<close>

section \<open>Riders\<close>

type_synonym pooler_ref = nat

record StatusResponse =
  sr_status :: "PoolerStatus ptr"
  sr_availability_status :: "AvailabilityStatus ptr"
  sr_consensus_status :: "ConsensusStatus ptr"

record orch_store =
  os_cache :: "pooler_ref ptr PoolerCache"
  os_state :: "pooler_ref \<Rightarrow> PoolerHealthState ptr"
  os_next :: pooler_ref
  os_streams :: "pooler_ref \<rightharpoonup> string"
  os_cancelled :: "pooler_ref list"
  os_rootDone :: bool

text \<open>\<open>NewPooler\<close> of a health and of the stream that \<open>factory.New\<close> has just started for a pooler.\<close>

definition NewPooler :: "PoolerHealthState ptr \<Rightarrow> string \<Rightarrow> orch_store \<Rightarrow> pooler_ref \<times> orch_store" where
  "NewPooler initial streamID st = (os_next st, st\<lparr>os_state := (os_state st)(os_next st := initial),
     os_next := os_next st + 1, os_streams := (os_streams st)(os_next st \<mapsto> streamID)\<rparr>)"

definition Health :: "orch_store \<Rightarrow> pooler_ref \<Rightarrow> PoolerHealthState ptr" where
  "Health st p = os_state st p"

definition Mutate :: "(PoolerHealthState \<Rightarrow> PoolerHealthState) \<Rightarrow> pooler_ref \<Rightarrow> orch_store \<Rightarrow> orch_store" where
  "Mutate fn p st =
     (let next = (case os_state st p of None \<Rightarrow> empty_health | Some cur \<Rightarrow> cur)
      in st\<lparr>os_state := (os_state st)(p := Some (fn next))\<rparr>)"

definition applyStatusFields :: "StatusResponse \<Rightarrow> Timestamp ptr \<Rightarrow> PoolerHealthState \<Rightarrow> PoolerHealthState" where
  "applyStatusFields status now h =
     (let h = h\<lparr>phs_last_check_successful := now, phs_last_seen := now, phs_status := sr_status status,
            phs_availability_status := sr_availability_status status,
            phs_consensus_status := sr_consensus_status status\<rparr>
      in if GetPostgresReady (sr_status status) then h\<lparr>phs_last_postgres_ready_time := now\<rparr> else h)"

definition applyStatusResponse ::
  "pooler_ref \<Rightarrow> StatusResponse \<Rightarrow> Timestamp ptr \<Rightarrow> go_time \<Rightarrow> orch_store \<Rightarrow> orch_store \<times> bool" where
  "applyStatusResponse p status now requestedAt st =
     (if sr_status status = None then (st, False)
      else (Mutate (\<lambda>h. if phs_last_seen h \<noteq> None \<and> requestedAt < AsTime (phs_last_seen h) then h
              else applyStatusFields status now h) p st, True))"

section \<open>Live refreshes\<close>

text \<open>The answer of a \<open>Status\<close> RPC with the times at which it was sent and at which it came.\<close>

record status_answer =
  ans_response :: "string + StatusResponse"
  ans_requestedAt :: go_time
  ans_answeredAt :: "Timestamp ptr"

datatype refresh_error = RefErr_Unreachable string | RefErr_Empty string

definition DefaultObservationFreshness :: duration where
  "DefaultObservationFreshness = 15 * 10 ^ 9"

definition refreshNow :: "status_answer \<Rightarrow> pooler_ref \<Rightarrow> orch_store \<Rightarrow> orch_store \<times> refresh_error option" where
  "refreshNow answer p st =
     (case ans_response answer of
        Inl err \<Rightarrow> (st, Some (RefErr_Unreachable err))
      | Inr statusResp \<Rightarrow>
          (let (st', ok) = applyStatusResponse p statusResp (ans_answeredAt answer) (ans_requestedAt answer) st
           in if ok then (st', None)
              else (st', Some (RefErr_Empty (ComponentIDString (Multipooler_GetId (GetMultipooler (Health st' p))))))))"

record RefreshResult =
  rr_Refreshed :: nat
  rr_Failed :: nat
  rr_Skipped :: nat

text \<open>The RPCs run concurrently, each on its own rider; \<open>refresh_one\<close> is one of them.\<close>

definition refresh_one ::
  "(pooler_ref \<Rightarrow> status_answer) \<Rightarrow> go_time \<Rightarrow> orch_store \<times> RefreshResult \<Rightarrow> pooler_ref \<Rightarrow> orch_store \<times> RefreshResult" where
  "refresh_one answers now r p =
     (let (st, result) = r
      in if \<not> snd (HealthWithin (Health st p) now DefaultObservationFreshness)
         then (st, result\<lparr>rr_Skipped := rr_Skipped result + 1\<rparr>)
         else case refreshNow (answers p) p st of
                (st', Some _) \<Rightarrow> (st', result\<lparr>rr_Failed := rr_Failed result + 1\<rparr>)
              | (st', None) \<Rightarrow> (st', result\<lparr>rr_Refreshed := rr_Refreshed result + 1\<rparr>))"

definition RefreshRecentInParallel ::
  "(pooler_ref \<Rightarrow> status_answer) \<Rightarrow> go_time \<Rightarrow> pooler_ref list \<Rightarrow> orch_store \<Rightarrow> orch_store \<times> RefreshResult" where
  "RefreshRecentInParallel answers now poolers st =
     foldl (refresh_one answers now) (st, \<lparr>rr_Refreshed = 0, rr_Failed = 0, rr_Skipped = 0\<rparr>) poolers"

section \<open>The health stream\<close>

text \<open>\<open>cache.DoUpdate\<close> with a callback that mutates the rider and returns it.\<close>

definition mutate_rider :: "(PoolerHealthState \<Rightarrow> PoolerHealthState) \<Rightarrow> string \<Rightarrow> orch_store \<Rightarrow> orch_store" where
  "mutate_rider fn i st =
     (case GetRider (os_cache st) i of Some (Some p) \<Rightarrow> Mutate fn p st | _ \<Rightarrow> st)"

definition applySnapshot :: "pooler_ref \<Rightarrow> StatusResponse \<Rightarrow> Timestamp ptr \<Rightarrow> orch_store \<Rightarrow> orch_store" where
  "applySnapshot poolerHealth snapshot now st =
     (if sr_status snapshot = None then st
      else mutate_rider (\<lambda>h. (applyStatusFields snapshot now h)
               \<lparr>phs_stream_snapshots_received := phs_stream_snapshots_received h + 1\<rparr>)
             (ComponentIDString (Multipooler_GetId (GetMultipooler (Health st poolerHealth)))) st)"

definition markConnected :: "Timestamp ptr \<Rightarrow> string \<Rightarrow> orch_store \<Rightarrow> orch_store" where
  "markConnected now i st = mutate_rider (\<lambda>h. h\<lparr>phs_stream_connected := True, phs_stream_connected_since := now\<rparr>) i st"

definition markDisconnected :: "string \<Rightarrow> orch_store \<Rightarrow> orch_store" where
  "markDisconnected i st = mutate_rider (\<lambda>h. h\<lparr>phs_stream_connected := False\<rparr>) i st"

text \<open>What \<open>run\<close> reads before each attempt to connect; it returns, for good, when this holds.\<close>

definition pooler_not_found :: "orch_store \<Rightarrow> string \<Rightarrow> bool" where
  "pooler_not_found st i =
     (case GetRider (os_cache st) i of
        None \<Rightarrow> True
      | Some r \<Rightarrow> GetMultipooler (case r of None \<Rightarrow> None | Some p \<Rightarrow> Health st p) = None)"

definition stream_may_return :: "orch_store \<Rightarrow> pooler_ref \<Rightarrow> bool" where
  "stream_may_return st r =
     (case os_streams st r of
        None \<Rightarrow> False
      | Some i \<Rightarrow> r \<in> set (os_cancelled st) \<or> os_rootDone st \<or> pooler_not_found st i)"

section \<open>Hooks\<close>

definition shutdownGracePeriod :: duration where "shutdownGracePeriod = 4 * 3600 * 10 ^ 9"
definition missingGracePeriod :: duration where "missingGracePeriod = 4 * 3600 * 10 ^ 9"

text \<open>The filter asks whether a watch target matches the shard of the record.\<close>

definition newPoolerCache :: "WatchTarget list \<Rightarrow> orch_store \<Rightarrow> pooler_ref ptr Config" where
  "newPoolerCache targets st = \<lparr>
     cf_Filter = Some (\<lambda>p. list_ex (\<lambda>t. MatchesShard t (GetDatabase (mp_shard_key p)) (GetTableGroup (mp_shard_key p))
       (GetShard (mp_shard_key p))) targets),
     cf_ShutdownGrace = shutdownGracePeriod, cf_MissingGracePeriod = missingGracePeriod,
     cf_LastReachedTimestamp = Some (\<lambda>r. case r of None \<Rightarrow> zero_time | Some p \<Rightarrow> AsTime (GetLastSeen (Health st p)))\<rparr>"

text \<open>What the hooks do: \<open>OnLive\<close> makes the rider that \<open>NewPooler\<close> allocates next.\<close>

definition poolerCacheHooks :: "orch_store \<Rightarrow> pooler_ref ptr Hooks" where
  "poolerCacheHooks st = \<lparr>hk_OnLive = Some (\<lambda>_ _. Some (os_next st)), hk_OnUpdate = True, hk_OnGone = True\<rparr>"

primrec run_hook :: "pooler_ref ptr hook_call \<Rightarrow> orch_store \<Rightarrow> orch_store" where
  "run_hook (CallOnLive p z) st = snd (NewPooler (health_of_pooler (Some p)) (record_key p) st)"
| "run_hook (CallOnUpdate prev cur r) st =
     (case r of None \<Rightarrow> st | Some rider \<Rightarrow> Mutate (\<lambda>h. h\<lparr>phs_multipooler := Some cur\<rparr>) rider st)"
| "run_hook (CallOnGone p r reason) st =
     (case r of None \<Rightarrow> st | Some rider \<Rightarrow> st\<lparr>os_cancelled := rider # os_cancelled st\<rparr>)"

section \<open>Finding poolers\<close>

datatype store_error = NotFound string string

definition FindPoolerByID :: "orch_store \<Rightarrow> ID ptr \<Rightarrow> store_error + pooler_ref ptr" where
  "FindPoolerByID st i =
     (case Get (os_cache st) (ComponentIDString i) of
        None \<Rightarrow> Inl (NotFound (GetCell i) (GetName i))
      | Some entry \<Rightarrow> Inr (en_Rider entry))"

definition FindPoolersInShard :: "orch_store \<Rightarrow> ShardKey ptr \<Rightarrow> pooler_ref ptr list" where
  "FindPoolersInShard st shardKey =
     map en_Rider (GetByShard (os_cache st) (GetDatabase shardKey) (GetTableGroup shardKey) (GetShard shardKey))"

text \<open>\<open>p.Health()\<close> for a pointer that may be nil.\<close>

definition rider_health :: "orch_store \<Rightarrow> pooler_ref ptr \<Rightarrow> PoolerHealthState ptr" where
  "rider_health st r = (case r of None \<Rightarrow> None | Some p \<Rightarrow> Health st p)"

record ShardMembers =
  sm_Poolers :: "pooler_ref ptr list"
  sm_HighestKnownPosition :: "RulePosition ptr"
  sm_Leader :: "pooler_ref ptr"

definition FindShardMembers :: "orch_store \<Rightarrow> ShardKey ptr \<Rightarrow> ShardMembers" where
  "FindShardMembers st shardKey =
     (let poolers = FindPoolersInShard st shardKey;
          statuses = filter (\<lambda>cs. cs \<noteq> None) (map (\<lambda>p. GetConsensusStatus (rider_health st p)) poolers);
          position = HighestKnownRule statuses;
          leaderID = GetLeaderId (PossiblyUndecidedRule position)
      in \<lparr>sm_Poolers = poolers, sm_HighestKnownPosition = position,
          sm_Leader = (if leaderID = None then None
            else case find (\<lambda>p. Multipooler_GetId (GetMultipooler (rider_health st p)) = leaderID) poolers of
                   None \<Rightarrow> None | Some p \<Rightarrow> p)\<rparr>)"

definition CohortEligibleFollowerIDs :: "orch_store \<Rightarrow> ShardMembers \<Rightarrow> ID ptr list" where
  "CohortEligibleFollowerIDs st members =
     map (\<lambda>p. Multipooler_GetId (GetMultipooler (rider_health st p)))
       (filter (\<lambda>p. p \<noteq> sm_Leader members) (sm_Poolers members))"

text \<open>What the recovery loop reads of the store.\<close>

definition view_of :: "orch_store \<Rightarrow> cache_view" where
  "view_of st = \<lparr>cv_entries = map (\<lambda>e. (mp_shard_key (en_Pooler e), rider_health st (en_Rider e))) (All (os_cache st)),
     cv_tombstones = map ts_ID (Tombstones (os_cache st))\<rparr>"

section \<open>Interleavings\<close>

text \<open>
  \<open>or_pending\<close> are the upserts between their two critical sections, with the rider once \<open>OnLive\<close> has
  returned it, \<open>or_owed\<close> the hook calls that are due since a section ended.
\<close>

record orch_run =
  or_store :: orch_store
  or_pending :: "(Multipooler \<times> go_time \<times> pooler_ref ptr option) list"
  or_owed :: "pooler_ref ptr hook_call list"

definition orch_start :: orch_run where
  "orch_start = \<lparr>or_store = \<lparr>os_cache = New, os_state = (\<lambda>_. None), os_next = 0, os_streams = Map.empty,
     os_cancelled = [], os_rootDone = False\<rparr>, or_pending = [], or_owed = []\<rparr>"

definition after_section :: "pooler_ref ptr PoolerCache \<times> pooler_ref ptr hook_call list \<Rightarrow> orch_run \<Rightarrow> orch_run" where
  "after_section r s = s\<lparr>or_store := (or_store s)\<lparr>os_cache := fst r\<rparr>, or_owed := or_owed s @ snd r\<rparr>"

text \<open>Poolers whose watcher is in an upsert, or in the \<open>OnUpdate\<close> that ends one: it takes no other event.\<close>

definition upserting :: "orch_run \<Rightarrow> string set" where
  "upserting s = (\<lambda>(p, _). record_key p) ` set (or_pending s)"

definition updating :: "orch_run \<Rightarrow> string set" where
  "updating s = set (concat (map (\<lambda>call. case call of CallOnUpdate q p r \<Rightarrow> [record_key p] | _ \<Rightarrow> []) (or_owed s)))"

text \<open>
  The steps of the watchers, the sweeper, \<open>Shutdown\<close>, the hooks, the refreshes and the streams. The
  watch targets are read anew by every event, and a sweep may read any health, which others change
  meanwhile. A stream returns, at any later time, once it is cancelled, the root context is done, or it
  does not find its pooler.
\<close>

inductive orch_step :: "orch_run \<Rightarrow> orch_run \<Rightarrow> bool" where
  upsert_begins: "admits (newPoolerCache targets (or_store s)) p \<Longrightarrow> zero_time < now \<Longrightarrow>
    record_key p \<notin> upserting s \<union> updating s \<Longrightarrow>
    upsertLocked (newPoolerCache targets (or_store s)) (poolerCacheHooks (or_store s)) now p (os_cache (or_store s)) =
      (c, calls, live) \<Longrightarrow>
    orch_step s ((after_section (c, calls) s)\<lparr>or_pending := (if live then [(p, now, None)] else []) @ or_pending s\<rparr>)"
| OnLive_returns: "or_pending s = xs @ (p, now, None) # ys \<Longrightarrow>
    orch_step s (s\<lparr>or_store := run_hook (CallOnLive p None) (or_store s),
      or_pending := xs @ (p, now, Some (Some (os_next (or_store s)))) # ys\<rparr>)"
| upsert_ends: "or_pending s = xs @ (p, now, Some r) # ys \<Longrightarrow>
    orch_step s ((after_section (upsertInsert (poolerCacheHooks (or_store s)) now p r (os_cache (or_store s))) s)
      \<lparr>or_pending := xs @ ys\<rparr>)"
| deletes: "zero_time < now \<Longrightarrow> i \<notin> upserting s \<Longrightarrow>
    orch_step s (after_section (applyDelete (newPoolerCache targets (or_store s)) (poolerCacheHooks (or_store s)) now i
      (os_cache (or_store s))) s)"
| sweeps: "orch_step s (after_section (sweep (newPoolerCache targets seen) (poolerCacheHooks (or_store s)) now
      (os_cache (or_store s))) s)"
| activity: "orch_step s (after_section ((os_cache (or_store s))\<lparr>pc_cellLastActivity := l\<rparr>, []) s)"
| shuts_down: "orch_step s (after_section (Shutdown (poolerCacheHooks (or_store s)) (os_cache (or_store s))) s)"
| hook_runs: "or_owed s = xs @ call # ys \<Longrightarrow>
    orch_step s (s\<lparr>or_store := run_hook call (or_store s), or_owed := xs @ ys\<rparr>)"
| status_answer: "r < os_next (or_store s) \<Longrightarrow>
    orch_step s (s\<lparr>or_store := fst (refreshNow answer r (or_store s))\<rparr>)"
| snapshot: "orch_step s (s\<lparr>or_store := applySnapshot r snap t (or_store s)\<rparr>)"
| connected: "orch_step s (s\<lparr>or_store := markConnected t i (or_store s)\<rparr>)"
| disconnected: "orch_step s (s\<lparr>or_store := markDisconnected i (or_store s)\<rparr>)"
| stream_returns: "stream_may_return (or_store s) r \<Longrightarrow>
    orch_step s (s\<lparr>or_store := (or_store s)\<lparr>os_streams := (os_streams (or_store s))(r := None)\<rparr>\<rparr>)"
| root_done: "orch_step s (s\<lparr>or_store := (or_store s)\<lparr>os_rootDone := True\<rparr>\<rparr>)"

abbreviation orch_reaches :: "orch_run \<Rightarrow> bool" where
  "orch_reaches \<equiv> orch_step\<^sup>*\<^sup>* orch_start"

lemma cache_inv_grace:
  "cf_MissingGracePeriod cfg = cf_MissingGracePeriod cfg' \<Longrightarrow> cache_inv cfg c = cache_inv cfg' c"
  by (simp add: cache_inv_def entries_settled_def settled_def)

lemma grace_newPoolerCache [simp]: "cf_MissingGracePeriod (newPoolerCache targets st) = missingGracePeriod"
  by (simp add: newPoolerCache_def)

lemma cache_inv_newPoolerCache: "cache_inv (newPoolerCache targets st) c = cache_inv (newPoolerCache targets' st') c"
  by (rule cache_inv_grace) simp

subsection \<open>Riders through a critical section\<close>

primrec gone_rider :: "'r hook_call \<Rightarrow> 'r list" where
  "gone_rider (CallOnLive p z) = []"
| "gone_rider (CallOnUpdate q p r) = []"
| "gone_rider (CallOnGone p r reason) = [r]"

definition riders_given :: "'r hook_call list \<Rightarrow> 'r list" where
  "riders_given calls = concat (map gone_rider calls)"

definition riders_made :: "(Multipooler \<times> go_time \<times> 'r option) list \<Rightarrow> 'r list" where
  "riders_made pend = concat (map (\<lambda>(p, now, x). case x of None \<Rightarrow> [] | Some r \<Rightarrow> [r]) pend)"

definition held :: "'r PoolerCache \<Rightarrow> 'r multiset" where
  "held c = image_mset (\<lambda>e. ie_rider (entry_at c (snd e))) (mset (pc_entries c))"

lemma riders_given_append [simp]: "riders_given (xs @ ys) = riders_given xs @ riders_given ys"
  by (simp add: riders_given_def)

lemma riders_given_simps [simp]: "riders_given [] = []" "riders_given (x # xs) = gone_rider x @ riders_given xs"
  by (simp_all add: riders_given_def)

lemma riders_made_simps [simp]: "riders_made [] = []" "riders_made (xs @ ys) = riders_made xs @ riders_made ys"
  "riders_made ((p, now, None) # ys) = riders_made ys" "riders_made ((p, now, Some r) # ys) = r # riders_made ys"
  by (simp_all add: riders_made_def)

lemma riders_made_iff: "r \<in> set (riders_made pend) \<longleftrightarrow> (\<exists>p now. (p, now, Some r) \<in> set pend)"
  by (force simp: riders_made_def split: option.splits)

lemma All_riders: "mset (map en_Rider (All c)) = held c"
  by (simp add: All_def held_def entrySnapshot_def case_prod_beta comp_def)

text \<open>A section gives back the riders it lets go of, keeps the others, and announces every record it changes.\<close>

definition hands_over :: "'r PoolerCache \<Rightarrow> 'r PoolerCache \<times> 'r hook_call list \<Rightarrow> bool" where
  "hands_over c r \<longleftrightarrow> held (fst r) + mset (riders_given (snd r)) = held c \<and>
     (\<forall>i a. (i, a) \<in> set (pc_entries (fst r)) \<longrightarrow> (i, a) \<in> set (pc_entries c) \<and>
        ie_rider (entry_at (fst r) a) = ie_rider (entry_at c a) \<and>
        (ie_pooler (entry_at (fst r) a) \<noteq> ie_pooler (entry_at c a) \<longrightarrow>
           (\<exists>q. CallOnUpdate q (ie_pooler (entry_at (fst r) a)) (ie_rider (entry_at c a)) \<in> set (snd r)))) \<and>
     (\<forall>q p x. CallOnUpdate q p x \<in> set (snd r) \<longrightarrow>
        (\<exists>a. (record_key p, a) \<in> set (pc_entries (fst r)) \<and> ie_rider (entry_at (fst r) a) = x \<and> ie_pooler (entry_at (fst r) a) = p)) \<and>
     (\<forall>p z. CallOnLive p z \<notin> set (snd r))"

lemma mset_delete:
  assumes "distinct (map fst m)" "map_of m i = Some a"
  shows "mset m = add_mset (i, a) (mset (AList.delete i m))"
  using assms
proof (induction m)
  case (Cons x m)
  have "AList.delete i m = m" if "i \<notin> fst ` set m" using that by (simp add: delete_id)
  then show ?case using Cons by (cases x) (auto split: if_splits)
qed simp

lemma update_fresh: "map_of m i = None \<Longrightarrow> AList.update i a m = m @ [(i, a)]"
  by (induction m) (auto split: if_splits)

lemma struct_distinct: "cache_struct c \<Longrightarrow> distinct (map fst (pc_entries c))"
  using cache_struct_parts(1) [of c] by (simp add: keys_distinct_def)

lemma struct_entry: "cache_struct c \<Longrightarrow> (i, a) \<in> set (pc_entries c) \<longleftrightarrow> map_of (pc_entries c) i = Some a"
  by (simp add: struct_distinct map_of_eq_Some_iff)

lemma hands_over_quiet:
  assumes "pc_entries c' = pc_entries c" "\<And>i a. (i, a) \<in> set (pc_entries c) \<Longrightarrow>
     ie_rider (entry_at c' a) = ie_rider (entry_at c a) \<and> ie_pooler (entry_at c' a) = ie_pooler (entry_at c a)"
  shows "hands_over c (c', [])"
proof -
  have "held c' = held c" unfolding held_def assms(1) by (rule image_mset_cong) (use assms(2) in auto)
  then show ?thesis using assms by (simp add: hands_over_def)
qed

lemma hands_over_evict:
  assumes c: "cache_struct c" "map_of (pc_entries c) i = Some a"
    and c': "pc_entries c' = AList.delete i (pc_entries c)" "\<And>b. ie_rider (entry_at c' b) = ie_rider (entry_at c b)"
      "\<And>b. b \<noteq> a \<Longrightarrow> ie_pooler (entry_at c' b) = ie_pooler (entry_at c b)"
  shows "hands_over c (c', [CallOnGone p (ie_rider (entry_at c a)) reason])"
proof -
  have "held c = add_mset (ie_rider (entry_at c a)) (held c')"
    unfolding held_def mset_delete [OF struct_distinct [OF c(1)] c(2)] c'(1) by (simp add: c'(2))
  moreover have "b \<noteq> a \<and> (j, b) \<in> set (pc_entries c)" if "(j, b) \<in> set (AList.delete i (pc_entries c))" for j b
  proof -
    have "j \<noteq> i" "(j, b) \<in> set (pc_entries c)" using that by (auto simp: AList.delete_eq)
    then show ?thesis using address_unique [OF c, of j] struct_entry [OF c(1), of j b] by auto
  qed
  ultimately show ?thesis
    unfolding hands_over_def fst_conv snd_conv c'(1) using c'(2,3) by (intro conjI allI impI) auto
qed

lemma hands_over_upsert_existing:
  assumes c: "cache_struct c" "map_of (pc_entries c) i = Some a" and p: "record_key p = i"
    and hooks: "hk_OnGone hooks" "hk_OnUpdate hooks"
  shows "hands_over c (upsert_existing cfg hooks now p i a c)"
proof -
  let ?u = "indexUpdate a (ie_pooler (entry_at c a)) (set_entry a ((entry_at c a)\<lparr>ie_pooler := p\<rparr>) c)"
  note at = entry_at_set_entry [OF cache_structD(1) [OF c]]
  have len: "a < length (pc_heap ?u)" using cache_structD(1) [OF c] by simp
  note at' = entry_at_set_entry [OF len]
  have keep: "hands_over c (c', if ie_pooler (entry_at c a) = p then [] else [CallOnUpdate (ie_pooler (entry_at c a)) p (ie_rider (entry_at c a))])"
    if "pc_entries c' = pc_entries c" "\<And>b. ie_rider (entry_at c' b) = ie_rider (entry_at c b)"
      "\<And>b. ie_pooler (entry_at c' b) = (if b = a then p else ie_pooler (entry_at c b))" for c'
    using that c p struct_entry [OF c(1), of i a] by (auto simp: hands_over_def held_def)
  show ?thesis
  proof (cases "is_shutdown p")
    case True
    then have "upsert_existing cfg hooks now p i a c =
        (addTombstoneLocked cfg i (mp_id p) now (evict i a ?u), [CallOnGone p (ie_rider (entry_at c a)) GoneShutdown])"
      using hooks cache_structD(2) [OF c] by (simp add: upsert_existing_def Let_def gone_def at)
    also have "hands_over c \<dots>"
      by (rule hands_over_evict [OF c]) (simp_all add: addTombstoneLocked_def at)
    finally show ?thesis .
  next
    case False
    then have "snd (upsert_existing cfg hooks now p i a c) =
        (if ie_pooler (entry_at c a) = p then [] else [CallOnUpdate (ie_pooler (entry_at c a)) p (ie_rider (entry_at c a))])"
      using hooks by (simp add: upsert_existing_def Let_def at)
    moreover have "hands_over c (fst (upsert_existing cfg hooks now p i a c),
        if ie_pooler (entry_at c a) = p then [] else [CallOnUpdate (ie_pooler (entry_at c a)) p (ie_rider (entry_at c a))])"
      by (rule keep) (use False in \<open>simp_all add: upsert_existing_def Let_def at at'\<close>)
    ultimately show ?thesis by (subst prod.collapse [symmetric]) (simp only:)
  qed
qed

lemma hands_over_cong:
  assumes "hands_over c r" "pc_entries d = pc_entries c" "\<And>a. entry_at d a = entry_at c a"
  shows "hands_over d r"
  using assms by (simp add: hands_over_def held_def)

lemma struct_activity: "cache_struct c \<Longrightarrow> cache_struct (note_activity cell now c)"
  by (auto simp: cache_struct_def keys_distinct_def entries_identified_def indexes_exact_def
      cell_place_def [abs_def] shard_place_def [abs_def] cong: option.case_cong)

lemma hands_over_upsertLocked:
  assumes c: "cache_struct c" and hooks: "hk_OnGone hooks" "hk_OnUpdate hooks"
    and up: "upsertLocked cfg hooks now p c = (c', calls, live)"
  shows "hands_over c (c', calls)"
proof (cases "map_of (pc_entries c) (record_key p)")
  case None
  then show ?thesis
    using up by (auto simp: upsertLocked_def Let_def addTombstoneLocked_def
        intro!: hands_over_quiet split: if_splits option.splits)
next
  case (Some a)
  have "hands_over (note_activity (cell_of p) now c)
      (upsert_existing cfg hooks now p (record_key p) a (note_activity (cell_of p) now c))"
    by (rule hands_over_upsert_existing [OF struct_activity [OF c]]) (use Some hooks in auto)
  then have "hands_over c (upsert_existing cfg hooks now p (record_key p) a (note_activity (cell_of p) now c))"
    by (rule hands_over_cong) simp_all
  then show ?thesis
    using up Some cache_structD(5) [OF c Some] by (auto simp: upsertLocked_def Let_def split: prod.splits)
qed

lemma hands_over_applyDelete:
  assumes c: "cache_struct c" and hooks: "hk_OnGone hooks"
  shows "hands_over c (applyDelete cfg hooks now i c)"
proof (cases "map_of (pc_entries c) i")
  case None
  then show ?thesis by (auto simp: applyDelete_def intro!: hands_over_quiet split: option.splits)
next
  case (Some a)
  let ?n = "note_activity (cell_of (ie_pooler (entry_at c a))) now c"
  let ?d = "set_entry a ((entry_at c a)\<lparr>ie_state := StateMissingFromTopo, ie_lastChange := now,
      ie_disposeAfter := now + cf_MissingGracePeriod cfg\<rparr>) ?n"
  have at: "entry_at ?d b = (if b = a then (entry_at c a)\<lparr>ie_state := StateMissingFromTopo, ie_lastChange := now,
      ie_disposeAfter := now + cf_MissingGracePeriod cfg\<rparr> else entry_at c b)" for b
    using entry_at_set_entry [of a ?n] cache_structD(1) [OF c Some] by simp
  have "hands_over c (evict i a ?d, [CallOnGone (ie_pooler (entry_at c a)) (ie_rider (entry_at c a)) GoneMissingFromTopo])"
    by (rule hands_over_evict [OF c Some]) (simp_all add: at)
  moreover have "hands_over c (?d, [])" "hands_over c (?n, [])" by (rule hands_over_quiet; simp add: at)+
  ultimately show ?thesis
    using cache_structD [OF c Some] Some hooks
    by (cases "cf_MissingGracePeriod cfg = 0") (simp_all add: applyDelete_def Let_def gone_def split: State.splits)
qed

lemma riders_given_gone:
  "mset (riders_given (concat (map (\<lambda>(_, a). [CallOnGone (f a) (g a) (k a)]) ds))) = image_mset (\<lambda>e. g (snd e)) (mset ds)"
  by (induction ds) auto

lemma mset_evicted:
  assumes "distinct (map fst es')" "distinct (map fst es)" "map_of es' = (\<lambda>i. case map_of es i of None \<Rightarrow> None | Some a \<Rightarrow> if P a then None else Some a)"
  shows "mset es' = mset (filter (\<lambda>(_, a). \<not> P a) es)"
proof (rule set_eq_iff_mset_eq_distinct [THEN iffD1])
  have "(i, a) \<in> set es' \<longleftrightarrow> (i, a) \<in> set (filter (\<lambda>(_, a). \<not> P a) es)" for i a
  proof -
    have "(i, a) \<in> set es' \<longleftrightarrow> map_of es' i = Some a" using map_of_eq_Some_iff [OF assms(1)] by simp
    also have "\<dots> \<longleftrightarrow> map_of es i = Some a \<and> \<not> P a" unfolding assms(3) by (auto split: option.splits)
    finally show ?thesis using map_of_eq_Some_iff [OF assms(2)] by simp
  qed
  then show "set es' = set (filter (\<lambda>(_, a). \<not> P a) es)" by auto
qed (use assms in \<open>auto simp: distinct_map intro: distinct_filter\<close>)

lemma hands_over_sweep:
  assumes inv: "cache_inv cfg c" and hooks: "hk_OnGone hooks"
  shows "hands_over c (sweep cfg hooks now c)"
proof (cases "pc_closed c")
  case True
  then show ?thesis by (simp add: sweep_def hands_over_quiet)
next
  case False
  obtain c' calls where sw: "sweep cfg hooks now c = (c', calls)" by fastforce
  let ?ds = "filter (\<lambda>(_, a). due cfg now (entry_at c a)) (pc_entries c)"
  note eff = sweep_effect [OF inv False, of c' hooks now]
  have c': "c' = fst (sweep cfg hooks now c)" by (simp add: sw)
  have at: "entry_at c' = entry_at c" using eff(2) [OF c'] by (simp add: entry_at_def fun_eq_iff)
  have calls: "calls = concat (map (\<lambda>(_, a). [CallOnGone (ie_pooler (entry_at c a)) (ie_rider (entry_at c a))
      (goneReasonFor (ie_state (entry_at c a)))]) ?ds)"
    using sw False hooks by (auto simp: sweep_def Let_def gone_def)
  have es: "mset (pc_entries c') = mset (filter (\<lambda>(_, a). \<not> due cfg now (entry_at c a)) (pc_entries c))"
    by (rule mset_evicted [OF _ _ eff(4) [OF c']])
      (use struct_distinct cache_inv_struct [OF inv] cache_inv_struct [OF eff(1) [OF c']] in blast)+
  have "mset (pc_entries c) = mset (pc_entries c') + mset ?ds"
    using multiset_partition [of "mset (pc_entries c)" "\<lambda>(_, a). due cfg now (entry_at c a)"]
    by (simp add: es case_prod_beta' add.commute)
  then have "held c = image_mset (\<lambda>e. ie_rider (entry_at c (snd e))) (mset (pc_entries c') + mset ?ds)"
    unfolding held_def by (rule arg_cong)
  then have "held c' + mset (riders_given calls) = held c"
    by (simp add: held_def at calls riders_given_gone)
  moreover have "set (pc_entries c') \<subseteq> set (pc_entries c)" using es mset_eq_setD by fastforce
  moreover have "CallOnUpdate q p x \<notin> set calls" "CallOnLive p z \<notin> set calls" for q p x z by (auto simp: calls)
  ultimately show ?thesis by (auto simp: hands_over_def sw at)
qed

lemma hands_over_Shutdown:
  assumes "hk_OnGone hooks"
  shows "hands_over c (Shutdown hooks c)"
proof (cases "pc_closed c")
  case True
  then show ?thesis by (simp add: Shutdown_def hands_over_quiet)
next
  case False
  then have "snd (Shutdown hooks c) = concat (map (\<lambda>(_, a). [CallOnGone (ie_pooler (entry_at c a)) (ie_rider (entry_at c a))
      (goneReasonFor (ie_state (entry_at c a)))]) (pc_entries c))" "pc_entries (fst (Shutdown hooks c)) = []"
    using assms by (simp_all add: Shutdown_def Let_def gone_def)
  then show ?thesis by (auto simp: hands_over_def held_def riders_given_gone)
qed

subsection \<open>The invariant\<close>

text \<open>The record that the health of a rider shows.\<close>

definition record_of :: "orch_store \<Rightarrow> pooler_ref \<rightharpoonup> Multipooler" where
  "record_of st r = (case os_state st r of None \<Rightarrow> None | Some h \<Rightarrow> phs_multipooler h)"

definition entries_shown ::
  "pooler_ref ptr PoolerCache \<Rightarrow> (pooler_ref \<rightharpoonup> Multipooler) \<Rightarrow> pooler_ref ptr hook_call list \<Rightarrow> bool" where
  "entries_shown c shown owed \<longleftrightarrow> (\<forall>i a. (i, a) \<in> set (pc_entries c) \<longrightarrow>
     (\<exists>r mp. ie_rider (entry_at c a) = Some r \<and> shown r = Some mp \<and> record_key mp = i \<and>
        (mp = ie_pooler (entry_at c a) \<or> (\<exists>q. CallOnUpdate q (ie_pooler (entry_at c a)) (Some r) \<in> set owed))))"

definition pending_shown :: "(pooler_ref \<rightharpoonup> Multipooler) \<Rightarrow> (Multipooler \<times> go_time \<times> pooler_ref ptr option) list \<Rightarrow> bool" where
  "pending_shown shown pend \<longleftrightarrow>
     (\<forall>p now x. (p, now, Some x) \<in> set pend \<longrightarrow> (\<exists>r. x = Some r \<and> shown r = Some p))"

definition updates_due :: "pooler_ref ptr PoolerCache \<Rightarrow> (pooler_ref \<rightharpoonup> Multipooler) \<Rightarrow>
    (Multipooler \<times> go_time \<times> pooler_ref ptr option) list \<Rightarrow> pooler_ref ptr hook_call list \<Rightarrow> bool" where
  "updates_due c shown pend owed \<longleftrightarrow> (\<forall>p z. CallOnLive p z \<notin> set owed) \<and>
     (\<forall>q p x. CallOnUpdate q p x \<in> set owed \<longrightarrow>
        (\<exists>r mp. x = Some r \<and> shown r = Some mp \<and> record_key mp = record_key p) \<and> x \<notin> set (riders_made pend) \<and>
        (\<forall>i a. (i, a) \<in> set (pc_entries c) \<and> ie_rider (entry_at c a) = x \<longrightarrow> ie_pooler (entry_at c a) = p))"

definition riders_conserved :: "orch_run \<Rightarrow> bool" where
  "riders_conserved s \<longleftrightarrow> held (os_cache (or_store s)) + mset (riders_made (or_pending s)) +
     mset (riders_given (or_owed s)) + mset (map Some (os_cancelled (or_store s))) = mset (map Some [0..<os_next (or_store s)])"

definition run_of :: "orch_run \<Rightarrow> pooler_ref ptr cache_run" where
  "run_of s = \<lparr>cr_cache = os_cache (or_store s), cr_pending = or_pending s, cr_owed = or_owed s,
     cr_decided = [], cr_calls = []\<rparr>"

definition orch_inv :: "orch_run \<Rightarrow> bool" where
  "orch_inv s \<longleftrightarrow> flight_inv (newPoolerCache [] (or_store s)) (run_of s) \<and> riders_conserved s \<and>
     (\<forall>r. record_of (or_store s) r = None \<longleftrightarrow> \<not> r < os_next (or_store s)) \<and>
     entries_shown (os_cache (or_store s)) (record_of (or_store s)) (or_owed s) \<and>
     pending_shown (record_of (or_store s)) (or_pending s) \<and>
     updates_due (os_cache (or_store s)) (record_of (or_store s)) (or_pending s) (or_owed s) \<and>
     (\<forall>r i. os_streams (or_store s) r = Some i \<longrightarrow> map_option record_key (record_of (or_store s) r) = Some i)"

lemma orch_invD:
  assumes "orch_inv s"
  shows "flight_inv (newPoolerCache targets st) (run_of s)" "riders_conserved s"
    "record_of (or_store s) r = None \<longleftrightarrow> \<not> r < os_next (or_store s)"
    "entries_shown (os_cache (or_store s)) (record_of (or_store s)) (or_owed s)"
    "pending_shown (record_of (or_store s)) (or_pending s)"
    "updates_due (os_cache (or_store s)) (record_of (or_store s)) (or_pending s) (or_owed s)"
    "os_streams (or_store s) q = Some i \<Longrightarrow> map_option record_key (record_of (or_store s) q) = Some i"
    "cache_struct (os_cache (or_store s))"
  using assms cache_inv_newPoolerCache [of "[]" "or_store s" "os_cache (or_store s)" targets st]
  by (auto simp: orch_inv_def flight_inv_def run_of_def cache_inv_def)

lemma flight_inv_cong:
  assumes "flight_inv cfg t" "cf_MissingGracePeriod cfg = cf_MissingGracePeriod cfg'"
    and "cr_cache t' = cr_cache t" "cr_pending t' = cr_pending t"
  shows "flight_inv cfg' t'"
  using assms cache_inv_grace [OF assms(2)] by (simp add: flight_inv_def in_flight_def)

text \<open>The flight of upserts is the one of the cache's own interleavings.\<close>

lemma flight_inv_simulated:
  assumes "orch_inv s" "cache_step (newPoolerCache targets st) hooks None (run_of s) t"
    and "cr_cache t = os_cache (or_store s')" "cr_pending t = or_pending s'"
  shows "flight_inv (newPoolerCache [] (or_store s')) (run_of s')"
  by (rule flight_inv_cong [OF cache_step_flight_inv [OF assms(2) orch_invD(1) [OF assms(1)]]])
    (simp_all add: assms(3,4) run_of_def)

lemma poolerCacheHooks_simps [simp]:
  "hk_OnLive (poolerCacheHooks st) \<noteq> None" "hk_OnUpdate (poolerCacheHooks st)" "hk_OnGone (poolerCacheHooks st)"
  by (simp_all add: poolerCacheHooks_def)

lemma after_section_simps [simp]:
  "or_pending (after_section r s) = or_pending s" "or_owed (after_section r s) = or_owed s @ snd r"
  "os_cache (or_store (after_section r s)) = fst r" "os_next (or_store (after_section r s)) = os_next (or_store s)"
  "os_streams (or_store (after_section r s)) = os_streams (or_store s)"
  "os_cancelled (or_store (after_section r s)) = os_cancelled (or_store s)"
  "os_rootDone (or_store (after_section r s)) = os_rootDone (or_store s)"
  "record_of (or_store (after_section r s)) = record_of (or_store s)"
  by (simp_all add: after_section_def record_of_def fun_eq_iff)

lemma conserved_distinct:
  assumes "riders_conserved s"
  shows "x \<in># held (os_cache (or_store s)) \<Longrightarrow> x \<notin> set (riders_made (or_pending s))"
    and "x \<in># held (os_cache (or_store s)) \<Longrightarrow> x \<notin> Some ` set (os_cancelled (or_store s))"
    and "x \<in> set (riders_given (or_owed s)) \<Longrightarrow> \<exists>r. x = Some r"
proof -
  let ?all = "held (os_cache (or_store s)) + mset (riders_made (or_pending s)) +
     mset (riders_given (or_owed s)) + mset (map Some (os_cancelled (or_store s)))"
  have "?all = mset (map Some [0..<os_next (or_store s)])" using assms by (simp add: riders_conserved_def)
  moreover have "distinct (map Some [0..<os_next (or_store s)])" by (simp add: distinct_map)
  ultimately have one: "count ?all y \<le> 1" and some: "y \<in># ?all \<Longrightarrow> \<exists>r. y = Some r" for y
    by (simp_all only: distinct_count_atmost_1) auto
  have pos: "y \<in> set ys \<Longrightarrow> 0 < count (mset ys) y" for y and ys :: "pooler_ref ptr list" by simp
  show "x \<notin> set (riders_made (or_pending s))" if "x \<in># held (os_cache (or_store s))"
    using that one [of x] pos [of x "riders_made (or_pending s)"] by (auto simp: count_greater_zero_iff [symmetric] simp del: count_greater_zero_iff)
  show "x \<notin> Some ` set (os_cancelled (or_store s))" if "x \<in># held (os_cache (or_store s))"
    using that one [of x] pos [of x "map Some (os_cancelled (or_store s))"]
    by (auto simp: count_greater_zero_iff [symmetric] simp del: count_greater_zero_iff)
  show "\<exists>r. x = Some r" if "x \<in> set (riders_given (or_owed s))" using that by (intro some) simp
qed

lemma updatingI: "CallOnUpdate q p x \<in> set (or_owed s) \<Longrightarrow> record_key p \<in> updating s"
  unfolding updating_def by force

lemma entry_held: "(i, a) \<in> set (pc_entries c) \<Longrightarrow> ie_rider (entry_at c a) \<in># held c"
  by (force simp: held_def)

lemma Mutate_simps [simp]:
  "os_cache (Mutate f p st) = os_cache st" "os_next (Mutate f p st) = os_next st" "os_streams (Mutate f p st) = os_streams st"
  "os_cancelled (Mutate f p st) = os_cancelled st" "os_rootDone (Mutate f p st) = os_rootDone st"
  "os_state (Mutate f p st) q = (if q = p then Some (f (case os_state st p of None \<Rightarrow> empty_health | Some h \<Rightarrow> h)) else os_state st q)"
  by (simp_all add: Mutate_def)

text \<open>A critical section that hands its riders over keeps the records shown or announced.\<close>

lemma section_keeps_records:
  assumes inv: "orch_inv s" and over: "hands_over (os_cache (or_store s)) (c, calls)" and struct: "cache_struct c"
    and free: "\<And>q p x. CallOnUpdate q p x \<in> set calls \<Longrightarrow> record_key p \<notin> updating s"
  shows "entries_shown c (record_of (or_store s)) (or_owed s @ calls)"
    and "updates_due c (record_of (or_store s)) (or_pending s) (or_owed s @ calls)"
proof -
  let ?c = "os_cache (or_store s)" and ?shown = "record_of (or_store s)"
  note shown = orch_invD(4) [OF inv, unfolded entries_shown_def, rule_format]
  note due = orch_invD(6) [OF inv, unfolded updates_due_def, THEN conjunct2, rule_format]
  have kept: "(i, a) \<in> set (pc_entries ?c)" "ie_rider (entry_at c a) = ie_rider (entry_at ?c a)"
    "ie_pooler (entry_at c a) \<noteq> ie_pooler (entry_at ?c a) \<Longrightarrow>
       \<exists>q. CallOnUpdate q (ie_pooler (entry_at c a)) (ie_rider (entry_at ?c a)) \<in> set calls"
    if "(i, a) \<in> set (pc_entries c)" for i a
    using over that unfolding hands_over_def fst_conv snd_conv by blast+
  have new: "\<exists>a. (record_key p, a) \<in> set (pc_entries c) \<and> ie_rider (entry_at c a) = x \<and> ie_pooler (entry_at c a) = p"
    if "CallOnUpdate q p x \<in> set calls" for q p x using over that unfolding hands_over_def by simp
  show "entries_shown c ?shown (or_owed s @ calls)"
    unfolding entries_shown_def
  proof (intro allI impI)
    fix i a assume e: "(i, a) \<in> set (pc_entries c)"
    obtain r mp where r: "ie_rider (entry_at ?c a) = Some r" "?shown r = Some mp" "record_key mp = i"
        "mp = ie_pooler (entry_at ?c a) \<or> (\<exists>q. CallOnUpdate q (ie_pooler (entry_at ?c a)) (Some r) \<in> set (or_owed s))"
      using shown [OF kept(1) [OF e]] by blast
    show "\<exists>r mp. ie_rider (entry_at c a) = Some r \<and> ?shown r = Some mp \<and> record_key mp = i \<and>
        (mp = ie_pooler (entry_at c a) \<or> (\<exists>q. CallOnUpdate q (ie_pooler (entry_at c a)) (Some r) \<in> set (or_owed s @ calls)))"
      using r kept(2,3) [OF e]
      by (intro exI [of _ r] exI [of _ mp]) (cases "ie_pooler (entry_at c a) = ie_pooler (entry_at ?c a)"; auto)
  qed
  have key: "\<exists>r mp. ie_rider (entry_at c a) = Some r \<and> ?shown r = Some mp \<and> record_key mp = i" if "(i, a) \<in> set (pc_entries c)" for i a
    using shown [OF kept(1) [OF that]] kept(2) [OF that] by metis
  have "ie_pooler (entry_at c a) = p" if u: "CallOnUpdate q p x \<in> set (or_owed s)"
    and e: "(i, a) \<in> set (pc_entries c)" "ie_rider (entry_at c a) = x" for q p x i a
  proof (rule ccontr)
    assume "ie_pooler (entry_at c a) \<noteq> p"
    then have "ie_pooler (entry_at c a) \<noteq> ie_pooler (entry_at ?c a)"
      using due [OF u] kept(1,2) [OF e(1)] e(2) by metis
    then obtain q' where "CallOnUpdate q' (ie_pooler (entry_at c a)) x \<in> set calls" using kept(2,3) [OF e(1)] e(2) by metis
    moreover have "record_key (ie_pooler (entry_at c a)) = i"
      using cache_structD(3) [OF struct] e(1) struct_entry [OF struct] by blast
    moreover have "record_key p = i" using due [OF u] key [OF e(1)] e(2) by (metis option.inject)
    ultimately show False using free updatingI [OF u] by metis
  qed
  moreover have "(\<exists>r mp. x = Some r \<and> ?shown r = Some mp \<and> record_key mp = record_key p) \<and> x \<notin> set (riders_made (or_pending s)) \<and>
      (\<forall>i a. (i, a) \<in> set (pc_entries c) \<and> ie_rider (entry_at c a) = x \<longrightarrow> ie_pooler (entry_at c a) = p)"
    if u: "CallOnUpdate q p x \<in> set calls" for q p x
  proof -
    obtain a where a: "(record_key p, a) \<in> set (pc_entries c)" "ie_rider (entry_at c a) = x" "ie_pooler (entry_at c a) = p"
      using new [OF u] by blast
    have "x \<notin> set (riders_made (or_pending s))"
      using conserved_distinct(1) [OF orch_invD(2) [OF inv]] entry_held [OF kept(1) [OF a(1)]] kept(2) [OF a(1)] a(2) by simp
    moreover have "ie_pooler (entry_at c b) = p" if "(i, b) \<in> set (pc_entries c)" "ie_rider (entry_at c b) = x" for i b
    proof -
      have "i = record_key p" using key [OF that(1)] key [OF a(1)] that(2) a(2) by force
      then show ?thesis using that(1) a struct_entry [OF struct] by auto
    qed
    ultimately show ?thesis using key [OF a(1)] a(2) by blast
  qed
  moreover have "CallOnLive p z \<notin> set (or_owed s @ calls)" for p z
    using over orch_invD(6) [OF inv] by (auto simp: hands_over_def updates_due_def)
  ultimately show "updates_due c ?shown (or_pending s) (or_owed s @ calls)"
    using due unfolding updates_due_def set_append Un_iff by blast
qed
subsection \<open>Steps keep it\<close>

lemma updates_due_made:
  "updates_due c shown pend owed \<Longrightarrow> riders_made pend' = riders_made pend \<Longrightarrow> updates_due c shown pend' owed"
  unfolding updates_due_def by metis

lemma section_step:
  assumes inv: "orch_inv s" and over: "hands_over (os_cache (or_store s)) r"
    and free: "\<And>q p x. CallOnUpdate q p x \<in> set (snd r) \<Longrightarrow> record_key p \<notin> updating s"
    and flight: "flight_inv (newPoolerCache [] (or_store (after_section r s)))
        (run_of ((after_section r s)\<lparr>or_pending := new @ or_pending s\<rparr>))"
    and new: "\<And>p now x. (p, now, x) \<in> set new \<Longrightarrow> x = None"
  shows "orch_inv ((after_section r s)\<lparr>or_pending := new @ or_pending s\<rparr>)"
proof -
  have struct: "cache_struct (fst r)" using flight by (simp add: flight_inv_def cache_inv_def run_of_def)
  have made: "riders_made new = []" using new by (fastforce simp: riders_made_def split: option.splits)
  have over': "hands_over (os_cache (or_store s)) (fst r, snd r)" using over by simp
  have records: "entries_shown (fst r) (record_of (or_store s)) (or_owed s @ snd r)"
      "updates_due (fst r) (record_of (or_store s)) (or_pending s) (or_owed s @ snd r)"
    by (rule section_keeps_records [OF inv over' struct], erule free)+
  have "held (os_cache (or_store s)) = held (fst r) + mset (riders_given (snd r))" using over by (simp add: hands_over_def)
  then have "riders_conserved ((after_section r s)\<lparr>or_pending := new @ or_pending s\<rparr>)"
    using orch_invD(2) [OF inv] by (simp add: riders_conserved_def made ac_simps)
  moreover have "pending_shown (record_of (or_store s)) (new @ or_pending s)"
    using orch_invD(5) [OF inv] new by (force simp: pending_shown_def)
  moreover have "updates_due (fst r) (record_of (or_store s)) (new @ or_pending s) (or_owed s @ snd r)"
    using records(2) by (rule updates_due_made) (simp add: made)
  ultimately show ?thesis
    unfolding orch_inv_def using flight records(1) orch_invD(3,7) [OF inv] by simp
qed

text \<open>Sections that announce no change of a record.\<close>

lemma quiet_section_step:
  assumes inv: "orch_inv s" and over: "hands_over (os_cache (or_store s)) r"
    and free: "\<And>q p x. CallOnUpdate q p x \<notin> set (snd r)"
    and step: "cache_step (newPoolerCache targets st) hooks None (run_of s) (section_done r (run_of s))"
  shows "orch_inv (after_section r s)"
proof -
  have "flight_inv (newPoolerCache [] (or_store (after_section r s))) (run_of (after_section r s))"
    by (rule flight_inv_simulated [OF inv step]) (simp_all add: run_of_def)
  then show ?thesis using section_step [OF inv over, of "[]"] free by (simp add: after_section_def)
qed

lemma OnLive_step:
  assumes inv: "orch_inv s" and pend: "or_pending s = xs @ (p, now, None) # ys"
  shows "orch_inv (s\<lparr>or_store := run_hook (CallOnLive p None) (or_store s),
      or_pending := xs @ (p, now, Some (Some (os_next (or_store s)))) # ys\<rparr>)" (is "orch_inv ?s")
proof -
  let ?n = "os_next (or_store s)"
  have st: "os_cache (or_store ?s) = os_cache (or_store s)" "os_next (or_store ?s) = Suc ?n"
    "os_cancelled (or_store ?s) = os_cancelled (or_store s)" "os_streams (or_store ?s) = (os_streams (or_store s))(?n \<mapsto> record_key p)"
    "record_of (or_store ?s) = (record_of (or_store s))(?n \<mapsto> p)"
    by (auto simp: NewPooler_def record_of_def health_of_pooler_def fun_eq_iff)
  have fresh: "record_of (or_store s) ?n = None" using orch_invD(3) [OF inv, of ?n] by simp
  have "flight_inv (newPoolerCache [] (or_store ?s)) (run_of ?s)"
    by (rule flight_inv_simulated [OF inv cache_step.live_step [where hooks = "poolerCacheHooks (or_store s)"
            and cfg = "newPoolerCache [] (or_store s)" and r = "Some ?n"]])
      (simp_all add: run_of_def pend NewPooler_def)
  moreover have "riders_conserved ?s"
    using orch_invD(2) [OF inv] unfolding riders_conserved_def st by (simp add: pend)
  moreover have "entries_shown (os_cache (or_store s)) ((record_of (or_store s))(?n \<mapsto> p)) (or_owed s)"
    using orch_invD(4) [OF inv] fresh unfolding entries_shown_def by (metis fun_upd_apply option.distinct(1))
  moreover have "pending_shown ((record_of (or_store s))(?n \<mapsto> p)) (xs @ (p, now, Some (Some ?n)) # ys)"
    using orch_invD(5) [OF inv] fresh by (fastforce simp: pending_shown_def pend)
  moreover have "updates_due (os_cache (or_store s)) ((record_of (or_store s))(?n \<mapsto> p)) (xs @ (p, now, Some (Some ?n)) # ys) (or_owed s)"
    using orch_invD(6) [OF inv] fresh by (fastforce simp: updates_due_def pend)
  moreover have "map_option record_key (((record_of (or_store s))(?n \<mapsto> p)) r) = Some i"
    if "((os_streams (or_store s))(?n \<mapsto> record_key p)) r = Some i" for r i
    using that orch_invD(7) [OF inv, of r i] fresh by (auto split: if_splits)
  moreover have "((record_of (or_store s))(?n \<mapsto> p)) r = None \<longleftrightarrow> \<not> r < Suc ?n" for r
    using orch_invD(3) [OF inv, of r] by auto
  ultimately show ?thesis unfolding orch_inv_def st by simp
qed

lemma insert_step_inv:
  assumes inv: "orch_inv s" and pend: "or_pending s = xs @ (p, now, Some x) # ys"
  shows "orch_inv ((after_section (upsertInsert (poolerCacheHooks (or_store s)) now p x (os_cache (or_store s))) s)
      \<lparr>or_pending := xs @ ys\<rparr>)" (is "orch_inv ?s")
proof -
  let ?c = "os_cache (or_store s)" and ?hooks = "poolerCacheHooks (or_store s)"
  let ?u = "upsertInsert ?hooks now p x ?c" and ?a = "length (pc_heap (os_cache (or_store s)))"
  have flight: "flight_inv (newPoolerCache [] (or_store ?s)) (run_of ?s)"
    by (rule flight_inv_simulated [OF inv cache_step.insert_step [where hooks = ?hooks
            and cfg = "newPoolerCache [] (or_store s)"]])
      (simp_all add: run_of_def pend)
  have made: "set (riders_made (or_pending s)) = insert x (set (riders_made (xs @ ys)))" by (auto simp: pend)
  have "(p, now, Some x) \<in> set (or_pending s)" by (simp add: pend)
  then obtain r where r: "x = Some r" "record_of (or_store s) r = Some p"
    using orch_invD(5) [OF inv] unfolding pending_shown_def by blast
  note shown = orch_invD(4) [OF inv] and due = orch_invD(6) [OF inv]
  have pending: "pending_shown (record_of (or_store s)) (xs @ ys)"
    using orch_invD(5) [OF inv] by (auto simp: pending_shown_def pend)
  have "riders_conserved ?s \<and> entries_shown (fst ?u) (record_of (or_store s)) (or_owed s @ snd ?u) \<and>
      updates_due (fst ?u) (record_of (or_store s)) (xs @ ys) (or_owed s @ snd ?u)"
  proof (cases "pc_closed ?c")
    case True
    then have u: "?u = (?c, [CallOnGone p x GoneCacheShutdown])" by (simp add: upsertInsert_def gone_def)
    show ?thesis
      using orch_invD(2) [OF inv] shown due
      by (auto simp: u riders_conserved_def pend entries_shown_def updates_due_def made ac_simps)
  next
    case False
    have new: "map_of (pc_entries ?c) (record_key p) = None"
      using in_flight_insert(3) [OF orch_invD(1) [OF inv], of xs p now "Some x" ys] by (simp add: run_of_def pend Pooler_Cache.tracked_def domIff)
    have u: "pc_entries (fst ?u) = pc_entries ?c @ [(record_key p, ?a)]" "snd ?u = []"
      "pc_heap (fst ?u) = pc_heap ?c @ [\<lparr>ie_id = record_key p, ie_pooler = p, ie_rider = x, ie_state = StateLive,
         ie_lastChange = now, ie_disposeAfter = zero_time\<rparr>]"
      using False new by (simp_all add: upsertInsert_def Let_def update_fresh)
    have old: "entry_at (fst ?u) b = entry_at ?c b" if "(j, b) \<in> set (pc_entries ?c)" for j b
      using that cache_structD(1) [OF orch_invD(8) [OF inv]] struct_entry [OF orch_invD(8) [OF inv]]
      by (auto simp: entry_at_def u(3) nth_append)
    have at: "ie_pooler (entry_at (fst ?u) ?a) = p" "ie_rider (entry_at (fst ?u) ?a) = x"
      by (simp_all add: entry_at_def u(3))
    have "held (fst ?u) = add_mset x (held ?c)"
      unfolding held_def u(1) using at(2) by (auto simp: old intro!: image_mset_cong)
    then have "riders_conserved ?s"
      using orch_invD(2) [OF inv] by (simp add: riders_conserved_def pend u(2) ac_simps)
    moreover have "entries_shown (fst ?u) (record_of (or_store s)) (or_owed s @ snd ?u)"
      unfolding entries_shown_def
    proof (intro allI impI)
      fix i b assume "(i, b) \<in> set (pc_entries (fst ?u))"
      then consider "(i, b) \<in> set (pc_entries ?c)" | "i = record_key p" "b = ?a" by (auto simp: u(1))
      then show "\<exists>r mp. ie_rider (entry_at (fst ?u) b) = Some r \<and> record_of (or_store s) r = Some mp \<and> record_key mp = i \<and>
          (mp = ie_pooler (entry_at (fst ?u) b) \<or> (\<exists>q. CallOnUpdate q (ie_pooler (entry_at (fst ?u) b)) (Some r) \<in> set (or_owed s @ snd ?u)))"
      proof cases
        case 1
        then show ?thesis using shown unfolding entries_shown_def old [OF 1] u(2) append_Nil2 by blast
      next
        case 2
        then show ?thesis using at r by auto
      qed
    qed
    moreover have "updates_due (fst ?u) (record_of (or_store s)) (xs @ ys) (or_owed s @ snd ?u)"
      using due made at by (auto simp: updates_due_def u old)
    ultimately show ?thesis by blast
  qed
  then show ?thesis
    unfolding orch_inv_def using flight pending orch_invD(3,7) [OF inv] by simp
qed

lemma updates_due_subset:
  "updates_due c shown pend owed \<Longrightarrow> set owed' \<subseteq> set owed \<Longrightarrow> updates_due c shown pend owed'"
  unfolding updates_due_def by blast

lemma hook_step:
  assumes inv: "orch_inv s" and owed: "or_owed s = xs @ call # ys"
  shows "orch_inv (s\<lparr>or_store := run_hook call (or_store s), or_owed := xs @ ys\<rparr>)" (is "orch_inv ?s")
proof -
  let ?st = "or_store s"
  have flight: "flight_inv (newPoolerCache [] (or_store ?s)) (run_of ?s)" if "os_cache (run_hook call ?st) = os_cache ?st"
    by (rule flight_inv_cong [OF orch_invD(1) [OF inv, of "[]" ?st]]) (simp_all add: run_of_def that)
  note due = orch_invD(6) [OF inv, unfolded updates_due_def, THEN conjunct2, rule_format]
  show ?thesis
  proof (cases call)
    case (CallOnLive p z)
    then have "CallOnLive p z \<in> set (or_owed s)" by (simp add: owed)
    then show ?thesis using orch_invD(6) [OF inv] unfolding updates_due_def by blast
  next
    case (CallOnUpdate q p x)
    have "CallOnUpdate q p x \<in> set (or_owed s)" by (simp add: owed CallOnUpdate)
    note here = due [OF this]
    from here obtain r mp where r: "x = Some r" "record_of ?st r = Some mp" "record_key mp = record_key p" by blast
    have st: "os_cache (or_store ?s) = os_cache ?st" "os_next (or_store ?s) = os_next ?st"
      "os_cancelled (or_store ?s) = os_cancelled ?st" "os_streams (or_store ?s) = os_streams ?st"
      "record_of (or_store ?s) = (record_of ?st)(r \<mapsto> p)"
      by (auto simp: CallOnUpdate r(1) record_of_def fun_eq_iff)
    have cons: "riders_conserved ?s"
      using orch_invD(2) [OF inv] unfolding riders_conserved_def st by (simp add: owed CallOnUpdate)
    have "entries_shown (os_cache ?st) ((record_of ?st)(r \<mapsto> p)) (xs @ ys)"
      unfolding entries_shown_def
    proof (intro allI impI)
      fix i a assume e: "(i, a) \<in> set (pc_entries (os_cache ?st))"
      then obtain r' mp' where e': "ie_rider (entry_at (os_cache ?st) a) = Some r'" "record_of ?st r' = Some mp'" "record_key mp' = i"
          "mp' = ie_pooler (entry_at (os_cache ?st) a) \<or>
           (\<exists>q. CallOnUpdate q (ie_pooler (entry_at (os_cache ?st) a)) (Some r') \<in> set (or_owed s))"
        using orch_invD(4) [OF inv] unfolding entries_shown_def by blast
      show "\<exists>r' mp'. ie_rider (entry_at (os_cache ?st) a) = Some r' \<and> ((record_of ?st)(r \<mapsto> p)) r' = Some mp' \<and> record_key mp' = i \<and>
          (mp' = ie_pooler (entry_at (os_cache ?st) a) \<or>
           (\<exists>q. CallOnUpdate q (ie_pooler (entry_at (os_cache ?st) a)) (Some r') \<in> set (xs @ ys)))"
      proof (cases "r' = r")
        case True
        then have "ie_pooler (entry_at (os_cache ?st) a) = p" using here e e'(1) r(1) by blast
        then show ?thesis using e' r True by auto
      next
        case False
        then show ?thesis using e' r(1) by (intro exI [of _ r'] exI [of _ mp']) (auto simp: owed CallOnUpdate)
      qed
    qed
    moreover have "pending_shown ((record_of ?st)(r \<mapsto> p)) (or_pending s)"
      using orch_invD(5) [OF inv] here r(1) unfolding pending_shown_def riders_made_iff by (metis fun_upd_apply)
    moreover have "updates_due (os_cache ?st) ((record_of ?st)(r \<mapsto> p)) (or_pending s) (xs @ ys)"
      unfolding updates_due_def
    proof (intro conjI allI impI)
      fix q' p' x' assume u: "CallOnUpdate q' p' x' \<in> set (xs @ ys)"
      then have "CallOnUpdate q' p' x' \<in> set (or_owed s)" by (auto simp: owed)
      note d = due [OF this]
      then show "\<exists>r' mp'. x' = Some r' \<and> ((record_of ?st)(r \<mapsto> p)) r' = Some mp' \<and> record_key mp' = record_key p'"
        using r by (metis fun_upd_apply option.inject)
      from d show "x' \<notin> set (riders_made (or_pending s))" by blast
      fix i a assume "(i, a) \<in> set (pc_entries (os_cache ?st)) \<and> ie_rider (entry_at (os_cache ?st) a) = x'"
      with d show "ie_pooler (entry_at (os_cache ?st) a) = p'" by blast
    next
      fix p' z show "CallOnLive p' z \<notin> set (xs @ ys)" using orch_invD(6) [OF inv] by (auto simp: updates_due_def owed)
    qed
    moreover have "map_option record_key (((record_of ?st)(r \<mapsto> p)) q) = Some i" if "os_streams ?st q = Some i" for q i
      using orch_invD(7) [OF inv that] r by auto
    moreover have "((record_of ?st)(r \<mapsto> p)) q = None \<longleftrightarrow> \<not> q < os_next ?st" for q
      using orch_invD(3) [OF inv, of q] r by auto
    ultimately show ?thesis unfolding orch_inv_def st using flight cons st by simp
  next
    case (CallOnGone p x reason)
    then obtain r where r: "x = Some r"
      using conserved_distinct(3) [OF orch_invD(2) [OF inv], of x] by (auto simp: owed)
    have st: "run_hook call ?st = ?st\<lparr>os_cancelled := r # os_cancelled ?st\<rparr>" by (simp add: CallOnGone r)
    have "record_of (?st\<lparr>os_cancelled := r # os_cancelled ?st\<rparr>) = record_of ?st" by (simp add: record_of_def fun_eq_iff)
    moreover have "riders_conserved ?s"
      using orch_invD(2) [OF inv] by (simp add: riders_conserved_def st owed CallOnGone r)
    moreover have "entries_shown (os_cache ?st) (record_of ?st) (xs @ ys)"
      using orch_invD(4) [OF inv] by (simp add: entries_shown_def owed CallOnGone)
    moreover have "updates_due (os_cache ?st) (record_of ?st) (or_pending s) (xs @ ys)"
      using orch_invD(6) [OF inv] by (rule updates_due_subset) (auto simp: owed)
    ultimately show ?thesis
      unfolding orch_inv_def using flight orch_invD(3,5,7) [OF inv] by (simp add: st)
  qed
qed

text \<open>Status answers and streams change the health of riders, never the record it shows.\<close>

definition same_records :: "orch_store \<Rightarrow> orch_store \<Rightarrow> bool" where
  "same_records st st' \<longleftrightarrow> os_cache st' = os_cache st \<and> os_next st' = os_next st \<and> os_cancelled st' = os_cancelled st \<and>
     os_rootDone st' = os_rootDone st \<and> os_streams st' = os_streams st \<and> record_of st' = record_of st"

lemma applyStatusFields_multipooler [simp]: "phs_multipooler (applyStatusFields s now h) = phs_multipooler h"
  by (simp add: applyStatusFields_def Let_def)

lemma same_records_refl [simp]: "same_records st st"
  by (simp add: same_records_def)

lemma same_records_Mutate:
  assumes "\<And>h. phs_multipooler (f h) = phs_multipooler h"
  shows "same_records st (Mutate f p st)" "same_records st (mutate_rider f i st)"
proof -
  have m: "same_records st (Mutate f q st)" for q
    using assms by (auto simp: same_records_def record_of_def fun_eq_iff empty_health_def split: option.splits)
  then show "same_records st (Mutate f p st)" .
  show "same_records st (mutate_rider f i st)" using m by (auto simp: mutate_rider_def split: option.splits)
qed

lemma same_records_health:
  "same_records st (fst (refreshNow answer r st))" "same_records st (applySnapshot r snap t st)"
  "same_records st (markConnected t i st)" "same_records st (markDisconnected i st)"
proof -
  show "same_records st (fst (refreshNow answer r st))"
    by (auto simp: refreshNow_def applyStatusResponse_def intro!: same_records_Mutate split: sum.splits)
  show "same_records st (applySnapshot r snap t st)" by (auto simp: applySnapshot_def intro!: same_records_Mutate)
  show "same_records st (markConnected t i st)" "same_records st (markDisconnected i st)"
    by (simp_all add: markConnected_def markDisconnected_def same_records_Mutate)
qed

lemma health_step:
  assumes "orch_inv s" "same_records (or_store s) st"
  shows "orch_inv (s\<lparr>or_store := st\<rparr>)"
  using assms flight_inv_cong [OF orch_invD(1) [OF assms(1), of "[]" "or_store s"], of "newPoolerCache [] st" "run_of (s\<lparr>or_store := st\<rparr>)"]
  by (simp add: orch_inv_def same_records_def riders_conserved_def run_of_def)

lemma stream_step:
  assumes "orch_inv s"
  shows "orch_inv (s\<lparr>or_store := (or_store s)\<lparr>os_streams := (os_streams (or_store s))(r := None)\<rparr>\<rparr>)"
    "orch_inv (s\<lparr>or_store := (or_store s)\<lparr>os_rootDone := True\<rparr>\<rparr>)"
  using assms flight_inv_cong [OF orch_invD(1) [OF assms(1), of "[]" "or_store s"]]
  by (auto simp: orch_inv_def riders_conserved_def run_of_def record_of_def [abs_def] split: if_splits)

lemma orch_step_inv:
  assumes "orch_step s s'" "orch_inv s"
  shows "orch_inv s'"
  using assms
proof (induction rule: orch_step.induct)
  case (upsert_begins targets s p now c calls live)
  note up = upsert_begins.hyps(4)
  let ?new = "if live then [(p, now, None)] else []"
  note struct = orch_invD(8) [OF upsert_begins.prems]
  have "cache_step (newPoolerCache targets (or_store s)) (poolerCacheHooks (or_store s)) None (run_of s)
      ((section_done (c, calls) (run_of s))\<lparr>cr_pending := ?new @ cr_pending (run_of s)\<rparr>)"
    by (rule cache_step.upsert_step [OF upsert_begins.hyps(1)])
      (use upsert_begins.hyps in \<open>simp_all add: clock_ok_def missingGracePeriod_def in_flight_def run_of_def upserting_def\<close>)
  then have flight: "flight_inv (newPoolerCache [] (or_store (after_section (c, calls) s)))
      (run_of ((after_section (c, calls) s)\<lparr>or_pending := ?new @ or_pending s\<rparr>))"
    using flight_inv_simulated [OF upsert_begins.prems, where s' = "(after_section (c, calls) s)\<lparr>or_pending := ?new @ or_pending s\<rparr>"]
    by (simp add: run_of_def)
  have key: "record_key p' = record_key p" if "CallOnUpdate q p' x \<in> set calls" for q p' x
    using up that by (auto simp: upsertLocked_def upsert_existing_def Let_def gone_def split: if_splits option.splits prod.splits)
  show ?case
    by (rule section_step [OF upsert_begins.prems hands_over_upsertLocked [OF struct _ _ up] _ flight])
      (use key upsert_begins.hyps(3) in \<open>auto split: if_splits\<close>)
next
  case (deletes now i s targets)
  have free: "CallOnUpdate q p x \<notin> set (snd (applyDelete cfg hooks now i c))" for cfg q p x c and hooks :: "pooler_ref ptr Hooks"
    by (auto simp: applyDelete_def Let_def gone_def split: option.splits State.splits)
  have "clock_ok (newPoolerCache targets (or_store s)) now" "i \<notin> in_flight (run_of s)"
    using deletes.hyps by (simp_all add: clock_ok_def missingGracePeriod_def in_flight_def run_of_def upserting_def)
  note step = cache_step.delete_step [OF this, of "poolerCacheHooks (or_store s)" None]
  show ?case
    using step by (intro quiet_section_step [OF deletes.prems hands_over_applyDelete [OF orch_invD(8) [OF deletes.prems]] free])
      (simp_all add: run_of_def)
next
  case (sweeps s targets seen now)
  have inv: "cache_inv (newPoolerCache targets seen) (os_cache (or_store s))"
    using orch_invD(1) [OF sweeps, of targets seen] by (simp add: flight_inv_def run_of_def)
  have free: "CallOnUpdate q p x \<notin> set (snd (sweep cfg hooks now c))" for cfg q p x c and hooks :: "pooler_ref ptr Hooks"
    by (auto simp: sweep_def Let_def gone_def)
  show ?case
    using cache_step.sweep_step [of "newPoolerCache targets seen" "poolerCacheHooks (or_store s)" None "run_of s" now]
    by (intro quiet_section_step [OF sweeps hands_over_sweep [OF inv] free]) (simp_all add: run_of_def)
next
  case (activity s l)
  show ?case
    using cache_step.activity_step [of "newPoolerCache [] (or_store s)" "poolerCacheHooks (or_store s)" None "run_of s" l]
    by (intro quiet_section_step [OF activity hands_over_quiet]) (simp_all add: run_of_def)
next
  case (shuts_down s)
  have free: "CallOnUpdate q p x \<notin> set (snd (Shutdown hooks c))" for q p x c and hooks :: "pooler_ref ptr Hooks"
    by (auto simp: Shutdown_def Let_def gone_def)
  show ?case
    using cache_step.shutdown_step [of "newPoolerCache [] (or_store s)" "poolerCacheHooks (or_store s)" None "run_of s"]
    by (intro quiet_section_step [OF shuts_down hands_over_Shutdown free]) (simp_all add: run_of_def)
qed (use OnLive_step insert_step_inv hook_step health_step same_records_health stream_step in \<open>simp_all del: run_hook.simps\<close>)

lemma pc_entries_New: "pc_entries New = []"
  by (simp add: New_def)

lemma reachable_orch_inv:
  assumes "orch_reaches s"
  shows "orch_inv s"
  using assms
proof (induction rule: rtranclp_induct)
  case base
  show ?case
    by (auto simp: orch_inv_def orch_start_def run_of_def flight_inv_def cache_inv_New in_flight_def riders_conserved_def
        held_def record_of_def entries_shown_def pending_shown_def updates_due_def pc_entries_New)
qed (rule orch_step_inv)

section \<open>What the store promises\<close>

text \<open>What clients may rely on between any two steps.\<close>

definition store_ok :: "orch_store \<Rightarrow> bool" where
  "store_ok st \<longleftrightarrow> cache_struct (os_cache st) \<and>
     (\<forall>i e. Get (os_cache st) i = Some e \<longrightarrow> (\<exists>r h mp. en_Rider e = Some r \<and> Health st r = Some h \<and>
        phs_multipooler h = Some mp \<and> record_key mp = i))"

lemma store_okD:
  assumes "store_ok st"
  shows "cache_struct (os_cache st)"
    and "Get (os_cache st) i = Some e \<Longrightarrow> \<exists>r h mp. en_Rider e = Some r \<and> Health st r = Some h \<and>
       phs_multipooler h = Some mp \<and> record_key mp = i"
  using assms unfolding store_ok_def by blast+

lemma tracked_rider:
  assumes inv: "orch_inv s" and e: "Get (os_cache (or_store s)) i = Some e"
  obtains r h mp where "en_Rider e = Some r" "Health (or_store s) r = Some h" "phs_multipooler h = Some mp" "record_key mp = i"
    "mp = en_Pooler e \<or> (\<exists>q. CallOnUpdate q (en_Pooler e) (Some r) \<in> set (or_owed s))"
    "Some r \<in># held (os_cache (or_store s))" "GetRider (os_cache (or_store s)) i = Some (Some r)"
proof -
  let ?c = "os_cache (or_store s)"
  obtain a where a: "map_of (pc_entries ?c) i = Some a" "e = entrySnapshot (entry_at ?c a)" using e by (auto simp: Get_def)
  have m: "(i, a) \<in> set (pc_entries ?c)" using a(1) by (simp add: struct_entry [OF orch_invD(8) [OF inv]])
  obtain r mp where "ie_rider (entry_at ?c a) = Some r" "record_of (or_store s) r = Some mp" "record_key mp = i"
      "mp = ie_pooler (entry_at ?c a) \<or> (\<exists>q. CallOnUpdate q (ie_pooler (entry_at ?c a)) (Some r) \<in> set (or_owed s))"
    using orch_invD(4) [OF inv] m unfolding entries_shown_def by blast
  then show thesis
    using that [of r _ mp] entry_held [OF m] a
    by (auto simp: entrySnapshot_def record_of_def Health_def GetRider_def split: option.splits)
qed

lemma reachable_store_ok:
  assumes "orch_reaches s"
  shows "store_ok (or_store s)"
  unfolding store_ok_def
proof (intro conjI allI impI)
  note inv = reachable_orch_inv [OF assms]
  show "cache_struct (os_cache (or_store s))" by (rule orch_invD(8) [OF inv])
  fix i e assume "Get (os_cache (or_store s)) i = Some e"
  then show "\<exists>r h mp. en_Rider e = Some r \<and> Health (or_store s) r = Some h \<and> phs_multipooler h = Some mp \<and> record_key mp = i"
    by (rule tracked_rider [OF inv]) blast
qed

lemma stream_stops:
  assumes "orch_step s s'" "os_streams (or_store s) r \<noteq> None" "os_streams (or_store s') r = None"
  shows "stream_may_return (or_store s) r"
  using assms
proof (induction rule: orch_step.induct)
  case (hook_runs s xs call ys)
  then show ?case by (cases call) (auto simp: NewPooler_def split: option.splits if_splits)
qed (use same_records_health in \<open>auto simp: same_records_def NewPooler_def split: if_splits\<close>)

text \<open>
  C40: whatever the interleaving of critical sections, hooks, status answers and streams, every rider
  ever made is in exactly one place, once: held by one tracked pooler, by an upsert in flight, by an
  \<open>OnGone\<close> that is due, or cancelled by one. The health of a tracked pooler's rider shows the record
  the cache has, or an older one of the same pooler while the \<open>OnUpdate\<close> with the cache's record is
  due. While the pooler is tracked, a running stream of its rider does not stop unless the root context
  is done. After the cache is shut down and nothing is in flight or due, every stream that was ever
  started has been cancelled, once.
\<close>

theorem orch_riders_consistent:
  assumes "orch_reaches s" and "st = or_store s"
  shows "mset (map en_Rider (All (os_cache st))) + mset (riders_made (or_pending s)) + mset (riders_given (or_owed s)) +
      mset (map Some (os_cancelled st)) = mset (map Some [0..<os_next st]) \<and>
    (\<forall>i e. Get (os_cache st) i = Some e \<longrightarrow> (\<exists>r h mp. en_Rider e = Some r \<and> Health st r = Some h \<and>
       phs_multipooler h = Some mp \<and> record_key mp = i \<and>
       (mp = en_Pooler e \<or> (\<exists>q. CallOnUpdate q (en_Pooler e) (Some r) \<in> set (or_owed s))))) \<and>
    (\<forall>i e r s'. Get (os_cache st) i = Some e \<and> en_Rider e = Some r \<and> os_streams st r \<noteq> None \<and> orch_step s s' \<and>
       os_streams (or_store s') r = None \<longrightarrow> os_rootDone st) \<and>
    (pc_closed (os_cache st) \<and> or_pending s = [] \<and> or_owed s = [] \<longrightarrow> mset (os_cancelled st) = mset [0..<os_next st])"
proof -
  note inv = reachable_orch_inv [OF assms(1)]
  have all: "mset (map en_Rider (All (os_cache st))) + mset (riders_made (or_pending s)) + mset (riders_given (or_owed s)) +
      mset (map Some (os_cancelled st)) = mset (map Some [0..<os_next st])"
    using orch_invD(2) [OF inv] unfolding All_riders assms(2) riders_conserved_def .
  moreover have "\<exists>r h mp. en_Rider e = Some r \<and> Health st r = Some h \<and> phs_multipooler h = Some mp \<and> record_key mp = i \<and>
       (mp = en_Pooler e \<or> (\<exists>q. CallOnUpdate q (en_Pooler e) (Some r) \<in> set (or_owed s)))" if "Get (os_cache st) i = Some e" for i e
    using that unfolding assms(2) by (rule tracked_rider [OF inv]) blast
  moreover have "os_rootDone st" if e: "Get (os_cache st) i = Some e" "en_Rider e = Some r"
    and stop: "os_streams st r \<noteq> None" "orch_step s s'" "os_streams (or_store s') r = None" for i e r s'
    using e(1) unfolding assms(2)
  proof (rule tracked_rider [OF inv])
    fix q h mp assume q: "en_Rider e = Some q" "Health (or_store s) q = Some h" "phs_multipooler h = Some mp" "record_key mp = i"
      "Some q \<in># held (os_cache (or_store s))" "GetRider (os_cache (or_store s)) i = Some (Some q)"
    have qr: "q = r" using q(1) e(2) by simp
    have "stream_may_return (or_store s) r" using stop stream_stops unfolding assms(2) by blast
    then obtain j where j: "os_streams (or_store s) r = Some j"
      and why: "r \<in> set (os_cancelled (or_store s)) \<or> os_rootDone (or_store s) \<or> pooler_not_found (or_store s) j"
      by (auto simp: stream_may_return_def split: option.splits)
    have "j = i" using orch_invD(7) [OF inv j] q(2-4) by (simp add: record_of_def Health_def qr)
    then have "\<not> pooler_not_found (or_store s) j" using q by (simp add: pooler_not_found_def)
    moreover have "r \<notin> set (os_cancelled (or_store s))"
      using conserved_distinct(2) [OF orch_invD(2) [OF inv] q(5)] by (auto simp: qr)
    ultimately show "os_rootDone (or_store s)" using why by blast
  qed
  moreover have "mset (os_cancelled st) = mset [0..<os_next st]"
    if fin: "pc_closed (os_cache st)" "or_pending s = []" "or_owed s = []"
  proof -
    have none: "map_of (pc_entries (os_cache st)) i = None" for i
      using fin(1) cache_structD(5) [OF orch_invD(8) [OF inv], of i] unfolding assms(2) by fastforce
    have "pc_entries (os_cache st) = []"
    proof (cases "pc_entries (os_cache st)")
      case (Cons x xs)
      with none [of "fst x"] show ?thesis by (cases x) simp
    qed
    then have "image_mset Some (mset (os_cancelled st)) = image_mset Some (mset [0..<os_next st])"
      using all fin by (simp add: All_def)
    then show ?thesis by (rule injD [OF multiset.inj_map [OF inj_Some]])
  qed
  ultimately show ?thesis by blast
qed

text \<open>What a status answer does to the health of a rider.\<close>

lemma applyStatusResponse_outcome:
  assumes "Health st p = Some h"
  shows "applyStatusResponse p status now requestedAt st =
    (if sr_status status = None then (st, False)
     else (st\<lparr>os_state := (os_state st)(p \<mapsto>
       (if phs_last_seen h \<noteq> None \<and> requestedAt < AsTime (phs_last_seen h) then h else applyStatusFields status now h))\<rparr>, True))"
  using assms by (simp add: applyStatusResponse_def Mutate_def Health_def)

lemma refresh_keeps_newer:
  assumes "Health st p = Some h" "phs_last_seen h \<noteq> None" "ans_requestedAt answer < AsTime (phs_last_seen h)"
  shows "Health (fst (refreshNow answer p st)) p = Some h"
  using assms by (auto simp: refreshNow_def applyStatusResponse_def Health_def split: sum.splits)

lemma refresh_counts:
  "(let (st', r') = foldl (refresh_one answers now) (st, r) ps
    in rr_Refreshed r' + rr_Failed r' + rr_Skipped r' = rr_Refreshed r + rr_Failed r + rr_Skipped r + length ps)"
proof (induction ps arbitrary: st r)
  case (Cons p ps)
  obtain st' r' where o: "refresh_one answers now (st, r) p = (st', r')" by fastforce
  then have "rr_Refreshed r' + rr_Failed r' + rr_Skipped r' = rr_Refreshed r + rr_Failed r + rr_Skipped r + 1"
    by (auto simp: refresh_one_def Let_def split: if_splits prod.splits option.splits)
  then show ?case using Cons [of st' r'] by (simp add: o case_prod_beta Let_def)
qed simp

text \<open>The recovery loop's view of the store is the cache, a shard at a time.\<close>

lemma view_GetByShard_of_store:
  assumes "store_ok st"
  shows "mset (view_GetByShard (view_of st) shardKey) = mset (map (rider_health st) (FindPoolersInShard st shardKey))"
proof -
  let ?k = "\<lparr>ck_database = GetDatabase shardKey, ck_tableGroup = GetTableGroup shardKey, ck_shard = GetShard shardKey\<rparr>"
  have "view_GetByShard (view_of st) shardKey =
      map (\<lambda>e. rider_health st (en_Rider e)) (filter (\<lambda>e. shardKeyFor (en_Pooler e) = ?k) (All (os_cache st)))"
    by (auto simp: view_GetByShard_def view_of_def filter_map o_def shardKeyFor_def Let_def)
  also have "mset \<dots> = image_mset (\<lambda>e. rider_health st (en_Rider e))
      (mset (filter (\<lambda>e. shardKeyFor (en_Pooler e) = ?k) (All (os_cache st))))" by simp
  also have "\<dots> = image_mset (\<lambda>e. rider_health st (en_Rider e))
      (mset (GetByShard (os_cache st) (GetDatabase shardKey) (GetTableGroup shardKey) (GetShard shardKey)))"
    unfolding GetByShard_filters_All [OF store_okD(1) [OF assms]] ..
  finally show ?thesis by (simp add: FindPoolersInShard_def o_def)
qed

section \<open>Concrete instances\<close>

text \<open>A schedule of steps: the upsert begun last goes on first, and the hook due longest runs first.\<close>

datatype orch_event =
    UpsertBegins "WatchTarget list" go_time Multipooler
  | OnLiveReturns
  | UpsertEnds
  | HookRuns
  | StatusAnswer pooler_ref status_answer
  | StreamReturns pooler_ref

fun orch_exec :: "orch_event \<Rightarrow> orch_run \<Rightarrow> orch_run" where
  "orch_exec (UpsertBegins targets now p) s =
     (if admits (newPoolerCache targets (or_store s)) p \<and> zero_time < now \<and> record_key p \<notin> upserting s \<union> updating s
      then (let (c, calls, live) = upsertLocked (newPoolerCache targets (or_store s)) (poolerCacheHooks (or_store s)) now p
                 (os_cache (or_store s))
            in (after_section (c, calls) s)\<lparr>or_pending := (if live then [(p, now, None)] else []) @ or_pending s\<rparr>)
      else s)"
| "orch_exec OnLiveReturns s =
     (case or_pending s of
        (p, now, None) # ys \<Rightarrow> s\<lparr>or_store := run_hook (CallOnLive p None) (or_store s),
          or_pending := (p, now, Some (Some (os_next (or_store s)))) # ys\<rparr>
      | _ \<Rightarrow> s)"
| "orch_exec UpsertEnds s =
     (case or_pending s of
        (p, now, Some r) # ys \<Rightarrow> (after_section (upsertInsert (poolerCacheHooks (or_store s)) now p r (os_cache (or_store s))) s)
          \<lparr>or_pending := ys\<rparr>
      | _ \<Rightarrow> s)"
| "orch_exec HookRuns s =
     (case or_owed s of [] \<Rightarrow> s | call # ys \<Rightarrow> s\<lparr>or_store := run_hook call (or_store s), or_owed := ys\<rparr>)"
| "orch_exec (StatusAnswer r answer) s =
     (if r < os_next (or_store s) then s\<lparr>or_store := fst (refreshNow answer r (or_store s))\<rparr> else s)"
| "orch_exec (StreamReturns r) s =
     (if stream_may_return (or_store s) r
      then s\<lparr>or_store := (or_store s)\<lparr>os_streams := (os_streams (or_store s))(r := None)\<rparr>\<rparr> else s)"

definition orch_runs :: "orch_event list \<Rightarrow> orch_run" where
  "orch_runs evs = fold orch_exec evs orch_start"

definition topology_write :: "WatchTarget list \<Rightarrow> go_time \<Rightarrow> Multipooler \<Rightarrow> orch_event list" where
  "topology_write targets now p = [UpsertBegins targets now p, OnLiveReturns, UpsertEnds, HookRuns]"

lemma orch_exec_step: "orch_step\<^sup>*\<^sup>* s (orch_exec ev s)"
proof (cases ev)
  case (UpsertBegins targets now p)
  obtain c calls live where "upsertLocked (newPoolerCache targets (or_store s)) (poolerCacheHooks (or_store s)) now p
      (os_cache (or_store s)) = (c, calls, live)" using prod_cases3 by blast
  then show ?thesis using orch_step.upsert_begins [of targets s p now c calls live] by (simp add: UpsertBegins r_into_rtranclp)
next
  case OnLiveReturns
  then show ?thesis
    using orch_step.OnLive_returns [of s "[]"]
    by (auto simp del: run_hook.simps split: list.splits option.splits intro: r_into_rtranclp)
next
  case UpsertEnds
  then show ?thesis
    using orch_step.upsert_ends [of s "[]"] by (auto split: list.splits option.splits intro: r_into_rtranclp)
next
  case HookRuns
  then show ?thesis
    using orch_step.hook_runs [of s "[]"] by (auto split: list.splits intro: r_into_rtranclp)
next
  case (StatusAnswer r answer)
  then show ?thesis using orch_step.status_answer [of r s answer] by (auto intro: r_into_rtranclp)
next
  case (StreamReturns r)
  then show ?thesis using orch_step.stream_returns [of s r] by (auto intro: r_into_rtranclp)
qed

lemma orch_runs_reachable: "orch_reaches (orch_runs evs)"
proof -
  have "orch_step\<^sup>*\<^sup>* s (fold orch_exec evs s)" for s
    by (induction evs arbitrary: s) (auto intro: rtranclp_trans orch_exec_step)
  then show ?thesis by (simp add: orch_runs_def)
qed

definition ex_targets :: "WatchTarget list" where
  "ex_targets = [\<lparr>wt_Database = ''db'', wt_TableGroup = '''', wt_Shard = ''''\<rparr>]"

text \<open>Two poolers, then a new host name of the first, whose \<open>OnUpdate\<close> is still due.\<close>

definition ex_interleaved :: orch_run where
  "ex_interleaved = orch_runs (topology_write ex_targets 1 ex_record @
     topology_write ex_targets 2 (the (ex_multipooler ex_b ''hostb'' [])) @
     [UpsertBegins ex_targets 3 (ex_record\<lparr>mp_hostname := ''moved''\<rparr>)])"

theorem orch_riders_consistent_witness:
  "\<exists>r h q. Health (or_store ex_interleaved) r = Some h \<and> phs_multipooler h = Some ex_record \<and>
     CallOnUpdate q (ex_record\<lparr>mp_hostname := ''moved''\<rparr>) (Some r) \<in> set (or_owed ex_interleaved)"
proof -
  let ?moved = "ex_record\<lparr>mp_hostname := ''moved''\<rparr>"
  have reach: "orch_reaches ex_interleaved" unfolding ex_interleaved_def by (rule orch_runs_reachable)
  have "map_option en_Pooler (Get (os_cache (or_store ex_interleaved)) (record_key ex_record)) = Some ?moved" by code_simp
  then obtain e where e: "Get (os_cache (or_store ex_interleaved)) (record_key ex_record) = Some e" "en_Pooler e = ?moved" by auto
  have "map_option (\<lambda>r. record_of (or_store ex_interleaved) (the r)) (GetRider (os_cache (or_store ex_interleaved)) (record_key ex_record)) =
      Some (Some ex_record)" by code_simp
  then have shown: "record_of (or_store ex_interleaved) (the (en_Rider e)) = Some ex_record"
    using e(1) by (auto simp: Get_def GetRider_def entrySnapshot_def)
  have moved: "ex_record \<noteq> ?moved" by code_simp
  note consistent = orch_riders_consistent [OF reach refl, THEN conjunct2, THEN conjunct1, rule_format, OF e(1)]
  then obtain r h mp where r: "en_Rider e = Some r" "Health (or_store ex_interleaved) r = Some h" "phs_multipooler h = Some mp"
    and due: "mp = en_Pooler e \<or> (\<exists>q. CallOnUpdate q (en_Pooler e) (Some r) \<in> set (or_owed ex_interleaved))" by blast
  have "mp = ex_record" using shown r by (simp add: record_of_def Health_def)
  with due moved r e(2) show ?thesis by (intro exI [of _ r] exI [of _ h]) auto
qed

text \<open>
  A stream is started by \<open>OnLive\<close>, before its pooler is inserted, and its first look-up may come first:
  it then stops for good, and the pooler is tracked without a stream although nothing is in flight or
  due, no rider was cancelled and the root context is live.
\<close>

theorem stream_lost_before_insert:
  "\<exists>s e r. orch_reaches s \<and> Get (os_cache (or_store s)) (record_key ex_record) = Some e \<and> en_Rider e = Some r \<and>
     os_streams (or_store s) r = None \<and> os_cancelled (or_store s) = [] \<and> \<not> os_rootDone (or_store s) \<and>
     or_pending s = [] \<and> or_owed s = []"
proof -
  let ?s = "orch_runs [UpsertBegins ex_targets 1 ex_record, OnLiveReturns, StreamReturns 0, UpsertEnds]"
  have "map_option en_Rider (Get (os_cache (or_store ?s)) (record_key ex_record)) = Some (Some 0) \<and>
      os_streams (or_store ?s) 0 = None \<and> os_cancelled (or_store ?s) = [] \<and> \<not> os_rootDone (or_store ?s) \<and>
      or_pending ?s = [] \<and> or_owed ?s = []" by code_simp
  moreover have "orch_reaches ?s" by (rule orch_runs_reachable)
  ultimately show ?thesis by (intro exI [of _ ?s]) auto
qed

end
