(* ===== verification/Proposals.thy ===== *)
theory Proposals
  imports Durability Revocation
begin

text \<open>
  Leadership proposals (go/common/consensus/proposals.go and outgoing_rule.go): from the statuses
  a coordinator recruited, discover the outgoing rule, establish that it is revoked and can be
  finalised, choose the eligible leaders, let the caller build a proposal and validate it.

  The source encodes the three stages of the outgoing rule as three struct types; they are the
  record \<open>observedOutgoingRule\<close> and the wrappers \<open>RevokedOutgoingRule\<close> and
  \<open>FinalizableOutgoingRule\<close>. The caller's callback \<open>buildProposal\<close> and the LSN parser are
  parameters.
\<close>

record certBasis =
  frozenLSN :: lsn

record revocationBasis =
  basis_cert :: "certBasis ptr"

record observedOutgoingRule =
  oor_recruited :: "ConsensusStatus ptr list"
  oor_position :: "RulePosition ptr"
  oor_basis :: revocationBasis

datatype revokedOutgoingRule = RevokedOutgoingRule (revoked_rule: observedOutgoingRule)

datatype finalizableOutgoingRule = FinalizableOutgoingRule (finalizable_rule: revokedOutgoingRule)

record RecruitmentResult =
  rr_TermRevocation :: "TermRevocation ptr"
  rr_OutgoingRule :: "ShardRule ptr"
  rr_OutgoingRuleDecided :: bool
  rr_EligibleLeaders :: "ConsensusStatus ptr list"
  rr_outgoing :: finalizableOutgoingRule

datatype proposal_error =
    PErr_NoneAccepted
  | PErr_NoneCouldAccept
  | PErr_EmptyStatuses
  | PErr_AllPositionsInvalid
  | PErr_OutgoingRuleRequired
  | PErr_CertOutgoingRuleRequired
  | PErr_CertMissingLSN
  | PErr_CertInvalidLSN string
  | PErr_IndexOutOfRange
  | PErr_Inconsistent string string
  | PErr_CertStale string "RuleNumber ptr" "RuleNumber ptr"
  | PErr_CoordinatorStale string string "RuleNumber ptr"
  | PErr_ExpectedRuleMissing "RuleNumber ptr"
  | PErr_DecisionPolicy durability_error
  | PErr_ProposalPolicy durability_error
  | PErr_OutgoingRecruitment durability_error
  | PErr_CannotFinalize durability_error
  | PErr_CannotFinalizeUnsatisfied durability_error
  | PErr_NoneAtLSN lsn
  | PErr_NoEligibleLeaders
  | PErr_BuildProposal string
  | PErr_NilProposal
  | PErr_Validation proposal_error
  | PErr_RevocationMismatch
  | PErr_SkipQuorumNotCertified
  | PErr_NoLeaderID
  | PErr_LeaderNotEligible string "string list"
  | PErr_NoProposedRule
  | PErr_DecisionMismatch
  | PErr_NoCoordinatorID
  | PErr_NoCreationTime
  | PErr_TermBelow int int
  | PErr_TermAbove int int
  | PErr_InvalidPolicy durability_error
  | PErr_UndecidedRuleChanged
  | PErr_NotDurable durability_error
  | PErr_ProposedRecruitment durability_error

type_synonym builder = "RecruitmentResult \<Rightarrow> string + CoordinatorProposal ptr"
type_synonym lsn_parser = "string \<Rightarrow> lsn option"

subsection \<open>Filters over statuses\<close>

definition filterByValidPosition ::
  "lsn_parser \<Rightarrow> ConsensusStatus ptr list \<Rightarrow> ConsensusStatus ptr list" where
  "filterByValidPosition parse_lsn statuses =
     filter (\<lambda>cs. \<not> ruleNumberIsUnset (GetRuleNumber (GetDecision
                     (PoolerPosition_GetPosition (GetCurrentPosition cs)))) \<and>
                  parse_lsn (PoolerPosition_GetLsn (GetCurrentPosition cs)) \<noteq> None) statuses"

definition filterByRevocation ::
  "TermRevocation ptr \<Rightarrow> ConsensusStatus ptr list \<Rightarrow> ConsensusStatus ptr list" where
  "filterByRevocation revocation statuses =
     filter (\<lambda>cs. GetTermRevocation cs = revocation) statuses"

definition filterByPotentialRevocation ::
  "lsn_parser \<Rightarrow> TermRevocation ptr \<Rightarrow> ConsensusStatus ptr list \<Rightarrow> ConsensusStatus ptr list" where
  "filterByPotentialRevocation parse_lsn revocation statuses =
     filter (\<lambda>cs. ValidateRevocation parse_lsn cs revocation = None) statuses"

definition dedup_step ::
  "lsn_parser \<Rightarrow> (string \<times> ConsensusStatus ptr) list \<Rightarrow> ConsensusStatus ptr \<Rightarrow>
     (string \<times> ConsensusStatus ptr) list" where
  "dedup_step parse_lsn best cs =
     (if ConsensusStatus_GetId cs = None then best
      else
        let key = ClusterIDString (ConsensusStatus_GetId cs)
        in case map_of best key of
             None \<Rightarrow> AList.update key cs best
           | Some prev \<Rightarrow>
               if ComparePoolerPosition parse_lsn (GetCurrentPosition cs) (GetCurrentPosition prev) > 0
               then AList.update key cs best else best)"

definition deduplicateStatuses ::
  "lsn_parser \<Rightarrow> ConsensusStatus ptr list \<Rightarrow> ConsensusStatus ptr list" where
  "deduplicateStatuses parse_lsn statuses =
     sortedmaps_Values (foldl (dedup_step parse_lsn) [] statuses)"

definition filterCohortStatuses ::
  "ID ptr list \<Rightarrow> ConsensusStatus ptr list \<Rightarrow> ConsensusStatus ptr list" where
  "filterCohortStatuses cohort statuses =
     filter (\<lambda>cs. ConsensusStatus_GetId cs \<noteq> None \<and>
                  ClusterIDString (ConsensusStatus_GetId cs) \<in> poolerKeysOf cohort) statuses"

definition statusesToIDs :: "ConsensusStatus ptr list \<Rightarrow> ID ptr list" where
  "statusesToIDs statuses = map ConsensusStatus_GetId statuses"

subsection \<open>The outgoing rule\<close>

definition discover_step ::
  "RulePosition ptr \<times> ConsensusStatus ptr list \<Rightarrow> ConsensusStatus ptr \<Rightarrow>
     RulePosition ptr \<times> ConsensusStatus ptr list" where
  "discover_step st cs =
     (let (outgoingPosition, recording) = st;
          position = PoolerPosition_GetPosition (GetCurrentPosition cs)
      in if outgoingPosition = None \<or> CompareRulePosition position outgoingPosition > 0
         then (position, [cs])
         else if CompareRulePosition position outgoingPosition = 0
         then (outgoingPosition, recording @ [cs])
         else (outgoingPosition, recording))"

definition discoverOutgoingRulePosition ::
  "ConsensusStatus ptr list \<Rightarrow> proposal_error + ConsensusStatus ptr list \<times> RulePosition ptr" where
  "discoverOutgoingRulePosition recruitedStatuses =
     (let (outgoingPosition, recording) = foldl discover_step (None, []) recruitedStatuses
      in case recording of
           [] \<Rightarrow> Inr ([], None)
         | first # rest \<Rightarrow>
             (case find (\<lambda>cs. PoolerPosition_GetPosition (GetCurrentPosition cs) \<noteq> outgoingPosition) rest of
                Some cs \<Rightarrow> Inl (PErr_Inconsistent (ClusterIDString (ConsensusStatus_GetId first))
                                 (ClusterIDString (ConsensusStatus_GetId cs)))
              | None \<Rightarrow> Inr (recording, outgoingPosition)))"

definition recruitsRecordingRule :: "observedOutgoingRule \<Rightarrow> ConsensusStatus ptr list" where
  "recruitsRecordingRule o' =
     filter (\<lambda>cs. CompareRulePosition (PoolerPosition_GetPosition (GetCurrentPosition cs))
                    (oor_position o') = 0) (oor_recruited o')"

definition discoverOutgoingRule ::
  "ConsensusStatus ptr list \<Rightarrow> RuleNumber ptr \<Rightarrow> revocationBasis \<Rightarrow>
     proposal_error + observedOutgoingRule" where
  "discoverOutgoingRule recruited expected basis =
     (case discoverOutgoingRulePosition recruited of
        Inl err \<Rightarrow> Inl err
      | Inr (recording, position) \<Rightarrow>
          let observed = \<lparr>oor_recruited = recruited, oor_position = position, oor_basis = basis\<rparr>;
              outgoing = PossiblyUndecidedRule position;
              cmp = CompareRuleNumbers (GetRuleNumber outgoing) expected
          in if cmp = 0 then Inr observed
             else if basis_cert basis \<noteq> None then
               (case recording of
                  [] \<Rightarrow> Inl PErr_IndexOutOfRange
                | first # _ \<Rightarrow> Inl (PErr_CertStale (ClusterIDString (ConsensusStatus_GetId first))
                                    (GetRuleNumber outgoing) expected))
             else if cmp > 0 then
               (case recording of
                  [] \<Rightarrow> Inl PErr_IndexOutOfRange
                | first # _ \<Rightarrow> Inl (PErr_CoordinatorStale (ClusterIDString (ConsensusStatus_GetId first))
                                    (FormatRulePosition position) expected))
             else Inl (PErr_ExpectedRuleMissing expected))"

definition revokeByRecruitment :: "observedOutgoingRule \<Rightarrow> proposal_error option" where
  "revokeByRecruitment o' =
     (let decision = GetDecision (oor_position o')
      in case NewPolicyFromProto (GetDurabilityPolicy decision) of
           Inl err \<Rightarrow> Some (PErr_DecisionPolicy err)
         | Inr policy \<Rightarrow>
             let cohort = GetCohortMembers decision
             in map_option PErr_OutgoingRecruitment
                  (CheckSufficientRecruitment policy cohort
                     (statusesToIDs (filterCohortStatuses cohort (oor_recruited o')))))"

definition revoke :: "observedOutgoingRule \<Rightarrow> proposal_error + revokedOutgoingRule" where
  "revoke o' =
     (if basis_cert (oor_basis o') = None
      then (case revokeByRecruitment o' of
              Some err \<Rightarrow> Inl err
            | None \<Rightarrow> Inr (RevokedOutgoingRule o'))
      else Inr (RevokedOutgoingRule o'))"

definition checkRecruitsCanFinalizeProposal ::
  "revokedOutgoingRule \<Rightarrow> proposal_error + finalizableOutgoingRule" where
  "checkRecruitsCanFinalizeProposal r =
     (let position = oor_position (revoked_rule r)
      in if IsRuleDecided position \<or> basis_cert (oor_basis (revoked_rule r)) \<noteq> None
         then Inr (FinalizableOutgoingRule r)
         else
           let decision = GetDecision position
           in case NewPolicyFromProto (GetDurabilityPolicy decision) of
                Inl err \<Rightarrow> Inl (PErr_DecisionPolicy err)
              | Inr decisionPolicy \<Rightarrow>
                  let proposal = PossiblyUndecidedRule position
                  in case NewPolicyFromProto (GetDurabilityPolicy proposal) of
                       Inl err \<Rightarrow> Inl (PErr_ProposalPolicy err)
                     | Inr proposalPolicy \<Rightarrow>
                         (case BuildPolicyTransition
                                 \<lparr>Policy = Some decisionPolicy, Cohort = GetCohortMembers decision\<rparr>
                                 \<lparr>Policy = Some proposalPolicy, Cohort = GetCohortMembers proposal\<rparr> of
                            Inl err \<Rightarrow> Inl (PErr_CannotFinalize err)
                          | Inr transition \<Rightarrow>
                              let reachable = statusesToIDs (filterCohortStatuses
                                                (Cohort (Both transition)) (oor_recruited (revoked_rule r)))
                              in case Policy (Both transition) of
                                   None \<Rightarrow> Inl PErr_IndexOutOfRange
                                 | Some p \<Rightarrow>
                                     (case SatisfiedBy p reachable of
                                        Some err \<Rightarrow> Inl (PErr_CannotFinalizeUnsatisfied err)
                                      | None \<Rightarrow> Inr (FinalizableOutgoingRule r))))"

subsection \<open>Eligible leaders\<close>

definition narrow_step ::
  "lsn_parser \<Rightarrow> lsn \<Rightarrow> lsn \<times> ConsensusStatus ptr list \<Rightarrow> ConsensusStatus ptr \<Rightarrow>
     lsn \<times> ConsensusStatus ptr list" where
  "narrow_step parse_lsn minLSN st cs =
     (let (bestLSN, eligible) = st
      in case parse_lsn (PoolerPosition_GetLsn (GetCurrentPosition cs)) of
           None \<Rightarrow> (bestLSN, eligible)
         | Some l \<Rightarrow>
             if l < minLSN then (bestLSN, eligible)
             else
               let (bestLSN, eligible) = (if l > bestLSN then (l, []) else (bestLSN, eligible))
               in if l \<ge> bestLSN then (bestLSN, eligible @ [cs]) else (bestLSN, eligible))"

definition narrowByLSN ::
  "lsn_parser \<Rightarrow> ConsensusStatus ptr list \<Rightarrow> lsn \<Rightarrow> proposal_error + ConsensusStatus ptr list" where
  "narrowByLSN parse_lsn mostAdvanced minLSN =
     (let (bestLSN, eligibleLeaders) = foldl (narrow_step parse_lsn minLSN) (0, []) mostAdvanced
      in if eligibleLeaders = []
         then (if minLSN > 0 then Inl (PErr_NoneAtLSN minLSN) else Inl PErr_NoEligibleLeaders)
         else Inr eligibleLeaders)"

definition eligibleLeaders ::
  "lsn_parser \<Rightarrow> revokedOutgoingRule \<Rightarrow> proposal_error + ConsensusStatus ptr list" where
  "eligibleLeaders parse_lsn r =
     (let minLSN = (case basis_cert (oor_basis (revoked_rule r)) of None \<Rightarrow> 0 | Some c \<Rightarrow> frozenLSN c)
      in narrowByLSN parse_lsn (recruitsRecordingRule (revoked_rule r)) minLSN)"

definition newRecruitmentResult ::
  "lsn_parser \<Rightarrow> TermRevocation ptr \<Rightarrow> finalizableOutgoingRule \<Rightarrow> proposal_error + RecruitmentResult" where
  "newRecruitmentResult parse_lsn revocation outgoing =
     (case eligibleLeaders parse_lsn (finalizable_rule outgoing) of
        Inl err \<Rightarrow> Inl err
      | Inr eligible \<Rightarrow>
          let position = oor_position (revoked_rule (finalizable_rule outgoing))
          in Inr \<lparr>rr_TermRevocation = revocation,
                 rr_OutgoingRule = PossiblyUndecidedRule position,
                 rr_OutgoingRuleDecided = IsRuleDecided position,
                 rr_EligibleLeaders = eligible,
                 rr_outgoing = outgoing\<rparr>)"

subsection \<open>Validation\<close>

definition checkCertifiedRetryGuard ::
  "DurabilityPolicy \<Rightarrow> ID ptr list \<Rightarrow> ID ptr list \<Rightarrow> proposal_error option" where
  "checkCertifiedRetryGuard policy proposedCohort recruitedInProposedCohort =
     map_option PErr_ProposedRecruitment
       (CheckSufficientRecruitment policy proposedCohort recruitedInProposedCohort)"

definition validateProposal ::
  "CoordinatorProposal ptr \<Rightarrow> RecruitmentResult \<Rightarrow> ID ptr list \<Rightarrow> proposal_error option" where
  "validateProposal proposal result recruitedInProposedCohort =
     (if Proposal_GetTermRevocation proposal \<noteq> rr_TermRevocation result
      then Some PErr_RevocationMismatch
      else
        let cert = basis_cert (oor_basis (revoked_rule (finalizable_rule (rr_outgoing result))))
        in if GetSkipOutgoingQuorum proposal \<and> cert = None then Some PErr_SkipQuorumNotCertified
        else
          let leaderID = PoolerAddress_GetId (GetProposalLeader proposal)
          in if leaderID = None then Some PErr_NoLeaderID
          else
            let leaderKey = ClusterIDString leaderID;
                eligibleKeys = map (\<lambda>cs. ClusterIDString (ConsensusStatus_GetId cs)) (rr_EligibleLeaders result)
            in if leaderKey \<notin> set eligibleKeys then Some (PErr_LeaderNotEligible leaderKey eligibleKeys)
            else
              let proposedRule = GetProposal (GetProposedTransition proposal);
                  revokedBelow = GetRevokedBelowTerm (rr_TermRevocation result);
                  proposedTerm = GetCoordinatorTerm (GetRuleNumber proposedRule)
              in if proposedRule = None then Some PErr_NoProposedRule
              else if CompareRuleNumbers (GetRuleNumber (GetDecision (GetProposedTransition proposal)))
                        (GetOutgoingRule (rr_TermRevocation result)) \<noteq> 0
              then Some PErr_DecisionMismatch
              else if GetCoordinatorId proposedRule = None then Some PErr_NoCoordinatorID
              else if GetCreationTime proposedRule = None then Some PErr_NoCreationTime
              else if proposedTerm < revokedBelow then Some (PErr_TermBelow proposedTerm revokedBelow)
              else if proposedTerm > revokedBelow then Some (PErr_TermAbove proposedTerm revokedBelow)
              else
                case NewPolicyFromProto (GetDurabilityPolicy proposedRule) of
                  Inl err \<Rightarrow> Some (PErr_InvalidPolicy err)
                | Inr p \<Rightarrow>
                    if \<not> rr_OutgoingRuleDecided result \<and> cert = None \<and>
                       (\<not> sameCohort (GetCohortMembers proposedRule)
                             (GetCohortMembers (rr_OutgoingRule result)) \<or>
                        GetDurabilityPolicy proposedRule \<noteq> GetDurabilityPolicy (rr_OutgoingRule result))
                    then Some PErr_UndecidedRuleChanged
                    else
                      case SatisfiedBy p recruitedInProposedCohort of
                        Some err \<Rightarrow> Some (PErr_NotDurable err)
                      | None \<Rightarrow>
                          if cert \<noteq> None
                          then checkCertifiedRetryGuard p (GetCohortMembers proposedRule)
                                 recruitedInProposedCohort
                          else None)"

subsection \<open>Building a proposal\<close>

definition buildProposalCore ::
  "lsn_parser \<Rightarrow> TermRevocation ptr \<Rightarrow> ConsensusStatus ptr list \<Rightarrow> revocationBasis \<Rightarrow> builder \<Rightarrow>
     proposal_error + CoordinatorProposal ptr" where
  "buildProposalCore parse_lsn revocation recruitedStatuses basis buildProposal =
     (if recruitedStatuses = [] then Inl PErr_EmptyStatuses
      else
        let recruited = filterByValidPosition parse_lsn (deduplicateStatuses parse_lsn recruitedStatuses)
        in if recruited = [] then Inl PErr_AllPositionsInvalid
        else
          let expectedOutgoingRule = GetOutgoingRule revocation
          in if expectedOutgoingRule = None then Inl PErr_OutgoingRuleRequired
          else
            case discoverOutgoingRule recruited expectedOutgoingRule basis of
              Inl err \<Rightarrow> Inl err
            | Inr outgoing \<Rightarrow>
            (case revoke outgoing of
              Inl err \<Rightarrow> Inl err
            | Inr revoked \<Rightarrow>
            (case checkRecruitsCanFinalizeProposal revoked of
              Inl err \<Rightarrow> Inl err
            | Inr finalizable \<Rightarrow>
            (case newRecruitmentResult parse_lsn revocation finalizable of
              Inl err \<Rightarrow> Inl err
            | Inr result \<Rightarrow>
            (case buildProposal result of
              Inl err \<Rightarrow> Inl (PErr_BuildProposal err)
            | Inr proposal \<Rightarrow>
                if proposal = None then Inl PErr_NilProposal
                else
                  let recruitedIncomingCohortMembers =
                        statusesToIDs (filterCohortStatuses
                          (GetCohortMembers (GetProposal (GetProposedTransition proposal))) recruited)
                  in case validateProposal proposal result recruitedIncomingCohortMembers of
                       Some err \<Rightarrow> Inl (PErr_Validation err)
                     | None \<Rightarrow> Inr proposal)))))"

definition BuildSafeProposal ::
  "lsn_parser \<Rightarrow> TermRevocation ptr \<Rightarrow> ConsensusStatus ptr list \<Rightarrow> builder \<Rightarrow>
     proposal_error + CoordinatorProposal ptr" where
  "BuildSafeProposal parse_lsn revocation statuses buildProposal =
     (let recruited = filterByRevocation revocation statuses
      in if recruited = [] then Inl PErr_NoneAccepted
         else buildProposalCore parse_lsn revocation recruited \<lparr>basis_cert = None\<rparr> buildProposal)"

definition CheckProposalPossible ::
  "lsn_parser \<Rightarrow> TermRevocation ptr \<Rightarrow> ConsensusStatus ptr list \<Rightarrow> builder \<Rightarrow> proposal_error option" where
  "CheckProposalPossible parse_lsn revocation statuses buildProposal =
     (let candidates = filterByPotentialRevocation parse_lsn revocation statuses
      in if candidates = [] then Some PErr_NoneCouldAccept
         else case buildProposalCore parse_lsn revocation candidates \<lparr>basis_cert = None\<rparr> buildProposal of
                Inl err \<Rightarrow> Some err
              | Inr _ \<Rightarrow> None)"

definition certMinLSN ::
  "lsn_parser \<Rightarrow> ExternallyCertifiedRevocation ptr \<Rightarrow> proposal_error + lsn" where
  "certMinLSN parse_lsn cert =
     (if GetOutgoingRule (Cert_GetTermRevocation cert) = None then Inl PErr_CertOutgoingRuleRequired
      else if GetFrozenLsn cert = '''' then Inl PErr_CertMissingLSN
      else case parse_lsn (GetFrozenLsn cert) of
             None \<Rightarrow> Inl (PErr_CertInvalidLSN (GetFrozenLsn cert))
           | Some minLSN \<Rightarrow> Inr minLSN)"

definition newCertBasis ::
  "lsn_parser \<Rightarrow> ExternallyCertifiedRevocation ptr \<Rightarrow> proposal_error + revocationBasis" where
  "newCertBasis parse_lsn cert =
     (case certMinLSN parse_lsn cert of
        Inl err \<Rightarrow> Inl err
      | Inr l \<Rightarrow> Inr \<lparr>basis_cert = Some \<lparr>frozenLSN = l\<rparr>\<rparr>)"

definition CheckExternallyCertifiedProposalPossible ::
  "lsn_parser \<Rightarrow> ExternallyCertifiedRevocation ptr \<Rightarrow> ConsensusStatus ptr list \<Rightarrow> builder \<Rightarrow>
     proposal_error option" where
  "CheckExternallyCertifiedProposalPossible parse_lsn cert statuses buildProposal =
     (let revocation = Cert_GetTermRevocation cert;
          candidates = filterByPotentialRevocation parse_lsn revocation statuses
      in if candidates = [] then Some PErr_NoneCouldAccept
         else case newCertBasis parse_lsn cert of
                Inl err \<Rightarrow> Some err
              | Inr basis \<Rightarrow>
                  (case buildProposalCore parse_lsn revocation candidates basis buildProposal of
                     Inl err \<Rightarrow> Some err
                   | Inr _ \<Rightarrow> None))"

definition BuildExternallyCertifiedProposal ::
  "lsn_parser \<Rightarrow> ExternallyCertifiedRevocation ptr \<Rightarrow> ConsensusStatus ptr list \<Rightarrow> builder \<Rightarrow>
     proposal_error + CoordinatorProposal ptr" where
  "BuildExternallyCertifiedProposal parse_lsn cert statuses buildProposal =
     (let revocation = Cert_GetTermRevocation cert;
          recruited = filterByRevocation revocation statuses
      in if recruited = [] then Inl PErr_NoneAccepted
         else case newCertBasis parse_lsn cert of
                Inl err \<Rightarrow> Inl err
              | Inr basis \<Rightarrow> buildProposalCore parse_lsn revocation recruited basis buildProposal)"

definition ReplicationPrimaryFromProposal ::
  "CoordinatorProposal ptr \<Rightarrow> bool \<Rightarrow> ReplicationPrimary ptr" where
  "ReplicationPrimaryFromProposal proposal rewindReady =
     Some \<lparr>prim_position = GetProposedTransition proposal, prim_primary = GetProposalLeader proposal,
       prim_rewind_ready = rewindReady\<rparr>"

end
