(* ===== verification/Proposal_Safety.thy ===== *)
theory Proposal_Safety
  imports Proposals
begin

text \<open>
  What a successful proposal guarantees. The loops of Proposals.thy are characterised first
  (deduplication keeps the best status of each pooler, discovery finds the greatest rule position
  and all its holders, \<open>narrowByLSN\<close> keeps exactly the holders of the greatest LSN); the safety
  theorems then read off a successful run of \<open>buildProposalCore\<close> stage by stage.
\<close>

declare map_of_eq_Some_iff [simp del]
declare not_None_eq [simp del]

abbreviation status_key :: "ConsensusStatus ptr \<Rightarrow> string" where
  "status_key cs \<equiv> ClusterIDString (ConsensusStatus_GetId cs)"

abbreviation status_position :: "ConsensusStatus ptr \<Rightarrow> RulePosition ptr" where
  "status_position cs \<equiv> PoolerPosition_GetPosition (GetCurrentPosition cs)"

section \<open>Deduplication\<close>

text \<open>
  The map the loop has built after reading \<open>seen\<close>: entries are seen statuses under their own key,
  and every seen status with an identifier is represented by one at least as advanced.
\<close>

definition dedup_inv ::
  "lsn_parser \<Rightarrow> ConsensusStatus ptr set \<Rightarrow> (string \<times> ConsensusStatus ptr) list \<Rightarrow> bool" where
  "dedup_inv parse_lsn seen m \<longleftrightarrow>
     distinct (map fst m) \<and>
     (\<forall>k cs. map_of m k = Some cs \<longrightarrow> cs \<in> seen \<and> ConsensusStatus_GetId cs \<noteq> None \<and> status_key cs = k) \<and>
     (\<forall>cs \<in> seen. ConsensusStatus_GetId cs \<noteq> None \<longrightarrow>
        (\<exists>cs'. map_of m (status_key cs) = Some cs' \<and>
           0 \<le> ComparePoolerPosition parse_lsn (GetCurrentPosition cs') (GetCurrentPosition cs)))"

lemma dedup_inv_insert:
  assumes inv: "dedup_inv parse_lsn seen m"
    and id: "ConsensusStatus_GetId cs \<noteq> None"
    and best: "\<And>prev. map_of m (status_key cs) = Some prev \<Longrightarrow>
      0 \<le> ComparePoolerPosition parse_lsn (GetCurrentPosition cs) (GetCurrentPosition prev)"
  shows "dedup_inv parse_lsn (insert cs seen) (AList.update (status_key cs) cs m)"
  unfolding dedup_inv_def
proof (intro conjI allI ballI impI)
  show "distinct (map fst (AList.update (status_key cs) cs m))"
    using inv by (simp add: dedup_inv_def distinct_update)
next
  fix k x
  assume "map_of (AList.update (status_key cs) cs m) k = Some x"
  then have "k = status_key cs \<and> x = cs \<or> map_of m k = Some x"
    by (auto simp: update_conv' split: if_splits)
  with inv id show "x \<in> insert cs seen" "ConsensusStatus_GetId x \<noteq> None" "status_key x = k"
    unfolding dedup_inv_def by blast+
next
  fix x
  assume x: "x \<in> insert cs seen" "ConsensusStatus_GetId x \<noteq> None"
  show "\<exists>cs'. map_of (AList.update (status_key cs) cs m) (status_key x) = Some cs' \<and>
      0 \<le> ComparePoolerPosition parse_lsn (GetCurrentPosition cs') (GetCurrentPosition x)"
  proof (cases "status_key x = status_key cs")
    case same: True
    show ?thesis
    proof (cases "x = cs")
      case True
      then show ?thesis by (simp add: update_conv')
    next
      case False
      with x inv obtain y where "map_of m (status_key x) = Some y"
        "0 \<le> ComparePoolerPosition parse_lsn (GetCurrentPosition y) (GetCurrentPosition x)"
        unfolding dedup_inv_def by blast
      with best same show ?thesis
        by (auto simp: update_conv' intro: pooler_pos.cmp_trans)
    qed
  next
    case False
    with x inv show ?thesis
      unfolding dedup_inv_def update_conv' by (metis fun_upd_apply insertE)
  qed
qed

lemma dedup_inv_skip:
  assumes inv: "dedup_inv parse_lsn seen m"
    and cs: "ConsensusStatus_GetId cs \<noteq> None \<Longrightarrow> \<exists>cs'. map_of m (status_key cs) = Some cs' \<and>
      0 \<le> ComparePoolerPosition parse_lsn (GetCurrentPosition cs') (GetCurrentPosition cs)"
  shows "dedup_inv parse_lsn (insert cs seen) m"
  unfolding dedup_inv_def
proof (intro conjI ballI impI)
  show "distinct (map fst m)" using inv unfolding dedup_inv_def by blast
  show "\<forall>k x. map_of m k = Some x \<longrightarrow>
      x \<in> insert cs seen \<and> ConsensusStatus_GetId x \<noteq> None \<and> status_key x = k"
    using inv unfolding dedup_inv_def by blast
  fix x
  assume "x \<in> insert cs seen" "ConsensusStatus_GetId x \<noteq> None"
  then show "\<exists>cs'. map_of m (status_key x) = Some cs' \<and>
      0 \<le> ComparePoolerPosition parse_lsn (GetCurrentPosition cs') (GetCurrentPosition x)"
    using inv cs unfolding dedup_inv_def by blast
qed

lemma dedup_inv_step:
  assumes inv: "dedup_inv parse_lsn seen m"
  shows "dedup_inv parse_lsn (insert cs seen) (dedup_step parse_lsn m cs)"
proof (cases "ConsensusStatus_GetId cs = None")
  case True
  then have "dedup_step parse_lsn m cs = m" by (simp add: dedup_step_def)
  moreover have "dedup_inv parse_lsn (insert cs seen) m"
    using True by (intro dedup_inv_skip [OF inv]) simp
  ultimately show ?thesis by simp
next
  case id: False
  let ?cmp = "\<lambda>prev. ComparePoolerPosition parse_lsn (GetCurrentPosition cs) (GetCurrentPosition prev)"
  show ?thesis
  proof (cases "\<exists>prev. map_of m (status_key cs) = Some prev \<and> ?cmp prev \<le> 0")
    case True
    then obtain prev where prev: "map_of m (status_key cs) = Some prev" "?cmp prev \<le> 0" by blast
    then have "dedup_step parse_lsn m cs = m" using id by (simp add: dedup_step_def)
    moreover have "0 \<le> ComparePoolerPosition parse_lsn (GetCurrentPosition prev) (GetCurrentPosition cs)"
      using prev(2) pooler_pos.cmp_swap [of parse_lsn "GetCurrentPosition prev"] by simp
    ultimately show ?thesis using dedup_inv_skip [OF inv] prev(1) by simp
  next
    case False
    then have "dedup_step parse_lsn m cs = AList.update (status_key cs) cs m"
      using id by (cases "map_of m (status_key cs)") (auto simp: dedup_step_def Let_def)
    moreover have "dedup_inv parse_lsn (insert cs seen) (AList.update (status_key cs) cs m)"
      using False by (intro dedup_inv_insert [OF inv id]) fastforce
    ultimately show ?thesis by simp
  qed
qed

lemma dedup_inv_foldl:
  "dedup_inv parse_lsn seen m \<Longrightarrow>
     dedup_inv parse_lsn (set statuses \<union> seen) (foldl (dedup_step parse_lsn) m statuses)"
proof (induction statuses arbitrary: seen m)
  case Nil
  then show ?case by simp
next
  case (Cons cs statuses)
  from Cons.IH [OF dedup_inv_step [OF Cons.prems, of cs]] show ?case by simp
qed

lemma dedup_inv_all: "dedup_inv parse_lsn (set statuses) (foldl (dedup_step parse_lsn) [] statuses)"
proof -
  have "dedup_inv parse_lsn {} []" by (simp add: dedup_inv_def)
  from dedup_inv_foldl [OF this, of statuses] show ?thesis by simp
qed

lemma deduplicateStatuses_mem:
  "cs \<in> set (deduplicateStatuses parse_lsn statuses) \<Longrightarrow>
     cs \<in> set statuses \<and> ConsensusStatus_GetId cs \<noteq> None"
  using dedup_inv_all [of parse_lsn statuses]
  unfolding deduplicateStatuses_def set_sortedmaps_Values dedup_inv_def ran_def by blast

lemma distinct_deduplicateStatuses:
  "distinct (map status_key (deduplicateStatuses parse_lsn statuses))"
proof -
  let ?m = "foldl (dedup_step parse_lsn) [] statuses"
  have "keyed_by status_key ?m" "distinct (map fst ?m)"
    using dedup_inv_all [of parse_lsn statuses] unfolding keyed_by_def dedup_inv_def by blast+
  then show ?thesis by (simp add: deduplicateStatuses_def map_key_sortedmaps_Values)
qed

lemma deduplicateStatuses_best:
  assumes "cs \<in> set statuses" "ConsensusStatus_GetId cs \<noteq> None"
  shows "\<exists>cs' \<in> set (deduplicateStatuses parse_lsn statuses). status_key cs' = status_key cs \<and>
           0 \<le> ComparePoolerPosition parse_lsn (GetCurrentPosition cs') (GetCurrentPosition cs)"
  using dedup_inv_all [of parse_lsn statuses] assms
  unfolding deduplicateStatuses_def set_sortedmaps_Values dedup_inv_def ran_def by blast

text \<open>
  Deduplication keeps one status per pooler, taken from the input, and it is at least as
  advanced as every other status of that pooler.
\<close>

theorem deduplicateStatuses_correct:
  "distinct (map status_key (deduplicateStatuses parse_lsn statuses)) \<and>
   set (deduplicateStatuses parse_lsn statuses) \<subseteq> set statuses \<and>
   (\<forall>cs \<in> set statuses. ConsensusStatus_GetId cs \<noteq> None \<longrightarrow>
      (\<exists>cs' \<in> set (deduplicateStatuses parse_lsn statuses). status_key cs' = status_key cs \<and>
         0 \<le> ComparePoolerPosition parse_lsn (GetCurrentPosition cs') (GetCurrentPosition cs)))"
  using distinct_deduplicateStatuses deduplicateStatuses_mem deduplicateStatuses_best by blast

section \<open>Discovery of the outgoing rule\<close>

definition discover_inv ::
  "ConsensusStatus ptr list \<Rightarrow> RulePosition ptr \<times> ConsensusStatus ptr list \<Rightarrow> bool" where
  "discover_inv seen st \<longleftrightarrow>
     (case st of (pos, recording) \<Rightarrow>
        (seen = [] \<longrightarrow> pos = None \<and> recording = []) \<and>
        (seen \<noteq> [] \<longrightarrow> pos \<noteq> None \<and> recording \<noteq> [] \<and> status_position (hd recording) = pos) \<and>
        (\<forall>cs \<in> set seen. 0 \<le> CompareRulePosition pos (status_position cs)) \<and>
        recording = filter (\<lambda>cs. CompareRulePosition (status_position cs) pos = 0) seen)"

lemma discover_inv_step:
  assumes "discover_inv seen st" "status_position cs \<noteq> None"
  shows "discover_inv (seen @ [cs]) (discover_step st cs)"
proof (cases st)
  case (Pair pos recording)
  let ?p = "status_position cs"
  show ?thesis
  proof (cases "pos = None \<or> 0 < CompareRulePosition ?p pos")
    case True
    have "0 < CompareRulePosition ?p (status_position x)" if "x \<in> set seen" for x
      using assms(1) that True Pair rule_pos.cmp_strict_trans [of ?p pos]
      by (fastforce simp: discover_inv_def)
    then have "0 < CompareRulePosition ?p (status_position x) \<and>
        CompareRulePosition (status_position x) ?p \<noteq> 0" if "x \<in> set seen" for x
      using that rule_pos.cmp_swap [of "status_position x" ?p] by fastforce
    with True Pair assms(2) show ?thesis
      by (auto simp: discover_inv_def discover_step_def less_imp_le)
  next
    case False
    then have ge: "0 \<le> CompareRulePosition pos ?p"
      using rule_pos.cmp_swap [of pos ?p] by simp
    with False Pair assms show ?thesis
      by (auto simp: discover_inv_def discover_step_def split: if_splits)
  qed
qed

lemma discover_inv_foldl:
  "discover_inv seen st \<Longrightarrow> \<forall>cs \<in> set xs. status_position cs \<noteq> None \<Longrightarrow>
     discover_inv (seen @ xs) (foldl discover_step st xs)"
proof (induction xs arbitrary: seen st)
  case Nil
  then show ?case by simp
next
  case (Cons x xs)
  then have "discover_inv (seen @ [x]) (discover_step st x)" by (intro discover_inv_step) auto
  with Cons show ?case by fastforce
qed

lemma discoverOutgoingRulePosition_InrD:
  assumes "discoverOutgoingRulePosition xs = Inr (recording, pos)"
    and "\<forall>cs \<in> set xs. status_position cs \<noteq> None" "xs \<noteq> []"
  shows "\<forall>cs \<in> set xs. 0 \<le> CompareRulePosition pos (status_position cs)"
    and "\<forall>cs \<in> set xs. CompareRulePosition (status_position cs) pos = 0 \<longrightarrow> status_position cs = pos"
    and "\<exists>cs \<in> set xs. status_position cs = pos"
proof -
  obtain p r where st: "foldl discover_step (None, []) xs = (p, r)" by fastforce
  have "discover_inv [] (None, [])" by (simp add: discover_inv_def)
  from discover_inv_foldl [OF this assms(2)] st have inv: "discover_inv xs (p, r)" by simp
  then obtain f rest where r: "r = f # rest" "status_position f = p"
    using assms(3) by (cases r) (auto simp: discover_inv_def)
  have find: "find (\<lambda>cs. status_position cs \<noteq> p) rest = None" and pos: "pos = p" "recording = r"
    using assms(1) st r by (auto simp: discoverOutgoingRulePosition_def split: option.splits)
  from find r have all: "\<forall>cs \<in> set r. status_position cs = p" by (auto simp: find_None_iff)
  have set_r: "set r = {cs \<in> set xs. CompareRulePosition (status_position cs) p = 0}"
    using inv by (auto simp: discover_inv_def)
  show "\<forall>cs \<in> set xs. 0 \<le> CompareRulePosition pos (status_position cs)"
    using inv pos by (auto simp: discover_inv_def)
  show "\<forall>cs \<in> set xs. CompareRulePosition (status_position cs) pos = 0 \<longrightarrow> status_position cs = pos"
    using all set_r pos by blast
  show "\<exists>cs \<in> set xs. status_position cs = pos"
    using r set_r pos by auto
qed

section \<open>Eligible leaders\<close>

abbreviation status_lsn :: "lsn_parser \<Rightarrow> ConsensusStatus ptr \<Rightarrow> lsn option" where
  "status_lsn parse_lsn cs \<equiv> parse_lsn (PoolerPosition_GetLsn (GetCurrentPosition cs))"

definition narrow_inv ::
  "lsn_parser \<Rightarrow> lsn \<Rightarrow> ConsensusStatus ptr set \<Rightarrow> lsn \<times> ConsensusStatus ptr list \<Rightarrow> bool" where
  "narrow_inv parse_lsn minLSN seen st \<longleftrightarrow>
     (case st of (best, eligible) \<Rightarrow>
        set eligible = {cs \<in> seen. status_lsn parse_lsn cs = Some best \<and> minLSN \<le> best} \<and>
        (\<forall>cs \<in> seen. \<forall>l. status_lsn parse_lsn cs = Some l \<and> minLSN \<le> l \<longrightarrow> l \<le> best))"

lemma narrow_inv_step:
  assumes "narrow_inv parse_lsn minLSN seen st"
  shows "narrow_inv parse_lsn minLSN (insert cs seen) (narrow_step parse_lsn minLSN st cs)"
proof (cases st)
  case (Pair best eligible)
  show ?thesis
  proof (cases "status_lsn parse_lsn cs")
    case None
    with assms Pair show ?thesis by (auto simp: narrow_inv_def narrow_step_def)
  next
    case (Some l)
    have eq: "narrow_step parse_lsn minLSN st cs =
        (if l < minLSN then (best, eligible)
         else if best < l then (l, [cs])
         else if l = best then (best, eligible @ [cs]) else (best, eligible))"
      using Some Pair by (auto simp: narrow_step_def Let_def)
    have se: "set eligible = {cs \<in> seen. status_lsn parse_lsn cs = Some best \<and> minLSN \<le> best}"
      and le: "\<forall>cs \<in> seen. \<forall>l. status_lsn parse_lsn cs = Some l \<and> minLSN \<le> l \<longrightarrow> l \<le> best"
      using assms Pair by (auto simp: narrow_inv_def)
    show ?thesis
    proof (cases "minLSN \<le> l \<and> best < l")
      case True
      then have "{x \<in> insert cs seen. status_lsn parse_lsn x = Some l \<and> minLSN \<le> l} = {cs}"
        using le Some by (auto simp: not_le [symmetric])
      moreover have "\<forall>x \<in> insert cs seen. \<forall>k. status_lsn parse_lsn x = Some k \<and> minLSN \<le> k \<longrightarrow> k \<le> l"
        using le Some True by (auto intro: order_trans less_imp_le)
      moreover have "\<not> l < minLSN" using True by auto
      ultimately show ?thesis using True eq by (simp add: narrow_inv_def)
    next
      case False
      then show ?thesis using se le Some by (auto simp: eq narrow_inv_def)
    qed
  qed
qed

lemma narrow_inv_foldl:
  "narrow_inv parse_lsn minLSN seen st \<Longrightarrow>
     narrow_inv parse_lsn minLSN (set xs \<union> seen) (foldl (narrow_step parse_lsn minLSN) st xs)"
proof (induction xs arbitrary: seen st)
  case Nil
  then show ?case by simp
next
  case (Cons x xs)
  from Cons.IH [OF narrow_inv_step [OF Cons.prems, of x]] show ?case by simp
qed

lemma narrowByLSN_InrD:
  assumes "narrowByLSN parse_lsn xs minLSN = Inr es"
  shows "es \<noteq> []"
    and "\<exists>best. minLSN \<le> best \<and> set es = {cs \<in> set xs. status_lsn parse_lsn cs = Some best} \<and>
           (\<forall>cs \<in> set xs. \<forall>l. status_lsn parse_lsn cs = Some l \<longrightarrow> l \<le> best)"
proof -
  obtain best el where st: "foldl (narrow_step parse_lsn minLSN) (0, []) xs = (best, el)" by fastforce
  have el: "el = es" and ne: "es \<noteq> []"
    using assms st by (auto simp: narrowByLSN_def split: if_splits)
  then show "es \<noteq> []" by simp
  have "narrow_inv parse_lsn minLSN {} (0, [])" by (simp add: narrow_inv_def)
  from narrow_inv_foldl [OF this, of xs] st el have "narrow_inv parse_lsn minLSN (set xs) (best, es)"
    by simp
  then have se: "set es = {cs \<in> set xs. status_lsn parse_lsn cs = Some best \<and> minLSN \<le> best}"
    and le: "\<forall>cs \<in> set xs. \<forall>l. status_lsn parse_lsn cs = Some l \<and> minLSN \<le> l \<longrightarrow> l \<le> best"
    unfolding narrow_inv_def prod.case by (rule conjunct1, rule conjunct2)
  have "hd es \<in> set es" using ne by simp
  then have "minLSN \<le> best" unfolding se mem_Collect_eq by simp
  moreover have "\<forall>cs \<in> set xs. \<forall>l. status_lsn parse_lsn cs = Some l \<longrightarrow> l \<le> best"
  proof (intro ballI allI impI)
    fix cs l assume "cs \<in> set xs" "status_lsn parse_lsn cs = Some l"
    with le \<open>minLSN \<le> best\<close> show "l \<le> best" by (cases "minLSN \<le> l") auto
  qed
  ultimately show "\<exists>best. minLSN \<le> best \<and> set es = {cs \<in> set xs. status_lsn parse_lsn cs = Some best} \<and>
           (\<forall>cs \<in> set xs. \<forall>l. status_lsn parse_lsn cs = Some l \<longrightarrow> l \<le> best)"
    using se by auto
qed

section \<open>A successful run, stage by stage\<close>

text \<open>The statuses that count: deduplicated, with a recorded decision and a readable LSN.\<close>

definition valid_recruits :: "lsn_parser \<Rightarrow> ConsensusStatus ptr list \<Rightarrow> ConsensusStatus ptr list" where
  "valid_recruits parse_lsn statuses =
     filterByValidPosition parse_lsn (deduplicateStatuses parse_lsn statuses)"

lemma valid_recruitsD:
  assumes "cs \<in> set (valid_recruits parse_lsn statuses)"
  shows "cs \<in> set statuses" "ConsensusStatus_GetId cs \<noteq> None"
    "status_position cs \<noteq> None" "status_lsn parse_lsn cs \<noteq> None"
    "\<not> ruleNumberIsUnset (GetRuleNumber (GetDecision (status_position cs)))"
proof -
  from assms have d: "cs \<in> set (deduplicateStatuses parse_lsn statuses)"
    and v: "\<not> ruleNumberIsUnset (GetRuleNumber (GetDecision (status_position cs)))"
      "status_lsn parse_lsn cs \<noteq> None"
    by (auto simp: valid_recruits_def filterByValidPosition_def)
  from v show "\<not> ruleNumberIsUnset (GetRuleNumber (GetDecision (status_position cs)))"
    "status_lsn parse_lsn cs \<noteq> None" by simp_all
  from v(1) show "status_position cs \<noteq> None"
    by (cases "status_position cs") (simp_all add: ruleNumberIsUnset_def)
  from deduplicateStatuses_mem [OF d] show "cs \<in> set statuses" "ConsensusStatus_GetId cs \<noteq> None"
    by simp_all
qed

lemma buildProposalCore_InrE:
  assumes "buildProposalCore parse_lsn rv statuses basis build = Inr p"
  obtains outgoing revoked result where
    "valid_recruits parse_lsn statuses \<noteq> []"
    "discoverOutgoingRule (valid_recruits parse_lsn statuses) (GetOutgoingRule rv) basis = Inr outgoing"
    "revoke outgoing = Inr revoked"
    "checkRecruitsCanFinalizeProposal revoked = Inr (FinalizableOutgoingRule revoked)"
    "newRecruitmentResult parse_lsn rv (FinalizableOutgoingRule revoked) = Inr result"
    "build result = Inr p" "p \<noteq> None"
    "validateProposal p result (statusesToIDs (filterCohortStatuses
       (GetCohortMembers (GetProposal (GetProposedTransition p))) (valid_recruits parse_lsn statuses))) = None"
proof -
  have fin: "f = FinalizableOutgoingRule r" if "checkRecruitsCanFinalizeProposal r = Inr f" for r f
    using that by (auto simp: checkRecruitsCanFinalizeProposal_def Let_def
        split: if_splits sum.splits option.splits)
  let ?xs = "valid_recruits parse_lsn statuses"
  from assms have ne: "?xs \<noteq> []"
    by (auto simp: buildProposalCore_def Let_def simp flip: valid_recruits_def split: if_splits)
  from assms obtain outgoing where out: "discoverOutgoingRule ?xs (GetOutgoingRule rv) basis = Inr outgoing"
    by (cases "discoverOutgoingRule ?xs (GetOutgoingRule rv) basis")
      (auto simp: buildProposalCore_def Let_def simp flip: valid_recruits_def split: if_splits)
  with assms obtain revoked where rev: "revoke outgoing = Inr revoked"
    by (cases "revoke outgoing")
      (auto simp: buildProposalCore_def Let_def simp flip: valid_recruits_def split: if_splits)
  with assms out obtain f where f: "checkRecruitsCanFinalizeProposal revoked = Inr f"
    by (cases "checkRecruitsCanFinalizeProposal revoked")
      (auto simp: buildProposalCore_def Let_def simp flip: valid_recruits_def split: if_splits)
  with fin have f': "f = FinalizableOutgoingRule revoked" by blast
  with assms out rev f obtain result where res: "newRecruitmentResult parse_lsn rv f = Inr result"
    by (cases "newRecruitmentResult parse_lsn rv f")
      (auto simp: buildProposalCore_def Let_def simp flip: valid_recruits_def split: if_splits)
  with assms out rev f have "build result = Inr p" "p \<noteq> None"
    "validateProposal p result (statusesToIDs (filterCohortStatuses
       (GetCohortMembers (GetProposal (GetProposedTransition p))) ?xs)) = None"
    by (auto simp: buildProposalCore_def Let_def simp flip: valid_recruits_def
        split: if_splits sum.splits option.splits)
  with ne out rev f f' res that show thesis by blast
qed

lemma discoverOutgoingRule_InrD:
  assumes "discoverOutgoingRule xs expected basis = Inr outgoing"
    and "\<forall>cs \<in> set xs. status_position cs \<noteq> None" "xs \<noteq> []"
  shows "oor_recruited outgoing = xs" "oor_basis outgoing = basis"
    "CompareRuleNumbers (GetRuleNumber (PossiblyUndecidedRule (oor_position outgoing))) expected = 0"
    "\<forall>cs \<in> set xs. 0 \<le> CompareRulePosition (oor_position outgoing) (status_position cs)"
    "\<forall>cs \<in> set xs. CompareRulePosition (status_position cs) (oor_position outgoing) = 0 \<longrightarrow>
       status_position cs = oor_position outgoing"
proof -
  from assms(1) obtain recording pos where d: "discoverOutgoingRulePosition xs = Inr (recording, pos)"
    and o': "outgoing = \<lparr>oor_recruited = xs, oor_position = pos, oor_basis = basis\<rparr>"
      "CompareRuleNumbers (GetRuleNumber (PossiblyUndecidedRule pos)) expected = 0"
    by (auto simp: discoverOutgoingRule_def Let_def split: sum.splits prod.splits if_splits list.splits)
  then show "oor_recruited outgoing = xs" "oor_basis outgoing = basis"
    "CompareRuleNumbers (GetRuleNumber (PossiblyUndecidedRule (oor_position outgoing))) expected = 0"
    by simp_all
  from discoverOutgoingRulePosition_InrD [OF d assms(2,3)] o'(1)
  show "\<forall>cs \<in> set xs. 0 \<le> CompareRulePosition (oor_position outgoing) (status_position cs)"
    "\<forall>cs \<in> set xs. CompareRulePosition (status_position cs) (oor_position outgoing) = 0 \<longrightarrow>
       status_position cs = oor_position outgoing"
    by simp_all
qed

lemma revoke_InrD:
  assumes "revoke outgoing = Inr revoked"
  shows "revoked_rule revoked = outgoing"
    and "basis_cert (oor_basis outgoing) = None \<Longrightarrow>
      \<exists>policy. NewPolicyFromProto (GetDurabilityPolicy (GetDecision (oor_position outgoing))) = Inr policy \<and>
        CheckSufficientRecruitment policy (GetCohortMembers (GetDecision (oor_position outgoing)))
          (statusesToIDs (filterCohortStatuses (GetCohortMembers (GetDecision (oor_position outgoing)))
             (oor_recruited outgoing))) = None"
  using assms
  by (auto simp: revoke_def revokeByRecruitment_def Let_def split: if_splits option.splits sum.splits)

lemma newRecruitmentResult_InrD:
  assumes "newRecruitmentResult parse_lsn rv (FinalizableOutgoingRule revoked) = Inr result"
  shows "rr_TermRevocation result = rv" "rr_outgoing result = FinalizableOutgoingRule revoked"
    "eligibleLeaders parse_lsn revoked = Inr (rr_EligibleLeaders result)"
    "rr_OutgoingRule result = PossiblyUndecidedRule (oor_position (revoked_rule revoked))"
    "rr_OutgoingRuleDecided result = IsRuleDecided (oor_position (revoked_rule revoked))"
  using assms by (auto simp: newRecruitmentResult_def Let_def split: sum.splits)

lemma validateProposal_NoneD:
  assumes "validateProposal p result members = None"
  shows "Proposal_GetTermRevocation p = rr_TermRevocation result"
    "PoolerAddress_GetId (GetProposalLeader p) \<noteq> None"
    "ClusterIDString (PoolerAddress_GetId (GetProposalLeader p)) \<in> status_key ` set (rr_EligibleLeaders result)"
    "GetProposal (GetProposedTransition p) \<noteq> None"
    "CompareRuleNumbers (GetRuleNumber (GetDecision (GetProposedTransition p)))
       (GetOutgoingRule (rr_TermRevocation result)) = 0"
    "GetCoordinatorTerm (GetRuleNumber (GetProposal (GetProposedTransition p))) =
       GetRevokedBelowTerm (rr_TermRevocation result)"
    "\<exists>policy. NewPolicyFromProto (GetDurabilityPolicy (GetProposal (GetProposedTransition p))) = Inr policy \<and>
       SatisfiedBy policy members = None"
    "basis_cert (oor_basis (revoked_rule (finalizable_rule (rr_outgoing result)))) = None \<Longrightarrow>
       \<not> GetSkipOutgoingQuorum p"
  using assms
  by (auto simp: validateProposal_def Let_def split: if_splits sum.splits option.splits)

section \<open>The chosen leader\<close>

definition basis_min_lsn :: "revocationBasis \<Rightarrow> lsn" where
  "basis_min_lsn basis = (case basis_cert basis of None \<Rightarrow> 0 | Some c \<Rightarrow> frozenLSN c)"

lemma eligible_most_advanced:
  assumes el: "eligibleLeaders parse_lsn (RevokedOutgoingRule outgoing) = Inr es" "leader \<in> set es"
    and ge: "\<forall>cs \<in> set (oor_recruited outgoing).
      0 \<le> CompareRulePosition (oor_position outgoing) (status_position cs)"
    and eq: "\<forall>cs \<in> set (oor_recruited outgoing).
      CompareRulePosition (status_position cs) (oor_position outgoing) = 0 \<longrightarrow>
        status_position cs = oor_position outgoing"
  shows "leader \<in> set (oor_recruited outgoing)" "status_position leader = oor_position outgoing"
    "\<exists>l. status_lsn parse_lsn leader = Some l \<and> basis_min_lsn (oor_basis outgoing) \<le> l"
    "\<forall>cs \<in> set (oor_recruited outgoing).
       0 \<le> ComparePoolerPosition parse_lsn (GetCurrentPosition leader) (GetCurrentPosition cs)"
proof -
  let ?rec = "recruitsRecordingRule outgoing"
  have narrow: "narrowByLSN parse_lsn ?rec (basis_min_lsn (oor_basis outgoing)) = Inr es"
    using el(1) by (simp add: eligibleLeaders_def basis_min_lsn_def)
  from narrowByLSN_InrD(2) [OF this] obtain best where best: "basis_min_lsn (oor_basis outgoing) \<le> best"
    "set es = {cs \<in> set ?rec. status_lsn parse_lsn cs = Some best}"
    "\<forall>cs \<in> set ?rec. \<forall>l. status_lsn parse_lsn cs = Some l \<longrightarrow> l \<le> best" by blast
  have set_rec: "set ?rec = {cs \<in> set (oor_recruited outgoing).
      CompareRulePosition (status_position cs) (oor_position outgoing) = 0}"
    by (auto simp: recruitsRecordingRule_def)
  have leader: "leader \<in> set ?rec" "status_lsn parse_lsn leader = Some best"
    using el(2) unfolding best(2) by simp_all
  show mem: "leader \<in> set (oor_recruited outgoing)" using leader(1) unfolding set_rec by simp
  show pos: "status_position leader = oor_position outgoing"
    using leader(1) eq unfolding set_rec by simp
  show "\<exists>l. status_lsn parse_lsn leader = Some l \<and> basis_min_lsn (oor_basis outgoing) \<le> l"
    using leader(2) best(1) by simp
  show "\<forall>cs \<in> set (oor_recruited outgoing).
       0 \<le> ComparePoolerPosition parse_lsn (GetCurrentPosition leader) (GetCurrentPosition cs)"
  proof
    fix cs assume cs: "cs \<in> set (oor_recruited outgoing)"
    show "0 \<le> ComparePoolerPosition parse_lsn (GetCurrentPosition leader) (GetCurrentPosition cs)"
    proof (cases "CompareRulePosition (status_position leader) (status_position cs) = 0")
      case True
      then have "CompareRulePosition (status_position cs) (oor_position outgoing) = 0"
        using pos rule_pos.cmp_swap [of "status_position cs"] by simp
      with cs have "cs \<in> set ?rec" unfolding set_rec by simp
      with best(3) have "0 \<le> lsn_cmp (Some best) (status_lsn parse_lsn cs)"
        by (cases "status_lsn parse_lsn cs") (simp_all add: lsn_cmp_nonneg_iff)
      with True leader(2) show ?thesis by (simp add: ComparePoolerPosition_nonneg_iff)
    next
      case False
      moreover have "0 \<le> CompareRulePosition (status_position leader) (status_position cs)"
        using ge cs pos by simp
      ultimately show ?thesis by (simp add: ComparePoolerPosition_nonneg_iff)
    qed
  qed
qed

definition proposal_leader_key :: "CoordinatorProposal ptr \<Rightarrow> string" where
  "proposal_leader_key p = ClusterIDString (PoolerAddress_GetId (GetProposalLeader p))"

lemma buildProposalCore_leader:
  assumes core: "buildProposalCore parse_lsn rv statuses basis build = Inr p"
  defines "recruits \<equiv> valid_recruits parse_lsn statuses"
  obtains leader where "leader \<in> set recruits" "status_key leader = proposal_leader_key p"
    "\<forall>cs \<in> set recruits.
       0 \<le> ComparePoolerPosition parse_lsn (GetCurrentPosition leader) (GetCurrentPosition cs)"
    "CompareRuleNumbers (GetRuleNumber (PossiblyUndecidedRule (status_position leader)))
       (GetOutgoingRule rv) = 0"
    "\<exists>l. status_lsn parse_lsn leader = Some l \<and> basis_min_lsn basis \<le> l"
    "basis_cert basis = None \<Longrightarrow>
      \<exists>policy. NewPolicyFromProto (GetDurabilityPolicy (GetDecision (status_position leader))) = Inr policy \<and>
        CheckSufficientRecruitment policy (GetCohortMembers (GetDecision (status_position leader)))
          (statusesToIDs (filterCohortStatuses (GetCohortMembers (GetDecision (status_position leader)))
             recruits)) = None"
proof -
  from buildProposalCore_InrE [OF core] obtain outgoing revoked result where
    ne: "recruits \<noteq> []"
    and out: "discoverOutgoingRule recruits (GetOutgoingRule rv) basis = Inr outgoing"
    and rev: "revoke outgoing = Inr revoked"
    and res: "newRecruitmentResult parse_lsn rv (FinalizableOutgoingRule revoked) = Inr result"
    and val: "validateProposal p result (statusesToIDs (filterCohortStatuses
       (GetCohortMembers (GetProposal (GetProposedTransition p))) recruits)) = None"
    unfolding recruits_def by metis
  have "\<forall>cs \<in> set recruits. status_position cs \<noteq> None"
    unfolding recruits_def using valid_recruitsD(3) by blast
  note disc = discoverOutgoingRule_InrD [OF out this ne]
  note rv' = revoke_InrD [OF rev]
  have el: "eligibleLeaders parse_lsn (RevokedOutgoingRule outgoing) = Inr (rr_EligibleLeaders result)"
    using newRecruitmentResult_InrD(3) [OF res] rv'(1) by (metis revokedOutgoingRule.exhaust_sel)
  from validateProposal_NoneD(3) [OF val] obtain leader where
    leader: "leader \<in> set (rr_EligibleLeaders result)" "status_key leader = proposal_leader_key p"
    by (auto simp: proposal_leader_key_def)
  note adv = eligible_most_advanced [OF el leader(1), unfolded disc(1,2), OF disc(4,5)]
  show thesis
    using that [of leader] leader(2) adv disc(1-3) rv'(2) by simp
qed

text \<open>
  C2: when \<open>BuildSafeProposal\<close> succeeds, its leader is a pooler that accepted the revocation and is
  at least as advanced as every recruited pooler, and every set of poolers that could have made
  a write durable under the outgoing decision contains a recruited one: no durable write is
  missed by the choice of leader.
\<close>

theorem BuildSafeProposal_leader_complete:
  assumes "BuildSafeProposal parse_lsn rv statuses build = Inr p"
  defines "recruits \<equiv> valid_recruits parse_lsn (filterByRevocation rv statuses)"
  shows "\<exists>leader \<in> set recruits. status_key leader = proposal_leader_key p \<and>
           GetTermRevocation leader = rv \<and>
           (\<forall>cs \<in> set recruits.
              0 \<le> ComparePoolerPosition parse_lsn (GetCurrentPosition leader) (GetCurrentPosition cs)) \<and>
           (\<exists>policy. NewPolicyFromProto (GetDurabilityPolicy (GetDecision (status_position leader))) = Inr policy \<and>
              (\<forall>q. wf_IDs (GetCohortMembers (GetDecision (status_position leader))) \<and> wf_IDs q \<and>
                 poolerKeysOf q \<subseteq> poolerKeysOf (GetCohortMembers (GetDecision (status_position leader))) \<and>
                 SatisfiedBy policy q = None \<longrightarrow>
                 (\<exists>cs \<in> set recruits. status_key cs \<in> poolerKeysOf q)))"
proof -
  have core: "buildProposalCore parse_lsn rv (filterByRevocation rv statuses) \<lparr>basis_cert = None\<rparr> build = Inr p"
    using assms(1) by (simp add: BuildSafeProposal_def Let_def split: if_splits)
  obtain leader where leader: "leader \<in> set recruits" "status_key leader = proposal_leader_key p"
    "\<forall>cs \<in> set recruits.
       0 \<le> ComparePoolerPosition parse_lsn (GetCurrentPosition leader) (GetCurrentPosition cs)"
    and quorum: "\<exists>policy. NewPolicyFromProto (GetDurabilityPolicy (GetDecision (status_position leader))) = Inr policy \<and>
        CheckSufficientRecruitment policy (GetCohortMembers (GetDecision (status_position leader)))
          (statusesToIDs (filterCohortStatuses (GetCohortMembers (GetDecision (status_position leader)))
             recruits)) = None"
    using buildProposalCore_leader [OF core] unfolding recruits_def by (metis revocationBasis.select_convs(1))
  have "GetTermRevocation leader = rv"
    using valid_recruitsD(1) [OF leader(1) [unfolded recruits_def]] by (simp add: filterByRevocation_def)
  moreover have keys: "poolerKeysOf (statusesToIDs (filterCohortStatuses c recruits)) \<subseteq> status_key ` set recruits" for c
    by (auto simp: poolerKeysOf_alt statusesToIDs_def filterCohortStatuses_def)
  obtain policy where policy: "NewPolicyFromProto (GetDurabilityPolicy (GetDecision (status_position leader))) = Inr policy"
    "CheckSufficientRecruitment policy (GetCohortMembers (GetDecision (status_position leader)))
          (statusesToIDs (filterCohortStatuses (GetCohortMembers (GetDecision (status_position leader)))
             recruits)) = None"
    using quorum by blast
  have "\<exists>cs \<in> set recruits. status_key cs \<in> poolerKeysOf q"
    if "wf_IDs (GetCohortMembers (GetDecision (status_position leader)))" "wf_IDs q"
      "poolerKeysOf q \<subseteq> poolerKeysOf (GetCohortMembers (GetDecision (status_position leader)))"
      "SatisfiedBy policy q = None" for q
    using sufficient_recruitment_meets_quorum [OF that(1) policy(2) that(2-4)] keys by blast
  ultimately show ?thesis using leader policy(1) by blast
qed

section \<open>What a proposal is bound to\<close>

text \<open>The recruits among the cohort of the rule a proposal proposes.\<close>

definition proposed_recruits ::
  "CoordinatorProposal ptr \<Rightarrow> ConsensusStatus ptr list \<Rightarrow> ID ptr list" where
  "proposed_recruits p recruits = statusesToIDs (filterCohortStatuses
     (GetCohortMembers (GetProposal (GetProposedTransition p))) recruits)"

lemma validateProposal_cert:
  assumes "validateProposal p result members = None"
    and "basis_cert (oor_basis (revoked_rule (finalizable_rule (rr_outgoing result)))) \<noteq> None"
  shows "\<exists>policy. NewPolicyFromProto (GetDurabilityPolicy (GetProposal (GetProposedTransition p))) = Inr policy \<and>
     CheckSufficientRecruitment policy (GetCohortMembers (GetProposal (GetProposedTransition p))) members = None"
  using assms
  by (auto simp: validateProposal_def checkCertifiedRetryGuard_def Let_def
      split: if_splits sum.splits option.splits)

lemma buildProposalCore_valid:
  assumes "buildProposalCore parse_lsn rv statuses basis build = Inr p"
  obtains result where "rr_TermRevocation result = rv"
    "oor_basis (revoked_rule (finalizable_rule (rr_outgoing result))) = basis"
    "validateProposal p result (proposed_recruits p (valid_recruits parse_lsn statuses)) = None"
proof -
  let ?xs = "valid_recruits parse_lsn statuses"
  from buildProposalCore_InrE [OF assms] obtain outgoing revoked result where
    ne: "?xs \<noteq> []"
    and out: "discoverOutgoingRule ?xs (GetOutgoingRule rv) basis = Inr outgoing"
    and rev: "revoke outgoing = Inr revoked"
    and res: "newRecruitmentResult parse_lsn rv (FinalizableOutgoingRule revoked) = Inr result"
    and val: "validateProposal p result (statusesToIDs (filterCohortStatuses
       (GetCohortMembers (GetProposal (GetProposedTransition p))) ?xs)) = None"
    by metis
  have "\<forall>cs \<in> set ?xs. status_position cs \<noteq> None" using valid_recruitsD(3) by blast
  with discoverOutgoingRule_InrD(2) [OF out] ne have "oor_basis outgoing = basis" by blast
  with that [of result] newRecruitmentResult_InrD(1,2) [OF res] revoke_InrD(1) [OF rev] val show thesis
    by (simp add: proposed_recruits_def)
qed

text \<open>
  C12: a safe proposal is bound to the recruitment it was built from: it carries the revocation the
  recruits accepted, its rule is numbered at exactly the recruited term and replaces exactly the
  outgoing rule of the revocation, it does not ask to skip the outgoing quorum, and the
  recruited members of its cohort satisfy its own durability policy.
\<close>

theorem BuildSafeProposal_authority:
  assumes "BuildSafeProposal parse_lsn rv statuses build = Inr p"
  shows "Proposal_GetTermRevocation p = rv \<and>
         GetCoordinatorTerm (GetRuleNumber (GetProposal (GetProposedTransition p))) = GetRevokedBelowTerm rv \<and>
         CompareRuleNumbers (GetRuleNumber (GetDecision (GetProposedTransition p))) (GetOutgoingRule rv) = 0 \<and>
         \<not> GetSkipOutgoingQuorum p \<and>
         (\<exists>policy. NewPolicyFromProto (GetDurabilityPolicy (GetProposal (GetProposedTransition p))) = Inr policy \<and>
            SatisfiedBy policy (proposed_recruits p
              (valid_recruits parse_lsn (filterByRevocation rv statuses))) = None)"
proof -
  have "buildProposalCore parse_lsn rv (filterByRevocation rv statuses) \<lparr>basis_cert = None\<rparr> build = Inr p"
    using assms by (simp add: BuildSafeProposal_def Let_def split: if_splits)
  from buildProposalCore_valid [OF this] obtain result where
    res: "rr_TermRevocation result = rv"
      "oor_basis (revoked_rule (finalizable_rule (rr_outgoing result))) = \<lparr>basis_cert = None\<rparr>"
      "validateProposal p result (proposed_recruits p
         (valid_recruits parse_lsn (filterByRevocation rv statuses))) = None" .
  with validateProposal_NoneD [OF res(3)] show ?thesis by simp
qed

text \<open>
  C13: a proposal built from an external certificate never moves the shard behind the certified
  point: its leader accepted the certified revocation, has written at least up to the frozen
  LSN, records exactly the certified outgoing rule and is at least as advanced as every recruit;
  and the recruits are a sufficient recruitment of the proposed cohort.
\<close>

theorem BuildExternallyCertifiedProposal_safe:
  assumes "BuildExternallyCertifiedProposal parse_lsn cert statuses build = Inr p"
  defines "rv \<equiv> Cert_GetTermRevocation cert"
    and "recruits \<equiv> valid_recruits parse_lsn (filterByRevocation (Cert_GetTermRevocation cert) statuses)"
  shows "\<exists>leader \<in> set recruits. \<exists>frozen l. status_key leader = proposal_leader_key p \<and>
           GetTermRevocation leader = rv \<and>
           parse_lsn (GetFrozenLsn cert) = Some frozen \<and> status_lsn parse_lsn leader = Some l \<and> frozen \<le> l \<and>
           CompareRuleNumbers (GetRuleNumber (PossiblyUndecidedRule (status_position leader)))
             (GetOutgoingRule rv) = 0 \<and>
           (\<forall>cs \<in> set recruits.
              0 \<le> ComparePoolerPosition parse_lsn (GetCurrentPosition leader) (GetCurrentPosition cs)) \<and>
           (\<exists>policy. NewPolicyFromProto (GetDurabilityPolicy (GetProposal (GetProposedTransition p))) = Inr policy \<and>
              CheckSufficientRecruitment policy (GetCohortMembers (GetProposal (GetProposedTransition p)))
                (proposed_recruits p recruits) = None)"
proof -
  from assms(1) obtain basis where basis: "newCertBasis parse_lsn cert = Inr basis"
    and core: "buildProposalCore parse_lsn rv (filterByRevocation rv statuses) basis build = Inr p"
    by (auto simp: BuildExternallyCertifiedProposal_def Let_def rv_def split: if_splits sum.splits)
  from basis obtain frozen where frozen: "parse_lsn (GetFrozenLsn cert) = Some frozen"
    "basis = \<lparr>basis_cert = Some \<lparr>frozenLSN = frozen\<rparr>\<rparr>"
    by (auto simp: newCertBasis_def certMinLSN_def split: if_splits option.splits sum.splits)
  obtain leader where leader: "leader \<in> set recruits" "status_key leader = proposal_leader_key p"
    "\<forall>cs \<in> set recruits.
       0 \<le> ComparePoolerPosition parse_lsn (GetCurrentPosition leader) (GetCurrentPosition cs)"
    "CompareRuleNumbers (GetRuleNumber (PossiblyUndecidedRule (status_position leader)))
       (GetOutgoingRule rv) = 0"
    "\<exists>l. status_lsn parse_lsn leader = Some l \<and> basis_min_lsn basis \<le> l"
    using buildProposalCore_leader [OF core] unfolding recruits_def rv_def by metis
  have "GetTermRevocation leader = rv"
    using valid_recruitsD(1) [OF leader(1) [unfolded recruits_def]] by (simp add: filterByRevocation_def rv_def)
  moreover obtain result where
    res: "oor_basis (revoked_rule (finalizable_rule (rr_outgoing result))) = basis"
      "validateProposal p result (proposed_recruits p recruits) = None"
    using buildProposalCore_valid [OF core] unfolding recruits_def rv_def by metis
  moreover from res(1) frozen(2)
  have "basis_cert (oor_basis (revoked_rule (finalizable_rule (rr_outgoing result)))) \<noteq> None" by simp
  ultimately show ?thesis
    using leader frozen validateProposal_cert [OF res(2)] by (auto simp: basis_min_lsn_def)
qed

section \<open>Concrete instances\<close>

text \<open>Poolers b and c accept term 4 while a is unreachable; b is ahead and is proposed as leader.\<close>

abbreviation ex_rv :: "TermRevocation ptr" where
  "ex_rv \<equiv> ex_revocation 4 (ex_num 3 0)"

abbreviation ex_recruits :: "ConsensusStatus ptr list" where
  "ex_recruits \<equiv> [ex_status ex_b (ex_decided 3) ''120'' ex_rv, ex_status ex_c (ex_decided 3) ''110'' ex_rv]"

definition ex_proposal :: "CoordinatorProposal ptr" where
  "ex_proposal = Some \<lparr>prop_term_revocation = ex_rv, prop_proposal_leader = ex_address ex_b,
     prop_proposed_transition = Some \<lparr>pos_decision = ex_rule (ex_num 3 0) ex_a,
       pos_proposal = ex_rule (ex_num 4 0) ex_b\<rparr>,
     prop_skip_outgoing_quorum = False\<rparr>"

lemma ex_BuildSafeProposal:
  "BuildSafeProposal ex_parse ex_rv ex_recruits (\<lambda>_. Inr ex_proposal) = Inr ex_proposal"
  by code_simp

theorem BuildSafeProposal_leader_complete_witness:
  "\<exists>leader \<in> set (valid_recruits ex_parse (filterByRevocation ex_rv ex_recruits)).
     status_key leader = ''zone2_b''"
proof -
  have "proposal_leader_key ex_proposal = ''zone2_b''" by code_simp
  with BuildSafeProposal_leader_complete [OF ex_BuildSafeProposal] show ?thesis by metis
qed

theorem BuildSafeProposal_authority_witness:
  "GetCoordinatorTerm (GetRuleNumber (GetProposal (GetProposedTransition ex_proposal))) = 4"
proof -
  have "GetRevokedBelowTerm ex_rv = 4" by code_simp
  with BuildSafeProposal_authority [OF ex_BuildSafeProposal] show ?thesis by metis
qed

definition ex_cert :: "ExternallyCertifiedRevocation ptr" where
  "ex_cert = Some \<lparr>cert_term_revocation = ex_rv, cert_frozen_lsn = ''115''\<rparr>"

theorem BuildExternallyCertifiedProposal_safe_witness:
  "\<exists>leader \<in> set (valid_recruits ex_parse (filterByRevocation (Cert_GetTermRevocation ex_cert) ex_recruits)).
     \<exists>l. status_lsn ex_parse leader = Some l \<and> 115 \<le> l"
proof -
  have "BuildExternallyCertifiedProposal ex_parse ex_cert ex_recruits (\<lambda>_. Inr ex_proposal) = Inr ex_proposal"
    by code_simp
  note safe = BuildExternallyCertifiedProposal_safe [OF this]
  have "ex_parse (GetFrozenLsn ex_cert) = Some 115" by code_simp
  with safe show ?thesis by (metis option.inject)
qed

theorem deduplicateStatuses_correct_witness:
  "\<exists>cs' \<in> set (deduplicateStatuses ex_parse ex_recruits). status_key cs' = ''zone2_b''"
proof -
  have "ex_status ex_b (ex_decided 3) ''120'' ex_rv \<in> set ex_recruits" by simp
  moreover have "ConsensusStatus_GetId (ex_status ex_b (ex_decided 3) ''120'' ex_rv) \<noteq> None"
    "status_key (ex_status ex_b (ex_decided 3) ''120'' ex_rv) = ''zone2_b''" by code_simp+
  ultimately show ?thesis using deduplicateStatuses_correct by metis
qed

end
