(* ===== verification/Rule_Change.thy ===== *)
theory Rule_Change
  imports Proposal_Safety Failover_Choice
begin

text \<open>
  The workflow of a coordinator-led rule change (go/services/multiorch/consensus/rule_change.go):
  check that a proposal is possible, recruit every pooler, propose at the first quorum of answers,
  promote the chosen leader and point the others at it.

  The workflow is parameterised by callbacks, as in the source. Everything it learns from outside is
  in a record \<open>world\<close>: the answers of the RPCs, the order in which results arrive on its channels
  the clock, and what the n-th attempt to build a proposal draws from the random generator and the
  clock; \<open>world_ok\<close> states that a channel delivers each result once and that a random number is in
  range. \<open>Run\<close> returns the RPCs it sends next to its error, so that
  what is and is not sent can be stated. \<open>CErr_NilPooler\<close> stands for the panic of a nil dereference;
  the RPCs next to it are those that may have been sent.
\<close>

subsection \<open>Messages and outcomes\<close>

record PromoteRequest =
  preq_Proposal :: "CoordinatorProposal ptr"
  preq_Reason :: string
  preq_AcceptedNodeIds :: "ID ptr list"

datatype rpc =
    RecruitRPC "Multipooler ptr" "TermRevocation ptr"
  | PromoteRPC "Multipooler ptr" PromoteRequest
  | SetPrimaryRPC "Multipooler ptr" "ReplicationPrimary ptr"

datatype coordinator_error =
    CErr_NilPooler
  | CErr_EmptyCohort string
  | CErr_AllIneligible "string list"
  | CErr_Revocation revocation_error
  | CErr_ExcludedIneligible coordinator_error "string list"
  | CErr_RevocationRequired
  | CErr_PreVote proposal_error
  | CErr_RecentAcceptance duration
  | CErr_NoNodesResponded
  | CErr_RecruitmentFailed proposal_error
  | CErr_LeaderFailed string string
  | CErr_NoWalPosition string
  | CErr_DatabaseLookup string string
  | CErr_NoBootstrapPolicy string
  | CErr_LoadPolicy coordinator_error
  | CErr_InvalidArgument string
  | CErr_ListCells string
  | CErr_ListPoolers string string
  | CErr_NoPoolers string string
  | CErr_MemberLookup string string
  | CErr_LeaderNotInCohort string

record recruitResult =
  rcr_pooler :: "PoolerHealthState ptr"
  rcr_cs :: "ConsensusStatus ptr"

record promoteResult =
  prr_poolerName :: string
  prr_isLeader :: bool
  prr_err :: "string option"

record world =
  w_Recruit :: "Multipooler ptr \<Rightarrow> TermRevocation ptr \<Rightarrow> string + ConsensusStatus ptr"
  w_Promote :: "Multipooler ptr \<Rightarrow> PromoteRequest \<Rightarrow> string option"
  w_SetPrimary :: "Multipooler ptr \<Rightarrow> ReplicationPrimary ptr \<Rightarrow> string option"
  w_recruited :: "recruitResult list \<Rightarrow> recruitResult list"
  w_promoted :: "promoteResult list \<Rightarrow> promoteResult list"
  w_initiatedAt :: Timestamp
  w_now :: go_time
  w_created :: "nat \<Rightarrow> Timestamp"
  w_IntN :: "nat \<Rightarrow> nat \<Rightarrow> nat"

definition world_ok :: "world \<Rightarrow> bool" where
  "world_ok w \<longleftrightarrow> (\<forall>xs. mset (w_recruited w xs) = mset xs) \<and> (\<forall>xs. mset (w_promoted w xs) = mset xs) \<and>
     (\<forall>n k. 0 < k \<longrightarrow> w_IntN w n k < k)"

record coordinatorLedRuleChange =
  rc_reason :: string
  rc_tryBuildProposal :: "TermRevocation ptr \<Rightarrow> ConsensusStatus ptr list \<Rightarrow> proposal_error + CoordinatorProposal ptr"
  rc_checkProposalPossible :: "TermRevocation ptr \<Rightarrow> ConsensusStatus ptr list \<Rightarrow> proposal_error option"

subsection \<open>Recruiting\<close>

definition recruit :: "world \<Rightarrow> PoolerHealthState ptr \<Rightarrow> TermRevocation ptr \<Rightarrow> ConsensusStatus ptr" where
  "recruit w p revocation =
     (case w_Recruit w (GetMultipooler p) revocation of
        Inl err \<Rightarrow> None
      | Inr cs \<Rightarrow> cs)"

definition dispatchRecruit ::
  "world \<Rightarrow> PoolerHealthState ptr list \<Rightarrow> TermRevocation ptr \<Rightarrow> rpc list \<times> recruitResult list" where
  "dispatchRecruit w cohort revocation =
     (map (\<lambda>p. RecruitRPC (GetMultipooler p) revocation) cohort,
      w_recruited w (map (\<lambda>p. \<lparr>rcr_pooler = p, rcr_cs = recruit w p revocation\<rparr>) cohort))"

primrec collect_recruits ::
  "(ConsensusStatus ptr list \<Rightarrow> proposal_error + CoordinatorProposal ptr) \<Rightarrow> ConsensusStatus ptr list \<Rightarrow>
     proposal_error option \<Rightarrow> recruitResult list \<Rightarrow>
     proposal_error option + CoordinatorProposal ptr \<times> ConsensusStatus ptr list" where
  "collect_recruits try statuses err [] = Inl err"
| "collect_recruits try statuses err (rr # rrs) =
     (if rcr_cs rr = None then collect_recruits try statuses err rrs
      else
        let statuses = statuses @ [rcr_cs rr]
        in case try statuses of
             Inr p \<Rightarrow> Inr (p, statuses)
           | Inl err \<Rightarrow> collect_recruits try statuses (Some err) rrs)"

definition collectRecruitsAndBuildProposal ::
  "coordinatorLedRuleChange \<Rightarrow> TermRevocation ptr \<Rightarrow> recruitResult list \<Rightarrow>
     coordinator_error + PromoteRequest \<times> string" where
  "collectRecruitsAndBuildProposal r revocation recruited =
     (case collect_recruits (rc_tryBuildProposal r revocation) [] None recruited of
        Inl None \<Rightarrow> Inl CErr_NoNodesResponded
      | Inl (Some err) \<Rightarrow> Inl (CErr_RecruitmentFailed err)
      | Inr (p, statuses) \<Rightarrow>
          Inr (\<lparr>preq_Proposal = p, preq_Reason = rc_reason r,
                preq_AcceptedNodeIds = map ConsensusStatus_GetId statuses\<rparr>,
               ClusterIDString (PoolerAddress_GetId (GetProposalLeader p))))"

subsection \<open>Promoting\<close>

definition promote_rpc :: "PoolerHealthState ptr \<Rightarrow> PromoteRequest \<Rightarrow> bool \<Rightarrow> rpc" where
  "promote_rpc p req isLeader =
     (if isLeader then PromoteRPC (GetMultipooler p) req
      else SetPrimaryRPC (GetMultipooler p) (ReplicationPrimaryFromProposal (preq_Proposal req) False))"

definition promote :: "world \<Rightarrow> PoolerHealthState ptr \<Rightarrow> PromoteRequest \<Rightarrow> bool \<Rightarrow> string option" where
  "promote w p req isLeader =
     (if isLeader then w_Promote w (GetMultipooler p) req
      else w_SetPrimary w (GetMultipooler p) (ReplicationPrimaryFromProposal (preq_Proposal req) False))"

definition dispatchPromote ::
  "world \<Rightarrow> PoolerHealthState ptr list \<Rightarrow> PromoteRequest \<Rightarrow> string \<Rightarrow> rpc list \<times> promoteResult list" where
  "dispatchPromote w cohort propReq leaderKey =
     (let isLeader = (\<lambda>p. ClusterIDString (Multipooler_GetId (GetMultipooler p)) = leaderKey)
      in (map (\<lambda>p. promote_rpc p propReq (isLeader p)) cohort,
          w_promoted w (map (\<lambda>p. \<lparr>prr_poolerName = GetName (Multipooler_GetId (GetMultipooler p)),
            prr_isLeader = isLeader p, prr_err = promote w p propReq (isLeader p)\<rparr>) cohort)))"

primrec waitForPromotes :: "promoteResult list \<Rightarrow> string option" where
  "waitForPromotes [] = None"
| "waitForPromotes (pr # prs) =
     (if prr_err pr \<noteq> None \<and> prr_isLeader pr then prr_err pr else waitForPromotes prs)"

subsection \<open>The workflow\<close>

primrec checkRecentAcceptance :: "go_time \<Rightarrow> PoolerHealthState ptr list \<Rightarrow> coordinator_error option" where
  "checkRecentAcceptance now [] = None"
| "checkRecentAcceptance now (pooler # cohort) =
     (let status = GetConsensusStatus pooler; acceptedRevocation = GetTermRevocation status
      in if acceptedRevocation = None \<or> GetCoordinatorInitiatedAt acceptedRevocation = None
         then checkRecentAcceptance now cohort
         else
           let decisionTerm = GetCoordinatorTerm (GetRuleNumber (GetDecision
                 (PoolerPosition_GetPosition (GetCurrentPosition status))))
           in if decisionTerm \<ge> GetRevokedBelowTerm acceptedRevocation then checkRecentAcceptance now cohort
              else
                let timeSince = time_Sub now (AsTime (GetCoordinatorInitiatedAt acceptedRevocation))
                in if timeSince \<ge> 0 \<and> timeSince < seconds 4
                   then Some (if Multipooler_GetId (GetMultipooler pooler) = None then CErr_NilPooler
                              else CErr_RecentAcceptance timeSince)
                   else checkRecentAcceptance now cohort)"

definition Run ::
  "world \<Rightarrow> coordinatorLedRuleChange \<Rightarrow> PoolerHealthState ptr list \<Rightarrow> TermRevocation ptr \<Rightarrow>
     rpc list \<times> coordinator_error option" where
  "Run w r cohort revocation =
     (if revocation = None then ([], Some CErr_RevocationRequired)
      else case rc_checkProposalPossible r revocation (consensusStatusesOf cohort) of
        Some err \<Rightarrow> ([], Some (CErr_PreVote err))
      | None \<Rightarrow>
      (case checkRecentAcceptance (w_now w) cohort of
        Some err \<Rightarrow> ([], Some err)
      | None \<Rightarrow>
          let (recruits, recruited) = dispatchRecruit w cohort revocation
          in if list_ex (\<lambda>p. Multipooler_GetId (GetMultipooler p) = None) cohort
             then (recruits, Some CErr_NilPooler)
             else case collectRecruitsAndBuildProposal r revocation recruited of
               Inl err \<Rightarrow> (recruits, Some err)
             | Inr (propReq, leaderKey) \<Rightarrow>
                 let (promotes, results) = dispatchPromote w cohort propReq leaderKey;
                     newPrimary = GetName (PoolerAddress_GetId (GetProposalLeader (preq_Proposal propReq)))
                 in (recruits @ promotes,
                     map_option (CErr_LeaderFailed newPrimary) (waitForPromotes results))))"

subsection \<open>Building proposals\<close>

type_synonym address_map = "(string \<times> PoolerAddress ptr) list"

definition PoolerAddressFor :: "Multipooler ptr \<Rightarrow> PoolerAddress ptr" where
  "PoolerAddressFor mp =
     (if mp = None then None
      else Some \<lparr>addr_id = Multipooler_GetId mp, addr_host = GetHostname mp,
        addr_postgres_port = (case map_of (GetPortMap mp) ''postgres'' of None \<Rightarrow> 0 | Some port \<Rightarrow> port)\<rparr>)"

text \<open>Both maps are built together; a member without metadata is a panic, which the callers check.\<close>

definition nil_multipooler :: "PoolerHealthState ptr list \<Rightarrow> bool" where
  "nil_multipooler cohort \<longleftrightarrow> list_ex (\<lambda>p. GetMultipooler p = None) cohort"

definition cohort_key :: "PoolerHealthState ptr \<Rightarrow> string" where
  "cohort_key p = ClusterIDString (Multipooler_GetId (GetMultipooler p))"

definition buildCohortMaps :: "PoolerHealthState ptr list \<Rightarrow> address_map \<times> health_map" where
  "buildCohortMaps cohort =
     foldl (\<lambda>(addressByID, healthByID) p.
         (AList.update (cohort_key p) (PoolerAddressFor (GetMultipooler p)) addressByID,
          AList.update (cohort_key p) p healthByID))
       ([], []) cohort"

definition proposed_rule ::
  "Timestamp \<Rightarrow> TermRevocation ptr \<Rightarrow> ID ptr list \<Rightarrow> DurabilityPolicyPb ptr \<Rightarrow> ID ptr \<Rightarrow> ShardRule ptr" where
  "proposed_rule created revocation cohort policy leader =
     Some \<lparr>sr_rule_number = Some \<lparr>rn_coordinator_term = GetRevokedBelowTerm revocation, rn_leader_subterm = 0\<rparr>,
       sr_leader_id = leader, sr_cohort_members = cohort, sr_durability_policy = policy,
       sr_coordinator_id = GetAcceptedCoordinatorId revocation, sr_creation_time = Some created\<rparr>"

definition buildFailoverProposal ::
  "Timestamp \<Rightarrow> RecruitmentResult \<Rightarrow> ConsensusStatus ptr \<Rightarrow> address_map \<Rightarrow> string + CoordinatorProposal ptr" where
  "buildFailoverProposal created result leader addressByID =
     (if rr_OutgoingRule result = None
      then Inl ''no committed rule found; use bootstrap path for fresh clusters''
      else if leader = None then Inl ''no leader selected for failover proposal''
      else case map_of addressByID (ClusterIDString (ConsensusStatus_GetId leader)) of
        None \<Rightarrow> Inl (''leader '' @ GetName (ConsensusStatus_GetId leader) @ '' not found in cohort'')
      | Some addr \<Rightarrow>
          Inr (Some \<lparr>prop_term_revocation = rr_TermRevocation result, prop_proposal_leader = addr,
            prop_proposed_transition = Some \<lparr>pos_decision = rr_OutgoingRule result,
              pos_proposal = proposed_rule created (rr_TermRevocation result)
                (GetCohortMembers (rr_OutgoingRule result)) (GetDurabilityPolicy (rr_OutgoingRule result))
                (ConsensusStatus_GetId leader)\<rparr>,
            prop_skip_outgoing_quorum = False\<rparr>))"

definition buildBootstrapProposal ::
  "Timestamp \<Rightarrow> RecruitmentResult \<Rightarrow> ID ptr list \<Rightarrow> DurabilityPolicyPb ptr \<Rightarrow> address_map \<Rightarrow>
     string + CoordinatorProposal ptr" where
  "buildBootstrapProposal created result cohortIDs policy addressByID =
     (case rr_EligibleLeaders result of
        [] \<Rightarrow> Inl ''no eligible leaders for bootstrap proposal''
      | leader # _ \<Rightarrow>
          (case map_of addressByID (ClusterIDString (ConsensusStatus_GetId leader)) of
             None \<Rightarrow> Inl (''leader '' @ GetName (ConsensusStatus_GetId leader) @ '' not found in cohort'')
           | Some addr \<Rightarrow>
               Inr (Some \<lparr>prop_term_revocation = rr_TermRevocation result, prop_proposal_leader = addr,
                 prop_proposed_transition = Some \<lparr>pos_decision = rr_OutgoingRule result,
                   pos_proposal = proposed_rule created (rr_TermRevocation result) cohortIDs policy
                     (ConsensusStatus_GetId leader)\<rparr>,
                 prop_skip_outgoing_quorum = True\<rparr>)))"


section \<open>What the workflow sends\<close>

definition answers :: "recruitResult list \<Rightarrow> ConsensusStatus ptr list" where
  "answers rrs = filter (\<lambda>cs. cs \<noteq> None) (map rcr_cs rrs)"

abbreviation leader_key :: "CoordinatorProposal ptr \<Rightarrow> string" where
  "leader_key p \<equiv> ClusterIDString (PoolerAddress_GetId (GetProposalLeader p))"

text \<open>The loop over the answers stops at the first prefix that gives a proposal.\<close>

lemma collect_recruits_Inr:
  assumes "collect_recruits try statuses err rrs = Inr (p, ss)"
  shows "\<exists>n. 0 < n \<and> n \<le> length (answers rrs) \<and> ss = statuses @ take n (answers rrs) \<and> try ss = Inr p \<and>
    (\<forall>m. 0 < m \<and> m < n \<longrightarrow> (\<exists>e. try (statuses @ take m (answers rrs)) = Inl e))"
  using assms
proof (induction rrs arbitrary: statuses err)
  case (Cons rr rrs)
  show ?case
  proof (cases "rcr_cs rr = None")
    case True
    with Cons show ?thesis by (simp add: answers_def)
  next
    case False
    let ?ss = "statuses @ [rcr_cs rr]"
    have ans: "answers (rr # rrs) = rcr_cs rr # answers rrs" using False by (simp add: answers_def)
    show ?thesis
    proof (cases "try ?ss")
      case (Inr q)
      with Cons.prems False have "p = q" "ss = ?ss" by simp_all
      with Inr show ?thesis by (intro exI [of _ 1]) (auto simp: ans)
    next
      case (Inl e)
      with Cons.prems False have "collect_recruits try ?ss (Some e) rrs = Inr (p, ss)" by simp
      from Cons.IH [OF this] obtain n where n: "0 < n" "n \<le> length (answers rrs)"
        "ss = ?ss @ take n (answers rrs)" "try ss = Inr p"
        "\<And>m. 0 < m \<Longrightarrow> m < n \<Longrightarrow> \<exists>e. try (?ss @ take m (answers rrs)) = Inl e" by blast
      have "\<exists>e. try (statuses @ take m (answers (rr # rrs))) = Inl e" if "0 < m" "m < Suc n" for m
        using that Inl n(5) by (cases m) (auto simp: ans, metis append_Nil2 neq0_conv take_0)
      with n show ?thesis by (intro exI [of _ "Suc n"]) (simp add: ans)
    qed
  qed
qed simp

lemma collect_recruits_Inl:
  assumes "collect_recruits try statuses err rrs = Inl e'" "0 < m" "m \<le> length (answers rrs)"
  shows "\<exists>e. try (statuses @ take m (answers rrs)) = Inl e"
  using assms
proof (induction rrs arbitrary: statuses err m)
  case (Cons rr rrs)
  show ?case
  proof (cases "rcr_cs rr = None")
    case True
    with Cons show ?thesis by (simp add: answers_def)
  next
    case False
    let ?ss = "statuses @ [rcr_cs rr]"
    have ans: "answers (rr # rrs) = rcr_cs rr # answers rrs" using False by (simp add: answers_def)
    from Cons.prems(1) False obtain e where e: "try ?ss = Inl e" "collect_recruits try ?ss (Some e) rrs = Inl e'"
      by (auto simp: Let_def split: sum.splits)
    obtain k where k: "m = Suc k" using Cons.prems(2) by (cases m) simp_all
    show ?thesis
    proof (cases "k = 0")
      case False
      then show ?thesis using Cons.IH [OF e(2), of k] Cons.prems(3) by (simp add: ans k)
    qed (simp add: ans k e(1))
  qed
qed (simp add: answers_def)

lemma waitForPromotes_None:
  "waitForPromotes prs = None \<longleftrightarrow> (\<forall>pr \<in> set prs. prr_isLeader pr \<longrightarrow> prr_err pr = None)"
  by (induction prs) auto

lemma waitForPromotes_Some:
  "waitForPromotes prs = Some e \<Longrightarrow> \<exists>pr \<in> set prs. prr_isLeader pr \<and> prr_err pr = Some e"
  by (induction prs) (auto split: if_splits)

text \<open>The three ways a run ends: refused before any RPC, no proposal, or promotion.\<close>

lemma Run_cases [consumes 1, case_names refused failed promoted]:
  assumes run: "Run w r cohort rv = (rpcs, err)"
  obtains (refused) "rpcs = []" "err \<noteq> None"
  | (failed) "rpcs = fst (dispatchRecruit w cohort rv)" "err \<noteq> None"
      "rc_checkProposalPossible r rv (consensusStatusesOf cohort) = None" "checkRecentAcceptance (w_now w) cohort = None"
  | (promoted) p ss where
      "rc_checkProposalPossible r rv (consensusStatusesOf cohort) = None" "checkRecentAcceptance (w_now w) cohort = None"
      "collect_recruits (rc_tryBuildProposal r rv) [] None (snd (dispatchRecruit w cohort rv)) = Inr (p, ss)"
      "rpcs = fst (dispatchRecruit w cohort rv) @ fst (dispatchPromote w cohort
         \<lparr>preq_Proposal = p, preq_Reason = rc_reason r, preq_AcceptedNodeIds = map ConsensusStatus_GetId ss\<rparr> (leader_key p))"
      "err = map_option (CErr_LeaderFailed (GetName (PoolerAddress_GetId (GetProposalLeader p))))
         (waitForPromotes (snd (dispatchPromote w cohort
           \<lparr>preq_Proposal = p, preq_Reason = rc_reason r, preq_AcceptedNodeIds = map ConsensusStatus_GetId ss\<rparr>
           (leader_key p))))"
proof -
  note unfold = Run_def Let_def case_prod_beta
  show thesis
  proof (cases "rv = None \<or> rc_checkProposalPossible r rv (consensusStatusesOf cohort) \<noteq> None \<or>
      checkRecentAcceptance (w_now w) cohort \<noteq> None")
    case True
    with run show thesis by (intro refused) (auto simp: unfold split: if_splits option.splits dest: sym [of "Some _"])
  next
    case False
    then have ok: "rv \<noteq> None" "rc_checkProposalPossible r rv (consensusStatusesOf cohort) = None"
      "checkRecentAcceptance (w_now w) cohort = None" by auto
    let ?bad = "list_ex (\<lambda>p. Multipooler_GetId (GetMultipooler p) = None) cohort"
    show thesis
    proof (cases "collect_recruits (rc_tryBuildProposal r rv) [] None (snd (dispatchRecruit w cohort rv))")
      case (Inl e)
      with run ok show thesis
        by (intro failed) (auto simp: unfold collectRecruitsAndBuildProposal_def split: if_splits option.splits)
    next
      case (Inr x)
      then obtain p ss where x: "x = (p, ss)" by fastforce
      show thesis
      proof (cases ?bad)
        case True
        with run ok show thesis by (intro failed) (auto simp: unfold)
      next
        case False
        with run ok Inr x show thesis
          by (intro promoted [of p ss]) (auto simp: unfold collectRecruitsAndBuildProposal_def)
      qed
    qed
  qed
qed

lemma collect_recruits_first:
  assumes "0 < n" "n \<le> length (answers rrs)" "try (statuses @ take n (answers rrs)) = Inr p"
    and "\<forall>k \<in> {1..<n}. \<exists>e. try (statuses @ take k (answers rrs)) = Inl e"
  shows "collect_recruits try statuses err rrs = Inr (p, statuses @ take n (answers rrs))"
proof (cases "collect_recruits try statuses err rrs")
  case (Inl e)
  with collect_recruits_Inl [OF Inl assms(1,2)] assms(3) show ?thesis by simp
next
  case (Inr x)
  obtain q ss where x: "x = (q, ss)" by fastforce
  from collect_recruits_Inr [OF Inr [unfolded x]] obtain m where m: "0 < m" "ss = statuses @ take m (answers rrs)"
    "try ss = Inr q" "\<And>k. 0 < k \<Longrightarrow> k < m \<Longrightarrow> \<exists>e. try (statuses @ take k (answers rrs)) = Inl e" by blast
  have "\<not> m < n" using bspec [OF assms(4), of m] m(1-3) by auto
  moreover have "\<not> n < m" using m(4) [of n] assms(1,3) by auto
  ultimately have "m = n" by simp
  with m assms(3) Inr x show ?thesis by simp
qed

lemma Run_ready:
  assumes "rv \<noteq> None" "rc_checkProposalPossible r rv (consensusStatusesOf cohort) = None"
    "checkRecentAcceptance (w_now w) cohort = None" "\<forall>p \<in> set cohort. Multipooler_GetId (GetMultipooler p) \<noteq> None"
  shows "Run w r cohort rv =
    (let recruits = map (\<lambda>p. RecruitRPC (GetMultipooler p) rv) cohort
     in case collect_recruits (rc_tryBuildProposal r rv) [] None (snd (dispatchRecruit w cohort rv)) of
          Inl None \<Rightarrow> (recruits, Some CErr_NoNodesResponded)
        | Inl (Some err) \<Rightarrow> (recruits, Some (CErr_RecruitmentFailed err))
        | Inr (p, ss) \<Rightarrow>
            let req = \<lparr>preq_Proposal = p, preq_Reason = rc_reason r, preq_AcceptedNodeIds = map ConsensusStatus_GetId ss\<rparr>
            in (recruits @ fst (dispatchPromote w cohort req (leader_key p)),
                map_option (CErr_LeaderFailed (GetName (PoolerAddress_GetId (GetProposalLeader p))))
                  (waitForPromotes (snd (dispatchPromote w cohort req (leader_key p))))))"
proof -
  have "\<not> list_ex (\<lambda>p. Multipooler_GetId (GetMultipooler p) = None) cohort"
    using assms(4) by (auto simp: list_ex_iff)
  then show ?thesis using assms(1-3)
    by (simp add: Run_def collectRecruitsAndBuildProposal_def case_prod_beta dispatchRecruit_def
        split: sum.split option.split del: not_None_eq)
qed

lemma waitForPromotes_dispatch:
  assumes "world_ok w"
  shows "waitForPromotes (snd (dispatchPromote w cohort req key)) = None \<longleftrightarrow>
    (\<forall>p \<in> set cohort. cohort_key p = key \<longrightarrow> promote w p req True = None)"
proof -
  let ?res = "map (\<lambda>p. \<lparr>prr_poolerName = GetName (Multipooler_GetId (GetMultipooler p)),
      prr_isLeader = cohort_key p = key, prr_err = promote w p req (cohort_key p = key)\<rparr>) cohort"
  have "mset (w_promoted w ?res) = mset ?res" using assms by (simp add: world_ok_def)
  then have "set (w_promoted w ?res) = set ?res" by (rule mset_eq_setD)
  then show ?thesis by (auto simp: waitForPromotes_None dispatchPromote_def Let_def cohort_key_def)
qed

lemma Run_promotes:
  assumes run: "Run w r cohort rv = (rpcs, err)" and sent: "PromoteRPC m req \<in> set rpcs"
  obtains n where "0 < n"
    "rc_tryBuildProposal r rv (take n (answers (snd (dispatchRecruit w cohort rv)))) = Inr (preq_Proposal req)"
    "\<forall>k. 0 < k \<and> k < n \<longrightarrow>
       (\<exists>e. rc_tryBuildProposal r rv (take k (answers (snd (dispatchRecruit w cohort rv)))) = Inl e)"
    "ClusterIDString (Multipooler_GetId m) = leader_key (preq_Proposal req)"
    "rc_checkProposalPossible r rv (consensusStatusesOf cohort) = None"
    "checkRecentAcceptance (w_now w) cohort = None"
  using run
proof (cases rule: Run_cases)
  case (promoted p ss)
  let ?req = "\<lparr>preq_Proposal = p, preq_Reason = rc_reason r, preq_AcceptedNodeIds = map ConsensusStatus_GetId ss\<rparr>"
  from sent promoted(4) obtain q where q: "q \<in> set cohort" "req = ?req" "m = GetMultipooler q"
    "cohort_key q = leader_key p"
    by (auto simp: dispatchRecruit_def dispatchPromote_def promote_rpc_def Let_def cohort_key_def split: if_splits)
  from collect_recruits_Inr [OF promoted(3)] obtain n where "0 < n"
    "rc_tryBuildProposal r rv (take n (answers (snd (dispatchRecruit w cohort rv)))) = Inr p"
    "\<forall>k. 0 < k \<and> k < n \<longrightarrow>
       (\<exists>e. rc_tryBuildProposal r rv (take k (answers (snd (dispatchRecruit w cohort rv)))) = Inl e)" by auto
  with promoted(1,2) q show thesis by (intro that [of n]) (simp_all add: cohort_key_def)
qed (use sent in \<open>auto simp: dispatchRecruit_def\<close>)

text \<open>What a workflow's callbacks promise: proposals are for its revocation and name a member as leader.\<close>

locale rule_change =
  fixes r :: coordinatorLedRuleChange and cohort :: "PoolerHealthState ptr list" and rv :: "TermRevocation ptr"
  assumes proposal_revocation: "rc_tryBuildProposal r rv statuses = Inr p \<Longrightarrow> Proposal_GetTermRevocation p = rv"
    and proposal_leader: "rc_tryBuildProposal r rv statuses = Inr p \<Longrightarrow> leader_key p \<in> cohort_key ` set cohort"
begin

lemma promoted_under_revocation:
  assumes "Run w r cohort rv = (rpcs, err)" "PromoteRPC m req \<in> set rpcs"
  shows "Proposal_GetTermRevocation (preq_Proposal req) = rv" "leader_key (preq_Proposal req) \<in> cohort_key ` set cohort"
  using assms by (rule Run_promotes, blast intro: proposal_revocation proposal_leader)+

lemma success_means_promoted:
  assumes run: "Run w r cohort rv = (rpcs, None)" and ok: "world_ok w"
  shows "\<exists>q \<in> set cohort. \<exists>req. cohort_key q = leader_key (preq_Proposal req) \<and>
    Proposal_GetTermRevocation (preq_Proposal req) = rv \<and>
    PromoteRPC (GetMultipooler q) req \<in> set rpcs \<and> w_Promote w (GetMultipooler q) req = None \<and>
    (\<forall>p \<in> set cohort. RecruitRPC (GetMultipooler p) rv \<in> set rpcs \<and>
       (cohort_key p \<noteq> cohort_key q \<longrightarrow>
          SetPrimaryRPC (GetMultipooler p) (ReplicationPrimaryFromProposal (preq_Proposal req) False) \<in> set rpcs))"
  using run
proof (cases rule: Run_cases)
  case (promoted p ss)
  let ?req = "\<lparr>preq_Proposal = p, preq_Reason = rc_reason r, preq_AcceptedNodeIds = map ConsensusStatus_GetId ss\<rparr>"
  have "\<exists>statuses. rc_tryBuildProposal r rv statuses = Inr p" using collect_recruits_Inr [OF promoted(3)] by auto
  with proposal_leader proposal_revocation obtain q where q: "q \<in> set cohort" "cohort_key q = leader_key p"
    "Proposal_GetTermRevocation p = rv" by (metis image_iff)
  have "promote w q ?req True = None"
    using promoted(5) q ok waitForPromotes_dispatch [of w] by (force simp: waitForPromotes_None)
  moreover have sent: "promote_rpc x ?req (cohort_key x = leader_key p) \<in> set rpcs" if "x \<in> set cohort" for x
    using that promoted(4) by (auto simp: dispatchPromote_def Let_def cohort_key_def)
  moreover have "RecruitRPC (GetMultipooler x) rv \<in> set rpcs" if "x \<in> set cohort" for x
    using that promoted(4) by (auto simp: dispatchRecruit_def)
  moreover have "SetPrimaryRPC (GetMultipooler x) (ReplicationPrimaryFromProposal p False) \<in> set rpcs"
    if "x \<in> set cohort" "cohort_key x \<noteq> leader_key p" for x
    using sent [OF that(1)] that(2) by (simp add: promote_rpc_def)
  ultimately show ?thesis
    using q sent [OF q(1)] by (intro bexI [of _ q] exI [of _ ?req]) (simp_all add: promote_def promote_rpc_def)
qed auto

end

lemma answers_from_cohort:
  assumes "world_ok w" "cs \<in> set (answers (snd (dispatchRecruit w cohort rv)))"
  shows "\<exists>p \<in> set cohort. w_Recruit w (GetMultipooler p) rv = Inr cs \<and> cs \<noteq> None"
proof -
  let ?rs = "map (\<lambda>p. \<lparr>rcr_pooler = p, rcr_cs = recruit w p rv\<rparr>) cohort"
  have "mset (w_recruited w ?rs) = mset ?rs" using assms(1) by (simp add: world_ok_def)
  then have "set (w_recruited w ?rs) = set ?rs" by (rule mset_eq_setD)
  with assms(2) show ?thesis
    by (auto simp: answers_def dispatchRecruit_def recruit_def split: sum.splits)
qed


text \<open>
  C4: a rule change in full. It is refused before any RPC unless a proposal looks possible and no
  member has just accepted another recruitment. Then every member is recruited, and the first
  sequence of answers that gives a proposal fixes it: its leader is promoted and every other member is
  pointed at the leader, and the change succeeds exactly if the leader accepts. When no sequence
  of answers gives a proposal, nobody is promoted and an error is returned.
\<close>

theorem Run_outcome:
  fixes w r cohort rv
  defines "possible \<equiv> rv \<noteq> None \<and> rc_checkProposalPossible r rv (consensusStatusesOf cohort) = None \<and>
      checkRecentAcceptance (w_now w) cohort = None"
    and "named \<equiv> \<forall>p \<in> set cohort. Multipooler_GetId (GetMultipooler p) \<noteq> None"
    and "arrived \<equiv> answers (snd (dispatchRecruit w cohort rv))"
    and "recruits \<equiv> map (\<lambda>p. RecruitRPC (GetMultipooler p) rv) cohort"
  assumes "world_ok w"
  shows "(\<not> possible \<longrightarrow> (\<exists>e. Run w r cohort rv = ([], Some e))) \<and>
    (possible \<and> (\<not> named \<or> (\<forall>n \<in> {1..length arrived}. \<exists>e. rc_tryBuildProposal r rv (take n arrived) = Inl e)) \<longrightarrow>
       (\<exists>e. Run w r cohort rv = (recruits, Some e))) \<and>
    (\<forall>n \<in> {1..length arrived}. \<forall>p. possible \<and> named \<and> rc_tryBuildProposal r rv (take n arrived) = Inr p \<and>
       (\<forall>k \<in> {1..<n}. \<exists>e. rc_tryBuildProposal r rv (take k arrived) = Inl e) \<longrightarrow>
       (let req = \<lparr>preq_Proposal = p, preq_Reason = rc_reason r,
              preq_AcceptedNodeIds = map ConsensusStatus_GetId (take n arrived)\<rparr>
        in fst (Run w r cohort rv) =
             recruits @ map (\<lambda>q. promote_rpc q req (cohort_key q = leader_key p)) cohort \<and>
           (snd (Run w r cohort rv) = None \<longleftrightarrow>
             (\<forall>q \<in> set cohort. cohort_key q = leader_key p \<longrightarrow> w_Promote w (GetMultipooler q) req = None))))"
proof (intro conjI impI ballI allI)
  assume "\<not> possible"
  then show "\<exists>e. Run w r cohort rv = ([], Some e)"
    by (auto simp: possible_def Run_def split: option.splits)
next
  assume "possible \<and> (\<not> named \<or> (\<forall>n \<in> {1..length arrived}. \<exists>e. rc_tryBuildProposal r rv (take n arrived) = Inl e))"
  then have ok: "possible" and none: "named \<Longrightarrow> \<forall>n \<in> {1..length arrived}. \<exists>e. rc_tryBuildProposal r rv (take n arrived) = Inl e"
    by auto
  show "\<exists>e. Run w r cohort rv = (recruits, Some e)"
  proof (cases named)
    case True
    have False if "collect_recruits (rc_tryBuildProposal r rv) [] None (snd (dispatchRecruit w cohort rv)) = Inr (p, ss)" for p ss
    proof -
      from collect_recruits_Inr [OF that] obtain n where "n \<in> {1..length arrived}"
        "rc_tryBuildProposal r rv (take n arrived) = Inr p" by (auto simp: arrived_def Suc_le_eq)
      with none [OF True] show False by force
    qed
    then obtain e where "collect_recruits (rc_tryBuildProposal r rv) [] None (snd (dispatchRecruit w cohort rv)) = Inl e"
      by (metis old.prod.exhaust sumE)
    with Run_ready [of rv r cohort w] ok True show ?thesis
      by (auto simp: possible_def named_def recruits_def Let_def split: option.splits)
  next
    case False
    with ok show ?thesis
      by (auto simp: possible_def named_def recruits_def Run_def dispatchRecruit_def list_ex_iff)
  qed
next
  fix n p
  assume n: "n \<in> {1..length arrived}"
    and p: "possible \<and> named \<and> rc_tryBuildProposal r rv (take n arrived) = Inr p \<and>
       (\<forall>k \<in> {1..<n}. \<exists>e. rc_tryBuildProposal r rv (take k arrived) = Inl e)"
  let ?req = "\<lparr>preq_Proposal = p, preq_Reason = rc_reason r,
              preq_AcceptedNodeIds = map ConsensusStatus_GetId (take n arrived)\<rparr>"
  have "collect_recruits (rc_tryBuildProposal r rv) [] None (snd (dispatchRecruit w cohort rv)) = Inr (p, take n arrived)"
    using collect_recruits_first [of n _ "rc_tryBuildProposal r rv" "[]" p None] n p by (auto simp: arrived_def)
  with Run_ready [of rv r cohort w] p
  have run: "Run w r cohort rv = (recruits @ fst (dispatchPromote w cohort ?req (leader_key p)),
      map_option (CErr_LeaderFailed (GetName (PoolerAddress_GetId (GetProposalLeader p))))
        (waitForPromotes (snd (dispatchPromote w cohort ?req (leader_key p)))))"
    by (auto simp: possible_def named_def recruits_def Let_def)
  show "let req = ?req
        in fst (Run w r cohort rv) =
             recruits @ map (\<lambda>q. promote_rpc q req (cohort_key q = leader_key p)) cohort \<and>
           (snd (Run w r cohort rv) = None \<longleftrightarrow>
             (\<forall>q \<in> set cohort. cohort_key q = leader_key p \<longrightarrow> w_Promote w (GetMultipooler q) req = None))"
    using waitForPromotes_dispatch [OF assms(5)]
    by (simp add: run Let_def promote_def del: not_None_eq) (simp add: dispatchPromote_def Let_def cohort_key_def)
qed

section \<open>Concrete instances\<close>

text \<open>Pooler a has failed; b and c answer, b is ahead.\<close>

definition ex_mp :: "ID ptr \<Rightarrow> Multipooler ptr" where
  "ex_mp i = ex_multipooler i ''host'' [(''postgres'', 5432)]"

definition ex_lsn :: "ID ptr \<Rightarrow> string" where
  "ex_lsn i = (if i = ex_b then ''120'' else ''110'')"

definition ex_member :: "ID ptr \<Rightarrow> PoolerHealthState ptr" where
  "ex_member i = Some (empty_health\<lparr>phs_multipooler := ex_mp i, phs_last_seen := ex_time 995,
     phs_consensus_status := ex_status i (ex_decided 3) (ex_lsn i) None\<rparr>)"

definition ex_world :: world where
  "ex_world = \<lparr>w_Recruit = (\<lambda>mp rv. if Multipooler_GetId mp = ex_a then Inl ''unreachable''
       else Inr (ex_status (Multipooler_GetId mp) (ex_decided 3) (ex_lsn (Multipooler_GetId mp)) rv)),
     w_Promote = (\<lambda>_ _. None), w_SetPrimary = (\<lambda>_ _. None), w_recruited = id, w_promoted = id,
     w_initiatedAt = \<lparr>ts_seconds = 1000, ts_nanos = 0\<rparr>, w_now = AsTime (ex_time 1000),
     w_created = (\<lambda>_. \<lparr>ts_seconds = 1001, ts_nanos = 0\<rparr>), w_IntN = (\<lambda>_ _. 0)\<rparr>"

definition ex_members :: "PoolerHealthState ptr list" where
  "ex_members = [ex_member ex_a, ex_member ex_b, ex_member ex_c]"

lemma ex_world_ok: "world_ok ex_world"
  by (simp add: world_ok_def ex_world_def)

definition ex_change :: coordinatorLedRuleChange where
  "ex_change = \<lparr>rc_reason = ''test'',
     rc_tryBuildProposal = (\<lambda>_ ss. if length ss < 2 then Inl PErr_NoneAccepted else Inr ex_proposal),
     rc_checkProposalPossible = (\<lambda>_ _. None)\<rparr>"

theorem Run_outcome_witness: "snd (Run ex_world ex_change ex_members ex_rv) = None"
proof -
  let ?as = "answers (snd (dispatchRecruit ex_world ex_members ex_rv))"
  have len: "length ?as = 2" by code_simp
  have mem: "2 \<in> {1..length ?as}" using len by simp
  have "\<forall>k \<in> {1..<2 :: nat}. \<exists>e. rc_tryBuildProposal ex_change ex_rv (take k ?as) = Inl e"
    "rc_tryBuildProposal ex_change ex_rv (take 2 ?as) = Inr ex_proposal" "ex_rv \<noteq> None"
    "rc_checkProposalPossible ex_change ex_rv (consensusStatusesOf ex_members) = None"
    using len by (simp_all add: ex_change_def ex_revocation_def)
  moreover have "checkRecentAcceptance (w_now ex_world) ex_members = None"
    "list_all (\<lambda>p. Multipooler_GetId (GetMultipooler p) \<noteq> None) ex_members" by code_simp+
  moreover have "w_Promote ex_world mp req = None" for mp req by (simp add: ex_world_def)
  ultimately show ?thesis
    using Run_outcome [OF ex_world_ok, of ex_rv ex_change ex_members] mem
    unfolding Let_def list_all_iff by blast
qed

end
