(* ===== verification/Coordinator.thy ===== *)
theory Coordinator
  imports Rule_Change
begin

text \<open>
  The coordinator (go/services/multiorch/consensus/coordinator.go and rule_change_certified.go):
  failover, the first leader of a shard and rule changes certified by an operator, each the workflow
  of \<open>Rule_Change\<close> with its own callbacks.

  The topology store is an argument: what it answers for databases, cells and poolers. The n-th
  attempt to build a proposal sees n statuses, which is how the clock and the random generator of
  an attempt are found; the check before recruitment is attempt 0.
\<close>

record Coordinator =
  co_coordinatorID :: "ID ptr"
  co_policyCache :: "string \<rightharpoonup> DurabilityPolicyPb ptr"

definition NewCoordinator :: "ID ptr \<Rightarrow> Coordinator" where
  "NewCoordinator coordinatorID = \<lparr>co_coordinatorID = coordinatorID, co_policyCache = Map.empty\<rparr>"

subsection \<open>Failover\<close>

definition cohortMemberStatuses :: "ConsensusStatus ptr list \<Rightarrow> ID ptr list \<Rightarrow> ConsensusStatus ptr list" where
  "cohortMemberStatuses statuses cohort =
     (let members = set (map ClusterIDString cohort)
      in filter (\<lambda>cs. ClusterIDString (ConsensusStatus_GetId cs) \<in> members) statuses)"

definition failoverCandidates :: "RecruitmentResult \<Rightarrow> string + ConsensusStatus ptr list" where
  "failoverCandidates r =
     (if rr_EligibleLeaders r = [] then Inl ''no eligible leaders for failover proposal''
      else
        let candidates = cohortMemberStatuses (rr_EligibleLeaders r) (GetCohortMembers (rr_OutgoingRule r))
        in if candidates = [] then Inl ''no eligible leader is a member of the outgoing cohort''
           else Inr candidates)"

definition failover_builder :: "world \<Rightarrow> PoolerHealthState ptr list \<Rightarrow> nat \<Rightarrow> builder" where
  "failover_builder w cohort n r =
     (let (poolerByID, healthByID) = buildCohortMaps cohort
      in case failoverCandidates r of
           Inl err \<Rightarrow> Inl err
         | Inr candidates \<Rightarrow>
             let leader = selectFittestLeader candidates healthByID (w_IntN w n)
             in buildFailoverProposal (w_created w n) r leader poolerByID)"

definition failover_change ::
  "lsn_parser \<Rightarrow> world \<Rightarrow> string \<Rightarrow> PoolerHealthState ptr list \<Rightarrow> coordinatorLedRuleChange" where
  "failover_change parse_lsn w reason cohort = \<lparr>rc_reason = reason,
     rc_tryBuildProposal = (\<lambda>rev statuses.
       BuildSafeProposal parse_lsn rev statuses (failover_builder w cohort (length statuses))),
     rc_checkProposalPossible = (\<lambda>rev statuses.
       CheckProposalPossible parse_lsn rev statuses (failover_builder w cohort 0))\<rparr>"

definition runFailover ::
  "lsn_parser \<Rightarrow> world \<Rightarrow> Coordinator \<Rightarrow> PoolerHealthState ptr list \<Rightarrow> string \<Rightarrow>
     rpc list \<times> coordinator_error option" where
  "runFailover parse_lsn w c cohort reason =
     (let (eligible, ineligible) = filterCohortIneligible cohort; cohort = eligible
      in if cohort = [] then ([], Some (CErr_AllIneligible ineligible))
         else case NewTermRevocation (consensusStatusesOf cohort) (co_coordinatorID c) (Some (w_initiatedAt w))
                     DefaultBackoffResetDuration of
           Inl err \<Rightarrow> ([], Some (CErr_Revocation err))
         | Inr revocation \<Rightarrow>
             if nil_multipooler cohort then ([], Some CErr_NilPooler)
             else
               let (rpcs, err) = Run w (failover_change parse_lsn w reason cohort) cohort revocation
               in (rpcs, if ineligible = [] then err
                         else map_option (\<lambda>e. CErr_ExcludedIneligible e ineligible) err))"

definition AppointLeader ::
  "lsn_parser \<Rightarrow> world \<Rightarrow> Coordinator \<Rightarrow> ShardKey ptr \<Rightarrow> PoolerHealthState ptr list \<Rightarrow> string \<Rightarrow>
     rpc list \<times> coordinator_error option" where
  "AppointLeader parse_lsn w c shardKey cohort reason =
     (if cohort = [] then ([], Some (CErr_EmptyCohort (GetShard shardKey)))
      else runFailover parse_lsn w c cohort reason)"

subsection \<open>The first leader\<close>

definition GetBootstrapPolicy ::
  "(string \<Rightarrow> string + DurabilityPolicyPb ptr) \<Rightarrow> Coordinator \<Rightarrow> string \<Rightarrow>
     (coordinator_error + DurabilityPolicyPb ptr) \<times> Coordinator" where
  "GetBootstrapPolicy getDatabase c database =
     (case co_policyCache c database of
        Some cached \<Rightarrow> (Inr cached, c)
      | None \<Rightarrow>
          (case getDatabase database of
             Inl err \<Rightarrow> (Inl (CErr_DatabaseLookup database err), c)
           | Inr policy \<Rightarrow>
               if policy = None then (Inl (CErr_NoBootstrapPolicy database), c)
               else (Inr policy, c\<lparr>co_policyCache := (co_policyCache c)(database \<mapsto> policy)\<rparr>)))"

definition poolerIDs :: "PoolerHealthState ptr list \<Rightarrow> ID ptr list" where
  "poolerIDs poolers = map (\<lambda>p. Multipooler_GetId (GetMultipooler p)) poolers"

definition bootstrap_builder ::
  "world \<Rightarrow> PoolerHealthState ptr list \<Rightarrow> DurabilityPolicyPb ptr \<Rightarrow> nat \<Rightarrow> builder" where
  "bootstrap_builder w cohort policy n result =
     buildBootstrapProposal (w_created w n) result (poolerIDs cohort) policy (fst (buildCohortMaps cohort))"

definition certified_change ::
  "lsn_parser \<Rightarrow> string \<Rightarrow> ExternallyCertifiedRevocation ptr \<Rightarrow> (nat \<Rightarrow> builder) \<Rightarrow> coordinatorLedRuleChange" where
  "certified_change parse_lsn reason cert build = \<lparr>rc_reason = reason,
     rc_tryBuildProposal = (\<lambda>_ statuses.
       BuildExternallyCertifiedProposal parse_lsn cert statuses (build (length statuses))),
     rc_checkProposalPossible = (\<lambda>_ statuses.
       CheckExternallyCertifiedProposalPossible parse_lsn cert statuses (build 0))\<rparr>"

definition AppointInitialLeader ::
  "lsn_parser \<Rightarrow> (string \<Rightarrow> string + DurabilityPolicyPb ptr) \<Rightarrow> world \<Rightarrow> Coordinator \<Rightarrow> ShardKey ptr \<Rightarrow>
     PoolerHealthState ptr list \<Rightarrow> (rpc list \<times> coordinator_error option) \<times> Coordinator" where
  "AppointInitialLeader parse_lsn getDatabase w c shardKey cohort =
     (if cohort = [] then (([], Some (CErr_EmptyCohort (GetShard shardKey))), c)
      else
        let (policy, c) = GetBootstrapPolicy getDatabase c (GetDatabase shardKey)
        in case policy of
             Inl err \<Rightarrow> (([], Some (CErr_LoadPolicy err)), c)
           | Inr policy \<Rightarrow>
               let cohortStatuses = consensusStatusesOf cohort;
                   mostAdvanced = MostAdvancedPosition parse_lsn cohortStatuses
               in if mostAdvanced = None then (([], Some (CErr_NoWalPosition (GetShard shardKey))), c)
                  else case NewTermRevocation cohortStatuses (co_coordinatorID c) (Some (w_initiatedAt w))
                              DefaultBackoffResetDuration of
                    Inl err \<Rightarrow> (([], Some (CErr_Revocation err)), c)
                  | Inr revocation \<Rightarrow>
                      if nil_multipooler cohort then (([], Some CErr_NilPooler), c)
                      else
                        let cert = Some \<lparr>cert_term_revocation = revocation,
                                     cert_frozen_lsn = PoolerPosition_GetLsn mostAdvanced\<rparr>
                        in (Run w (certified_change parse_lsn ''ShardInit'' cert (bootstrap_builder w cohort policy))
                              cohort revocation, c))"

subsection \<open>Certified rule changes\<close>

definition GetShardNodes ::
  "(string \<Rightarrow> string + Multipooler ptr list) \<Rightarrow> string \<Rightarrow> string \<Rightarrow>
     coordinator_error + PoolerHealthState ptr list" where
  "GetShardNodes getMultipoolersByCell cell shardID =
     (case getMultipoolersByCell cell of
        Inl err \<Rightarrow> Inl (CErr_ListPoolers cell err)
      | Inr poolers \<Rightarrow>
          if poolers = [] then Inl (CErr_NoPoolers shardID cell)
          else Inr (map (\<lambda>mp. health_of_pooler mp) poolers))"

definition validateCertifiedRuleChange ::
  "ShardKey ptr \<Rightarrow> RulePosition ptr \<Rightarrow> ExternallyCertifiedRevocation ptr \<Rightarrow> coordinator_error option" where
  "validateCertifiedRuleChange shardKey proposedTransition cert =
     (let proposedRule = GetProposal proposedTransition;
          rev = Cert_GetTermRevocation cert;
          invalid = (\<lambda>msg. Some (CErr_InvalidArgument msg))
      in if shardKey = None \<or> GetDatabase shardKey = '''' \<or> GetTableGroup shardKey = '''' \<or> GetShard shardKey = ''''
         then invalid ''shard_key is required (database, table_group, shard)''
         else if proposedRule = None then invalid ''proposed_rule is required''
         else if GetLeaderId proposedRule = None then invalid ''proposed_rule.leader_id is required''
         else if GetCohortMembers proposedRule = [] then invalid ''proposed_rule.cohort_members must be non-empty''
         else if GetDurabilityPolicy proposedRule = None then invalid ''proposed_rule.durability_policy is required''
         else if GetRuleNumber proposedRule = None then invalid ''proposed_rule.rule_number is required''
         else if GetCoordinatorId proposedRule = None then invalid ''proposed_rule.coordinator_id is required''
         else if GetCreationTime proposedRule = None then invalid ''proposed_rule.creation_time is required''
         else if cert = None then invalid ''cert is required''
         else if GetFrozenLsn cert = '''' then invalid ''cert.frozen_lsn is required (use \"0/0\" for initial appointment)''
         else if rev = None then invalid ''cert.term_revocation is required''
         else if GetOutgoingRule rev = None then invalid ''cert.term_revocation.outgoing_rule is required (use a zero RuleNumber for initial appointment)''
         else if GetRevokedBelowTerm rev \<le> 0 then invalid ''cert.term_revocation.revoked_below_term must be positive''
         else if GetAcceptedCoordinatorId rev = None
         then invalid ''cert.term_revocation.accepted_coordinator_id is required''
         else if GetCoordinatorInitiatedAt rev = None
         then invalid ''cert.term_revocation.coordinator_initiated_at is required''
         else if GetCoordinatorTerm (GetRuleNumber proposedRule) \<noteq> GetRevokedBelowTerm rev
         then invalid (''proposed_rule.rule_number.coordinator_term ('' @ show_int (GetCoordinatorTerm (GetRuleNumber proposedRule)) @
           '') must equal cert.term_revocation.revoked_below_term ('' @ show_int (GetRevokedBelowTerm rev) @ '')'')
         else if GetRevokedBelowTerm rev \<le> GetCoordinatorTerm (GetOutgoingRule rev)
         then invalid (''cert.term_revocation.revoked_below_term ('' @ show_int (GetRevokedBelowTerm rev) @
           '') must be greater than cert.term_revocation.outgoing_rule.coordinator_term ('' @
           show_int (GetCoordinatorTerm (GetOutgoingRule rev)) @ '')'')
         else if list_ex (\<lambda>i. ClusterIDString i = ClusterIDString (GetLeaderId proposedRule))
                   (GetCohortMembers proposedRule)
         then None
         else invalid (''proposed_rule.leader_id ('' @ ClusterIDString (GetLeaderId proposedRule) @
           '') must be a member of proposed_rule.cohort_members''))"

text \<open>What the topology store and the Status RPC answer.\<close>

record topology =
  topo_GetCellNames :: "string + string list"
  topo_GetMultipoolersByCell :: "string \<Rightarrow> string + Multipooler ptr list"
  topo_GetMultipooler :: "ID ptr \<Rightarrow> string + Multipooler ptr"
  topo_Status :: "Multipooler ptr \<Rightarrow> string + ConsensusStatus ptr"
  topo_completed :: "Multipooler ptr list \<Rightarrow> Multipooler ptr list"

definition refreshShardConsensusStatuses ::
  "topology \<Rightarrow> coordinator_error + (string \<times> ConsensusStatus ptr) list" where
  "refreshShardConsensusStatuses topo =
     (case topo_GetCellNames topo of
        Inl err \<Rightarrow> Inl (CErr_ListCells err)
      | Inr cellNames \<Rightarrow>
          (case foldl (\<lambda>acc cell. case acc of
                   Inl err \<Rightarrow> Inl err
                 | Inr poolers \<Rightarrow>
                     (case topo_GetMultipoolersByCell topo cell of
                        Inl err \<Rightarrow> Inl (CErr_ListPoolers cell err)
                      | Inr infos \<Rightarrow> Inr (poolers @ filter (\<lambda>mp. mp \<noteq> None) infos)))
                 (Inr []) cellNames of
             Inl err \<Rightarrow> Inl err
           | Inr poolers \<Rightarrow>
               Inr (foldl (\<lambda>statuses p. case topo_Status topo p of
                        Inl err \<Rightarrow> statuses
                      | Inr cs \<Rightarrow> AList.update (ClusterIDString (Multipooler_GetId p)) cs statuses)
                      [] (topo_completed topo poolers))))"

primrec resolveCohort ::
  "topology \<Rightarrow> address_map \<Rightarrow> PoolerHealthState ptr list \<Rightarrow> ID ptr list \<Rightarrow>
     coordinator_error + address_map \<times> PoolerHealthState ptr list" where
  "resolveCohort topo addressByID cohort [] = Inr (addressByID, cohort)"
| "resolveCohort topo addressByID cohort (i # ids) =
     (case topo_GetMultipooler topo i of
        Inl err \<Rightarrow> Inl (CErr_MemberLookup (ClusterIDString i) err)
      | Inr mp \<Rightarrow>
          resolveCohort topo (AList.update (ClusterIDString i) (PoolerAddressFor mp) addressByID)
            (cohort @ [health_of_pooler mp]) ids)"

definition prime_status ::
  "(string \<times> ConsensusStatus ptr) list \<Rightarrow> PoolerHealthState ptr \<Rightarrow> PoolerHealthState ptr" where
  "prime_status statusesByPoolerID p =
     (case map_of statusesByPoolerID (cohort_key p) of
        None \<Rightarrow> p
      | Some cs \<Rightarrow> map_option (\<lambda>h. h\<lparr>phs_consensus_status := cs\<rparr>) p)"

definition ApplyCertifiedRuleChange ::
  "lsn_parser \<Rightarrow> topology \<Rightarrow> world \<Rightarrow> ShardKey ptr \<Rightarrow> RulePosition ptr \<Rightarrow> ExternallyCertifiedRevocation ptr \<Rightarrow>
     string \<Rightarrow> rpc list \<times> coordinator_error option" where
  "ApplyCertifiedRuleChange parse_lsn topo w shardKey proposedTransition cert reason =
     (case validateCertifiedRuleChange shardKey proposedTransition cert of
        Some err \<Rightarrow> ([], Some err)
      | None \<Rightarrow>
      (case refreshShardConsensusStatuses topo of
        Inl err \<Rightarrow> ([], Some err)
      | Inr statusesByPoolerID \<Rightarrow>
      (case resolveCohort topo [] [] (GetCohortMembers (GetProposal proposedTransition)) of
        Inl err \<Rightarrow> ([], Some err)
      | Inr (addressByID, cohort) \<Rightarrow>
          if nil_multipooler cohort then ([], Some CErr_NilPooler)
          else
            let cohort = map (prime_status statusesByPoolerID) cohort;
                leaderKey = ClusterIDString (GetLeaderId (GetProposal proposedTransition))
            in case map_of addressByID leaderKey of
                 None \<Rightarrow> ([], Some (CErr_LeaderNotInCohort leaderKey))
               | Some leaderAddr \<Rightarrow>
                   let revocation = Cert_GetTermRevocation cert;
                       proposal = Some \<lparr>prop_term_revocation = revocation, prop_proposal_leader = leaderAddr,
                         prop_proposed_transition = proposedTransition, prop_skip_outgoing_quorum = True\<rparr>
                   in Run w (certified_change parse_lsn reason cert (\<lambda>_ _. Inr proposal)) cohort revocation)))"


section \<open>The callbacks meet their contract\<close>

lemma buildCohortMaps_address:
  assumes "map_of (fst (buildCohortMaps cohort)) k = Some a"
  shows "\<exists>p \<in> set cohort. cohort_key p = k \<and> a = PoolerAddressFor (GetMultipooler p)"
  using assms
proof (induction cohort rule: rev_induct)
  case (snoc p cohort)
  then show ?case
    by (auto simp: buildCohortMaps_def case_prod_beta update_conv' split: if_splits)
qed (simp add: buildCohortMaps_def)

lemma PoolerAddressFor_key:
  "ClusterIDString (PoolerAddress_GetId (PoolerAddressFor mp)) = ClusterIDString (Multipooler_GetId mp)"
  by (cases mp) (simp_all add: PoolerAddressFor_def)

lemma address_in_cohort:
  assumes "map_of (fst (buildCohortMaps cohort)) k = Some addr"
  shows "ClusterIDString (PoolerAddress_GetId addr) = k" "k \<in> cohort_key ` set cohort"
  using buildCohortMaps_address [OF assms] by (auto simp: PoolerAddressFor_key cohort_key_def)

lemma selectFittestLeader_mem:
  assumes "cs \<noteq> []" "\<And>k. 0 < k \<Longrightarrow> draw k < k"
  shows "selectFittestLeader cs healthByID draw \<in> set cs"
proof -
  from assms(1) obtain c rest where cs: "cs = c # rest" by (cases cs) auto
  let ?tied = "best_of (fitter healthByID) (c # rest)"
  note tied = ties_are_best [of healthByID c rest]
  then have "?tied ! draw (length ?tied) \<in> set ?tied" by (intro nth_mem assms(2)) simp
  moreover have "set ?tied \<subseteq> set (c # rest)" by (auto simp: best_of_def)
  ultimately show ?thesis using tied by (simp add: cs selectFittestLeader_def Let_def subset_iff)
qed

text \<open>What the failover callback proposes: the outgoing rule again, under a leader from its cohort.\<close>

lemma failover_builder_Inr:
  assumes "failover_builder w cohort n r = Inr p"
  obtains candidates leader where "failoverCandidates r = Inr candidates"
    "leader = selectFittestLeader candidates (snd (buildCohortMaps cohort)) (w_IntN w n)"
    "leader_key p = ClusterIDString (ConsensusStatus_GetId leader)" "leader_key p \<in> cohort_key ` set cohort"
    "GetProposedTransition p = Some \<lparr>pos_decision = rr_OutgoingRule r,
       pos_proposal = proposed_rule (w_created w n) (rr_TermRevocation r) (GetCohortMembers (rr_OutgoingRule r))
         (GetDurabilityPolicy (rr_OutgoingRule r)) (ConsensusStatus_GetId leader)\<rparr>"
  using assms address_in_cohort [of cohort]
  by (auto simp: failover_builder_def buildFailoverProposal_def Let_def case_prod_beta
      split: sum.splits if_splits option.splits)

lemma failoverCandidates_Inr:
  assumes "failoverCandidates r = Inr candidates"
  shows "candidates \<noteq> []" "\<And>cs. cs \<in> set candidates \<Longrightarrow> cs \<in> set (rr_EligibleLeaders r) \<and>
    ClusterIDString (ConsensusStatus_GetId cs) \<in> ClusterIDString ` set (GetCohortMembers (rr_OutgoingRule r))"
  using assms by (auto simp: failoverCandidates_def cohortMemberStatuses_def Let_def split: if_splits)

lemma BuildSafeProposal_core:
  "BuildSafeProposal parse_lsn rv statuses build = Inr p \<Longrightarrow>
     buildProposalCore parse_lsn rv (filterByRevocation rv statuses) \<lparr>basis_cert = None\<rparr> build = Inr p"
  by (simp add: BuildSafeProposal_def Let_def split: if_splits)

lemma BuildExternallyCertifiedProposal_core:
  assumes "BuildExternallyCertifiedProposal parse_lsn cert statuses build = Inr p"
  obtains basis where "newCertBasis parse_lsn cert = Inr basis"
    "buildProposalCore parse_lsn (Cert_GetTermRevocation cert)
       (filterByRevocation (Cert_GetTermRevocation cert) statuses) basis build = Inr p"
  using assms by (auto simp: BuildExternallyCertifiedProposal_def Let_def split: if_splits sum.splits)

lemma buildProposalCore_built:
  assumes core: "buildProposalCore parse_lsn rv statuses basis build = Inr p"
  obtains result where "build result = Inr p" "Proposal_GetTermRevocation p = rv" "rr_TermRevocation result = rv"
    "\<And>cs. cs \<in> set (rr_EligibleLeaders result) \<Longrightarrow> cs \<in> set (valid_recruits parse_lsn statuses) \<and>
       rr_OutgoingRule result = PossiblyUndecidedRule (status_position cs)"
proof -
  let ?xs = "valid_recruits parse_lsn statuses"
  from buildProposalCore_InrE [OF core] obtain outgoing revoked result where
    ne: "?xs \<noteq> []"
    and out: "discoverOutgoingRule ?xs (GetOutgoingRule rv) basis = Inr outgoing"
    and rev: "revoke outgoing = Inr revoked"
    and res: "newRecruitmentResult parse_lsn rv (FinalizableOutgoingRule revoked) = Inr result"
    and built: "build result = Inr p"
    and val: "validateProposal p result (statusesToIDs (filterCohortStatuses
       (GetCohortMembers (GetProposal (GetProposedTransition p))) ?xs)) = None"
    by metis
  have "\<forall>cs \<in> set ?xs. status_position cs \<noteq> None" using valid_recruitsD(3) by blast
  note disc = discoverOutgoingRule_InrD [OF out this ne]
  note rr = newRecruitmentResult_InrD [OF res]
  have el: "eligibleLeaders parse_lsn (RevokedOutgoingRule outgoing) = Inr (rr_EligibleLeaders result)"
    using rr(3) revoke_InrD(1) [OF rev] by (metis revokedOutgoingRule.exhaust_sel)
  show thesis
  proof (rule that [OF built])
    show "Proposal_GetTermRevocation p = rv" using validateProposal_NoneD(1) [OF val] rr(1) by simp
    show "rr_TermRevocation result = rv" by (rule rr(1))
    fix cs assume "cs \<in> set (rr_EligibleLeaders result)"
    from eligible_most_advanced(1,2) [OF el this, unfolded disc(1,2), OF disc(4,5)]
    show "cs \<in> set ?xs \<and> rr_OutgoingRule result = PossiblyUndecidedRule (status_position cs)"
      using rr(4) revoke_InrD(1) [OF rev] by simp
  qed
qed

interpretation failover: rule_change "failover_change parse_lsn w reason cohort" cohort rv
  for parse_lsn w reason cohort rv
proof
  fix statuses p
  assume "rc_tryBuildProposal (failover_change parse_lsn w reason cohort) rv statuses = Inr p"
  then have core: "buildProposalCore parse_lsn rv (filterByRevocation rv statuses) \<lparr>basis_cert = None\<rparr>
      (failover_builder w cohort (length statuses)) = Inr p"
    by (simp add: failover_change_def BuildSafeProposal_core)
  then show "Proposal_GetTermRevocation p = rv" by (rule buildProposalCore_built)
  from core show "leader_key p \<in> cohort_key ` set cohort"
    by (rule buildProposalCore_built) (erule failover_builder_Inr)
qed

interpretation bootstrap: rule_change "certified_change parse_lsn reason cert (bootstrap_builder w cohort policy)"
    cohort "Cert_GetTermRevocation cert"
  for parse_lsn reason cert w cohort policy
proof
  fix statuses p
  assume "rc_tryBuildProposal (certified_change parse_lsn reason cert (bootstrap_builder w cohort policy))
      (Cert_GetTermRevocation cert) statuses = Inr p"
  then obtain basis where core: "buildProposalCore parse_lsn (Cert_GetTermRevocation cert)
      (filterByRevocation (Cert_GetTermRevocation cert) statuses) basis
      (bootstrap_builder w cohort policy (length statuses)) = Inr p"
    by (auto simp: certified_change_def elim: BuildExternallyCertifiedProposal_core)
  then show "Proposal_GetTermRevocation p = Cert_GetTermRevocation cert" by (rule buildProposalCore_built)
  from core obtain result where "bootstrap_builder w cohort policy (length statuses) result = Inr p"
    by (rule buildProposalCore_built)
  then show "leader_key p \<in> cohort_key ` set cohort"
    using address_in_cohort [of cohort]
    by (auto simp: bootstrap_builder_def buildBootstrapProposal_def split: list.splits option.splits)
qed


section \<open>Failover\<close>

abbreviation eligible_members :: "PoolerHealthState ptr list \<Rightarrow> PoolerHealthState ptr list" where
  "eligible_members cohort \<equiv> fst (filterCohortIneligible cohort)"

abbreviation failover_revocation ::
  "world \<Rightarrow> Coordinator \<Rightarrow> PoolerHealthState ptr list \<Rightarrow> revocation_error + TermRevocation ptr" where
  "failover_revocation w c cohort \<equiv> NewTermRevocation (consensusStatusesOf (eligible_members cohort))
     (co_coordinatorID c) (Some (w_initiatedAt w)) DefaultBackoffResetDuration"

lemma AppointLeader_Run:
  assumes "AppointLeader parse_lsn w c shardKey cohort reason = (rpcs, err)" "rpcs \<noteq> [] \<or> err = None"
  obtains rv err' where "failover_revocation w c cohort = Inr rv"
    "Run w (failover_change parse_lsn w reason (eligible_members cohort)) (eligible_members cohort) rv = (rpcs, err')"
    "err = None \<longleftrightarrow> err' = None"
  using assms
  by (auto simp: AppointLeader_def runFailover_def Let_def case_prod_beta prod_eq_iff
      split: if_splits sum.splits)

text \<open>Everything a Promote of a failover rests on.\<close>

lemma AppointLeader_promotes:
  assumes "AppointLeader parse_lsn w c shardKey cohort reason = (rpcs, err)" "PromoteRPC m req \<in> set rpcs"
  obtains rv n where "failover_revocation w c cohort = Inr rv" "0 < n"
    "BuildSafeProposal parse_lsn rv (take n (answers (snd (dispatchRecruit w (eligible_members cohort) rv))))
       (failover_builder w (eligible_members cohort)
          (length (take n (answers (snd (dispatchRecruit w (eligible_members cohort) rv)))))) = Inr (preq_Proposal req)"
    "ClusterIDString (Multipooler_GetId m) = leader_key (preq_Proposal req)"
    "checkRecentAcceptance (w_now w) (eligible_members cohort) = None"
proof -
  from assms(2) have "rpcs \<noteq> [] \<or> err = None" by auto
  from AppointLeader_Run [OF assms(1) this] obtain rv err' where rv: "failover_revocation w c cohort = Inr rv"
    and run: "Run w (failover_change parse_lsn w reason (eligible_members cohort)) (eligible_members cohort) rv =
      (rpcs, err')" by metis
  show thesis
  proof (rule Run_promotes [OF run assms(2)])
    fix n
    assume "0 < n" "ClusterIDString (Multipooler_GetId m) = leader_key (preq_Proposal req)"
      "checkRecentAcceptance (w_now w) (eligible_members cohort) = None"
      "rc_tryBuildProposal (failover_change parse_lsn w reason (eligible_members cohort)) rv
         (take n (answers (snd (dispatchRecruit w (eligible_members cohort) rv)))) = Inr (preq_Proposal req)"
    then show thesis by (intro that [OF rv, of n]) (simp_all add: failover_change_def)
  qed
qed

lemma failover_proposal:
  assumes "world_ok w" "BuildSafeProposal parse_lsn rv statuses (failover_builder w cohort n) = Inr p"
  obtains leader where "leader \<in> set statuses" "GetTermRevocation leader = rv" "status_key leader = leader_key p"
    "leader_key p \<in> ClusterIDString ` set (GetCohortMembers (PossiblyUndecidedRule (status_position leader)))"
    "GetProposedTransition p = Some \<lparr>pos_decision = PossiblyUndecidedRule (status_position leader),
       pos_proposal = proposed_rule (w_created w n) rv
         (GetCohortMembers (PossiblyUndecidedRule (status_position leader)))
         (GetDurabilityPolicy (PossiblyUndecidedRule (status_position leader))) (ConsensusStatus_GetId leader)\<rparr>"
proof -
  from BuildSafeProposal_core [OF assms(2)] obtain result where built: "failover_builder w cohort n result = Inr p"
    and rv: "rr_TermRevocation result = rv"
    and el: "\<And>cs. cs \<in> set (rr_EligibleLeaders result) \<Longrightarrow>
        cs \<in> set (valid_recruits parse_lsn (filterByRevocation rv statuses)) \<and>
        rr_OutgoingRule result = PossiblyUndecidedRule (status_position cs)"
    by (rule buildProposalCore_built) blast
  from built obtain candidates leader where cand: "failoverCandidates result = Inr candidates"
    and leader: "leader = selectFittestLeader candidates (snd (buildCohortMaps cohort)) (w_IntN w n)"
    and p: "leader_key p = status_key leader" "GetProposedTransition p = Some \<lparr>pos_decision = rr_OutgoingRule result,
       pos_proposal = proposed_rule (w_created w n) (rr_TermRevocation result)
         (GetCohortMembers (rr_OutgoingRule result)) (GetDurabilityPolicy (rr_OutgoingRule result))
         (ConsensusStatus_GetId leader)\<rparr>"
    by (rule failover_builder_Inr)
  have "leader \<in> set candidates"
    unfolding leader using failoverCandidates_Inr(1) [OF cand] assms(1)
    by (intro selectFittestLeader_mem) (simp_all add: world_ok_def)
  note mem = failoverCandidates_Inr(2) [OF cand this]
  note eld = el [OF conjunct1 [OF mem]]
  from valid_recruitsD(1) [OF conjunct1 [OF eld]] show thesis
    using mem eld p rv by (intro that [of leader]) (auto simp: filterByRevocation_def)
qed

text \<open>
  C3: whenever a failover sends a Promote, the proposal in it is a safe one, built from answers of
  eligible members to the coordinator's own revocation; it goes to the pooler it names as leader,
  which is a recruited member of the outgoing cohort; cohort and durability policy stay those of the
  outgoing rule; and no eligible member had just accepted another recruitment.
\<close>

theorem failover_promotes_safely:
  assumes "world_ok w" "AppointLeader parse_lsn w c shardKey cohort reason = (rpcs, err)"
    and "PromoteRPC m req \<in> set rpcs"
  shows "\<exists>rv statuses build leader.
    failover_revocation w c cohort = Inr rv \<and>
    (\<forall>cs \<in> set statuses. \<exists>q \<in> set (eligible_members cohort). w_Recruit w (GetMultipooler q) rv = Inr cs) \<and>
    BuildSafeProposal parse_lsn rv statuses build = Inr (preq_Proposal req) \<and>
    leader \<in> set statuses \<and> GetTermRevocation leader = rv \<and>
    status_key leader = ClusterIDString (Multipooler_GetId m) \<and>
    (let outgoing = PossiblyUndecidedRule (status_position leader);
         rule = GetProposal (GetProposedTransition (preq_Proposal req))
     in GetDecision (GetProposedTransition (preq_Proposal req)) = outgoing \<and>
        GetLeaderId rule = ConsensusStatus_GetId leader \<and>
        status_key leader \<in> ClusterIDString ` set (GetCohortMembers outgoing) \<and>
        GetCohortMembers rule = GetCohortMembers outgoing \<and>
        GetDurabilityPolicy rule = GetDurabilityPolicy outgoing) \<and>
    checkRecentAcceptance (w_now w) (eligible_members cohort) = None"
proof -
  let ?as = "\<lambda>rv n. take n (answers (snd (dispatchRecruit w (eligible_members cohort) rv)))"
  from AppointLeader_promotes [OF assms(2,3)] obtain rv n where rv: "failover_revocation w c cohort = Inr rv"
    and safe: "BuildSafeProposal parse_lsn rv (?as rv n)
      (failover_builder w (eligible_members cohort) (length (?as rv n))) = Inr (preq_Proposal req)"
    and m: "ClusterIDString (Multipooler_GetId m) = leader_key (preq_Proposal req)"
    and quiet: "checkRecentAcceptance (w_now w) (eligible_members cohort) = None" by metis
  from failover_proposal [OF assms(1) safe] obtain leader where leader: "leader \<in> set (?as rv n)"
    "GetTermRevocation leader = rv" "status_key leader = leader_key (preq_Proposal req)"
    "leader_key (preq_Proposal req) \<in> ClusterIDString ` set (GetCohortMembers (PossiblyUndecidedRule (status_position leader)))"
    and p: "GetProposedTransition (preq_Proposal req) = Some \<lparr>pos_decision = PossiblyUndecidedRule (status_position leader),
       pos_proposal = proposed_rule (w_created w (length (?as rv n))) rv
         (GetCohortMembers (PossiblyUndecidedRule (status_position leader)))
         (GetDurabilityPolicy (PossiblyUndecidedRule (status_position leader))) (ConsensusStatus_GetId leader)\<rparr>"
    by metis
  have "\<exists>q \<in> set (eligible_members cohort). w_Recruit w (GetMultipooler q) rv = Inr cs" if "cs \<in> set (?as rv n)" for cs
    using answers_from_cohort [OF assms(1) in_set_takeD [OF that]] by blast
  with rv safe m quiet leader p show ?thesis
    by (intro exI [of _ rv] exI [of _ "?as rv n"] exI [of _ leader]
        exI [of _ "failover_builder w (eligible_members cohort) (length (?as rv n))"])
       (simp add: proposed_rule_def)
qed


text \<open>
  A failover that succeeds has been accepted by the pooler it names as leader, under the
  coordinator's own revocation; every eligible member was asked to join the recruitment and
  every other one was pointed at the new leader.
\<close>

theorem failover_success_means_promoted:
  assumes "world_ok w" "AppointLeader parse_lsn w c shardKey cohort reason = (rpcs, None)"
  shows "\<exists>rv req. \<exists>q \<in> set (eligible_members cohort). failover_revocation w c cohort = Inr rv \<and>
    Proposal_GetTermRevocation (preq_Proposal req) = rv \<and> cohort_key q = leader_key (preq_Proposal req) \<and>
    PromoteRPC (GetMultipooler q) req \<in> set rpcs \<and> w_Promote w (GetMultipooler q) req = None \<and>
    (\<forall>p \<in> set (eligible_members cohort). RecruitRPC (GetMultipooler p) rv \<in> set rpcs \<and>
       (cohort_key p \<noteq> cohort_key q \<longrightarrow>
          SetPrimaryRPC (GetMultipooler p) (ReplicationPrimaryFromProposal (preq_Proposal req) False) \<in> set rpcs))"
proof -
  obtain rv where rv: "failover_revocation w c cohort = Inr rv"
    and run: "Run w (failover_change parse_lsn w reason (eligible_members cohort)) (eligible_members cohort) rv =
      (rpcs, None)"
    using AppointLeader_Run [OF assms(2)] by metis
  from failover.success_means_promoted [OF run assms(1)] rv show ?thesis by blast
qed

section \<open>Certified rule changes\<close>

lemma certified_promotes:
  assumes "Run w (certified_change parse_lsn reason cert build) cohort (Cert_GetTermRevocation cert) = (rpcs, err)"
    and "PromoteRPC m req \<in> set rpcs" "world_ok w"
  obtains statuses basis where "newCertBasis parse_lsn cert = Inr basis"
    "\<forall>cs \<in> set statuses. \<exists>q \<in> set cohort. w_Recruit w (GetMultipooler q) (Cert_GetTermRevocation cert) = Inr cs"
    "buildProposalCore parse_lsn (Cert_GetTermRevocation cert)
       (filterByRevocation (Cert_GetTermRevocation cert) statuses) basis (build (length statuses)) =
       Inr (preq_Proposal req)"
    "ClusterIDString (Multipooler_GetId m) = leader_key (preq_Proposal req)"
proof (rule Run_promotes [OF assms(1,2)])
  let ?as = "answers (snd (dispatchRecruit w cohort (Cert_GetTermRevocation cert)))"
  fix n
  assume m: "ClusterIDString (Multipooler_GetId m) = leader_key (preq_Proposal req)"
    and built: "rc_tryBuildProposal (certified_change parse_lsn reason cert build) (Cert_GetTermRevocation cert)
         (take n ?as) = Inr (preq_Proposal req)"
  have "\<forall>cs \<in> set (take n ?as). \<exists>q \<in> set cohort.
      w_Recruit w (GetMultipooler q) (Cert_GetTermRevocation cert) = Inr cs"
    using answers_from_cohort [OF assms(3)] in_set_takeD by fast
  with that [of _ "take n ?as"] m show thesis
    using BuildExternallyCertifiedProposal_core [of parse_lsn cert "take n ?as" "build (length (take n ?as))"] built
    by (auto simp: certified_change_def)
qed

lemma certified_leader:
  assumes basis: "newCertBasis parse_lsn cert = Inr basis"
    and core: "buildProposalCore parse_lsn rv (filterByRevocation rv statuses) basis build = Inr p"
  obtains leader frozen l where "leader \<in> set statuses" "GetTermRevocation leader = rv"
    "status_key leader = leader_key p" "parse_lsn (GetFrozenLsn cert) = Some frozen"
    "status_lsn parse_lsn leader = Some l" "frozen \<le> l"
    "\<exists>policy. NewPolicyFromProto (GetDurabilityPolicy (GetProposal (GetProposedTransition p))) = Inr policy \<and>
       CheckSufficientRecruitment policy (GetCohortMembers (GetProposal (GetProposedTransition p)))
         (proposed_recruits p (valid_recruits parse_lsn (filterByRevocation rv statuses))) = None"
proof -
  from basis obtain frozen where frozen: "parse_lsn (GetFrozenLsn cert) = Some frozen"
    "basis = \<lparr>basis_cert = Some \<lparr>frozenLSN = frozen\<rparr>\<rparr>"
    by (auto simp: newCertBasis_def certMinLSN_def split: sum.splits if_splits option.splits)
  from core obtain leader where leader: "leader \<in> set (valid_recruits parse_lsn (filterByRevocation rv statuses))"
    "status_key leader = proposal_leader_key p" "\<exists>l. status_lsn parse_lsn leader = Some l \<and> basis_min_lsn basis \<le> l"
    by (rule buildProposalCore_leader) blast
  from core obtain result where "oor_basis (revoked_rule (finalizable_rule (rr_outgoing result))) = basis"
    and val: "validateProposal p result (proposed_recruits p (valid_recruits parse_lsn (filterByRevocation rv statuses))) = None"
    by (rule buildProposalCore_valid)
  then have "basis_cert (oor_basis (revoked_rule (finalizable_rule (rr_outgoing result)))) \<noteq> None"
    by (simp add: frozen(2))
  note suff = validateProposal_cert [OF val this]
  from valid_recruitsD(1) [OF leader(1)] leader frozen suff show thesis
    by (auto simp: filterByRevocation_def proposal_leader_key_def basis_min_lsn_def intro!: that [of leader])
qed

lemma bootstrap_rule:
  assumes "bootstrap_builder w cohort policy n result = Inr p"
  shows "GetCohortMembers (GetProposal (GetProposedTransition p)) = poolerIDs cohort"
    and "GetDurabilityPolicy (GetProposal (GetProposedTransition p)) = policy"
  using assms by (auto simp: bootstrap_builder_def buildBootstrapProposal_def proposed_rule_def
      split: list.splits option.splits)

text \<open>
  C16: the first leader of a shard is a pooler of the given cohort that accepted the coordinator's
  revocation and has written at least everything known of that cohort before the recruitment; the
  rule it is given has that cohort and the configured policy, and the recruits are a sufficient
  recruitment of it.
\<close>

theorem initial_leader_promoted_safely:
  assumes "world_ok w" "AppointInitialLeader parse_lsn getDatabase w c shardKey cohort = ((rpcs, err), c')"
    and "PromoteRPC m req \<in> set rpcs"
  shows "\<exists>policy rv pos frozen statuses leader l.
    fst (GetBootstrapPolicy getDatabase c (GetDatabase shardKey)) = Inr policy \<and>
    NewTermRevocation (consensusStatusesOf cohort) (co_coordinatorID c) (Some (w_initiatedAt w))
      DefaultBackoffResetDuration = Inr rv \<and>
    MostAdvancedPosition parse_lsn (consensusStatusesOf cohort) = Some pos \<and> parse_lsn (pp_lsn pos) = Some frozen \<and>
    (\<forall>cs \<in> set statuses. \<exists>q \<in> set cohort. w_Recruit w (GetMultipooler q) rv = Inr cs) \<and>
    leader \<in> set statuses \<and> GetTermRevocation leader = rv \<and> status_lsn parse_lsn leader = Some l \<and> frozen \<le> l \<and>
    status_key leader = ClusterIDString (Multipooler_GetId m) \<and>
    (let rule = GetProposal (GetProposedTransition (preq_Proposal req))
     in GetCohortMembers rule = poolerIDs cohort \<and> GetDurabilityPolicy rule = policy \<and>
        (\<exists>durability. NewPolicyFromProto policy = Inr durability \<and>
           CheckSufficientRecruitment durability (poolerIDs cohort)
             (proposed_recruits (preq_Proposal req) (valid_recruits parse_lsn (filterByRevocation rv statuses))) = None))"
proof -
  from assms(2,3) obtain policy pos rv where
    policy: "fst (GetBootstrapPolicy getDatabase c (GetDatabase shardKey)) = Inr policy"
    and pos: "MostAdvancedPosition parse_lsn (consensusStatusesOf cohort) = Some pos"
    and rv: "NewTermRevocation (consensusStatusesOf cohort) (co_coordinatorID c) (Some (w_initiatedAt w))
      DefaultBackoffResetDuration = Inr rv"
    and run: "Run w (certified_change parse_lsn ''ShardInit'' (Some \<lparr>cert_term_revocation = rv, cert_frozen_lsn = pp_lsn pos\<rparr>)
        (bootstrap_builder w cohort policy)) cohort rv = (rpcs, err)"
    by (auto simp: AppointInitialLeader_def Let_def case_prod_beta GetBootstrapPolicy_def
        split: if_splits sum.splits option.splits)
  let ?cert = "Some \<lparr>cert_term_revocation = rv, cert_frozen_lsn = pp_lsn pos\<rparr>"
  have "Cert_GetTermRevocation ?cert = rv" "GetFrozenLsn ?cert = pp_lsn pos" by simp_all
  note promotes = certified_promotes [where cert = "?cert", unfolded this, OF run assms(3,1)]
  obtain statuses basis where basis: "newCertBasis parse_lsn ?cert = Inr basis"
    and st: "\<forall>cs \<in> set statuses. \<exists>q \<in> set cohort. w_Recruit w (GetMultipooler q) rv = Inr cs"
    and core: "buildProposalCore parse_lsn rv (filterByRevocation rv statuses) basis
       (bootstrap_builder w cohort policy (length statuses)) = Inr (preq_Proposal req)"
    and m: "ClusterIDString (Multipooler_GetId m) = leader_key (preq_Proposal req)"
    by (rule promotes)
  from core obtain result where "bootstrap_builder w cohort policy (length statuses) result = Inr (preq_Proposal req)"
    by (rule buildProposalCore_built)
  then have rule: "GetCohortMembers (GetProposal (GetProposedTransition (preq_Proposal req))) = poolerIDs cohort"
    "GetDurabilityPolicy (GetProposal (GetProposedTransition (preq_Proposal req))) = policy"
    by (rule bootstrap_rule)+
  show ?thesis
  proof (rule certified_leader [OF basis core], unfold rule)
    fix leader frozen l
    assume "leader \<in> set statuses" "GetTermRevocation leader = rv"
      "status_key leader = leader_key (preq_Proposal req)" "parse_lsn (GetFrozenLsn ?cert) = Some frozen"
      "status_lsn parse_lsn leader = Some l" "frozen \<le> l"
      "\<exists>d. NewPolicyFromProto policy = Inr d \<and> CheckSufficientRecruitment d (poolerIDs cohort)
         (proposed_recruits (preq_Proposal req) (valid_recruits parse_lsn (filterByRevocation rv statuses))) = None"
    with policy pos rv st m rule show ?thesis
      by (intro exI [of _ policy] exI [of _ rv] exI [of _ pos] exI [of _ frozen] exI [of _ statuses]
          exI [of _ leader] exI [of _ l]) simp
  qed
qed


lemma resolveCohort_Inr:
  assumes "resolveCohort topo addresses cohort ids = Inr (addresses', cohort')"
  shows "map_of addresses' k = Some a \<Longrightarrow> map_of addresses k = Some a \<or>
      (\<exists>i \<in> set ids. \<exists>mp. topo_GetMultipooler topo i = Inr mp \<and> k = ClusterIDString i \<and> a = PoolerAddressFor mp)"
    and "p \<in> set cohort' \<Longrightarrow> p \<in> set cohort \<or> (\<exists>i \<in> set ids. topo_GetMultipooler topo i = Inr (GetMultipooler p))"
    and "set cohort \<subseteq> set cohort' \<and> (\<forall>i \<in> set ids. \<exists>p \<in> set cohort'. topo_GetMultipooler topo i = Inr (GetMultipooler p))"
  using assms
proof (induction ids arbitrary: addresses cohort)
  case (Cons i ids)
  let ?p = "\<lambda>mp. health_of_pooler mp"
  { case 1
    then obtain mp where "topo_GetMultipooler topo i = Inr mp" "resolveCohort topo
        (AList.update (ClusterIDString i) (PoolerAddressFor mp) addresses) (cohort @ [?p mp]) ids = Inr (addresses', cohort')"
      by (auto split: sum.splits)
    with Cons.IH(1) [OF 1(1) this(2)] show ?case by (auto simp: update_conv' split: if_splits) }
  { case 2
    then obtain mp where "topo_GetMultipooler topo i = Inr mp" "resolveCohort topo
        (AList.update (ClusterIDString i) (PoolerAddressFor mp) addresses) (cohort @ [?p mp]) ids = Inr (addresses', cohort')"
      by (auto split: sum.splits)
    with Cons.IH(2) [OF 2(1) this(2)] show ?case by auto }
  { case 3
    then obtain mp where "topo_GetMultipooler topo i = Inr mp" "resolveCohort topo
        (AList.update (ClusterIDString i) (PoolerAddressFor mp) addresses) (cohort @ [?p mp]) ids = Inr (addresses', cohort')"
      by (auto split: sum.splits)
    with Cons.IH(3) [OF this(2)] show ?case by (auto intro: bexI [of _ "?p mp"]) }
qed auto

lemma GetMultipooler_prime_status [simp]: "GetMultipooler (prime_status statuses p) = GetMultipooler p"
  by (cases p) (auto simp: prime_status_def split: option.splits)

lemma ApplyCertifiedRuleChange_Run:
  assumes "ApplyCertifiedRuleChange parse_lsn topo w shardKey transition cert reason = (rpcs, err)" "rpcs \<noteq> []"
  obtains cohort addr i where "validateCertifiedRuleChange shardKey transition cert = None"
    "\<And>p. p \<in> set cohort \<Longrightarrow> \<exists>i \<in> set (GetCohortMembers (GetProposal transition)).
       topo_GetMultipooler topo i = Inr (GetMultipooler p)"
    "\<And>i. i \<in> set (GetCohortMembers (GetProposal transition)) \<Longrightarrow>
       \<exists>p \<in> set cohort. topo_GetMultipooler topo i = Inr (GetMultipooler p)"
    "i \<in> set (GetCohortMembers (GetProposal transition))"
    "ClusterIDString i = ClusterIDString (GetLeaderId (GetProposal transition))"
    "\<exists>mp. topo_GetMultipooler topo i = Inr mp \<and> addr = PoolerAddressFor mp"
    "Run w (certified_change parse_lsn reason cert (\<lambda>_ _. Inr (Some \<lparr>prop_term_revocation = Cert_GetTermRevocation cert,
       prop_proposal_leader = addr, prop_proposed_transition = transition, prop_skip_outgoing_quorum = True\<rparr>)))
       cohort (Cert_GetTermRevocation cert) = (rpcs, err)"
proof -
  let ?ids = "GetCohortMembers (GetProposal transition)"
  from assms obtain statuses addresses cohort addr where valid: "validateCertifiedRuleChange shardKey transition cert = None"
    and resolve: "resolveCohort topo [] [] ?ids = Inr (addresses, cohort)"
    and addr: "map_of addresses (ClusterIDString (GetLeaderId (GetProposal transition))) = Some addr"
    and run: "Run w (certified_change parse_lsn reason cert (\<lambda>_ _. Inr (Some \<lparr>prop_term_revocation = Cert_GetTermRevocation cert,
       prop_proposal_leader = addr, prop_proposed_transition = transition, prop_skip_outgoing_quorum = True\<rparr>)))
       (map (prime_status statuses) cohort) (Cert_GetTermRevocation cert) = (rpcs, err)"
    by (auto simp: ApplyCertifiedRuleChange_def Let_def split: option.splits sum.splits if_splits)
  from resolveCohort_Inr(1) [OF resolve addr] obtain i where "i \<in> set ?ids"
    "ClusterIDString i = ClusterIDString (GetLeaderId (GetProposal transition))"
    "\<exists>mp. topo_GetMultipooler topo i = Inr mp \<and> addr = PoolerAddressFor mp" by auto
  moreover have "\<exists>i \<in> set ?ids. topo_GetMultipooler topo i = Inr (GetMultipooler p)"
    if "p \<in> set (map (prime_status statuses) cohort)" for p
    using that resolveCohort_Inr(2) [OF resolve] by fastforce
  moreover have "\<exists>p \<in> set (map (prime_status statuses) cohort). topo_GetMultipooler topo i = Inr (GetMultipooler p)"
    if "i \<in> set ?ids" for i
    using that resolveCohort_Inr(3) [OF resolve] by fastforce
  ultimately show thesis using valid run by (intro that [of "map (prime_status statuses) cohort" i addr]) auto
qed

text \<open>The recruits of a workflow: its cohort, under its revocation.\<close>

lemma Run_recruits:
  assumes "Run w r cohort rv = (rpcs, err)"
  shows "RecruitRPC mp rv' \<in> set rpcs \<Longrightarrow> rv' = rv \<and> mp \<in> GetMultipooler ` set cohort"
    and "PromoteRPC m req \<in> set rpcs \<Longrightarrow> p \<in> set cohort \<Longrightarrow> RecruitRPC (GetMultipooler p) rv \<in> set rpcs"
  using assms
  by (cases rule: Run_cases; auto simp: dispatchRecruit_def dispatchPromote_def promote_rpc_def Let_def split: if_splits)+



section \<open>Concrete instances\<close>

definition ex_topo :: topology where
  "ex_topo = \<lparr>topo_GetCellNames = Inr [''zone1''],
     topo_GetMultipoolersByCell = (\<lambda>_. Inr [ex_mp ex_a, ex_mp ex_b, ex_mp ex_c]),
     topo_GetMultipooler = (\<lambda>i. Inr (ex_mp i)),
     topo_Status = (\<lambda>mp. if Multipooler_GetId mp = ex_a then Inl ''unreachable''
       else Inr (ex_status (Multipooler_GetId mp) (ex_decided 3) (ex_lsn (Multipooler_GetId mp)) None)),
     topo_completed = id\<rparr>"

definition ex_request :: "RulePosition ptr" where
  "ex_request = Some \<lparr>pos_decision = ex_rule (ex_num 3 0) ex_a, pos_proposal = ex_rule (ex_num 4 0) ex_b\<rparr>"

primrec promotes :: "ID ptr \<Rightarrow> rpc \<Rightarrow> bool" where
  "promotes i (RecruitRPC m rv) = False"
| "promotes i (PromoteRPC m req) = (Multipooler_GetId m = i)"
| "promotes i (SetPrimaryRPC m prim) = False"

lemma promotesE:
  assumes "list_ex (promotes i) rpcs"
  obtains m req where "PromoteRPC m req \<in> set rpcs" "Multipooler_GetId m = i"
proof -
  from assms obtain r where r: "r \<in> set rpcs" "promotes i r" by (auto simp: list_ex_iff)
  with that show thesis by (cases r rule: rpc.exhaust) auto
qed

abbreviation ex_appointment :: "rpc list \<times> coordinator_error option" where
  "ex_appointment \<equiv> AppointLeader ex_parse ex_world (NewCoordinator ex_orch) None ex_members ''LeaderUnhealthy''"

theorem failover_promotes_safely_witness:
  "\<exists>m req rv. PromoteRPC m req \<in> set (fst ex_appointment) \<and> Multipooler_GetId m = ex_b \<and>
     failover_revocation ex_world (NewCoordinator ex_orch) ex_members = Inr rv"
proof -
  have "list_ex (promotes ex_b) (fst ex_appointment)" by code_simp
  then obtain m req where m: "PromoteRPC m req \<in> set (fst ex_appointment)" "Multipooler_GetId m = ex_b"
    by (rule promotesE)
  from failover_promotes_safely [OF ex_world_ok prod.collapse [symmetric] m(1)] m show ?thesis by blast
qed

theorem failover_success_means_promoted_witness:
  "\<exists>rv. RecruitRPC (ex_mp ex_a) rv \<in> set (fst ex_appointment) \<and> RecruitRPC (ex_mp ex_c) rv \<in> set (fst ex_appointment)"
proof -
  have "snd ex_appointment = None" by code_simp
  then have "ex_appointment = (fst ex_appointment, None)" by (metis prod.collapse)
  from failover_success_means_promoted [OF ex_world_ok this] obtain rv where
    rv: "\<forall>p \<in> set (eligible_members ex_members). RecruitRPC (GetMultipooler p) rv \<in> set (fst ex_appointment)" by blast
  have "eligible_members ex_members = [ex_member ex_a, ex_member ex_b, ex_member ex_c]" by code_simp
  moreover have "GetMultipooler (ex_member i) = ex_mp i" for i by (simp add: ex_member_def)
  ultimately show ?thesis using rv by (intro exI [of _ rv]) simp
qed

theorem initial_leader_promoted_safely_witness:
  "\<exists>leader l rv. w_Recruit ex_world (ex_mp ex_b) rv = Inr leader \<and> status_lsn ex_parse leader = Some l \<and> 120 \<le> l"
proof -
  let ?run = "AppointInitialLeader ex_parse (\<lambda>_. Inr ex_policy) ex_world (NewCoordinator ex_orch) None ex_members"
  have "list_ex (promotes ex_b) (fst (fst ?run))" by code_simp
  then obtain m req where m: "PromoteRPC m req \<in> set (fst (fst ?run))" by (rule promotesE)
  have run: "?run = ((fst (fst ?run), snd (fst ?run)), snd ?run)" by simp
  from initial_leader_promoted_safely [OF ex_world_ok run m] obtain pos frozen rv statuses leader l where
    pos: "MostAdvancedPosition ex_parse (consensusStatusesOf ex_members) = Some pos" "ex_parse (pp_lsn pos) = Some frozen"
    and st: "\<forall>cs \<in> set statuses. \<exists>q \<in> set ex_members. w_Recruit ex_world (GetMultipooler q) rv = Inr cs"
    and leader: "leader \<in> set statuses" "status_lsn ex_parse leader = Some l" "frozen \<le> l" by blast
  have "map_option (\<lambda>p. ex_parse (pp_lsn p)) (MostAdvancedPosition ex_parse (consensusStatusesOf ex_members)) = Some (Some 120)"
    by code_simp
  with pos have l: "120 \<le> l" using leader(3) by simp
  from st leader(1) obtain q where q: "q \<in> {ex_member ex_a, ex_member ex_b, ex_member ex_c}"
    "w_Recruit ex_world (GetMultipooler q) rv = Inr leader" by (auto simp: ex_members_def)
  have mp: "GetMultipooler (ex_member i) = ex_mp i" for i by (simp add: ex_member_def)
  have "w_Recruit ex_world (ex_mp ex_a) rv = Inl ''unreachable''" by (simp add: ex_world_def ex_mp_def ex_multipooler_def)
  moreover have "\<not> 120 \<le> l" if "w_Recruit ex_world (ex_mp ex_c) rv = Inr leader"
  proof -
    have "ex_c \<noteq> ex_a" "ex_c \<noteq> ex_b" "ex_parse ''110'' = Some 110" by code_simp+
    with that leader(2) show ?thesis by (auto simp: ex_world_def ex_mp_def ex_multipooler_def ex_lsn_def ex_status_def)
  qed
  ultimately have "w_Recruit ex_world (ex_mp ex_b) rv = Inr leader" using q l by (auto simp: mp)
  with leader(2) l show ?thesis by blast
qed


end
