(* ===== verification/Shard_Init.thy ===== *)
theory Shard_Init
  imports Pooler_Store Coordinator
begin

text \<open>
  The bootstrap of a shard: the claim on the global topology that lets one coordinator choose the
  initial cohort (go/common/topoclient/shard_init_claim.go) and the recovery action that makes it and
  appoints the first leader (recovery/actions/shard_init_action.go). protobuf is a parameter
  (\<open>claim_codec\<close>); the outcome of each topology call is an argument.
\<close>

section \<open>Paths\<close>

definition DatabasesPath :: string where "DatabasesPath = ''databases''"
definition ShardInitClaimFile :: string where "ShardInitClaimFile = ''ShardInitClaim''"

definition shardInitClaimPath :: "ShardKey ptr \<Rightarrow> string" where
  "shardInitClaimPath shardKey =
     path_Join [DatabasesPath, GetDatabase shardKey, GetTableGroup shardKey, GetShard shardKey, ShardInitClaimFile]"

section \<open>The claim\<close>

record ShardInitClaim =
  sic_claimer_id :: "ID ptr"
  sic_cohort_members :: "ID ptr list"

record 'b claim_codec =
  cc_Marshal :: "ShardInitClaim \<Rightarrow> string + 'b"
  cc_Unmarshal :: "'b \<Rightarrow> string + ShardInitClaim"

text \<open>A message without nil elements is read back as it was written.\<close>

definition claim_codec_ok :: "'b claim_codec \<Rightarrow> bool" where
  "claim_codec_ok codec \<longleftrightarrow> (\<forall>c b. None \<notin> set (sic_cohort_members c) \<and> cc_Marshal codec c = Inr b \<longrightarrow>
     cc_Unmarshal codec b = Inr c)"

text \<open>The files of the global topology, and its calls. A write may take effect without being
  acknowledged.\<close>

type_synonym 'b topo_files = "string \<rightharpoonup> 'b"

datatype topo_error = NodeExists | MissingNode | TopoFailure string

datatype call_outcome = Call_Done | Call_Unacknowledged string | Call_Failed string

definition topo_Create :: "call_outcome \<Rightarrow> string \<Rightarrow> 'b \<Rightarrow> 'b topo_files \<Rightarrow> 'b topo_files \<times> topo_error option" where
  "topo_Create outcome path contents t =
     (case outcome of
        Call_Done \<Rightarrow> if t path \<noteq> None then (t, Some NodeExists) else (t(path \<mapsto> contents), None)
      | Call_Unacknowledged err \<Rightarrow> (if t path \<noteq> None then t else t(path \<mapsto> contents), Some (TopoFailure err))
      | Call_Failed err \<Rightarrow> (t, Some (TopoFailure err)))"

definition topo_Get :: "call_outcome \<Rightarrow> string \<Rightarrow> 'b topo_files \<Rightarrow> topo_error + 'b" where
  "topo_Get outcome path t =
     (case outcome of
        Call_Done \<Rightarrow> (case t path of None \<Rightarrow> Inl MissingNode | Some contents \<Rightarrow> Inr contents)
      | Call_Unacknowledged err \<Rightarrow> Inl (TopoFailure err)
      | Call_Failed err \<Rightarrow> Inl (TopoFailure err))"

datatype claim_error =
    ClErr_Marshal string
  | ClErr_Create topo_error
  | ClErr_Get topo_error
  | ClErr_Unmarshal string

type_synonym claim_result = "claim_error + bool \<times> ID ptr list"

text \<open>The call up to the answer of \<open>Create\<close>; \<open>None\<close> when the claim exists and is to be read. Another
  coordinator's calls may come between the two halves.\<close>

definition claim_create ::
  "'b claim_codec \<Rightarrow> call_outcome \<Rightarrow> ShardKey ptr \<Rightarrow> ID ptr \<Rightarrow> ID ptr list \<Rightarrow> 'b topo_files \<Rightarrow>
     'b topo_files \<times> claim_result option" where
  "claim_create codec outcome shardKey claimerID proposedCohort t =
     (case cc_Marshal codec \<lparr>sic_claimer_id = claimerID, sic_cohort_members = proposedCohort\<rparr> of
        Inl err \<Rightarrow> (t, Some (Inl (ClErr_Marshal err)))
      | Inr contents \<Rightarrow>
          (case topo_Create outcome (shardInitClaimPath shardKey) contents t of
             (t', None) \<Rightarrow> (t', Some (Inr (True, proposedCohort)))
           | (t', Some err) \<Rightarrow> (t', if err = NodeExists then None else Some (Inl (ClErr_Create err)))))"

definition claim_read :: "'b claim_codec \<Rightarrow> call_outcome \<Rightarrow> ShardKey ptr \<Rightarrow> ID ptr \<Rightarrow> 'b topo_files \<Rightarrow> claim_result" where
  "claim_read codec outcome shardKey claimerID t =
     (case topo_Get outcome (shardInitClaimPath shardKey) t of
        Inl err \<Rightarrow> Inl (ClErr_Get err)
      | Inr existing \<Rightarrow>
          (case cc_Unmarshal codec existing of
             Inl err \<Rightarrow> Inl (ClErr_Unmarshal err)
           | Inr committed \<Rightarrow>
               if ClusterIDString (sic_claimer_id committed) = ClusterIDString claimerID
               then Inr (True, sic_cohort_members committed)
               else Inr (False, [])))"

definition ClaimShardInitialization ::
  "'b claim_codec \<Rightarrow> call_outcome \<Rightarrow> call_outcome \<Rightarrow> ShardKey ptr \<Rightarrow> ID ptr \<Rightarrow> ID ptr list \<Rightarrow> 'b topo_files \<Rightarrow>
     'b topo_files \<times> claim_result" where
  "ClaimShardInitialization codec created got shardKey claimerID proposedCohort t =
     (case claim_create codec created shardKey claimerID proposedCohort t of
        (t', Some r) \<Rightarrow> (t', r)
      | (t', None) \<Rightarrow> (t', claim_read codec got shardKey claimerID t'))"

section \<open>The action\<close>

text \<open>The riders of the store show a record (\<open>store_ok\<close>), so the nil-safe getters
  below never hide a nil dereference. The store is read once, as the action is entered.\<close>

datatype init_error =
    IErr_NoInitializedPoolers "ShardKey ptr"
  | IErr_LoadPolicy coordinator_error
  | IErr_ParsePolicy durability_error
  | IErr_InsufficientPoolers nat durability_error
  | IErr_NotFailureSafe nat
  | IErr_Claim claim_error
  | IErr_InsufficientCommitted nat nat durability_error
  | IErr_WaitingForMember nat nat
  | IErr_CommittedNotFailureSafe nat
  | IErr_AppointInitialLeader coordinator_error

definition rider_id :: "orch_store \<Rightarrow> pooler_ref ptr \<Rightarrow> ID ptr" where
  "rider_id st p = Multipooler_GetId (GetMultipooler (rider_health st p))"

definition in_cohort_already :: "orch_store \<Rightarrow> pooler_ref ptr \<Rightarrow> bool" where
  "in_cohort_already st p \<longleftrightarrow>
     GetCohortMembers (PossiblyUndecidedRule (PoolerPosition_GetPosition (GetCurrentPosition
       (GetConsensusStatus (rider_health st p))))) \<noteq> []"

definition fresh_initialized :: "orch_store \<Rightarrow> go_time \<Rightarrow> pooler_ref ptr \<Rightarrow> bool" where
  "fresh_initialized st now p =
     (let (hs, ok) = HealthWithin (rider_health st p) now DefaultObservationFreshness
      in ok \<and> GetIsInitialized (GetStatus hs))"

primrec collect_initialized ::
  "orch_store \<Rightarrow> go_time \<Rightarrow> pooler_ref ptr list \<Rightarrow> pooler_ref ptr list \<Rightarrow> pooler_ref ptr list \<times> bool" where
  "collect_initialized st now initialized [] = (initialized, False)"
| "collect_initialized st now initialized (p # ps) =
     (if rider_id st p = None then collect_initialized st now initialized ps
      else if in_cohort_already st p then ([], True)
      else if fresh_initialized st now p then collect_initialized st now (initialized @ [p]) ps
      else collect_initialized st now initialized ps)"

definition getInitializedPoolers :: "orch_store \<Rightarrow> go_time \<Rightarrow> ShardKey ptr \<Rightarrow> pooler_ref ptr list \<times> bool" where
  "getInitializedPoolers st now shardKey = collect_initialized st now [] (FindPoolersInShard st shardKey)"

definition buildCohortFromIDs :: "orch_store \<Rightarrow> pooler_ref ptr list \<Rightarrow> ID ptr list \<Rightarrow> PoolerHealthState ptr list" where
  "buildCohortFromIDs st poolers committedIDs =
     (let idSet = set (map ClusterIDString committedIDs)
      in map (rider_health st) (filter (\<lambda>p. ClusterIDString (rider_id st p) \<in> idSet) poolers))"

text \<open>The action up to the claim: the poolers to claim with and the policy, or what it returns.\<close>

definition ShardInit_prepare ::
  "(string \<Rightarrow> string + DurabilityPolicyPb ptr) \<Rightarrow> bool \<Rightarrow> go_time \<Rightarrow> Coordinator \<Rightarrow> orch_store \<Rightarrow> ShardKey ptr \<Rightarrow>
     (init_error option + pooler_ref ptr list \<times> DurabilityPolicy) \<times> Coordinator" where
  "ShardInit_prepare getDatabase allowUnsafeInitialCohort now c st shardKey =
     (let (initializedPoolers, cohortEstablished) = getInitializedPoolers st now shardKey
      in if cohortEstablished then (Inl None, c)
         else if initializedPoolers = [] then (Inl (Some (IErr_NoInitializedPoolers shardKey)), c)
         else
           let (policyProto, c) = GetBootstrapPolicy getDatabase c (GetDatabase shardKey)
           in case policyProto of
                Inl err \<Rightarrow> (Inl (Some (IErr_LoadPolicy err)), c)
              | Inr policyProto \<Rightarrow>
                  (case NewPolicyFromProto policyProto of
                     Inl err \<Rightarrow> (Inl (Some (IErr_ParsePolicy err)), c)
                   | Inr durabilityPolicy \<Rightarrow>
                       let initializedIDs = map (rider_id st) initializedPoolers
                       in case SatisfiedBy durabilityPolicy initializedIDs of
                            Some err \<Rightarrow> (Inl (Some (IErr_InsufficientPoolers (length initializedPoolers) err)), c)
                          | None \<Rightarrow>
                              if \<not> allowUnsafeInitialCohort \<and>
                                 \<not> CohortSurvivesAnyMemberLoss (Some durabilityPolicy) initializedIDs
                              then (Inl (Some (IErr_NotFailureSafe (length initializedPoolers))), c)
                              else (Inr (initializedPoolers, durabilityPolicy), c)))"

text \<open>The action from the answer to the claim on.\<close>

definition ShardInit_commit ::
  "lsn_parser \<Rightarrow> (string \<Rightarrow> string + DurabilityPolicyPb ptr) \<Rightarrow> world \<Rightarrow> bool \<Rightarrow> Coordinator \<Rightarrow> orch_store \<Rightarrow> ShardKey ptr \<Rightarrow>
     pooler_ref ptr list \<Rightarrow> DurabilityPolicy \<Rightarrow> claim_result \<Rightarrow> (rpc list \<times> init_error option) \<times> Coordinator" where
  "ShardInit_commit parse_lsn getDatabase w allowUnsafeInitialCohort c st shardKey initializedPoolers durabilityPolicy claim =
     (case claim of
        Inl err \<Rightarrow> (([], Some (IErr_Claim err)), c)
      | Inr (won, committedIDs) \<Rightarrow>
          if \<not> won then (([], None), c)
          else
            let committedCohort = buildCohortFromIDs st initializedPoolers committedIDs;
                committedCohortIDs = poolerIDs committedCohort
            in case SatisfiedBy durabilityPolicy committedCohortIDs of
                 Some err \<Rightarrow>
                   (([], Some (IErr_InsufficientCommitted (length committedCohort) (length committedIDs) err)), c)
               | None \<Rightarrow>
                   if \<not> allowUnsafeInitialCohort \<and>
                      \<not> CohortSurvivesAnyMemberLoss (Some durabilityPolicy) committedCohortIDs
                   then (([], Some (if length committedCohort < length committedIDs
                            then IErr_WaitingForMember (length committedCohort) (length committedIDs)
                            else IErr_CommittedNotFailureSafe (length committedCohort))), c)
                   else
                     let ((rpcs, err), c) = AppointInitialLeader parse_lsn getDatabase w c shardKey committedCohort
                     in ((rpcs, map_option IErr_AppointInitialLeader err), c))"

definition ShardInit_Execute ::
  "lsn_parser \<Rightarrow> (string \<Rightarrow> string + DurabilityPolicyPb ptr) \<Rightarrow> world \<Rightarrow> 'b claim_codec \<Rightarrow> call_outcome \<Rightarrow> call_outcome \<Rightarrow>
     bool \<Rightarrow> go_time \<Rightarrow> orch_store \<Rightarrow> RecheckedProblem \<Rightarrow> Coordinator \<Rightarrow> 'b topo_files \<Rightarrow>
     (rpc list \<times> init_error option) \<times> Coordinator \<times> 'b topo_files" where
  "ShardInit_Execute parse_lsn getDatabase w codec created got allowUnsafeInitialCohort now st rechecked c t =
     (let shardKey = pb_ShardKey (rp_Problem rechecked)
      in case ShardInit_prepare getDatabase allowUnsafeInitialCohort now c st shardKey of
           (Inl result, c) \<Rightarrow> (([], result), c, t)
         | (Inr (initializedPoolers, durabilityPolicy), c) \<Rightarrow>
             let (t, claim) = ClaimShardInitialization codec created got shardKey (co_coordinatorID c)
                   (map (rider_id st) initializedPoolers) t;
                 (result, c) = ShardInit_commit parse_lsn getDatabase w allowUnsafeInitialCohort c st shardKey
                   initializedPoolers durabilityPolicy claim
             in (result, c, t))"


section \<open>Histories of claims\<close>

text \<open>
  Coordinators call \<open>ClaimShardInitialization\<close> at any time, for any shard and with any outcome of the
  topology calls; other calls may come between \<open>Create\<close> and \<open>Get\<close>. \<open>run_reading\<close> has the calls that found
  an existing claim, \<open>run_won\<close> the calls that returned \<open>won\<close>, each with the committed cohort.
\<close>

record claim_call =
  cl_shardKey :: "ShardKey ptr"
  cl_claimer :: "ID ptr"
  cl_cohort :: "ID ptr list"

record 'b claim_run =
  run_topo :: "'b topo_files"
  run_reading :: "claim_call list"
  run_won :: "(claim_call \<times> ID ptr list) list"

definition returned :: "claim_call \<Rightarrow> claim_result \<Rightarrow> (claim_call \<times> ID ptr list) list" where
  "returned call r = (case r of Inr (True, ids) \<Rightarrow> [(call, ids)] | _ \<Rightarrow> [])"

inductive claim_step :: "'b claim_codec \<Rightarrow> 'b claim_run \<Rightarrow> 'b claim_run \<Rightarrow> bool" for codec where
  create_returns: "claim_create codec outcome (cl_shardKey call) (cl_claimer call) (cl_cohort call) (run_topo s) = (t, Some r) \<Longrightarrow>
    None \<notin> set (cl_cohort call) \<Longrightarrow> claim_step codec s (s\<lparr>run_topo := t, run_won := returned call r @ run_won s\<rparr>)"
| create_exists: "claim_create codec outcome (cl_shardKey call) (cl_claimer call) (cl_cohort call) (run_topo s) = (t, None) \<Longrightarrow>
    claim_step codec s (s\<lparr>run_topo := t, run_reading := call # run_reading s\<rparr>)"
| read_returns: "call \<in> set (run_reading s) \<Longrightarrow>
    claim_step codec s (s\<lparr>run_won := returned call (claim_read codec outcome (cl_shardKey call) (cl_claimer call) (run_topo s)) @ run_won s\<rparr>)"

inductive claim_reaches :: "'b claim_codec \<Rightarrow> 'b claim_run \<Rightarrow> 'b claim_run \<Rightarrow> bool" for codec s0 where
  claim_start: "claim_reaches codec s0 s0"
| claim_next: "claim_reaches codec s0 s \<Longrightarrow> claim_step codec s s' \<Longrightarrow> claim_reaches codec s0 s'"

definition claim_start_of :: "'b topo_files \<Rightarrow> 'b claim_run" where
  "claim_start_of t = \<lparr>run_topo = t, run_reading = [], run_won = []\<rparr>"

text \<open>What a won call returned is the claim on file.\<close>

definition on_file :: "'b claim_codec \<Rightarrow> 'b topo_files \<Rightarrow> claim_call \<times> ID ptr list \<Rightarrow> bool" where
  "on_file codec t win \<longleftrightarrow> (\<exists>contents claim. t (shardInitClaimPath (cl_shardKey (fst win))) = Some contents \<and>
     cc_Unmarshal codec contents = Inr claim \<and> sic_cohort_members claim = snd win \<and>
     ClusterIDString (sic_claimer_id claim) = ClusterIDString (cl_claimer (fst win)))"

lemma topo_Create_mono: "t \<subseteq>\<^sub>m fst (topo_Create outcome path contents t)"
  by (auto simp: topo_Create_def map_le_def split: call_outcome.splits)

lemma topo_Create_None: "topo_Create outcome path contents t = (t', None) \<Longrightarrow> t' path = Some contents"
  by (auto simp: topo_Create_def split: call_outcome.splits if_splits)

lemma claim_create_mono: "claim_create codec outcome k i ids t = (t', r) \<Longrightarrow> t \<subseteq>\<^sub>m t'"
  using topo_Create_mono [of t outcome "shardInitClaimPath k"]
  by (auto simp: claim_create_def split: sum.splits prod.splits option.splits if_splits) (metis fst_conv)+

lemma on_file_mono: "on_file codec t win \<Longrightarrow> t \<subseteq>\<^sub>m t' \<Longrightarrow> on_file codec t' win"
  unfolding on_file_def map_le_def by (metis domI)

lemma create_returns_on_file:
  assumes "claim_codec_ok codec" "None \<notin> set (cl_cohort call)"
    and "claim_create codec outcome (cl_shardKey call) (cl_claimer call) (cl_cohort call) t = (t', Some r)"
    and "win \<in> set (returned call r)"
  shows "on_file codec t' win"
proof -
  let ?claim = "\<lparr>sic_claimer_id = cl_claimer call, sic_cohort_members = cl_cohort call\<rparr>"
  from assms(3,4) obtain contents where c: "cc_Marshal codec ?claim = Inr contents"
    "topo_Create outcome (shardInitClaimPath (cl_shardKey call)) contents t = (t', None)" "win = (call, cl_cohort call)"
    by (auto simp: claim_create_def returned_def split: sum.splits prod.splits option.splits if_splits bool.splits)
  then have "cc_Unmarshal codec contents = Inr ?claim" using assms(1,2) by (auto simp: claim_codec_ok_def)
  with topo_Create_None [OF c(2)] c(3) show ?thesis by (auto simp: on_file_def)
qed

lemma read_returns_on_file:
  "win \<in> set (returned call (claim_read codec outcome (cl_shardKey call) (cl_claimer call) t)) \<Longrightarrow> on_file codec t win"
  by (auto simp: claim_read_def topo_Get_def returned_def on_file_def
      split: sum.splits call_outcome.splits option.splits if_splits bool.splits)

lemma won_on_file:
  assumes "claim_reaches codec s0 s" "claim_codec_ok codec" "run_won s0 = []"
  shows "\<forall>win \<in> set (run_won s). on_file codec (run_topo s) win"
  using assms(1)
proof (induction rule: claim_reaches.induct)
  case claim_start
  then show ?case using assms(3) by simp
next
  case (claim_next s s')
  from claim_next.hyps(2) claim_next.IH show ?case
    by (induction rule: claim_step.induct)
      (auto intro: create_returns_on_file [OF assms(2)] read_returns_on_file on_file_mono claim_create_mono)
qed

text \<open>
  C17: whatever coordinators claim the initialisation of a shard, in any interleaving and with writes that
  fail or take effect without being acknowledged, all calls that win have the same claimer and are given
  the same committed cohort.
\<close>

theorem one_initial_cohort:
  assumes "claim_codec_ok codec" "claim_reaches codec (claim_start_of t) s"
    and "(call1, ids1) \<in> set (run_won s)" "(call2, ids2) \<in> set (run_won s)"
    and "cl_shardKey call1 = cl_shardKey call2"
  shows "ids1 = ids2 \<and> ClusterIDString (cl_claimer call1) = ClusterIDString (cl_claimer call2)"
proof -
  have "\<forall>win \<in> set (run_won s). on_file codec (run_topo s) win"
    by (rule won_on_file [OF assms(2,1)]) (simp add: claim_start_of_def)
  from bspec [OF this assms(3)] bspec [OF this assms(4)] assms(5) show ?thesis by (auto simp: on_file_def)
qed


section \<open>Which cohort is appointed\<close>

lemma collect_initialized_Some:
  assumes "collect_initialized st now acc ps = (found, False)"
  shows "found = acc @ filter (\<lambda>p. rider_id st p \<noteq> None \<and> fresh_initialized st now p) ps \<and>
    (\<forall>p \<in> set ps. rider_id st p \<noteq> None \<longrightarrow> \<not> in_cohort_already st p)"
  using assms
proof (induction ps arbitrary: acc)
  case (Cons p ps)
  then show ?case
    using Cons.IH [of acc] Cons.IH [of "acc @ [p]"] by (auto simp del: not_None_eq split: if_splits)
qed simp

lemma ShardInit_prepare_Inr:
  assumes "ShardInit_prepare getDatabase allow now c st shardKey = (Inr (poolers, policy), c')"
  obtains policyProto where "poolers = filter (\<lambda>p. rider_id st p \<noteq> None \<and> fresh_initialized st now p) (FindPoolersInShard st shardKey)"
    and "\<forall>p \<in> set (FindPoolersInShard st shardKey). rider_id st p \<noteq> None \<longrightarrow> \<not> in_cohort_already st p"
    and "GetBootstrapPolicy getDatabase c (GetDatabase shardKey) = (Inr policyProto, c')"
    and "NewPolicyFromProto policyProto = Inr policy"
proof -
  obtain found est where found: "collect_initialized st now [] (FindPoolersInShard st shardKey) = (found, est)" by fastforce
  with assms have "\<not> est" by (auto simp: ShardInit_prepare_def getInitializedPoolers_def)
  with found have c: "collect_initialized st now [] (FindPoolersInShard st shardKey) = (found, False)" by simp
  obtain p c1 where boot: "GetBootstrapPolicy getDatabase c (GetDatabase shardKey) = (p, c1)" by fastforce
  from assms c boot obtain policyProto where "p = Inr policyProto" "NewPolicyFromProto policyProto = Inr policy"
    "c1 = c'" "found = poolers"
    by (auto simp: ShardInit_prepare_def getInitializedPoolers_def Let_def split: if_splits sum.splits option.splits)
  with collect_initialized_Some [OF c] boot show thesis by (intro that [of policyProto]) auto
qed

lemma ShardInit_commit_sends:
  assumes "ShardInit_commit parse_lsn getDatabase w allow c st shardKey poolers policy claim = ((rpcs, err), c')" "rpcs \<noteq> []"
  obtains ids where "claim = Inr (True, ids)"
    and "rpcs = fst (fst (AppointInitialLeader parse_lsn getDatabase w c shardKey (buildCohortFromIDs st poolers ids)))"
    and "SatisfiedBy policy (poolerIDs (buildCohortFromIDs st poolers ids)) = None"
    and "allow \<or> CohortSurvivesAnyMemberLoss (Some policy) (poolerIDs (buildCohortFromIDs st poolers ids))"
  using assms
  by (auto simp: ShardInit_commit_def Let_def case_prod_beta split: sum.splits if_splits option.splits)

text \<open>
  C18: the bootstrap of a shard contacts poolers only if no pooler of the shard is known to be in a cohort,
  this coordinator has won the claim, and the cohort to be led consists of freshly observed initialised
  poolers of the claimed cohort that satisfy the bootstrap policy and survive the loss of any one of them,
  unless the configuration waives this.
\<close>

theorem initial_cohort_is_safe:
  assumes "ShardInit_Execute parse_lsn getDatabase w codec created got allow now st rechecked c t = ((rpcs, err), c', t')"
    and "rpcs \<noteq> []" and "shardKey = pb_ShardKey (rp_Problem rechecked)"
  shows "\<exists>policyProto policy c1 proposed ids cohort.
    (\<forall>p \<in> set (FindPoolersInShard st shardKey). rider_id st p \<noteq> None \<longrightarrow> \<not> in_cohort_already st p) \<and>
    GetBootstrapPolicy getDatabase c (GetDatabase shardKey) = (Inr policyProto, c1) \<and> NewPolicyFromProto policyProto = Inr policy \<and>
    ClaimShardInitialization codec created got shardKey (co_coordinatorID c1) proposed t = (t', Inr (True, ids)) \<and>
    None \<notin> set proposed \<and>
    (\<forall>h \<in> set cohort. \<exists>p \<in> set (FindPoolersInShard st shardKey). h = rider_health st p \<and> fresh_initialized st now p \<and>
       ClusterIDString (rider_id st p) \<in> ClusterIDString ` set ids) \<and>
    SatisfiedBy policy (poolerIDs cohort) = None \<and>
    (allow \<or> CohortSurvivesAnyMemberLoss (Some policy) (poolerIDs cohort)) \<and>
    rpcs = fst (fst (AppointInitialLeader parse_lsn getDatabase w c1 shardKey cohort))"
proof -
  obtain prep c1 where prep: "ShardInit_prepare getDatabase allow now c st shardKey = (prep, c1)" by fastforce
  with assms obtain poolers policy where p: "prep = Inr (poolers, policy)"
    by (cases prep) (auto simp: ShardInit_Execute_def Let_def)
  obtain t1 claim where claim: "ClaimShardInitialization codec created got shardKey (co_coordinatorID c1)
      (map (rider_id st) poolers) t = (t1, claim)" by fastforce
  with assms prep p have commit: "ShardInit_commit parse_lsn getDatabase w allow c1 st shardKey poolers policy claim = ((rpcs, err), c')"
    and "t1 = t'" by (auto simp: ShardInit_Execute_def Let_def split: prod.splits)
  obtain policyProto where pr: "poolers = filter (\<lambda>p. rider_id st p \<noteq> None \<and> fresh_initialized st now p) (FindPoolersInShard st shardKey)"
      "\<forall>p \<in> set (FindPoolersInShard st shardKey). rider_id st p \<noteq> None \<longrightarrow> \<not> in_cohort_already st p"
      "GetBootstrapPolicy getDatabase c (GetDatabase shardKey) = (Inr policyProto, c1)" "NewPolicyFromProto policyProto = Inr policy"
    using prep unfolding p by (rule ShardInit_prepare_Inr)
  obtain ids where ids: "claim = Inr (True, ids)"
      "rpcs = fst (fst (AppointInitialLeader parse_lsn getDatabase w c1 shardKey (buildCohortFromIDs st poolers ids)))"
      "SatisfiedBy policy (poolerIDs (buildCohortFromIDs st poolers ids)) = None"
      "allow \<or> CohortSurvivesAnyMemberLoss (Some policy) (poolerIDs (buildCohortFromIDs st poolers ids))"
    using commit assms(2) by (rule ShardInit_commit_sends)
  have members: "\<forall>h \<in> set (buildCohortFromIDs st poolers ids). \<exists>p \<in> set (FindPoolersInShard st shardKey).
      h = rider_health st p \<and> fresh_initialized st now p \<and> ClusterIDString (rider_id st p) \<in> ClusterIDString ` set ids"
    by (auto simp: buildCohortFromIDs_def pr(1))
  have "None \<notin> set (map (rider_id st) poolers)" by (auto simp: pr(1))
  with pr ids members claim \<open>t1 = t'\<close> show ?thesis
    by (intro exI [of _ policyProto] exI [of _ policy] exI [of _ c1] exI [of _ "map (rider_id st) poolers"] exI [of _ ids]
        exI [of _ "buildCohortFromIDs st poolers ids"] conjI) simp_all
qed

text \<open>A claim, won or lost, is made only with a cohort that satisfies the policy.\<close>

lemma ShardInit_established:
  assumes "p \<in> set (FindPoolersInShard st (pb_ShardKey (rp_Problem rechecked)))" "rider_id st p \<noteq> None" "in_cohort_already st p"
  shows "ShardInit_Execute parse_lsn getDatabase w codec created got allow now st rechecked c t = (([], None), c, t)"
proof -
  have "snd (collect_initialized st now acc ps)" if "p \<in> set ps" for acc ps
    using that assms(2,3) by (induction ps arbitrary: acc) auto
  with assms(1) have "snd (getInitializedPoolers st now (pb_ShardKey (rp_Problem rechecked)))"
    by (simp add: getInitializedPoolers_def)
  then show ?thesis by (auto simp: ShardInit_Execute_def ShardInit_prepare_def Let_def split: prod.splits)
qed

section \<open>Concrete instances\<close>

definition ex_claim_codec :: "ShardInitClaim claim_codec" where
  "ex_claim_codec = \<lparr>cc_Marshal = Inr, cc_Unmarshal = Inr\<rparr>"

lemma ex_claim_codec_ok: "claim_codec_ok ex_claim_codec"
  by (simp add: claim_codec_ok_def ex_claim_codec_def)

definition ex_boot_key :: "ShardKey ptr" where
  "ex_boot_key = Some \<lparr>sk_database = ''db'', sk_table_group = ''tg'', sk_shard = ''0''\<rparr>"

definition ex_boot_position :: "RulePosition ptr" where
  "ex_boot_position = Some \<lparr>pos_decision = Some \<lparr>sr_rule_number = ex_num 0 1, sr_leader_id = None, sr_cohort_members = [],
     sr_durability_policy = None, sr_coordinator_id = None, sr_creation_time = None\<rparr>, pos_proposal = None\<rparr>"

definition ex_boot_pooler :: "ID ptr \<Rightarrow> Multipooler" where
  "ex_boot_pooler i = (the (ex_mp i))\<lparr>mp_shard_key := ex_boot_key\<rparr>"

definition ex_boot_answer :: "ID ptr \<Rightarrow> status_answer" where
  "ex_boot_answer i = \<lparr>ans_response = Inr \<lparr>sr_status = Some \<lparr>st_primary_status = None, st_replication_status = None,
       st_is_initialized = True, st_postgres_running = True, st_postgres_status = POSTGRES_STATUS_STANDBY,
       st_postgres_ready = True, st_failover_slots_ready = 0\<rparr>,
       sr_availability_status = None, sr_consensus_status = ex_status i ex_boot_position (ex_lsn i) None\<rparr>,
     ans_requestedAt = AsTime (ex_time 994), ans_answeredAt = ex_time 995\<rparr>"

definition ex_boot_store :: orch_store where
  "ex_boot_store = or_store (orch_runs (topology_write ex_targets 1 (ex_boot_pooler ex_a) @
     topology_write ex_targets 2 (ex_boot_pooler ex_b) @ topology_write ex_targets 3 (ex_boot_pooler ex_c) @
     [StatusAnswer 0 (ex_boot_answer ex_a), StatusAnswer 1 (ex_boot_answer ex_b), StatusAnswer 2 (ex_boot_answer ex_c)]))"

definition ex_boot_problem :: RecheckedProblem where
  "ex_boot_problem = \<lparr>rp_Problem = \<lparr>pb_Code = ProblemShardNeedsInitialization, pb_CheckName = '''', pb_PoolerID = None,
     pb_ShardKey = ex_boot_key, pb_Priority = PriorityShardBootstrap, pb_Scope = ScopeShard, pb_RecoveryAction = ShardInitAction,
     pb_SkipPreRecheckRefresh = False\<rparr>, rp_HighestKnownRule = None\<rparr>"

definition ex_boot_world :: world where
  "ex_boot_world = ex_world\<lparr>w_Recruit := (\<lambda>mp rv.
     Inr (ex_status (Multipooler_GetId mp) ex_boot_position (ex_lsn (Multipooler_GetId mp)) rv))\<rparr>"

definition ex_boot ::
  "(rpc list \<times> init_error option) \<times> Coordinator \<times> ShardInitClaim topo_files" where
  "ex_boot = ShardInit_Execute ex_parse (\<lambda>_. Inr ex_policy) ex_boot_world ex_claim_codec Call_Done Call_Done False
     (AsTime (ex_time 1000)) ex_boot_store ex_boot_problem (NewCoordinator ex_orch) Map.empty"

theorem initial_cohort_is_safe_witness:
  "\<exists>policy c1 cohort. NewPolicyFromProto ex_policy = Inr policy \<and> SatisfiedBy policy (poolerIDs cohort) = None \<and>
     CohortSurvivesAnyMemberLoss (Some policy) (poolerIDs cohort) \<and>
     fst (fst ex_boot) = fst (fst (AppointInitialLeader ex_parse (\<lambda>_. Inr ex_policy) ex_boot_world c1 ex_boot_key cohort))"
proof -
  have "length (fst (fst ex_boot)) = 6" by code_simp
  then have rpcs: "fst (fst ex_boot) \<noteq> []" by auto
  have run: "ShardInit_Execute ex_parse (\<lambda>_. Inr ex_policy) ex_boot_world ex_claim_codec Call_Done Call_Done False
     (AsTime (ex_time 1000)) ex_boot_store ex_boot_problem (NewCoordinator ex_orch) Map.empty =
     ((fst (fst ex_boot), snd (fst ex_boot)), fst (snd ex_boot), snd (snd ex_boot))" by (simp add: ex_boot_def)
  have key: "ex_boot_key = pb_ShardKey (rp_Problem ex_boot_problem)" by (simp add: ex_boot_problem_def)
  obtain policyProto policy c1 cohort where r: "GetBootstrapPolicy (\<lambda>_. Inr ex_policy) (NewCoordinator ex_orch) (GetDatabase ex_boot_key) = (Inr policyProto, c1)"
    "NewPolicyFromProto policyProto = Inr policy" "SatisfiedBy policy (poolerIDs cohort) = None"
    "CohortSurvivesAnyMemberLoss (Some policy) (poolerIDs cohort)"
    "fst (fst ex_boot) = fst (fst (AppointInitialLeader ex_parse (\<lambda>_. Inr ex_policy) ex_boot_world c1 ex_boot_key cohort))"
    using initial_cohort_is_safe [OF run rpcs key] by blast
  have "policyProto = ex_policy" using r(1) by (auto simp: GetBootstrapPolicy_def NewCoordinator_def ex_policy_def)
  with r show ?thesis by blast
qed

text \<open>The claim of the first call takes effect without being acknowledged; the same coordinator then
  claims twice more, with other cohorts.\<close>

definition ex_claim :: "ID ptr list \<Rightarrow> claim_call" where
  "ex_claim ids = \<lparr>cl_shardKey = ex_boot_key, cl_claimer = ex_orch, cl_cohort = ids\<rparr>"

theorem one_initial_cohort_witness:
  "\<exists>s ids. claim_reaches ex_claim_codec (claim_start_of Map.empty) s \<and>
     run_won s = [(ex_claim [ex_c], ids), (ex_claim [ex_a, ex_b, ex_c], [ex_a, ex_b])] \<and> ids = [ex_a, ex_b]"
proof -
  let ?file = "[shardInitClaimPath ex_boot_key \<mapsto> \<lparr>sic_claimer_id = ex_orch, sic_cohort_members = [ex_a, ex_b]\<rparr>]"
  let ?run = "\<lambda>reading won. \<lparr>run_topo = ?file, run_reading = reading, run_won = won\<rparr> :: ShardInitClaim claim_run"
  let ?c2 = "ex_claim [ex_a, ex_b, ex_c]" and ?c3 = "ex_claim [ex_c]"
  have some: "ex_a \<noteq> None" "ex_b \<noteq> None" "ex_c \<noteq> None" by (simp_all add: ex_defs)
  note defs = claim_create_def claim_read_def topo_Create_def topo_Get_def ex_claim_codec_def ex_claim_def returned_def claim_start_of_def
  have s1: "claim_step ex_claim_codec (claim_start_of Map.empty) (?run [] [])"
    using create_returns [of ex_claim_codec "Call_Unacknowledged ''timeout''" "ex_claim [ex_a, ex_b]" "claim_start_of Map.empty"] some
    by (simp add: defs)
  have s2: "claim_step ex_claim_codec (?run [] []) (?run [?c2] [])"
    using create_exists [of ex_claim_codec Call_Done ?c2 "?run [] []"] by (simp add: defs)
  have s3: "claim_step ex_claim_codec (?run [?c2] []) (?run [?c2] [(?c2, [ex_a, ex_b])])"
    using read_returns [of ?c2 "?run [?c2] []" ex_claim_codec Call_Done] by (simp add: defs)
  have s4: "claim_step ex_claim_codec (?run [?c2] [(?c2, [ex_a, ex_b])]) (?run [?c3, ?c2] [(?c2, [ex_a, ex_b])])"
    using create_exists [of ex_claim_codec Call_Done ?c3 "?run [?c2] [(?c2, [ex_a, ex_b])]"] by (simp add: defs)
  have s5: "\<exists>ids. claim_step ex_claim_codec (?run [?c3, ?c2] [(?c2, [ex_a, ex_b])]) (?run [?c3, ?c2] [(?c3, ids), (?c2, [ex_a, ex_b])])"
    using read_returns [of ?c3 "?run [?c3, ?c2] [(?c2, [ex_a, ex_b])]" ex_claim_codec Call_Done] by (auto simp: defs)
  then obtain ids where s5: "claim_step ex_claim_codec (?run [?c3, ?c2] [(?c2, [ex_a, ex_b])]) (?run [?c3, ?c2] [(?c3, ids), (?c2, [ex_a, ex_b])])" ..
  have reach: "claim_reaches ex_claim_codec (claim_start_of Map.empty) (?run [?c3, ?c2] [(?c3, ids), (?c2, [ex_a, ex_b])])"
    by (intro claim_next [OF claim_next [OF claim_next [OF claim_next [OF claim_next [OF claim_start s1] s2] s3] s4] s5])
  from one_initial_cohort [OF ex_claim_codec_ok reach, of ?c3 ids ?c2 "[ex_a, ex_b]"] have "ids = [ex_a, ex_b]" by (simp add: ex_claim_def)
  with reach show ?thesis by (intro exI conjI) auto
qed

end
