(* ===== verification/Recovery_Actions.thy ===== *)
theory Recovery_Actions
  imports Shard_Init
begin

text \<open>
  The recovery actions of the orchestrator other than the bootstrap
  (go/services/multiorch/recovery/actions). An action reads the pooler store, which is taken as it is when
  the action is entered, and sends RPCs; their answers are the \<open>action_world\<close>. An action returns the calls
  it has made, in order, and its error. The riders of the store show a record (\<open>store_ok\<close>), so nil-safe
  getters hide no nil dereference.
\<close>

section \<open>Calls and answers\<close>

datatype RuleOperation =
    RULE_OPERATION_UNSPECIFIED
  | RULE_OPERATION_COHORT_ADD
  | RULE_OPERATION_COHORT_REMOVE
  | RULE_OPERATION_ADVANCE

record UpdateConsensusRuleRequest =
  ucr_operation :: RuleOperation
  ucr_standby_ids :: "ID ptr list"
  ucr_expected_outgoing_rule :: "RuleNumber ptr"

record UpdateConsensusRuleResponse =
  ucr_current_position :: "PoolerPosition ptr"

datatype (discs_sels) action_call =
    CoordinatorCall rpc
  | StatusCall "Multipooler ptr"
  | UpdateConsensusRuleCall "Multipooler ptr" UpdateConsensusRuleRequest
  | SetPrimaryCall "Multipooler ptr" "ReplicationPrimary ptr"
  | ReconcileFollowersCall "Multipooler ptr" "ID ptr list"

text \<open>The answer to the \<open>n\<close>-th \<open>Status\<close> call of an action, and whether its context is cancelled while it
  waits for the \<open>n\<close>-th tick.\<close>

record action_world =
  aw_now :: go_time
  aw_Status :: "nat \<Rightarrow> Multipooler ptr \<Rightarrow> string + StatusResponse"
  aw_UpdateConsensusRule :: "Multipooler ptr \<Rightarrow> UpdateConsensusRuleRequest \<Rightarrow> string + UpdateConsensusRuleResponse"
  aw_SetPrimary :: "Multipooler ptr \<Rightarrow> ReplicationPrimary ptr \<Rightarrow> string option"
  aw_ReconcileFollowers :: "Multipooler ptr \<Rightarrow> ID ptr list \<Rightarrow> string option"
  aw_cancelled :: "nat \<Rightarrow> bool"

datatype action_error =
    AcErr_NoPoolers "ShardKey ptr"
  | AcErr_AppointLeader coordinator_error
  | AcErr_UnsupportedCode ProblemCode
  | AcErr_NoRule "ShardKey ptr"
  | AcErr_Undecided "ShardKey ptr"
  | AcErr_FindPooler store_error
  | AcErr_FindLeader store_error
  | AcErr_WritesNotProgressing "ShardKey ptr"
  | AcErr_UpdateConsensusRule string
  | AcErr_SetPrimary string
  | AcErr_NotInStore string
  | AcErr_NoLeader "ShardKey ptr"
  | AcErr_StillRevoked "RulePosition ptr"
  | AcErr_Status string
  | AcErr_NoReplicationStatus
  | AcErr_NotStreaming string
  | AcErr_NoReceiveLsn
  | AcErr_Cancelled
  | AcErr_DidNotStart action_error
  | AcErr_Verify action_error
  | AcErr_VerifyFailed action_error

type_synonym action_outcome = "action_call list \<times> action_error option"

definition rider_mp :: "orch_store \<Rightarrow> pooler_ref ptr \<Rightarrow> Multipooler ptr" where
  "rider_mp st p = GetMultipooler (rider_health st p)"

text \<open>A \<open>SetPrimary\<close> request towards a leader; \<open>status\<close> is where its \<open>rewind_ready\<close> comes from.\<close>

definition primary_request :: "RulePosition ptr \<Rightarrow> Multipooler ptr \<Rightarrow> ConsensusStatus ptr \<Rightarrow> ReplicationPrimary ptr" where
  "primary_request position leader status = Some \<lparr>prim_position = position, prim_primary = PoolerAddressFor leader,
     prim_rewind_ready = GetRewindReady (ReplicationPrimaryOrNil status)\<rparr>"

section \<open>Leader appointment\<close>

primrec ProblemCode_string :: "ProblemCode \<Rightarrow> string" where
  "ProblemCode_string ProblemShardNeedsInitialization = ''ShardNeedsInitialization''"
| "ProblemCode_string ProblemLeaderUnspecified = ''LeaderUnspecified''"
| "ProblemCode_string ProblemLeaderUnreachableByCohort = ''LeaderUnreachableByCohort''"
| "ProblemCode_string ProblemLeaderUnhealthy = ''LeaderUnhealthy''"
| "ProblemCode_string ProblemLeaderResigned = ''LeaderResigned''"
| "ProblemCode_string ProblemLeaderQuorumWritesStalled = ''LeaderQuorumWritesStalled''"
| "ProblemCode_string ProblemReplicaNotReplicating = ''ReplicaNotReplicating''"
| "ProblemCode_string ProblemReplicaRecruitAbandoned = ''ReplicaRecruitAbandoned''"
| "ProblemCode_string ProblemReplicaWrongPrimary = ''ReplicaWrongPrimary''"
| "ProblemCode_string ProblemReplicaLagging = ''ReplicaLagging''"
| "ProblemCode_string ProblemReplicaMisconfigured = ''ReplicaMisconfigured''"
| "ProblemCode_string ProblemReplicaIsWritable = ''ReplicaIsWritable''"
| "ProblemCode_string ProblemStaleLeader = ''StaleLeader''"
| "ProblemCode_string ProblemPoolerNotInCohort = ''PoolerNotInCohort''"
| "ProblemCode_string ProblemCohortMemberIneligible = ''CohortMemberIneligible''"
| "ProblemCode_string ProblemShardAtRisk = ''ShardAtRisk''"
| "ProblemCode_string ProblemShardStuck = ''ShardStuck''"
| "ProblemCode_string ProblemNoHealthyCohortMembers = ''NoHealthyCohortMembers''"
| "ProblemCode_string ProblemLeaderHealthUnknown = ''LeaderHealthUnknown''"

definition AppointLeader_Execute ::
  "lsn_parser \<Rightarrow> world \<Rightarrow> Coordinator \<Rightarrow> orch_store \<Rightarrow> RecheckedProblem \<Rightarrow> action_outcome" where
  "AppointLeader_Execute parse_lsn cw c st rechecked =
     (let problem = rp_Problem rechecked;
          shard = FindShardMembers st (pb_ShardKey problem)
      in if sm_Poolers shard = [] then ([], Some (AcErr_NoPoolers (pb_ShardKey problem)))
         else
           let reason = ProblemCode_string (pb_Code problem);
               cohort = map (rider_health st) (sm_Poolers shard);
               (rpcs, err) = AppointLeader parse_lsn cw c (pb_ShardKey problem) cohort reason
           in (map CoordinatorCall rpcs, map_option AcErr_AppointLeader err))"

text \<open>The action of problems that need a human.\<close>

definition AlertOnly_Execute :: "RecheckedProblem \<Rightarrow> action_outcome" where
  "AlertOnly_Execute rechecked = ([], None)"

section \<open>Cohort changes\<close>

definition DefaultLeaderWriteFreshness :: duration where
  "DefaultLeaderWriteFreshness = 15 * 10 ^ 9"

definition cohort_operation :: "ProblemCode \<Rightarrow> RuleOperation option" where
  "cohort_operation code =
     (if code = ProblemPoolerNotInCohort then Some RULE_OPERATION_COHORT_ADD
      else if code = ProblemCohortMemberIneligible then Some RULE_OPERATION_COHORT_REMOVE
      else None)"

text \<open>The member to add has to be tracked; a member to remove may be gone.\<close>

definition cohort_target ::
  "orch_store \<Rightarrow> RuleOperation \<Rightarrow> ID ptr \<Rightarrow> store_error + ID ptr \<times> pooler_ref ptr" where
  "cohort_target st op pid =
     (if op = RULE_OPERATION_COHORT_ADD
      then (case FindPoolerByID st pid of
              Inl err \<Rightarrow> Inl err
            | Inr t \<Rightarrow> Inr (rider_id st t, t))
      else Inr (pid, None))"

definition clearJoiningMemberArchive ::
  "action_world \<Rightarrow> orch_store \<Rightarrow> pooler_ref ptr \<Rightarrow> pooler_ref ptr \<Rightarrow> action_call list" where
  "clearJoiningMemberArchive w st leader target =
     (case aw_Status w 0 (rider_mp st leader) of
        Inl err \<Rightarrow> [StatusCall (rider_mp st leader)]
      | Inr statusResp \<Rightarrow>
          (let postAddRule = HighestKnownRule [sr_consensus_status statusResp]
           in if postAddRule = None then [StatusCall (rider_mp st leader)]
              else [StatusCall (rider_mp st leader),
                    SetPrimaryCall (rider_mp st target)
                      (primary_request postAddRule (rider_mp st leader) (sr_consensus_status statusResp))]))"

definition ReconcileCohort_Execute :: "action_world \<Rightarrow> orch_store \<Rightarrow> RecheckedProblem \<Rightarrow> action_outcome" where
  "ReconcileCohort_Execute w st rechecked =
     (let problem = rp_Problem rechecked; rule = rp_HighestKnownRule rechecked
      in case cohort_operation (pb_Code problem) of
           None \<Rightarrow> ([], Some (AcErr_UnsupportedCode (pb_Code problem)))
         | Some op \<Rightarrow>
             if rule = None then ([], Some (AcErr_NoRule (pb_ShardKey problem)))
             else if \<not> IsRuleDecided rule then ([], Some (AcErr_Undecided (pb_ShardKey problem)))
             else
               let decidedRule = GetDecision rule
               in case cohort_target st op (pb_PoolerID problem) of
                    Inl err \<Rightarrow> ([], Some (AcErr_FindPooler err))
                  | Inr (targetID, target) \<Rightarrow>
                      (case FindPoolerByID st (GetLeaderId decidedRule) of
                         Inl err \<Rightarrow> ([], Some (AcErr_FindLeader err))
                       | Inr leader \<Rightarrow>
                           if \<not> LeaderWritesProgressing (rider_health st leader) rule (aw_now w) DefaultLeaderWriteFreshness
                           then ([], Some (AcErr_WritesNotProgressing (pb_ShardKey problem)))
                           else
                             let req = \<lparr>ucr_operation = op, ucr_standby_ids = [targetID],
                                   ucr_expected_outgoing_rule = GetRuleNumber (GetDecision rule)\<rparr>;
                                 call = UpdateConsensusRuleCall (rider_mp st leader) req
                             in case aw_UpdateConsensusRule w (rider_mp st leader) req of
                                  Inl err \<Rightarrow> ([call], Some (AcErr_UpdateConsensusRule err))
                                | Inr _ \<Rightarrow>
                                    (call # (if op = RULE_OPERATION_COHORT_ADD \<and> target \<noteq> None
                                             then clearJoiningMemberArchive w st leader target else []), None)))"

section \<open>Stale leaders\<close>

definition DemoteStaleLeader_Execute :: "action_world \<Rightarrow> orch_store \<Rightarrow> RecheckedProblem \<Rightarrow> action_outcome" where
  "DemoteStaleLeader_Execute w st rechecked =
     (let problem = rp_Problem rechecked;
          poolerIDStr = ComponentIDString (pb_PoolerID problem)
      in case GetRider (os_cache st) poolerIDStr of
           None \<Rightarrow> ([], Some (AcErr_NotInStore poolerIDStr))
         | Some staleLeader \<Rightarrow>
             let members = FindShardMembers st (pb_ShardKey problem);
                 correctLeader = sm_Leader members;
                 correctPosition = sm_HighestKnownPosition members
             in if correctLeader = None \<or> correctPosition = None
                then ([], Some (AcErr_NoLeader (pb_ShardKey problem)))
                else if rider_id st correctLeader = pb_PoolerID problem then ([], None)
                else
                  let req = primary_request correctPosition (rider_mp st correctLeader)
                        (GetConsensusStatus (rider_health st correctLeader))
                  in ([SetPrimaryCall (rider_mp st staleLeader) req],
                      map_option AcErr_SetPrimary (aw_SetPrimary w (rider_mp st staleLeader) req)))"

section \<open>Replication repair\<close>

definition DefaultVerifyMaxAttempts :: int where "DefaultVerifyMaxAttempts = 10"
definition DefaultVerifyPollInterval :: duration where "DefaultVerifyPollInterval = 500 * 10 ^ 6"

text \<open>The number of polls; the argument is the configured timeout, \<open>None\<close> without a configuration.\<close>

definition NewFixReplicationAction :: "duration option \<Rightarrow> int" where
  "NewFixReplicationAction cfg =
     (case cfg of
        None \<Rightarrow> DefaultVerifyMaxAttempts
      | Some timeout \<Rightarrow>
          if timeout > 0 then max (timeout div DefaultVerifyPollInterval) 1 else DefaultVerifyMaxAttempts)"

definition getReplicationStatus ::
  "action_world \<Rightarrow> orch_store \<Rightarrow> pooler_ref ptr \<Rightarrow> action_error + StandbyReplicationStatus ptr" where
  "getReplicationStatus w st replica =
     (case aw_Status w 0 (rider_mp st replica) of
        Inl err \<Rightarrow> Inl (AcErr_Status err)
      | Inr statusResp \<Rightarrow> Inr (if sr_status statusResp = None then None else GetReplicationStatus (sr_status statusResp)))"

text \<open>Whether a standby with this status still has to be repaired.\<close>

definition replication_broken :: "StandbyReplicationStatus \<Rightarrow> string \<Rightarrow> int \<Rightarrow> bool" where
  "replication_broken status expectedHost expectedPort =
     (if srs_primary_conn_info status = None \<or> ConnInfo_GetHost (srs_primary_conn_info status) = '''' then True
      else if ConnInfo_GetHost (srs_primary_conn_info status) \<noteq> expectedHost \<or>
              ConnInfo_GetPort (srs_primary_conn_info status) \<noteq> expectedPort then True
      else if srs_is_wal_replay_paused status then True
      else if srs_wal_receiver_status status \<noteq> ''streaming'' \<and> srs_wal_receiver_status status \<noteq> ''waiting'' then True
      else if srs_wal_receiver_status status = ''streaming'' \<and> srs_last_receive_lsn status = '''' then True
      else False)"

definition verifyReplicaNotReplicating ::
  "action_world \<Rightarrow> orch_store \<Rightarrow> pooler_ref ptr \<Rightarrow> pooler_ref ptr \<Rightarrow> action_error + bool" where
  "verifyReplicaNotReplicating w st replica primary =
     (case getReplicationStatus w st replica of
        Inl err \<Rightarrow> Inl err
      | Inr None \<Rightarrow> Inl AcErr_NoReplicationStatus
      | Inr (Some status) \<Rightarrow>
          Inr (replication_broken status (GetHostname (rider_mp st primary))
                 (case map_of (GetPortMap (rider_mp st primary)) ''postgres'' of None \<Rightarrow> 0 | Some port \<Rightarrow> port)))"

definition verifyProblemExists ::
  "action_world \<Rightarrow> orch_store \<Rightarrow> pooler_ref ptr \<Rightarrow> pooler_ref ptr \<Rightarrow> ProblemCode \<Rightarrow>
     action_call list \<times> (action_error + bool)" where
  "verifyProblemExists w st replica primary code =
     (if code = ProblemReplicaNotReplicating
      then ([StatusCall (rider_mp st replica)], verifyReplicaNotReplicating w st replica primary)
      else ([], Inl (AcErr_UnsupportedCode code)))"

text \<open>What one poll finds wrong; \<open>None\<close> when replication streams.\<close>

definition poll_error :: "string + StatusResponse \<Rightarrow> action_error option" where
  "poll_error answer =
     (case answer of
        Inl err \<Rightarrow> Some (AcErr_Status err)
      | Inr statusResp \<Rightarrow>
          (case (if sr_status statusResp = None then None else GetReplicationStatus (sr_status statusResp)) of
             None \<Rightarrow> Some AcErr_NoReplicationStatus
           | Some status \<Rightarrow>
               if srs_wal_receiver_status status \<noteq> ''streaming''
               then Some (AcErr_NotStreaming (srs_wal_receiver_status status))
               else if srs_last_receive_lsn status = '''' then Some AcErr_NoReceiveLsn
               else None))"

text \<open>The loop from the given attempt on, with the attempts that remain. A loop without attempts returns
  no error: \<open>mterrors.Wrap\<close> of nil is nil.\<close>

primrec poll_loop ::
  "action_world \<Rightarrow> Multipooler ptr \<Rightarrow> nat \<Rightarrow> nat \<Rightarrow> action_error option \<Rightarrow> action_outcome" where
  "poll_loop w replica 0 attempt lastErr = ([], map_option AcErr_DidNotStart lastErr)"
| "poll_loop w replica (Suc remaining) attempt lastErr =
     (if aw_cancelled w attempt then ([], Some AcErr_Cancelled)
      else case poll_error (aw_Status w attempt replica) of
             None \<Rightarrow> ([StatusCall replica], None)
           | Some err \<Rightarrow>
               (let (calls, result) = poll_loop w replica remaining (attempt + 1) (Some err)
                in (StatusCall replica # calls, result)))"

definition verifyReplicationStarted :: "int \<Rightarrow> action_world \<Rightarrow> orch_store \<Rightarrow> pooler_ref ptr \<Rightarrow> action_outcome" where
  "verifyReplicationStarted verifyMaxAttempts w st replica =
     poll_loop w (rider_mp st replica) (nat verifyMaxAttempts) 1 None"

definition fixNotReplicating ::
  "int \<Rightarrow> action_world \<Rightarrow> orch_store \<Rightarrow> pooler_ref ptr \<Rightarrow> pooler_ref ptr \<Rightarrow> ShardMembers \<Rightarrow> action_outcome" where
  "fixNotReplicating verifyMaxAttempts w st replica leader members =
     (let slots = ReconcileFollowersCall (rider_mp st leader) (CohortEligibleFollowerIDs st members);
          req = primary_request (sm_HighestKnownPosition members) (rider_mp st leader)
                  (GetConsensusStatus (rider_health st leader));
          call = SetPrimaryCall (rider_mp st replica) req
      in case aw_SetPrimary w (rider_mp st replica) req of
           Some err \<Rightarrow> ([slots, call], Some (AcErr_SetPrimary err))
         | None \<Rightarrow>
             let (calls, result) = verifyReplicationStarted verifyMaxAttempts w st replica
             in (slots # call # calls, map_option AcErr_VerifyFailed result))"

definition FixReplication_Execute :: "int \<Rightarrow> action_world \<Rightarrow> orch_store \<Rightarrow> RecheckedProblem \<Rightarrow> action_outcome" where
  "FixReplication_Execute verifyMaxAttempts w st rechecked =
     (let problem = rp_Problem rechecked
      in case FindPoolerByID st (pb_PoolerID problem) of
           Inl err \<Rightarrow> ([], Some (AcErr_FindPooler err))
         | Inr replica \<Rightarrow>
             let members = FindShardMembers st (pb_ShardKey problem);
                 leader = sm_Leader members
             in if leader = None then ([], Some (AcErr_NoLeader (pb_ShardKey problem)))
                else case verifyProblemExists w st replica leader (pb_Code problem) of
                  (asked, Inl err) \<Rightarrow> (asked, Some (AcErr_Verify err))
                | (asked, Inr needsFix) \<Rightarrow>
                    if \<not> needsFix then (asked, None)
                    else if pb_Code problem = ProblemReplicaNotReplicating
                    then (let (calls, result) = fixNotReplicating verifyMaxAttempts w st replica leader members
                          in (asked @ calls, result))
                    else (asked, Some (AcErr_UnsupportedCode (pb_Code problem))))"

section \<open>Followers stranded by an abandoned recruit\<close>

definition ReconnectRecruitAbandoned_Execute :: "action_world \<Rightarrow> orch_store \<Rightarrow> RecheckedProblem \<Rightarrow> action_outcome" where
  "ReconnectRecruitAbandoned_Execute w st rechecked =
     (let problem = rp_Problem rechecked
      in case FindPoolerByID st (pb_PoolerID problem) of
           Inl err \<Rightarrow> ([], Some (AcErr_FindPooler err))
         | Inr follower \<Rightarrow>
             let members = FindShardMembers st (pb_ShardKey problem);
                 leader = sm_Leader members; known = sm_HighestKnownPosition members;
                 revocation = GetTermRevocation (GetConsensusStatus (rider_health st follower));
                 reconnect = (\<lambda>advanced.
                   let req = primary_request advanced (rider_mp st leader) (GetConsensusStatus (rider_health st leader))
                   in ([SetPrimaryCall (rider_mp st follower) req],
                       map_option AcErr_SetPrimary (aw_SetPrimary w (rider_mp st follower) req)))
             in if leader = None \<or> known = None then ([], Some (AcErr_NoLeader (pb_ShardKey problem)))
                else if \<not> IsRuleRevoked known revocation then reconnect known
                else if \<not> IsRuleDecided known then ([], Some (AcErr_Undecided (pb_ShardKey problem)))
                else
                  let req = \<lparr>ucr_operation = RULE_OPERATION_ADVANCE, ucr_standby_ids = [],
                        ucr_expected_outgoing_rule = GetRuleNumber (GetDecision known)\<rparr>;
                      call = UpdateConsensusRuleCall (rider_mp st leader) req
                  in case aw_UpdateConsensusRule w (rider_mp st leader) req of
                       Inl err \<Rightarrow> ([call], Some (AcErr_UpdateConsensusRule err))
                     | Inr resp \<Rightarrow>
                         let advanced = PoolerPosition_GetPosition (ucr_current_position resp)
                         in if IsRuleRevoked advanced revocation then ([call], Some (AcErr_StillRevoked advanced))
                            else let (calls, result) = reconnect advanced in (call # calls, result))"


section \<open>What the actions guarantee\<close>

lemma PoolerAddressFor_id [simp]: "PoolerAddress_GetId (PoolerAddressFor mp) = Multipooler_GetId mp"
  by (cases mp) (simp_all add: PoolerAddressFor_def)

lemma primary_request_simps [simp]:
  "ReplicationPrimary_GetPosition (primary_request pos mp status) = pos"
  "GetPrimary (primary_request pos mp status) = PoolerAddressFor mp"
  by (simp_all add: primary_request_def)

lemma rider_mp_id: "Multipooler_GetId (rider_mp st p) = rider_id st p"
  by (simp add: rider_mp_def rider_id_def)

lemma FindShardMembers_leader:
  assumes "sm_Leader (FindShardMembers st shardKey) \<noteq> None"
  shows "rider_id st (sm_Leader (FindShardMembers st shardKey)) =
    GetLeaderId (PossiblyUndecidedRule (sm_HighestKnownPosition (FindShardMembers st shardKey)))"
  using assms
  by (auto simp: FindShardMembers_def Let_def rider_id_def simp del: not_None_eq split: if_splits option.splits dest: find_SomeD)

lemma FindShardMembers_position:
  "sm_HighestKnownPosition (FindShardMembers st shardKey) =
     HighestKnownRule (filter (\<lambda>cs. cs \<noteq> None) (map (\<lambda>p. GetConsensusStatus (rider_health st p)) (FindPoolersInShard st shardKey)))"
  by (simp add: FindShardMembers_def Let_def)

subsection \<open>Repairs point to the leader\<close>

lemma Demote_SetPrimary:
  assumes "call \<in> set (fst (DemoteStaleLeader_Execute w st rechecked))"
  defines "members \<equiv> FindShardMembers st (pb_ShardKey (rp_Problem rechecked))"
  obtains stale where "GetRider (os_cache st) (ComponentIDString (pb_PoolerID (rp_Problem rechecked))) = Some stale"
    and "sm_Leader members \<noteq> None" "sm_HighestKnownPosition members \<noteq> None"
    and "rider_id st (sm_Leader members) \<noteq> pb_PoolerID (rp_Problem rechecked)"
    and "call = SetPrimaryCall (rider_mp st stale) (primary_request (sm_HighestKnownPosition members)
           (rider_mp st (sm_Leader members)) (GetConsensusStatus (rider_health st (sm_Leader members))))"
  using assms by (auto simp: DemoteStaleLeader_Execute_def Let_def simp del: not_None_eq split: option.splits if_splits)

lemma poll_loop_calls: "call \<in> set (fst (poll_loop w mp n k lastErr)) \<Longrightarrow> call = StatusCall mp"
  by (induction n arbitrary: k lastErr) (auto simp: case_prod_beta split: if_splits option.splits)

lemma fixNotReplicating_SetPrimary:
  assumes "SetPrimaryCall m req \<in> set (fst (fixNotReplicating n w st replica leader members))"
  shows "m = rider_mp st replica \<and> req = primary_request (sm_HighestKnownPosition members) (rider_mp st leader)
    (GetConsensusStatus (rider_health st leader))"
proof -
  have "SetPrimaryCall m req \<notin> set (fst (verifyReplicationStarted n w st replica))"
    using poll_loop_calls by (fastforce simp: verifyReplicationStarted_def)
  then show ?thesis
    using assms by (auto simp: fixNotReplicating_def Let_def split: option.splits prod.splits)
qed

lemma Fix_SetPrimary:
  assumes "SetPrimaryCall m req \<in> set (fst (FixReplication_Execute n w st rechecked))"
  defines "members \<equiv> FindShardMembers st (pb_ShardKey (rp_Problem rechecked))"
  obtains replica where "FindPoolerByID st (pb_PoolerID (rp_Problem rechecked)) = Inr replica"
    and "sm_Leader members \<noteq> None" "m = rider_mp st replica"
    and "req = primary_request (sm_HighestKnownPosition members) (rider_mp st (sm_Leader members))
           (GetConsensusStatus (rider_health st (sm_Leader members)))"
    and "verifyReplicaNotReplicating w st replica (sm_Leader members) = Inr True"
proof -
  from assms(1) obtain replica where r: "FindPoolerByID st (pb_PoolerID (rp_Problem rechecked)) = Inr replica"
    "sm_Leader members \<noteq> None" "pb_Code (rp_Problem rechecked) = ProblemReplicaNotReplicating"
    "verifyReplicaNotReplicating w st replica (sm_Leader members) = Inr True"
    "SetPrimaryCall m req \<in> set (fst (fixNotReplicating n w st replica (sm_Leader members) members))"
    by (auto simp: FixReplication_Execute_def verifyProblemExists_def Let_def members_def simp del: not_None_eq
        split: sum.splits if_splits prod.splits)
  from fixNotReplicating_SetPrimary [OF r(5)] r show thesis by (intro that) auto
qed


text \<open>
  C26: demoting a stale leader and repairing replication send \<open>SetPrimary\<close> only to the pooler of the
  problem, with the highest rule position that any pooler of the shard is known to have, and towards
  the leader that this position names; a pooler that this position names as leader is never demoted.
\<close>

theorem repairs_follow_highest_rule:
  assumes "\<forall>p \<in> set (FindPoolersInShard st shardKey). status_rules_ok (GetConsensusStatus (rider_health st p))"
    and "shardKey = pb_ShardKey (rp_Problem rechecked)" "pid = pb_PoolerID (rp_Problem rechecked)"
    and "SetPrimaryCall m req \<in> set (fst (DemoteStaleLeader_Execute w st rechecked)) \<union>
           set (fst (FixReplication_Execute n w st rechecked))"
  shows "GetRider (os_cache st) (ComponentIDString pid) \<noteq> None \<and>
    m = rider_mp st (the (GetRider (os_cache st) (ComponentIDString pid))) \<and>
    PoolerAddress_GetId (GetPrimary req) = GetLeaderId (PossiblyUndecidedRule (ReplicationPrimary_GetPosition req)) \<and>
    (\<forall>p \<in> set (FindPoolersInShard st shardKey). \<forall>cs. GetConsensusStatus (rider_health st p) = Some cs \<longrightarrow>
       (\<forall>known \<in> set (known_positions (Some cs)). 0 \<le> CompareRulePosition (ReplicationPrimary_GetPosition req) known)) \<and>
    (SetPrimaryCall m req \<in> set (fst (DemoteStaleLeader_Execute w st rechecked)) \<longrightarrow>
       GetLeaderId (PossiblyUndecidedRule (ReplicationPrimary_GetPosition req)) \<noteq> pid)"
proof -
  let ?members = "FindShardMembers st shardKey"
  have rider: "GetRider (os_cache st) (ComponentIDString pid) = Some r" if "FindPoolerByID st pid = Inr r" for r
    using that by (auto simp: FindPoolerByID_def GetRider_def Get_def entrySnapshot_def split: option.splits)
  obtain r where r: "GetRider (os_cache st) (ComponentIDString pid) = Some r" "m = rider_mp st r"
    "req = primary_request (sm_HighestKnownPosition ?members) (rider_mp st (sm_Leader ?members))
       (GetConsensusStatus (rider_health st (sm_Leader ?members)))" "sm_Leader ?members \<noteq> None"
  proof (cases "SetPrimaryCall m req \<in> set (fst (DemoteStaleLeader_Execute w st rechecked))")
    case True
    then show ?thesis by (rule Demote_SetPrimary) (rule that, auto simp: assms(2,3))
  next
    case False
    with assms(4) have "SetPrimaryCall m req \<in> set (fst (FixReplication_Execute n w st rechecked))" by simp
    then show ?thesis by (rule Fix_SetPrimary) (rule that [OF rider], auto simp: assms(2,3))
  qed
  have demoted: "rider_id st (sm_Leader ?members) \<noteq> pid"
    if "SetPrimaryCall m req \<in> set (fst (DemoteStaleLeader_Execute w st rechecked))"
    using that by (rule Demote_SetPrimary) (simp add: assms(2,3))
  let ?statuses = "filter (\<lambda>cs. cs \<noteq> None) (map (\<lambda>p. GetConsensusStatus (rider_health st p)) (FindPoolersInShard st shardKey))"
  have ok: "\<forall>cs \<in> set ?statuses. status_rules_ok cs" using assms(1) by auto
  have "0 \<le> CompareRulePosition (HighestKnownRule ?statuses) known"
    if "p \<in> set (FindPoolersInShard st shardKey)" "GetConsensusStatus (rider_health st p) = Some cs" "known \<in> set (known_positions (Some cs))"
    for p cs known
  proof -
    have "Some cs \<in> set ?statuses" using that(1,2) by force
    with HighestKnownRule_greatest [OF ok] that(3) show ?thesis by blast
  qed
  then show ?thesis
    using r demoted FindShardMembers_leader [OF r(4)] by (simp add: FindShardMembers_position rider_mp_id del: not_None_eq)
qed


subsection \<open>Cohort changes\<close>

lemma decided_rule: "IsRuleDecided pos \<Longrightarrow> PossiblyUndecidedRule pos = GetDecision pos"
  by (simp add: IsRuleDecided_def PossiblyUndecidedRule_def)

lemma clearJoiningMemberArchive_calls:
  "UpdateConsensusRuleCall m req \<notin> set (clearJoiningMemberArchive w st leader target)"
  by (auto simp: clearJoiningMemberArchive_def Let_def split: sum.splits)

lemma ReconcileCohort_update:
  assumes "UpdateConsensusRuleCall m req \<in> set (fst (ReconcileCohort_Execute w st rechecked))"
  defines "rule \<equiv> rp_HighestKnownRule rechecked" and "problem \<equiv> rp_Problem rechecked"
  obtains leader targetID target where "rule \<noteq> None" "IsRuleDecided rule"
    and "cohort_operation (pb_Code problem) = Some (ucr_operation req)"
    and "cohort_target st (ucr_operation req) (pb_PoolerID problem) = Inr (targetID, target)"
    and "ucr_standby_ids req = [targetID]" "ucr_expected_outgoing_rule req = GetRuleNumber (GetDecision rule)"
    and "FindPoolerByID st (GetLeaderId (GetDecision rule)) = Inr leader" "m = rider_mp st leader"
    and "LeaderWritesProgressing (rider_health st leader) rule (aw_now w) DefaultLeaderWriteFreshness"
    and "ReconcileCohort_Execute w st rechecked = (case aw_UpdateConsensusRule w m req of
           Inl err \<Rightarrow> ([UpdateConsensusRuleCall m req], Some (AcErr_UpdateConsensusRule err))
         | Inr _ \<Rightarrow> (UpdateConsensusRuleCall m req #
             (if ucr_operation req = RULE_OPERATION_COHORT_ADD \<and> target \<noteq> None then clearJoiningMemberArchive w st leader target else []), None))"
proof -
  from assms(1) obtain op targetID target leader where r: "cohort_operation (pb_Code problem) = Some op" "rule \<noteq> None" "IsRuleDecided rule"
    "cohort_target st op (pb_PoolerID problem) = Inr (targetID, target)"
    "FindPoolerByID st (GetLeaderId (GetDecision rule)) = Inr leader"
    "LeaderWritesProgressing (rider_health st leader) rule (aw_now w) DefaultLeaderWriteFreshness"
    by (auto simp: ReconcileCohort_Execute_def Let_def rule_def problem_def simp del: not_None_eq
        split: option.splits if_splits sum.splits)
  let ?req = "\<lparr>ucr_operation = op, ucr_standby_ids = [targetID], ucr_expected_outgoing_rule = GetRuleNumber (GetDecision rule)\<rparr>"
  have run: "ReconcileCohort_Execute w st rechecked = (case aw_UpdateConsensusRule w (rider_mp st leader) ?req of
      Inl err \<Rightarrow> ([UpdateConsensusRuleCall (rider_mp st leader) ?req], Some (AcErr_UpdateConsensusRule err))
    | Inr _ \<Rightarrow> (UpdateConsensusRuleCall (rider_mp st leader) ?req #
        (if op = RULE_OPERATION_COHORT_ADD \<and> target \<noteq> None then clearJoiningMemberArchive w st leader target else []), None))"
    using r by (simp add: ReconcileCohort_Execute_def Let_def del: not_None_eq flip: rule_def problem_def)
  from assms(1) have "m = rider_mp st leader \<and> req = ?req"
    unfolding run by (auto simp: clearJoiningMemberArchive_calls split: sum.splits if_splits)
  with r run show thesis by (intro that [of targetID target leader]) auto
qed

text \<open>A rider found in a consistent store carries the identifier it was looked up by.\<close>

lemma FindPoolerByID_key:
  assumes "store_ok st" "FindPoolerByID st i = Inr r"
  shows "ComponentIDString (rider_id st r) = ComponentIDString i"
proof -
  obtain e where e: "Get (os_cache st) (ComponentIDString i) = Some e" "r = en_Rider e"
    using assms(2) by (auto simp: FindPoolerByID_def split: option.splits)
  from store_okD(2) [OF assms(1) e(1)] show ?thesis using e(2) by (auto simp: rider_id_def rider_health_def)
qed

text \<open>
  C25: a cohort change that the engine executes, with the store as some interleaving of its events leaves
  it (\<open>store_ok\<close>), was detected again on a second snapshot with a serving leader. It is sent once, to
  the leader that the decided rule of this snapshot names, whose writes are seen to progress, and only
  on the condition that this rule is still in force. It adds one pooler that is a candidate outside the
  cohort, or removes one member of that cohort, either leaving a cohort that survives the loss of its
  leader or being recorded as shut down.
\<close>

theorem executed_cohort_change_is_safe:
  assumes "attemptRecovery re (DefaultAnalyzers order wall factory) refresh cache opts gate problem =
      Executes ReconcileCohortAction rechecked"
    and "pb_CheckName problem = ''CohortMismatch''" "\<And>m. set (order m) = set m" "store_ok st"
    and "UpdateConsensusRuleCall m req \<in> set (fst (ReconcileCohort_Execute w st rechecked))"
  shows "\<exists>used snap i leader. (used = cache \<or> used = refresh cache) \<and>
    SnapshotShard used (pb_ShardKey problem) opts = Inr snap \<and> intendedLeaderServing snap \<and>
    IsRuleDecided (HighestIntendedRule snap) \<and>
    FindPoolerByID st (GetLeaderId (GetDecision (HighestIntendedRule snap))) = Inr leader \<and> m = rider_mp st leader \<and>
    LeaderWritesProgressing (rider_health st leader) (HighestIntendedRule snap) (aw_now w) DefaultLeaderWriteFreshness \<and>
    ucr_expected_outgoing_rule req = GetRuleNumber (GetDecision (HighestIntendedRule snap)) \<and> ucr_standby_ids req = [i] \<and>
    filter is_UpdateConsensusRuleCall (fst (ReconcileCohort_Execute w st rechecked)) =
      [UpdateConsensusRuleCall m req] \<and>
    (ucr_operation req = RULE_OPERATION_COHORT_ADD \<and>
       (\<exists>pa \<in> set (sa_Poolers snap). ComponentIDString i = ComponentIDString (poolerID pa) \<and> isAdditionCandidate snap pa \<and>
          ComponentIDString i \<notin> ComponentIDString ` set (GetCohortMembers (GetDecision (HighestIntendedRule snap)))) \<or>
     ucr_operation req = RULE_OPERATION_COHORT_REMOVE \<and>
       ComponentIDString i \<in> ComponentIDString ` set (GetCohortMembers (GetDecision (HighestIntendedRule snap))) \<and>
       (IsCohortMemberRemovalSafe (GetDecision (HighestIntendedRule snap)) i \<or>
        ComponentIDString i \<in> sa_TombstoneIDs snap - reported_keys snap))"
proof -
  define used where "used = recheck_view refresh cache problem"
  have used: "used = cache \<or> used = refresh cache" by (simp add: used_def recheck_view_def)
  obtain snap name analyze ps where snap: "SnapshotShard used (pb_ShardKey problem) opts = Inr snap" "(name, analyze) \<in> set (DefaultAnalyzers order wall factory)"
    "analyze snap = Inr (ps, None)" "rp_Problem rechecked \<in> set ps" "name = pb_CheckName problem"
    "rp_HighestKnownRule rechecked = HighestIntendedRule snap"
    using assms(1) unfolding used_def by (rule attemptRecovery_Executes)
  note run = used snap
  let ?rule = "HighestIntendedRule snap"
  have "CohortMismatch_Analyze order factory snap = Inr ps"
    using run(3-6) assms(2) by (auto simp: DefaultAnalyzers_def dest: outcome_of_problem)
  from cohort_changes_safe [OF this assms(3)] run(5) have serving: "intendedLeaderServing snap"
    and safe: "safe_cohort_change snap (PossiblyUndecidedRule ?rule) (rp_Problem rechecked)" by auto
  obtain leader i target where r: "IsRuleDecided ?rule" "cohort_operation (pb_Code (rp_Problem rechecked)) = Some (ucr_operation req)"
    "cohort_target st (ucr_operation req) (pb_PoolerID (rp_Problem rechecked)) = Inr (i, target)"
    "ucr_standby_ids req = [i]" "ucr_expected_outgoing_rule req = GetRuleNumber (GetDecision ?rule)"
    "FindPoolerByID st (GetLeaderId (GetDecision ?rule)) = Inr leader" "m = rider_mp st leader"
    "LeaderWritesProgressing (rider_health st leader) ?rule (aw_now w) DefaultLeaderWriteFreshness"
    and exec: "ReconcileCohort_Execute w st rechecked = (case aw_UpdateConsensusRule w m req of
           Inl err \<Rightarrow> ([UpdateConsensusRuleCall m req], Some (AcErr_UpdateConsensusRule err))
         | Inr _ \<Rightarrow> (UpdateConsensusRuleCall m req #
             (if ucr_operation req = RULE_OPERATION_COHORT_ADD \<and> target \<noteq> None then clearJoiningMemberArchive w st leader target else []), None))"
    by (rule ReconcileCohort_update [OF assms(5), unfolded run(7)]) (rule that)
  have "filter is_UpdateConsensusRuleCall (fst (ReconcileCohort_Execute w st rechecked)) =
      [UpdateConsensusRuleCall m req]"
    unfolding exec using clearJoiningMemberArchive_calls
    by (auto simp: filter_empty_conv is_UpdateConsensusRuleCall_def split: sum.splits)
  moreover have "ucr_operation req = RULE_OPERATION_COHORT_ADD \<and> pb_Code (rp_Problem rechecked) = ProblemPoolerNotInCohort \<and>
        ComponentIDString i = ComponentIDString (pb_PoolerID (rp_Problem rechecked)) \<or>
      ucr_operation req = RULE_OPERATION_COHORT_REMOVE \<and> pb_Code (rp_Problem rechecked) = ProblemCohortMemberIneligible \<and>
        i = pb_PoolerID (rp_Problem rechecked)"
    using r(2,3) FindPoolerByID_key [OF assms(4)]
    by (auto simp: cohort_operation_def cohort_target_def split: if_splits sum.splits)
  ultimately show ?thesis
    using run(1,2) serving r safe unfolding decided_rule [OF r(1)] safe_cohort_change_def
    by (intro exI [of _ used] exI [of _ snap] exI [of _ i] exI [of _ leader]) auto
qed


subsection \<open>Stranded followers\<close>

text \<open>
  C27: a follower stranded by an abandoned recruit is sent \<open>SetPrimary\<close> only with a position that its
  promise does not revoke, so that it can accept it. No other call is made, each of the two at most
  once. The leader is asked to advance its rule only if the known position is revoked and decided, and
  only on the condition that the rule is still the decided one; the position sent after that is the one
  the leader answered with.
\<close>

theorem reconnect_is_acceptable:
  assumes "ReconnectRecruitAbandoned_Execute w st rechecked = (calls, err)"
    and "members = FindShardMembers st (pb_ShardKey (rp_Problem rechecked))" "known = sm_HighestKnownPosition members"
    and "revocation = (\<lambda>r. GetTermRevocation (GetConsensusStatus (rider_health st r)))"
  shows "(\<forall>m req. SetPrimaryCall m req \<in> set calls \<longrightarrow>
      (\<exists>r. FindPoolerByID st (pb_PoolerID (rp_Problem rechecked)) = Inr r \<and> m = rider_mp st r \<and>
         \<not> IsRuleRevoked (ReplicationPrimary_GetPosition req) (revocation r) \<and>
         GetPrimary req = PoolerAddressFor (rider_mp st (sm_Leader members)) \<and>
         (IsRuleRevoked known (revocation r) \<longrightarrow>
           (\<exists>request resp. calls = [UpdateConsensusRuleCall (rider_mp st (sm_Leader members)) request, SetPrimaryCall m req] \<and>
              aw_UpdateConsensusRule w (rider_mp st (sm_Leader members)) request = Inr resp \<and>
              ReplicationPrimary_GetPosition req = PoolerPosition_GetPosition (ucr_current_position resp))))) \<and>
    (\<forall>m req. UpdateConsensusRuleCall m req \<in> set calls \<longrightarrow>
      (\<exists>r. FindPoolerByID st (pb_PoolerID (rp_Problem rechecked)) = Inr r \<and> IsRuleRevoked known (revocation r)) \<and>
      IsRuleDecided known \<and> m = rider_mp st (sm_Leader members) \<and> ucr_operation req = RULE_OPERATION_ADVANCE \<and>
      ucr_standby_ids req = [] \<and> ucr_expected_outgoing_rule req = GetRuleNumber (GetDecision known)) \<and>
    length (filter is_UpdateConsensusRuleCall calls) \<le> 1 \<and> length (filter is_SetPrimaryCall calls) \<le> 1 \<and>
    list_all (\<lambda>c. is_UpdateConsensusRuleCall c \<or> is_SetPrimaryCall c) calls"
  using assms(1) unfolding ReconnectRecruitAbandoned_Execute_def Let_def assms(2-4)
  by (auto simp del: not_None_eq split: sum.splits if_splits)

subsection \<open>The check after a repair\<close>

lemma poll_loop_length: "length (fst (poll_loop w mp n k lastErr)) \<le> n"
proof (induction n arbitrary: k lastErr)
  case (Suc n)
  then show ?case using le_SucI by (auto simp: case_prod_beta split: option.splits)
qed simp

lemma poll_loop_success:
  assumes "lastErr \<noteq> None \<or> 0 < n"
  shows "snd (poll_loop w mp n k lastErr) = None \<longleftrightarrow>
    (\<exists>j \<in> {k..<k + n}. poll_error (aw_Status w j mp) = None \<and> (\<forall>i \<in> {k..j}. \<not> aw_cancelled w i))"
  using assms
proof (induction n arbitrary: k lastErr)
  case (Suc n)
  have rest: "snd (poll_loop w mp n (Suc k) (Some e)) = None \<longleftrightarrow>
      (\<exists>j \<in> {Suc k..<Suc k + n}. poll_error (aw_Status w j mp) = None \<and> (\<forall>i \<in> {Suc k..j}. \<not> aw_cancelled w i))" for e
    by (rule Suc.IH) simp
  have range: "{k..<k + Suc n} = insert k {Suc k..<Suc k + n}" by auto
  have upto: "{k..j} = insert k {Suc k..j}" if "k \<le> j" for j using that by auto
  show ?case
  proof (cases "aw_cancelled w k")
    case True
    then show ?thesis by auto
  next
    case False
    then show ?thesis
      using rest upto unfolding range by (auto simp: case_prod_beta split: option.splits)
  qed
qed auto

lemma poll_loop_exhausts:
  assumes "\<forall>i \<in> {k..<k + n}. \<not> aw_cancelled w i" "\<forall>i \<in> {k..<k + n}. poll_error (aw_Status w i mp) \<noteq> None"
  shows "length (fst (poll_loop w mp n k lastErr)) = n"
  using assms
proof (induction n arbitrary: k lastErr)
  case (Suc n)
  then have "length (fst (poll_loop w mp n (Suc k) e)) = n" for e by (intro Suc.IH) auto
  moreover have "poll_error (aw_Status w k mp) \<noteq> None" "\<not> aw_cancelled w k" using Suc.prems by auto
  ultimately show ?case by (auto simp: case_prod_beta)
qed simp

lemma NewFixReplicationAction_pos: "1 \<le> NewFixReplicationAction cfg"
  by (auto simp: NewFixReplicationAction_def DefaultVerifyMaxAttempts_def split: option.splits)

text \<open>
  C28: the check after a repair ends: it only polls the replica, at most once per half second of the
  configured timeout and at least once if it is positive, at most ten times without one, and as often as
  that when it neither succeeds nor is cancelled. It succeeds exactly if one of these polls finds
  replication streaming with a received position before the context is cancelled; it never succeeds
  without having polled. How long a poll takes is not bounded.
\<close>

theorem replication_check_ends:
  assumes "verifyReplicationStarted (NewFixReplicationAction cfg) w st replica = (calls, err)"
    and "limit = (case cfg of Some timeout \<Rightarrow> if 0 < timeout then max (timeout div 500000000) 1 else 10 | None \<Rightarrow> 10)"
  shows "calls = replicate (length calls) (StatusCall (rider_mp st replica)) \<and> int (length calls) \<le> limit \<and>
    (err = None \<longleftrightarrow> (\<exists>j \<in> {1..nat limit}. poll_error (aw_Status w j (rider_mp st replica)) = None \<and>
       (\<forall>i \<in> {1..j}. \<not> aw_cancelled w i))) \<and>
    (err = None \<longrightarrow> calls \<noteq> []) \<and>
    (err \<noteq> None \<and> (\<forall>i \<in> {1..nat limit}. \<not> aw_cancelled w i) \<longrightarrow> int (length calls) = limit)"
proof -
  let ?mp = "rider_mp st replica"
  have n: "NewFixReplicationAction cfg = limit"
    by (simp add: assms(2) NewFixReplicationAction_def DefaultVerifyMaxAttempts_def DefaultVerifyPollInterval_def split: option.split)
  then have pos: "1 \<le> limit" using NewFixReplicationAction_pos by metis
  have run: "poll_loop w ?mp (nat limit) 1 None = (calls, err)" using assms(1) n by (simp add: verifyReplicationStarted_def)
  have "int (length calls) \<le> limit"
    using poll_loop_length [of w ?mp "nat limit" 1 None] pos unfolding run by simp
  moreover have ok: "err = None \<longleftrightarrow> (\<exists>j \<in> {1..nat limit}. poll_error (aw_Status w j ?mp) = None \<and> (\<forall>i \<in> {1..j}. \<not> aw_cancelled w i))"
    using poll_loop_success [of None "nat limit" w ?mp 1] pos unfolding run
    by (simp add: atLeastLessThanSuc_atLeastAtMost)
  moreover have "calls \<noteq> []" if "err = None"
    using run that pos by (cases "nat limit") (auto simp: case_prod_beta split: if_splits option.splits)
  moreover have "int (length calls) = limit" if "err \<noteq> None" "\<forall>i \<in> {1..nat limit}. \<not> aw_cancelled w i"
    using poll_loop_exhausts [of 1 "nat limit" w ?mp None] that ok pos unfolding run by force
  moreover have "calls = replicate (length calls) (StatusCall ?mp)"
    using poll_loop_calls [of _ w ?mp "nat limit" 1 None] unfolding run by (metis fst_conv replicate_length_same)
  ultimately show ?thesis by blast
qed

text \<open>
  A replica whose receiver waits for an idle primary counts as replicating when the problem is verified,
  but the check after a repair does not accept it.
\<close>

theorem waiting_replica_judged_differently:
  assumes "\<And>k. aw_Status w k (rider_mp st replica) = Inr resp" "GetReplicationStatus (sr_status resp) = Some status"
    and "srs_wal_receiver_status status = ''waiting''" "\<not> srs_is_wal_replay_paused status"
    and "srs_primary_conn_info status = Some \<lparr>pci_host = GetHostname (rider_mp st primary), pci_port = port\<rparr>"
    and "map_of (GetPortMap (rider_mp st primary)) ''postgres'' = Some port" "GetHostname (rider_mp st primary) \<noteq> ''''"
  shows "verifyReplicaNotReplicating w st replica primary = Inr False \<and>
    snd (verifyReplicationStarted (NewFixReplicationAction cfg) w st replica) \<noteq> None"
proof
  have st: "sr_status resp \<noteq> None" using assms(2) by (cases "sr_status resp") auto
  show "verifyReplicaNotReplicating w st replica primary = Inr False"
    using assms st by (simp add: verifyReplicaNotReplicating_def getReplicationStatus_def replication_broken_def)
  have "poll_error (aw_Status w j (rider_mp st replica)) \<noteq> None" for j
    using assms st by (simp add: poll_error_def)
  then show "snd (verifyReplicationStarted (NewFixReplicationAction cfg) w st replica) \<noteq> None"
    using poll_loop_success [of None "nat (NewFixReplicationAction cfg)" w "rider_mp st replica" 1] NewFixReplicationAction_pos [of cfg]
    by (simp add: verifyReplicationStarted_def del: not_None_eq)
qed


section \<open>Concrete instances\<close>

text \<open>The drifted sample shard as a store: a leader, a stranded and a silent follower, and a fourth
  pooler that streams from the leader.\<close>

definition ex_answer_of :: "PoolerHealthState ptr \<Rightarrow> status_answer" where
  "ex_answer_of h = \<lparr>ans_response = Inr \<lparr>sr_status = GetStatus h, sr_availability_status = None,
       sr_consensus_status = GetConsensusStatus h\<rparr>, ans_requestedAt = AsTime (ex_time 994), ans_answeredAt = GetLastSeen h\<rparr>"

definition ex_record_of :: "PoolerHealthState ptr \<Rightarrow> Multipooler" where
  "ex_record_of h = (the (GetMultipooler h))\<lparr>mp_shard_key := ex_shard_key\<rparr>"

definition ex_store_events :: "orch_event list" where
  "ex_store_events = concat (map (\<lambda>h. topology_write ex_targets 1 (ex_record_of h)) (sa_Poolers ex_drifted)) @
     map (\<lambda>(n, h). StatusAnswer n (ex_answer_of h)) (enumerate 0 (sa_Poolers ex_drifted))"

definition ex_drifted_store :: orch_store where
  "ex_drifted_store = or_store (orch_runs ex_store_events)"

lemma ex_drifted_store_ok: "store_ok ex_drifted_store"
  unfolding ex_drifted_store_def by (rule reachable_store_ok [OF orch_runs_reachable])

definition ex_advanced :: "RulePosition ptr" where
  "ex_advanced = Some \<lparr>pos_decision = ex_rule (ex_num 3 1) ex_a, pos_proposal = None\<rparr>"

definition ex_action_world :: action_world where
  "ex_action_world = \<lparr>aw_now = AsTime (ex_time 1000),
     aw_Status = (\<lambda>n mp. Inr \<lparr>sr_status = ex_standby (if n < 2 then '''' else ''streaming''), sr_availability_status = None,
       sr_consensus_status = ex_status (Multipooler_GetId mp) ex_advanced ''10'' None\<rparr>),
     aw_UpdateConsensusRule = (\<lambda>_ _. Inr \<lparr>ucr_current_position = Some \<lparr>pp_position = ex_advanced, pp_lsn = ''10''\<rparr>\<rparr>),
     aw_SetPrimary = (\<lambda>_ _. None), aw_ReconcileFollowers = (\<lambda>_ _. None), aw_cancelled = (\<lambda>_. False)\<rparr>"

definition ex_rechecked :: "Problem \<Rightarrow> RecheckedProblem" where
  "ex_rechecked p = \<lparr>rp_Problem = p, rp_HighestKnownRule = ex_decided 3\<rparr>"

definition ex_join :: Problem where
  "ex_join = cohortProblem ex_drifted ProblemPoolerNotInCohort ex_d"

definition ex_reconnect :: Problem where
  "ex_reconnect = ex_repair ProblemReplicaRecruitAbandoned ''ReplicaRecruitAbandoned'' ReconnectRecruitAbandonedAction ex_b"

definition ex_silent :: Problem where
  "ex_silent = ex_repair ProblemReplicaNotReplicating ''ReplicaNotReplicating'' FixReplicationAction ex_c"

lemma some_SetPrimary:
  assumes "list_ex is_SetPrimaryCall calls"
  obtains m req where "SetPrimaryCall m req \<in> set calls"
  using assms by (auto simp: list_ex_iff is_SetPrimaryCall_def)

theorem executed_cohort_change_is_safe_witness:
  "\<exists>snap m req. SnapshotShard (view_of ex_drifted_store) ex_shard_key ex_opts = Inr snap \<and>
     UpdateConsensusRuleCall m req \<in> set (fst (ReconcileCohort_Execute ex_action_world ex_drifted_store (ex_rechecked ex_join))) \<and>
     ucr_expected_outgoing_rule req = GetRuleNumber (GetDecision (HighestIntendedRule snap))"
proof -
  let ?calls = "fst (ReconcileCohort_Execute ex_action_world ex_drifted_store (ex_rechecked ex_join))"
  have run: "attemptRecovery ex_engine (DefaultAnalyzers id (AsTime (ex_time 1000)) (Some ex_factory)) id (view_of ex_drifted_store)
      ex_opts (AsTime (ex_time 1000), view_of ex_drifted_store) ex_join = Executes ReconcileCohortAction (ex_rechecked ex_join)" by code_simp
  have "list_ex is_UpdateConsensusRuleCall ?calls" by code_simp
  then obtain m req where update: "UpdateConsensusRuleCall m req \<in> set ?calls"
    by (auto simp: list_ex_iff is_UpdateConsensusRuleCall_def)
  have check: "pb_CheckName ex_join = ''CohortMismatch''" by code_simp
  have key: "pb_ShardKey ex_join = ex_shard_key" by code_simp
  obtain used snap where "used = view_of ex_drifted_store \<or> used = id (view_of ex_drifted_store)"
    "SnapshotShard used (pb_ShardKey ex_join) ex_opts = Inr snap"
    "ucr_expected_outgoing_rule req = GetRuleNumber (GetDecision (HighestIntendedRule snap))"
    using executed_cohort_change_is_safe [OF run check _ ex_drifted_store_ok update] by auto
  with update key show ?thesis by (intro exI [of _ snap] exI [of _ m] exI [of _ req]) auto
qed

theorem repairs_follow_highest_rule_witness:
  "\<exists>m req. SetPrimaryCall m req \<in> set (fst (FixReplication_Execute 10 ex_action_world ex_drifted_store (ex_rechecked ex_silent))) \<and>
     PoolerAddress_GetId (GetPrimary req) = GetLeaderId (PossiblyUndecidedRule (ReplicationPrimary_GetPosition req))"
proof -
  let ?calls = "fst (FixReplication_Execute 10 ex_action_world ex_drifted_store (ex_rechecked ex_silent))"
  have "list_all (\<lambda>p. status_rules_ok (GetConsensusStatus (rider_health ex_drifted_store p)))
      (FindPoolersInShard ex_drifted_store (pb_ShardKey (rp_Problem (ex_rechecked ex_silent))))" by code_simp
  then have ok: "\<forall>p \<in> set (FindPoolersInShard ex_drifted_store (pb_ShardKey (rp_Problem (ex_rechecked ex_silent)))).
      status_rules_ok (GetConsensusStatus (rider_health ex_drifted_store p))" by (simp add: list_all_iff)
  have "list_ex is_SetPrimaryCall ?calls" by code_simp
  then obtain m req where call: "SetPrimaryCall m req \<in> set ?calls" by (rule some_SetPrimary)
  from repairs_follow_highest_rule [OF ok refl refl UnI2 [OF call]] call show ?thesis by blast
qed

theorem reconnect_is_acceptable_witness:
  "\<exists>m req. SetPrimaryCall m req \<in> set (fst (ReconnectRecruitAbandoned_Execute ex_action_world ex_drifted_store (ex_rechecked ex_reconnect))) \<and>
     \<not> IsRuleRevoked (ReplicationPrimary_GetPosition req) (ex_revocation 4 (ex_num 3 0))"
proof -
  let ?run = "ReconnectRecruitAbandoned_Execute ex_action_world ex_drifted_store (ex_rechecked ex_reconnect)"
  have "list_ex is_SetPrimaryCall (fst ?run)" by code_simp
  then obtain m req where call: "SetPrimaryCall m req \<in> set (fst ?run)" by (rule some_SetPrimary)
  from reconnect_is_acceptable [OF prod.collapse [symmetric, of ?run] refl refl refl] call obtain r where
    r: "FindPoolerByID ex_drifted_store (pb_PoolerID (rp_Problem (ex_rechecked ex_reconnect))) = Inr r"
      "\<not> IsRuleRevoked (ReplicationPrimary_GetPosition req) (GetTermRevocation (GetConsensusStatus (rider_health ex_drifted_store r)))"
    by blast
  have "case FindPoolerByID ex_drifted_store (pb_PoolerID (rp_Problem (ex_rechecked ex_reconnect))) of
      Inl _ \<Rightarrow> False | Inr r \<Rightarrow> GetTermRevocation (GetConsensusStatus (rider_health ex_drifted_store r)) = ex_revocation 4 (ex_num 3 0)"
    by code_simp
  with r call show ?thesis by auto
qed

theorem replication_check_ends_witness:
  "length (fst (verifyReplicationStarted (NewFixReplicationAction (Some (2 * 10 ^ 9))) ex_action_world ex_drifted_store (Some 2))) \<le> 4 \<and>
   snd (verifyReplicationStarted (NewFixReplicationAction (Some (2 * 10 ^ 9))) ex_action_world ex_drifted_store (Some 2)) = None"
proof -
  let ?run = "verifyReplicationStarted (NewFixReplicationAction (Some (2 * 10 ^ 9))) ex_action_world ex_drifted_store (Some 2)"
  have "poll_error (aw_Status ex_action_world 2 (rider_mp ex_drifted_store (Some 2))) = None" "\<not> aw_cancelled ex_action_world i" for i
    by (code_simp, simp add: ex_action_world_def)
  then have "\<exists>j \<in> {1..nat 4}. poll_error (aw_Status ex_action_world j (rider_mp ex_drifted_store (Some 2))) = None \<and>
      (\<forall>i \<in> {1..j}. \<not> aw_cancelled ex_action_world i)" by (intro bexI [of _ 2]) auto
  with replication_check_ends [OF prod.collapse [symmetric, of ?run] refl] show ?thesis by auto
qed

end
