(* ===== verification/Pg_Server.thy ===== *)
theory Pg_Server
  imports Durability
begin

text \<open>
  The postgres server as the rule store and the synchronous-standby manager of a pooler see it
  (the SQL statements of go/services/multipooler/internal/manager/consensus/rule_store.go,
  sync_standby_manager.go and sync_standby_names.go), and the operations that talk to it.

  The server has the two tables of the rule store, the settings \<open>synchronous_commit\<close> and
  \<open>synchronous_standby_names\<close> (the configured pair in postgresql.auto.conf, the pair the postmaster has
  loaded from it, and the pair of the backend that runs the next statement, which takes a reload up on
  its own and may lag behind), and the log of the rule writes with the settings each was committed
  under, those of its backend. An operation is a function on a state that holds the server; it returns
  an error or a value and the new state. What the outside decides is in a record \<open>pg_env\<close>: what others do to the server
  before the \<open>n\<close>-th query, whether that query is done, refused, or done with its answer lost (a
  timeout while waiting for a standby), the clock, how many polls fit in a wait, and what a TIMESTAMPTZ
  column keeps of a time that is written to it.
\<close>

subsection \<open>Operations that may fail\<close>

type_synonym ('s, 'e, 'a) op = "'s \<Rightarrow> ('e + 'a) \<times> 's"

definition succeed :: "'a \<Rightarrow> ('s, 'e, 'a) op" where
  "succeed x s = (Inr x, s)"

definition fail_with :: "'e \<Rightarrow> ('s, 'e, 'a) op" where
  "fail_with e s = (Inl e, s)"

definition and_then :: "('s, 'e, 'a) op \<Rightarrow> ('a \<Rightarrow> ('s, 'e, 'b) op) \<Rightarrow> ('s, 'e, 'b) op" where
  "and_then m k s = (case m s of (Inl e, s') \<Rightarrow> (Inl e, s') | (Inr x, s') \<Rightarrow> k x s')"

definition wrap_error :: "('e \<Rightarrow> 'f) \<Rightarrow> ('s, 'e, 'a) op \<Rightarrow> ('s, 'f, 'a) op" where
  "wrap_error f m s = (case m s of (Inl e, s') \<Rightarrow> (Inl (f e), s') | (Inr x, s') \<Rightarrow> (Inr x, s'))"

text \<open>An operation whose error the caller handles itself.\<close>

definition attempt :: "('s, 'e, 'a) op \<Rightarrow> ('s, 'f, 'e + 'a) op" where
  "attempt m s = (case m s of (r, s') \<Rightarrow> (Inr r, s'))"

definition lift_result :: "'e + 'a \<Rightarrow> ('s, 'e, 'a) op" where
  "lift_result r s = (r, s)"

definition check_none :: "('e \<Rightarrow> 'f) \<Rightarrow> 'e option \<Rightarrow> ('s, 'f, unit) op" where
  "check_none f err s = (case err of None \<Rightarrow> (Inr (), s) | Some e \<Rightarrow> (Inl (f e), s))"

definition read_state :: "('s \<Rightarrow> 'a) \<Rightarrow> ('s, 'e, 'a) op" where
  "read_state f s = (Inr (f s), s)"

definition change_state :: "('s \<Rightarrow> 's) \<Rightarrow> ('s, 'e, unit) op" where
  "change_state f s = (Inr (), f s)"

subsection \<open>Tables and settings\<close>

text \<open>The columns of one rule, decided or proposed, with NULL as \<open>None\<close>.\<close>

record unvalidatedRuleRow =
  urr_coordinatorTerm :: "int option"
  urr_leaderSubterm :: "int option"
  urr_leaderIDStr :: "string option"
  urr_cohortNames :: "string list"
  urr_durabilityPolicyName :: "string option"
  urr_durabilityQuorumType :: "string option"
  urr_durabilityRequiredCount :: "int option"
  urr_createdAt :: "go_time option"

definition null_columns :: unvalidatedRuleRow where
  "null_columns = \<lparr>urr_coordinatorTerm = None, urr_leaderSubterm = None, urr_leaderIDStr = None,
     urr_cohortNames = [], urr_durabilityPolicyName = None, urr_durabilityQuorumType = None,
     urr_durabilityRequiredCount = None, urr_createdAt = None\<rparr>"

record current_rule_row =
  crr_decision :: unvalidatedRuleRow
  crr_coordinator_id :: string
  crr_proposal :: unvalidatedRuleRow

record rule_history_row =
  rh_coordinator_term :: int
  rh_leader_subterm :: int
  rh_event_type :: string
  rh_leader_id :: "string option"
  rh_coordinator_id :: string
  rh_wal_position :: "string option"
  rh_accepted_members :: "string list"
  rh_reason :: string
  rh_cohort_members :: "string list"
  rh_durability_policy_name :: string
  rh_durability_quorum_type :: string
  rh_durability_required_count :: int
  rh_operation :: "string option"
  rh_decided :: bool
  rh_created_at :: go_time

text \<open>The rule writes in the log, each with the number of its rule.\<close>

datatype rule_write = WriteProposal int int | WriteConfirm int int | WriteDecision int int

type_synonym settings = "string \<times> string"

record pg =
  pg_in_recovery :: bool
  pg_lsn :: string
  pg_clock :: go_time
  pg_current_rule :: "current_rule_row option option"
  pg_rule_history :: "rule_history_row list option"
  pg_conf :: settings
  pg_settings :: settings
  pg_backend :: settings
  pg_load_time :: go_time
  pg_wal :: "(rule_write \<times> settings) list"

definition log_write :: "rule_write \<Rightarrow> pg \<Rightarrow> pg" where
  "log_write w db = db\<lparr>pg_wal := pg_wal db @ [(w, pg_backend db)]\<rparr>"

subsection \<open>Queries\<close>

datatype query_outcome = QueryDone | QueryLost string | QueryFailed string

record pg_env =
  env_before :: "nat \<Rightarrow> pg \<Rightarrow> pg"
  env_outcome :: "nat \<Rightarrow> query_outcome"
  env_polls :: "nat \<Rightarrow> nat"
  env_cancelled :: "nat \<Rightarrow> bool"
  env_now :: "nat \<Rightarrow> go_time"
  env_timestamptz :: "go_time \<Rightarrow> go_time"

record conn =
  c_pg :: pg
  c_queries :: nat

text \<open>
  A statement is refused by the server (\<open>Inl\<close>) or changes it and returns rows. Statements are
  transactions of their own: the refused ones leave the server as it was.
\<close>

definition query ::
  "pg_env \<Rightarrow> (pg \<Rightarrow> string + pg \<times> 'r) \<Rightarrow> ('z conn_scheme, string, 'r) op" where
  "query env stmt s =
     (let n = c_queries s;
          db = env_before env n (c_pg s);
          answered = (\<lambda>db. s\<lparr>c_pg := db, c_queries := Suc n\<rparr>)
      in case stmt db of
           Inl e \<Rightarrow> (Inl e, answered db)
         | Inr (db', r) \<Rightarrow>
             (case env_outcome env n of
                QueryDone \<Rightarrow> (Inr r, answered db')
              | QueryLost e \<Rightarrow> (Inl e, answered db')
              | QueryFailed e \<Rightarrow> (Inl e, answered db)))"

definition select :: "(pg \<Rightarrow> 'r) \<Rightarrow> pg \<Rightarrow> string + pg \<times> 'r" where
  "select f db = Inr (db, f db)"

definition now :: "pg_env \<Rightarrow> ('z conn_scheme, 'e, go_time) op" where
  "now env = read_state (\<lambda>s. env_now env (c_queries s))"

section \<open>Triples\<close>

text \<open>
  \<open>triple P m Q E\<close>: from a state with \<open>P\<close>, the operation returns a value and a state with \<open>Q\<close>, or an
  error in a state with \<open>E\<close>.
\<close>

definition triple ::
  "('s \<Rightarrow> bool) \<Rightarrow> ('s, 'e, 'a) op \<Rightarrow> ('a \<Rightarrow> 's \<Rightarrow> bool) \<Rightarrow> ('s \<Rightarrow> bool) \<Rightarrow> bool" where
  "triple P m Q E \<longleftrightarrow>
     (\<forall>s. P s \<longrightarrow> (case fst (m s) of Inl _ \<Rightarrow> E (snd (m s)) | Inr x \<Rightarrow> Q x (snd (m s))))"

named_theorems triples

lemma tripleI:
  assumes "\<And>s x s'. P s \<Longrightarrow> m s = (Inr x, s') \<Longrightarrow> Q x s'"
    and "\<And>s e s'. P s \<Longrightarrow> m s = (Inl e, s') \<Longrightarrow> E s'"
  shows "triple P m Q E"
  unfolding triple_def
proof (intro allI impI)
  fix s assume "P s"
  with assms [of s] show "case fst (m s) of Inl _ \<Rightarrow> E (snd (m s)) | Inr x \<Rightarrow> Q x (snd (m s))"
    by (cases "m s") (auto split: sum.splits)
qed

lemma triple_InrD: "triple P m Q E \<Longrightarrow> m s = (Inr x, s') \<Longrightarrow> P s \<Longrightarrow> Q x s'"
  unfolding triple_def by (drule spec [of _ s]) simp

lemma triple_InlD: "triple P m Q E \<Longrightarrow> m s = (Inl e, s') \<Longrightarrow> P s \<Longrightarrow> E s'"
  unfolding triple_def by (drule spec [of _ s]) simp

lemma triple_conseq:
  assumes "triple P m Q E" "\<And>s. P' s \<Longrightarrow> P s" "\<And>x s. Q x s \<Longrightarrow> Q' x s" "\<And>s. E s \<Longrightarrow> E' s"
  shows "triple P' m Q' E'"
  using assms unfolding triple_def by (metis (no_types, lifting) sum.case_eq_if)

lemma triple_pre: "triple P m Q E \<Longrightarrow> (\<And>s. P' s \<Longrightarrow> P s) \<Longrightarrow> triple P' m Q E"
  by (rule triple_conseq)

lemma triple_and_then [triples]:
  assumes "triple P m R E" "\<And>x. triple (R x) (k x) Q E"
  shows "triple P (and_then m k) Q E"
proof (rule tripleI)
  fix s x s' assume "P s" "and_then m k s = (Inr x, s')"
  then show "Q x s'"
    using assms by (auto simp: and_then_def split: prod.splits sum.splits dest: triple_InrD)
next
  fix s e s' assume "P s" "and_then m k s = (Inl e, s')"
  then show "E s'"
    using assms
    by (auto simp: and_then_def split: prod.splits sum.splits dest: triple_InrD triple_InlD)
qed

lemma triple_succeed [triples]: "(\<And>s. P s \<Longrightarrow> Q x s) \<Longrightarrow> triple P (succeed x) Q E"
  by (simp add: triple_def succeed_def)

lemma triple_fail [triples]: "(\<And>s. P s \<Longrightarrow> E s) \<Longrightarrow> triple P (fail_with e) Q E"
  by (simp add: triple_def fail_with_def)

lemma triple_wrap [triples]: "triple P m Q E \<Longrightarrow> triple P (wrap_error f m) Q E"
  unfolding triple_def wrap_error_def by (auto split: prod.splits sum.splits)

lemma triple_attempt [triples]:
  assumes "triple P m (\<lambda>x. Q (Inr x)) (\<lambda>s. \<forall>e. Q (Inl e) s)"
  shows "triple P (attempt m) Q E"
proof (rule tripleI)
  fix s x s' assume "P s" "attempt m s = (Inr x, s')"
  then show "Q x s'"
    using triple_InrD [OF assms, of s] triple_InlD [OF assms, of s]
    by (cases x) (auto simp: attempt_def split: prod.splits)
qed (simp add: attempt_def split: prod.splits)

lemma triple_lift [triples]:
  "(\<And>s x. P s \<Longrightarrow> r = Inr x \<Longrightarrow> Q x s) \<Longrightarrow> (\<And>s e. P s \<Longrightarrow> r = Inl e \<Longrightarrow> E s) \<Longrightarrow> triple P (lift_result r) Q E"
  by (auto simp: triple_def lift_result_def split: sum.splits)

lemma triple_check [triples]:
  "(\<And>s. P s \<Longrightarrow> err = None \<Longrightarrow> Q () s) \<Longrightarrow> (\<And>s e. P s \<Longrightarrow> err = Some e \<Longrightarrow> E s) \<Longrightarrow>
     triple P (check_none f err) Q E"
  by (auto simp: triple_def check_none_def split: option.splits)

lemma triple_read [triples]: "(\<And>s. P s \<Longrightarrow> Q (f s) s) \<Longrightarrow> triple P (read_state f) Q E"
  by (simp add: triple_def read_state_def)

lemma triple_change [triples]: "(\<And>s. P s \<Longrightarrow> Q () (f s)) \<Longrightarrow> triple P (change_state f) Q E"
  by (simp add: triple_def change_state_def)

lemma triple_now [triples]: "(\<And>s t. P s \<Longrightarrow> Q t s) \<Longrightarrow> triple P (now env) Q E"
  unfolding now_def by (rule triple_read) simp

lemma triple_if [triples]:
  "(b \<Longrightarrow> triple P m Q E) \<Longrightarrow> (\<not> b \<Longrightarrow> triple P m' Q E) \<Longrightarrow> triple P (if b then m else m') Q E"
  by simp

lemma triple_sum [triples]:
  "(\<And>e. r = Inl e \<Longrightarrow> triple P (m e) Q E) \<Longrightarrow> (\<And>x. r = Inr x \<Longrightarrow> triple P (m' x) Q E) \<Longrightarrow>
     triple P (case r of Inl e \<Rightarrow> m e | Inr x \<Rightarrow> m' x) Q E"
  by (cases r) simp_all

lemma triple_option [triples]:
  "(v = None \<Longrightarrow> triple P m Q E) \<Longrightarrow> (\<And>x. v = Some x \<Longrightarrow> triple P (m' x) Q E) \<Longrightarrow>
     triple P (case v of None \<Rightarrow> m | Some x \<Rightarrow> m' x) Q E"
  by (cases v) simp_all

text \<open>The rule for a query, for every outcome and after whatever others did first.\<close>

lemma triple_query:
  assumes "\<And>s db e. P s \<Longrightarrow> db = env_before env (c_queries s) (c_pg s) \<Longrightarrow>
      E (s\<lparr>c_pg := db, c_queries := Suc (c_queries s)\<rparr>)"
    and "\<And>s db db' r. P s \<Longrightarrow> db = env_before env (c_queries s) (c_pg s) \<Longrightarrow> stmt db = Inr (db', r) \<Longrightarrow>
      Q r (s\<lparr>c_pg := db', c_queries := Suc (c_queries s)\<rparr>) \<and>
      E (s\<lparr>c_pg := db', c_queries := Suc (c_queries s)\<rparr>)"
  shows "triple P (query env stmt) Q E"
proof -
  have "case fst (query env stmt s) of Inl _ \<Rightarrow> E (snd (query env stmt s)) | Inr x \<Rightarrow> Q x (snd (query env stmt s))"
    if "P s" for s
    using assms(1) [OF that refl] assms(2) [OF that refl]
    by (auto simp: query_def Let_def split: sum.splits prod.splits query_outcome.splits)
  then show ?thesis by (simp add: triple_def)
qed

section \<open>A quiet server\<close>

text \<open>
  What the pooler relies on while it holds the action lock and prior rule writes are drained: nobody
  else writes the tables or the configuration, recovery does not end by itself, and the settings in
  force change only when the postmaster loads the configuration, which gives a new load time
  (postgres documents \<open>pg_conf_load_time\<close> so). The clock and the LSN may move, and the backend of the
  next statement may be any.
\<close>

definition quiet_step :: "pg \<Rightarrow> pg \<Rightarrow> bool" where
  "quiet_step db db' \<longleftrightarrow>
     pg_in_recovery db' = pg_in_recovery db \<and> pg_current_rule db' = pg_current_rule db \<and>
     pg_rule_history db' = pg_rule_history db \<and> pg_conf db' = pg_conf db \<and> pg_wal db' = pg_wal db \<and>
     (pg_settings db' = pg_settings db \<and> pg_load_time db' = pg_load_time db \<or>
      pg_settings db' = pg_conf db \<and> pg_load_time db' \<noteq> pg_load_time db)"

definition env_quiet :: "pg_env \<Rightarrow> bool" where
  "env_quiet env \<longleftrightarrow> (\<forall>n db. quiet_step db (env_before env n db))"

text \<open>
  What the pause of \<open>reloadConfig\<close> is for: every statement runs on a backend that has taken up what the
  postmaster has loaded. Where a theorem needs it, it is a hypothesis.
\<close>

definition backends_reloaded :: "pg_env \<Rightarrow> bool" where
  "backends_reloaded env \<longleftrightarrow> (\<forall>n db. pg_backend (env_before env n db) = pg_settings (env_before env n db))"

lemma env_quietD: "env_quiet env \<Longrightarrow> quiet_step db (env_before env n db)"
  by (simp add: env_quiet_def)

text \<open>Predicates that a quiet step keeps, and the rules for queries between such predicates.\<close>

definition stable :: "('z conn_scheme \<Rightarrow> bool) \<Rightarrow> bool" where
  "stable P \<longleftrightarrow> (\<forall>s db n. quiet_step (c_pg s) db \<longrightarrow> P s \<longrightarrow> P (s\<lparr>c_pg := db, c_queries := n\<rparr>))"

lemma stableD: "stable P \<Longrightarrow> quiet_step (c_pg s) db \<Longrightarrow> P s \<Longrightarrow> P (s\<lparr>c_pg := db, c_queries := n\<rparr>)"
  by (simp add: stable_def)

lemma conn_commute: "s\<lparr>c_queries := n, c_pg := db\<rparr> = s\<lparr>c_pg := db, c_queries := n\<rparr>"
  by (cases s) simp

lemma triple_stmt:
  assumes "env_quiet env" "stable P"
    and "\<And>s. P s \<Longrightarrow> E s"
    and "\<And>s db r. P s \<Longrightarrow> (backends_reloaded env \<longrightarrow> pg_backend (c_pg s) = pg_settings (c_pg s)) \<Longrightarrow>
      stmt (c_pg s) = Inr (db, r) \<Longrightarrow> Q r (s\<lparr>c_pg := db\<rparr>) \<and> E (s\<lparr>c_pg := db\<rparr>)"
  shows "triple P (query env stmt) Q E"
proof (rule triple_query)
  fix s :: "'a conn_scheme" and db assume s: "P s" "db = env_before env (c_queries s) (c_pg s)"
  then have P: "P (s\<lparr>c_pg := db, c_queries := Suc (c_queries s)\<rparr>)"
    using stableD [OF assms(2)] env_quietD [OF assms(1)] by blast
  then show "E (s\<lparr>c_pg := db, c_queries := Suc (c_queries s)\<rparr>)" by (rule assms(3))
  fix db' r assume "stmt db = Inr (db', r)"
  moreover have "backends_reloaded env \<longrightarrow> pg_backend db = pg_settings db" using s(2) by (simp add: backends_reloaded_def)
  ultimately show "Q r (s\<lparr>c_pg := db', c_queries := Suc (c_queries s)\<rparr>) \<and>
      E (s\<lparr>c_pg := db', c_queries := Suc (c_queries s)\<rparr>)"
    using assms(4) [OF P, of db' r] conn_commute [where s = s] by simp
qed

lemma triple_select:
  assumes "env_quiet env" "stable P"
  shows "triple P (query env (select f)) (\<lambda>x s. P s \<and> x = f (c_pg s)) P"
  by (rule triple_stmt [OF assms]) (auto simp: select_def)

subsection \<open>Steps whose result is known\<close>

lemma op_known [simp]:
  "and_then (succeed x) k = k x"
  "and_then (fail_with e) k = fail_with e"
  "lift_result (Inr x) = succeed x"
  "lift_result (Inl e) = fail_with e"
  "wrap_error f (succeed x) = succeed x"
  "wrap_error f (fail_with e) = fail_with (f e)"
  "check_none f None = succeed ()"
  "check_none f (Some e) = fail_with (f e)"
  by (simp_all add: fun_eq_iff and_then_def succeed_def fail_with_def lift_result_def wrap_error_def check_none_def)

lemma triple_prod [triples]:
  "(\<And>a b. x = (a, b) \<Longrightarrow> triple P (f a b) Q E) \<Longrightarrow> triple P (case x of (a, b) \<Rightarrow> f a b) Q E"
  by (cases x) simp

lemma triple_false: "triple (\<lambda>s. False) m Q E"
  by (simp add: triple_def)

text \<open>A part of the precondition that does not mention the state is an assumption.\<close>

lemma triple_when: "(a \<Longrightarrow> triple P m Q E) \<Longrightarrow> triple (\<lambda>s. P s \<and> a) m Q E"
  by (auto simp: triple_def)

lemma triple_unless: "(a \<Longrightarrow> triple P m Q E) \<Longrightarrow> triple (\<lambda>s. a \<and> P s) m Q E"
  by (auto simp: triple_def)

lemma triple_ex: "(\<And>x. triple (P x) m Q E) \<Longrightarrow> triple (\<lambda>s. \<exists>x. P x s) m Q E"
  by (auto simp: triple_def)

end
