(* ===== verification/Replica_Ids.thy ===== *)
theory Replica_Ids
  imports Durability
begin

text \<open>
  The identity of a pooler inside postgres
  (go/services/multipooler/internal/manager/consensus/replicaident.go) and the value of
  \<open>synchronous_standby_names\<close> built from it (sync_standby_names.go): an application name is
  \<open>cell_name\<close>, and both the rule tables and the settings hold poolers by that name.
\<close>

record ReplicaID =
  rep_id :: "ID ptr"
  rep_appName :: string

datatype replica_error =
    RErr_NilID
  | RErr_EmptyCell
  | RErr_EmptyName
  | RErr_CellUnderscore string
  | RErr_NameUnderscore string
  | RErr_TooLong string
  | RErr_At nat replica_error
  | RErr_NoStandbys
  | RErr_InvalidStandbys replica_error
  | RErr_NumSyncNegative int
  | RErr_NumSyncTooLarge int int
  | RErr_Method SynchronousMethod

subsection \<open>Application names\<close>

definition MaxApplicationNameLength :: nat where
  "MaxApplicationNameLength = 63"

definition unknown_if_empty :: "string \<Rightarrow> string" where
  "unknown_if_empty s = (if s = '''' then ''<unknown>'' else s)"

definition NewReplicaID :: "ID ptr \<Rightarrow> ReplicaID \<times> replica_error option" where
  "NewReplicaID i =
     (case i of
        None \<Rightarrow> (\<lparr>rep_id = None, rep_appName = ''<nil>''\<rparr>, Some RErr_NilID)
      | Some p \<Rightarrow>
          let appName = unknown_if_empty (id_cell p) @ ''_'' @ unknown_if_empty (id_name p);
              r = \<lparr>rep_id = i, rep_appName = appName\<rparr>
          in if id_cell p = '''' then (r, Some RErr_EmptyCell)
             else if id_name p = '''' then (r, Some RErr_EmptyName)
             else if CHR ''_'' \<in> set (id_cell p) then (r, Some (RErr_CellUnderscore (id_cell p)))
             else if CHR ''_'' \<in> set (id_name p) then (r, Some (RErr_NameUnderscore (id_name p)))
             else if length appName > MaxApplicationNameLength then (r, Some (RErr_TooLong appName))
             else (r, None))"

definition ReplicaIDsToAppNames :: "ReplicaID list \<Rightarrow> string list" where
  "ReplicaIDsToAppNames ids = map rep_appName ids"

primrec first_replica_error :: "nat \<Rightarrow> ID ptr list \<Rightarrow> replica_error option" where
  "first_replica_error n [] = None"
| "first_replica_error n (i # ids) =
     (case snd (NewReplicaID i) of
        Some err \<Rightarrow> Some (RErr_At n err)
      | None \<Rightarrow> first_replica_error (Suc n) ids)"

definition ToReplicaIDs :: "ID ptr list \<Rightarrow> ReplicaID list \<times> replica_error option" where
  "ToReplicaIDs ids = (map (\<lambda>i. fst (NewReplicaID i)) ids, first_replica_error 0 ids)"

definition ParseApplicationName :: "string \<Rightarrow> id_error + ID ptr" where
  "ParseApplicationName appName =
     (case SplitClusterID appName of
        Inl err \<Rightarrow> Inl err
      | Inr (cell, name) \<Rightarrow> Inr (Some \<lparr>id_component = MULTIPOOLER, id_cell = cell, id_name = name\<rparr>))"

definition NewReplicaIDFromAppName :: "string \<Rightarrow> ReplicaID \<times> id_error option" where
  "NewReplicaIDFromAppName appName =
     (case ParseApplicationName appName of
        Inl err \<Rightarrow>
          (\<lparr>rep_id = Some \<lparr>id_component = MULTIPOOLER, id_cell = '''', id_name = appName\<rparr>,
            rep_appName = appName\<rparr>, Some err)
      | Inr i \<Rightarrow> (\<lparr>rep_id = i, rep_appName = appName\<rparr>, None))"

primrec parse_replica_ids :: "string list \<Rightarrow> id_error + ReplicaID list" where
  "parse_replica_ids [] = Inr []"
| "parse_replica_ids (s # names) =
     (case ParseApplicationName s of
        Inl err \<Rightarrow> Inl err
      | Inr i \<Rightarrow> map_sum id (Cons \<lparr>rep_id = i, rep_appName = s\<rparr>) (parse_replica_ids names))"

definition ParseReplicaIDStrings :: "string list ptr \<Rightarrow> id_error + ReplicaID list ptr" where
  "ParseReplicaIDStrings names =
     (case names of None \<Rightarrow> Inr None | Some ns \<Rightarrow> map_sum id Some (parse_replica_ids ns))"

subsection \<open>The list of standbys\<close>

definition FormatStandbyList :: "ReplicaID list \<Rightarrow> string" where
  "FormatStandbyList ids = join_with '', '' (map (\<lambda>i. CHR 0x22 # rep_appName i @ [CHR 0x22]) ids)"

definition BuildSynchronousStandbyNamesValue ::
  "SynchronousMethod \<Rightarrow> int \<Rightarrow> ReplicaID list \<Rightarrow> replica_error + string" where
  "BuildSynchronousStandbyNamesValue method numSync names =
     (if names = [] then Inr ''''
      else
        let value = (\<lambda>methodStr. methodStr @ '' '' @ show_int numSync @ '' ('' @ FormatStandbyList names @ '')'')
        in case method of
             SYNCHRONOUS_METHOD_FIRST \<Rightarrow> Inr (value ''FIRST'')
           | SYNCHRONOUS_METHOD_ANY \<Rightarrow> Inr (value ''ANY'')
           | _ \<Rightarrow> Inl (RErr_Method method))"

definition ValidateStandbyIDs :: "ID ptr list \<Rightarrow> ReplicaID list \<times> replica_error option" where
  "ValidateStandbyIDs standbyIDs =
     (if standbyIDs = [] then ([], Some RErr_NoStandbys)
      else
        let (pids, err) = ToReplicaIDs standbyIDs
        in (pids, map_option RErr_InvalidStandbys err))"

definition ValidateSyncReplicationParams :: "int \<Rightarrow> ID ptr list \<Rightarrow> replica_error + ReplicaID list" where
  "ValidateSyncReplicationParams numSync standbyIDs =
     (if numSync < 0 then Inl (RErr_NumSyncNegative numSync)
      else if standbyIDs \<noteq> [] then
        (if numSync > wrap32 (int (length standbyIDs))
         then Inl (RErr_NumSyncTooLarge numSync (int (length standbyIDs)))
         else case ValidateStandbyIDs standbyIDs of
                (_, Some err) \<Rightarrow> Inl err
              | (names, None) \<Rightarrow> Inr names)
      else Inr [])"

text \<open>Both operations look at application names only.\<close>

definition ApplyAddOperation :: "ReplicaID list \<Rightarrow> ReplicaID list \<Rightarrow> ReplicaID list" where
  "ApplyAddOperation currentStandbys newStandbys =
     currentStandbys @ filter (\<lambda>r. rep_appName r \<notin> rep_appName ` set currentStandbys) newStandbys"

definition ApplyRemoveOperation :: "ReplicaID list \<Rightarrow> ReplicaID list \<Rightarrow> ReplicaID list" where
  "ApplyRemoveOperation currentStandbys standbysToRemove =
     filter (\<lambda>r. rep_appName r \<notin> rep_appName ` set standbysToRemove) currentStandbys"

section \<open>Names and identifiers\<close>

text \<open>A valid application name is the key under which quorums count the pooler.\<close>

lemma NewReplicaID_NoneD:
  assumes "NewReplicaID i = (r, None)"
  shows "rep_id r = i" "rep_appName r = ClusterIDString i" "i \<noteq> None" "wf_ID i"
    "GetCell i \<noteq> ''''" "GetName i \<noteq> ''''"
  using assms
  by (auto simp: NewReplicaID_def unknown_if_empty_def wf_ID_def Let_def split: option.splits if_splits)

lemma first_replica_error_None:
  "first_replica_error n ids = None \<longleftrightarrow> (\<forall>i \<in> set ids. snd (NewReplicaID i) = None)"
  by (induction ids arbitrary: n) (auto split: option.splits)

lemma ToReplicaIDs_NoneD:
  assumes "ToReplicaIDs ids = (rs, None)"
  shows "ReplicaIDsToAppNames rs = map ClusterIDString ids" "wf_IDs ids"
    "\<forall>i \<in> set ids. i \<noteq> None \<and> GetCell i \<noteq> '''' \<and> GetName i \<noteq> ''''"
proof -
  have ok: "NewReplicaID i = (fst (NewReplicaID i), None)" if "i \<in> set ids" for i
    using assms that by (auto simp: ToReplicaIDs_def first_replica_error_None prod_eq_iff)
  have "rs = map (\<lambda>i. fst (NewReplicaID i)) ids" using assms by (simp add: ToReplicaIDs_def)
  then show "ReplicaIDsToAppNames rs = map ClusterIDString ids"
    using NewReplicaID_NoneD(2) [OF ok] by (simp add: ReplicaIDsToAppNames_def)
  show "wf_IDs ids" using NewReplicaID_NoneD(4) [OF ok] by blast
  show "\<forall>i \<in> set ids. i \<noteq> None \<and> GetCell i \<noteq> '''' \<and> GetName i \<noteq> ''''"
    using NewReplicaID_NoneD(3,5,6) [OF ok] by blast
qed

text \<open>A pooler's application name parses back to the pooler.\<close>

lemma ParseApplicationName_key:
  assumes "i \<noteq> None" "wf_ID i" "GetCell i \<noteq> ''''" "GetName i \<noteq> ''''" "GetComponent i = MULTIPOOLER"
  shows "ParseApplicationName (ClusterIDString i) = Inr i"
proof -
  obtain p where p: "i = Some p" using assms(1) by auto
  with assms have "SplitClusterID (ClusterIDString (Some p)) = Inr (id_cell p, id_name p)"
    by (intro SplitClusterID_of_ClusterIDString) simp_all
  with p assms(5) show ?thesis by (simp add: ParseApplicationName_def)
qed

lemma ApplyAdd_names:
  "rep_appName ` set (ApplyAddOperation xs ys) = rep_appName ` set xs \<union> rep_appName ` set ys"
  by (auto simp: ApplyAddOperation_def)

lemma ApplyRemove_names:
  "rep_appName ` set (ApplyRemoveOperation xs ys) = rep_appName ` set xs - rep_appName ` set ys"
  by (auto simp: ApplyRemoveOperation_def)

lemma ApplyAdd_idempotent: "ApplyAddOperation (ApplyAddOperation xs ys) ys = ApplyAddOperation xs ys"
  by (auto simp: ApplyAddOperation_def filter_empty_conv image_iff)

lemma ApplyRemove_idempotent:
  "ApplyRemoveOperation (ApplyRemoveOperation xs ys) ys = ApplyRemoveOperation xs ys"
  by (simp add: ApplyRemoveOperation_def)

end
