(* ===== verification/Sync_Standby.thy ===== *)
theory Sync_Standby
  imports Pg_Server Replica_Ids Action_Lock
begin

text \<open>
  The synchronous-standby manager of a pooler
  (go/services/multipooler/internal/manager/consensus/sync_standby_manager.go) and the reload of the
  configuration it waits for (sync_standby_names.go). It is the only writer of \<open>synchronous_commit\<close>
  and \<open>synchronous_standby_names\<close>, remembers what it wrote last, and skips a write of the same values.

  The context of \<open>SetPolicy\<close> carries the action lock (\<open>al\<close>, \<open>ctx\<close>) and the proof that prior rule
  writes are drained, the flag \<open>drained\<close>. \<open>GErr_NilPolicy\<close> stands for the panic of a nil policy.
\<close>

datatype guc_error =
    GErr_Lock lock_error
  | GErr_NotDrained
  | GErr_NilPolicy
  | GErr_Build durability_error
  | GErr_Replica replica_error
  | GErr_CommitLevel SynchronousCommitLevel
  | GErr_NoStandbys
  | GErr_Query string string
  | GErr_NoService
  | GErr_ReloadDeadline
  | GErr_Cancelled
  | GErr_NotInRecovery

record ssm = conn +
  ssm_localID :: "ID ptr"
  lastSyncCommit :: string
  lastStandbyNames :: string

record computedGUC =
  g_cfg :: "SyncReplicationConfig ptr"
  g_standbyNames :: "ReplicaID list"
  g_wantCommit :: string
  g_wantStandby :: string

subsection \<open>Reloading the configuration\<close>

definition readConfLoadTime :: "pg_env \<Rightarrow> ('z conn_scheme, guc_error, go_time) op" where
  "readConfLoadTime env = wrap_error (GErr_Query ''failed to read pg_conf_load_time'') (query env (select pg_load_time))"

primrec poll_load_time :: "pg_env \<Rightarrow> (go_time \<Rightarrow> bool) \<Rightarrow> nat \<Rightarrow> ('z conn_scheme, guc_error, go_time) op" where
  "poll_load_time env isReloaded 0 = fail_with GErr_ReloadDeadline"
| "poll_load_time env isReloaded (Suc k) =
     and_then (readConfLoadTime env) (\<lambda>loadTime.
       if isReloaded loadTime then succeed loadTime else poll_load_time env isReloaded k)"

definition WaitForConfigReload ::
  "pg_env ptr \<Rightarrow> (go_time \<Rightarrow> bool) \<Rightarrow> ('z conn_scheme, guc_error, go_time) op" where
  "WaitForConfigReload qs isReloaded =
     (case qs of
        None \<Rightarrow> fail_with GErr_NoService
      | Some env \<Rightarrow> and_then (read_state c_queries) (\<lambda>n. poll_load_time env isReloaded (env_polls env n)))"

definition ReloadPostgresConfig :: "pg_env ptr \<Rightarrow> ('z conn_scheme, guc_error, unit) op" where
  "ReloadPostgresConfig qs =
     (case qs of
        None \<Rightarrow> fail_with GErr_NoService
      | Some env \<Rightarrow>
          and_then (readConfLoadTime env) (\<lambda>loadTimeBefore.
          and_then (wrap_error (GErr_Query ''failed to reload PostgreSQL configuration'') (query env (select (\<lambda>db. ())))) (\<lambda>_.
          and_then (WaitForConfigReload qs (\<lambda>loadTime. loadTime \<noteq> loadTimeBefore)) (\<lambda>_.
          succeed ()))))"

text \<open>The pause of ten milliseconds after a reload ends early when the context is cancelled.\<close>

definition reloadConfig :: "pg_env \<Rightarrow> ('z conn_scheme, guc_error, unit) op" where
  "reloadConfig env =
     and_then (ReloadPostgresConfig (Some env)) (\<lambda>_.
     and_then (read_state c_queries) (\<lambda>n.
     if env_cancelled env n then fail_with GErr_Cancelled else succeed ()))"

subsection \<open>The settings of a policy\<close>

primrec syncCommitString :: "SynchronousCommitLevel \<Rightarrow> guc_error + string" where
  "syncCommitString SYNCHRONOUS_COMMIT_OFF = Inr ''off''"
| "syncCommitString SYNCHRONOUS_COMMIT_LOCAL = Inr ''local''"
| "syncCommitString SYNCHRONOUS_COMMIT_REMOTE_WRITE = Inr ''remote_write''"
| "syncCommitString SYNCHRONOUS_COMMIT_ON = Inr ''on''"
| "syncCommitString SYNCHRONOUS_COMMIT_REMOTE_APPLY = Inr ''remote_apply''"
| "syncCommitString (SynchronousCommitUnrecognized n) = Inl (GErr_CommitLevel (SynchronousCommitUnrecognized n))"

definition no_computedGUC :: computedGUC where
  "no_computedGUC = \<lparr>g_cfg = None, g_standbyNames = [], g_wantCommit = '''', g_wantStandby = ''''\<rparr>"

definition computeGUC :: "ID ptr \<Rightarrow> PolicyWithCohort \<Rightarrow> guc_error + computedGUC" where
  "computeGUC localID pc =
     (case Policy pc of
        None \<Rightarrow> Inl GErr_NilPolicy
      | Some policy \<Rightarrow>
     (case BuildSyncReplicationConfig policy (Cohort pc) localID of
        Inl err \<Rightarrow> Inl (GErr_Build err)
      | Inr cfg \<Rightarrow>
     (case ValidateSyncReplicationParams (wrap32 (NumSync cfg)) (SyncStandbyIDs cfg) of
        Inl err \<Rightarrow> Inl (GErr_Replica err)
      | Inr standbyNames \<Rightarrow>
          if standbyNames = [] then Inr no_computedGUC
          else case syncCommitString (SyncCommit cfg) of
             Inl err \<Rightarrow> Inl err
           | Inr wantCommit \<Rightarrow>
          (case BuildSynchronousStandbyNamesValue (SyncMethod cfg) (wrap32 (NumSync cfg)) standbyNames of
             Inl err \<Rightarrow> Inl (GErr_Replica err)
           | Inr wantStandby \<Rightarrow>
               Inr \<lparr>g_cfg = Some cfg, g_standbyNames = standbyNames, g_wantCommit = wantCommit,
                    g_wantStandby = wantStandby\<rparr>))))"

lemma syncCommitString_error: "syncCommitString l = Inl e \<Longrightarrow> (\<And>l. e = GErr_CommitLevel l \<Longrightarrow> P) \<Longrightarrow> P"
  by (cases l) auto

subsection \<open>Writing the settings\<close>

definition alter_commit :: "string \<Rightarrow> pg \<Rightarrow> string + pg \<times> unit" where
  "alter_commit val db = Inr (db\<lparr>pg_conf := (val, snd (pg_conf db))\<rparr>, ())"

definition alter_names :: "string \<Rightarrow> pg \<Rightarrow> string + pg \<times> unit" where
  "alter_names value db = Inr (db\<lparr>pg_conf := (fst (pg_conf db), value)\<rparr>, ())"

definition setSynchronousCommit ::
  "pg_env \<Rightarrow> SynchronousCommitLevel \<Rightarrow> ('z conn_scheme, guc_error, unit) op" where
  "setSynchronousCommit env level =
     and_then (lift_result (syncCommitString level)) (\<lambda>val.
       wrap_error (GErr_Query ''failed to set synchronous_commit'') (query env (alter_commit val)))"

definition setStandbyNames ::
  "pg_env \<Rightarrow> SynchronousMethod \<Rightarrow> int \<Rightarrow> ReplicaID list \<Rightarrow> ('z conn_scheme, guc_error, unit) op" where
  "setStandbyNames env method numSync names =
     and_then (wrap_error GErr_Replica (lift_result (BuildSynchronousStandbyNamesValue method numSync names))) (\<lambda>value.
       wrap_error (GErr_Query ''failed to set synchronous_standby_names'') (query env (alter_names value)))"

definition AssertPriorRuleWritesDrained :: "bool \<Rightarrow> guc_error option" where
  "AssertPriorRuleWritesDrained drained = (if drained then None else Some GErr_NotDrained)"

definition guc_cached :: "computedGUC \<Rightarrow> 'z ssm_scheme \<Rightarrow> bool" where
  "guc_cached g s \<longleftrightarrow> lastSyncCommit s = g_wantCommit g \<and> lastStandbyNames s = g_wantStandby g"

definition remember :: "string \<Rightarrow> string \<Rightarrow> 'z ssm_scheme \<Rightarrow> 'z ssm_scheme" where
  "remember commit names s = s\<lparr>lastSyncCommit := commit, lastStandbyNames := names\<rparr>"

definition apply_guc :: "pg_env \<Rightarrow> computedGUC \<Rightarrow> ('z ssm_scheme, guc_error, unit) op" where
  "apply_guc env g =
     (case g_cfg g of
        None \<Rightarrow> fail_with GErr_NilPolicy
      | Some cfg \<Rightarrow>
          and_then (setSynchronousCommit env (SyncCommit cfg)) (\<lambda>_.
          and_then (setStandbyNames env (SyncMethod cfg) (wrap32 (NumSync cfg)) (g_standbyNames g)) (\<lambda>_.
          and_then (reloadConfig env) (\<lambda>_.
          change_state (remember (g_wantCommit g) (g_wantStandby g))))))"

definition SetPolicy ::
  "pg_env \<Rightarrow> ActionLock \<Rightarrow> lock_ctx \<Rightarrow> bool \<Rightarrow> PolicyWithCohort \<Rightarrow> ('z ssm_scheme, guc_error, unit) op" where
  "SetPolicy env al ctx drained pc =
     and_then (check_none GErr_Lock (AssertActionLockHeld al ctx)) (\<lambda>_.
     and_then (check_none id (AssertPriorRuleWritesDrained drained)) (\<lambda>_.
     and_then (read_state ssm_localID) (\<lambda>localID.
     and_then (lift_result (computeGUC localID pc)) (\<lambda>g.
     if g_wantCommit g = '''' then fail_with GErr_NoStandbys
     else and_then (read_state (guc_cached g)) (\<lambda>unchanged.
       if unchanged then succeed () else apply_guc env g)))))"

definition NeedsApply :: "pg_env \<Rightarrow> PolicyWithCohort \<Rightarrow> ('z ssm_scheme, guc_error, bool) op" where
  "NeedsApply env pc =
     and_then (read_state ssm_localID) (\<lambda>localID.
     and_then (lift_result (computeGUC localID pc)) (\<lambda>g.
     and_then (attempt (query env (select pg_backend))) (\<lambda>result.
     case result of
       Inl err \<Rightarrow> read_state (\<lambda>s. \<not> guc_cached g s)
     | Inr live \<Rightarrow>
         and_then (change_state (remember (fst live) (snd live))) (\<lambda>_.
           succeed (live \<noteq> (g_wantCommit g, g_wantStandby g))))))"

definition Clear :: "pg_env \<Rightarrow> ActionLock \<Rightarrow> lock_ctx \<Rightarrow> ('z ssm_scheme, guc_error, unit) op" where
  "Clear env al ctx =
     and_then (check_none GErr_Lock (AssertActionLockHeld al ctx)) (\<lambda>_.
     and_then (wrap_error (GErr_Query ''could not verify recovery mode'') (query env (select pg_in_recovery))) (\<lambda>inRecovery.
     if \<not> inRecovery then fail_with GErr_NotInRecovery
     else and_then (wrap_error (GErr_Query ''failed to reset synchronous_standby_names'') (query env (alter_names ''''))) (\<lambda>_.
     and_then (reloadConfig env) (\<lambda>_.
     change_state (remember '''' '''')))))"

section \<open>What a successful write puts in force\<close>

definition in_force :: "settings \<Rightarrow> 'z conn_scheme \<Rightarrow> bool" where
  "in_force g s \<longleftrightarrow> pg_settings (c_pg s) = g \<and> pg_conf (c_pg s) = g"

text \<open>The manager's memory is empty or says what is configured and in force.\<close>

definition cache_coherent :: "'z ssm_scheme \<Rightarrow> bool" where
  "cache_coherent s \<longleftrightarrow> lastSyncCommit s = '''' \<or> in_force (lastSyncCommit s, lastStandbyNames s) s"

text \<open>The part of the state that the manager leaves alone.\<close>

definition ssm_frame :: "'z ssm_scheme \<Rightarrow> _" where
  "ssm_frame s = (pg_in_recovery (c_pg s), pg_current_rule (c_pg s), pg_rule_history (c_pg s), pg_wal (c_pg s),
     ssm_localID s, ssm.more s)"

lemma frame_conf [simp]: "ssm_frame (s\<lparr>c_pg := db\<lparr>pg_conf := x\<rparr>\<rparr>) = ssm_frame (s\<lparr>c_pg := db\<rparr>)"
  by (simp add: ssm_frame_def)

lemma frame_remember [simp]: "ssm_frame (remember x y s) = ssm_frame s"
  by (simp add: ssm_frame_def remember_def)

text \<open>The state between the change of the configuration and the load that takes it up.\<close>

definition awaiting :: "_ \<Rightarrow> settings \<Rightarrow> go_time \<Rightarrow> 'z ssm_scheme \<Rightarrow> bool" where
  "awaiting \<phi> g t s \<longleftrightarrow> ssm_frame s = \<phi> \<and> pg_conf (c_pg s) = g \<and>
     (pg_load_time (c_pg s) \<noteq> t \<longrightarrow> pg_settings (c_pg s) = g)"

lemma stable_frame: "stable (\<lambda>s. ssm_frame s = \<phi>)"
  by (simp add: stable_def ssm_frame_def quiet_step_def)

lemma stable_frame_conf: "stable (\<lambda>s. ssm_frame s = \<phi> \<and> Q (pg_conf (c_pg s)))"
  by (simp add: stable_def ssm_frame_def quiet_step_def)

lemma stable_awaiting: "stable (awaiting \<phi> g t)"
  by (auto simp: stable_def awaiting_def ssm_frame_def quiet_step_def)

lemma stable_in_force: "stable (in_force g)"
  by (auto simp: stable_def in_force_def quiet_step_def)

lemma poll_load_time_triple:
  assumes "env_quiet env"
  shows "triple (awaiting \<phi> g t) (poll_load_time env (\<lambda>u. u \<noteq> t) k)
    (\<lambda>_ s. ssm_frame s = \<phi> \<and> in_force g s) (\<lambda>s. ssm_frame s = \<phi>)"
proof (induction k)
  case 0
  show ?case by (simp add: triple_def fail_with_def awaiting_def)
next
  case (Suc k)
  have "triple (awaiting \<phi> g t) (readConfLoadTime env)
      (\<lambda>u s. awaiting \<phi> g t s \<and> u = pg_load_time (c_pg s)) (\<lambda>s. ssm_frame s = \<phi>)"
    unfolding readConfLoadTime_def
    by (rule triple_wrap, rule triple_conseq [OF triple_select [OF assms stable_awaiting]])
      (auto simp: awaiting_def)
  moreover have "triple (\<lambda>s. awaiting \<phi> g t s \<and> u = pg_load_time (c_pg s))
      (if u \<noteq> t then succeed u else poll_load_time env (\<lambda>u. u \<noteq> t) k)
      (\<lambda>_ s. ssm_frame s = \<phi> \<and> in_force g s) (\<lambda>s. ssm_frame s = \<phi>)" for u
  proof (rule triple_if)
    assume "u \<noteq> t"
    then show "triple (\<lambda>s. awaiting \<phi> g t s \<and> u = pg_load_time (c_pg s)) (succeed u)
        (\<lambda>_ s. ssm_frame s = \<phi> \<and> in_force g s) (\<lambda>s. ssm_frame s = \<phi>)"
      by (auto intro!: triple_succeed simp: awaiting_def in_force_def)
  qed (auto intro: triple_pre [OF Suc.IH])
  ultimately show ?case by (simp only: poll_load_time.simps) (rule triple_and_then)
qed

lemma reloadConfig_triple:
  assumes "env_quiet env"
  shows "triple (\<lambda>s. ssm_frame s = \<phi> \<and> pg_conf (c_pg s) = g) (reloadConfig env)
    (\<lambda>_ s. ssm_frame s = \<phi> \<and> in_force g s) (\<lambda>s. ssm_frame s = \<phi>)"
proof -
  have start: "triple (\<lambda>s. ssm_frame s = \<phi> \<and> pg_conf (c_pg s) = g) (readConfLoadTime env)
      (awaiting \<phi> g) (\<lambda>s. ssm_frame s = \<phi>)"
    unfolding readConfLoadTime_def
    by (rule triple_wrap, rule triple_conseq [OF triple_select [OF assms stable_frame_conf [of \<phi> "\<lambda>c. c = g"]]])
      (auto simp: awaiting_def)
  have signal: "triple (awaiting \<phi> g t) (wrap_error e (query env (select (\<lambda>db. ()))))
      (\<lambda>_. awaiting \<phi> g t) (\<lambda>s. ssm_frame s = \<phi>)" for t and e :: "string \<Rightarrow> guc_error"
    by (rule triple_wrap, rule triple_conseq [OF triple_select [OF assms stable_awaiting]])
      (auto simp: awaiting_def)
  show ?thesis
    unfolding reloadConfig_def ReloadPostgresConfig_def WaitForConfigReload_def option.case
    by (rule triple_and_then, rule triple_and_then [OF start], rule triple_and_then [OF signal],
        rule triple_and_then, rule triple_and_then, rule triple_read, assumption,
        rule poll_load_time_triple [OF assms], rule triple_succeed, assumption,
        rule triple_and_then, rule triple_read, assumption, rule triple_if)
      (auto intro!: triple_succeed triple_fail)
qed

subsection \<open>Errors of a change\<close>

text \<open>The errors after which the configuration may have changed: of a query, or of the wait for the reload.\<close>

definition config_error :: "guc_error \<Rightarrow> bool" where
  "config_error e \<longleftrightarrow> (\<exists>what msg. e = GErr_Query what msg) \<or> e = GErr_ReloadDeadline \<or> e = GErr_Cancelled"

definition change_failed :: "guc_error + 'a \<Rightarrow> bool" where
  "change_failed r \<longleftrightarrow> (\<exists>e. r = Inl e \<and> config_error e)"

definition errors_in :: "('e \<Rightarrow> bool) \<Rightarrow> ('s, 'e, 'a) op \<Rightarrow> bool" where
  "errors_in F m \<longleftrightarrow> (\<forall>s e s'. m s = (Inl e, s') \<longrightarrow> F e)"

lemma errors_and_then: "errors_in F m \<Longrightarrow> (\<And>x. errors_in F (k x)) \<Longrightarrow> errors_in F (and_then m k)"
  unfolding errors_in_def and_then_def by (auto split: prod.splits sum.splits)

lemma errors_plain:
  "errors_in F (succeed x)" "errors_in F (read_state f)" "F e \<Longrightarrow> errors_in F (fail_with e)"
  by (simp_all add: errors_in_def succeed_def read_state_def fail_with_def)

lemma errors_change: "errors_in F (change_state f)"
  by (simp add: errors_in_def change_state_def)

lemma errors_wrap_query: "errors_in config_error (wrap_error (GErr_Query what) m)"
  by (auto simp: errors_in_def wrap_error_def config_error_def split: prod.splits sum.splits)

lemma poll_errors: "errors_in config_error (poll_load_time env P k)"
proof (induction k)
  case 0
  show ?case by (simp add: errors_plain config_error_def)
next
  case (Suc k)
  then show ?case
    unfolding poll_load_time.simps readConfLoadTime_def
    by (intro errors_and_then errors_wrap_query) (simp add: errors_plain)
qed

lemma reloadConfig_errors: "errors_in config_error (reloadConfig env)"
  unfolding reloadConfig_def ReloadPostgresConfig_def WaitForConfigReload_def readConfLoadTime_def option.case
  by (intro errors_and_then errors_wrap_query poll_errors errors_plain) (simp add: errors_plain config_error_def)

subsection \<open>Applying a policy\<close>

text \<open>The values of the two settings for a configuration that names standbys.\<close>

definition settings_of :: "SyncReplicationConfig \<Rightarrow> settings \<Rightarrow> bool" where
  "settings_of cfg g \<longleftrightarrow> (\<exists>names. names \<noteq> [] \<and>
     ValidateSyncReplicationParams (wrap32 (NumSync cfg)) (SyncStandbyIDs cfg) = Inr names \<and>
     syncCommitString (SyncCommit cfg) = Inr (fst g) \<and>
     BuildSynchronousStandbyNamesValue (SyncMethod cfg) (wrap32 (NumSync cfg)) names = Inr (snd g))"

text \<open>The settings of a policy with its cohort, for the local pooler as primary.\<close>

definition policy_settings :: "ID ptr \<Rightarrow> PolicyWithCohort \<Rightarrow> settings \<Rightarrow> bool" where
  "policy_settings localID pc g \<longleftrightarrow> (\<exists>policy cfg. Policy pc = Some policy \<and>
     BuildSyncReplicationConfig policy (Cohort pc) localID = Inr cfg \<and> settings_of cfg g)"

lemma computeGUC_InrD:
  assumes "computeGUC localID pc = Inr g" "g_wantCommit g \<noteq> ''''"
  obtains cfg where "g_cfg g = Some cfg" "syncCommitString (SyncCommit cfg) = Inr (g_wantCommit g)"
    "BuildSynchronousStandbyNamesValue (SyncMethod cfg) (wrap32 (NumSync cfg)) (g_standbyNames g) =
       Inr (g_wantStandby g)"
    "policy_settings localID pc (g_wantCommit g, g_wantStandby g)"
  using assms
  by (fastforce simp: computeGUC_def no_computedGUC_def policy_settings_def settings_of_def
      split: option.splits sum.splits if_splits)

lemma apply_guc_triple:
  assumes "env_quiet env" "g_cfg g = Some cfg" "syncCommitString (SyncCommit cfg) = Inr (g_wantCommit g)"
    "BuildSynchronousStandbyNamesValue (SyncMethod cfg) (wrap32 (NumSync cfg)) (g_standbyNames g) =
       Inr (g_wantStandby g)"
  shows "triple (\<lambda>s. ssm_frame s = \<phi>) (apply_guc env g)
    (\<lambda>_ s. ssm_frame s = \<phi> \<and> in_force (g_wantCommit g, g_wantStandby g) s \<and> cache_coherent s)
    (\<lambda>s. ssm_frame s = \<phi>)"
proof -
  have commit: "triple (\<lambda>s. ssm_frame s = \<phi>) (query env (alter_commit v))
      (\<lambda>_ s. ssm_frame s = \<phi> \<and> fst (pg_conf (c_pg s)) = v) (\<lambda>s. ssm_frame s = \<phi>)" for v
    by (rule triple_stmt [OF assms(1) stable_frame]) (auto simp: alter_commit_def)
  have names: "triple (\<lambda>s. ssm_frame s = \<phi> \<and> fst (pg_conf (c_pg s)) = v) (query env (alter_names w))
      (\<lambda>_ s. ssm_frame s = \<phi> \<and> pg_conf (c_pg s) = (v, w)) (\<lambda>s. ssm_frame s = \<phi>)" for v w
    by (rule triple_stmt [OF assms(1) stable_frame_conf [of \<phi> "\<lambda>c. fst c = v"]]) (auto simp: alter_names_def)
  have stored: "triple (\<lambda>s. ssm_frame s = \<phi> \<and> in_force (g_wantCommit g, g_wantStandby g) s)
      (change_state (remember (g_wantCommit g) (g_wantStandby g)))
      (\<lambda>_ s. ssm_frame s = \<phi> \<and> in_force (g_wantCommit g, g_wantStandby g) s \<and> cache_coherent s) E" for E
    by (rule triple_change) (auto simp: remember_def cache_coherent_def in_force_def ssm_frame_def)
  show ?thesis
    unfolding apply_guc_def setSynchronousCommit_def setStandbyNames_def assms(2,3,4) option.case op_known
    by (rule triple_and_then [OF triple_wrap [OF commit]], rule triple_and_then [OF triple_wrap [OF names]],
        rule triple_and_then [OF reloadConfig_triple [OF assms(1)] stored])
qed

lemma apply_guc_errors:
  assumes "g_cfg g = Some cfg" "syncCommitString (SyncCommit cfg) = Inr (g_wantCommit g)"
    "BuildSynchronousStandbyNamesValue (SyncMethod cfg) (wrap32 (NumSync cfg)) (g_standbyNames g) = Inr (g_wantStandby g)"
  shows "errors_in config_error (apply_guc env g)"
  unfolding apply_guc_def setSynchronousCommit_def setStandbyNames_def assms option.case op_known
  by (intro errors_and_then errors_wrap_query reloadConfig_errors errors_change)

lemma apply_guc_remembers:
  assumes "apply_guc env g s = (Inr u, s')" "g_cfg g = Some cfg"
  shows "lastSyncCommit s' = g_wantCommit g \<and> lastStandbyNames s' = g_wantStandby g"
  using assms by (auto simp: apply_guc_def and_then_def change_state_def remember_def split: prod.splits sum.splits)

lemma computeGUC_error: "computeGUC i pc = Inl e \<Longrightarrow> \<not> change_failed (Inl e)"
  by (auto simp: computeGUC_def change_failed_def config_error_def split: option.splits sum.splits if_splits
      elim: syncCommitString_error)

definition policy_in_force :: "PolicyWithCohort \<Rightarrow> 'z ssm_scheme \<Rightarrow> bool" where
  "policy_in_force pc s \<longleftrightarrow> (\<exists>g. policy_settings (ssm_localID s) pc g \<and> in_force g s)"

text \<open>A call of \<open>SetPolicy\<close> computes the settings and skips them, applies them, or fails before it touches postgres.\<close>

lemma SetPolicy_cases:
  assumes "SetPolicy env al ctx drained pc s = (r, s')"
  obtains (refused) e where "r = Inl e" "s' = s" "\<not> change_failed r"
  | (skipped) g where "r = Inr ()" "s' = s" "policy_settings (ssm_localID s) pc g" "g = (lastSyncCommit s, lastStandbyNames s)"
      "fst g \<noteq> ''''" "drained" "AssertActionLockHeld al ctx = None"
  | (applied) g cfg where "apply_guc env g s = (r, s')" "g_cfg g = Some cfg"
      "syncCommitString (SyncCommit cfg) = Inr (g_wantCommit g)"
      "BuildSynchronousStandbyNamesValue (SyncMethod cfg) (wrap32 (NumSync cfg)) (g_standbyNames g) = Inr (g_wantStandby g)"
      "policy_settings (ssm_localID s) pc (g_wantCommit g, g_wantStandby g)"
      "drained" "AssertActionLockHeld al ctx = None" "(lastSyncCommit s, lastStandbyNames s) \<noteq> (g_wantCommit g, g_wantStandby g)"
proof -
  note unfold = SetPolicy_def and_then_def check_none_def read_state_def lift_result_def fail_with_def succeed_def
    AssertPriorRuleWritesDrained_def
  show thesis
  proof (cases "AssertActionLockHeld al ctx = None \<and> drained")
    case False
    with assms refused show thesis by (auto simp: unfold change_failed_def config_error_def split: option.splits if_splits)
  next
    case ok: True
    show thesis
    proof (cases "computeGUC (ssm_localID s) pc")
      case (Inl e)
      with assms ok computeGUC_error [OF Inl] refused show thesis by (auto simp: unfold)
    next
      case (Inr g)
      show thesis
      proof (cases "g_wantCommit g = ''''")
        case True
        with assms ok Inr refused show thesis by (auto simp: unfold change_failed_def config_error_def)
      next
        case False
        obtain cfg where cfg: "g_cfg g = Some cfg" "syncCommitString (SyncCommit cfg) = Inr (g_wantCommit g)"
          "BuildSynchronousStandbyNamesValue (SyncMethod cfg) (wrap32 (NumSync cfg)) (g_standbyNames g) = Inr (g_wantStandby g)"
          "policy_settings (ssm_localID s) pc (g_wantCommit g, g_wantStandby g)"
          using computeGUC_InrD [OF Inr False] .
        show thesis
        proof (cases "guc_cached g s")
          case True
          with assms ok Inr False cfg show thesis
            by (intro skipped [of "(g_wantCommit g, g_wantStandby g)"]) (auto simp: unfold guc_cached_def)
        next
          case not_cached: False
          with assms ok Inr False cfg show thesis
            by (intro applied [of g cfg]) (auto simp: unfold guc_cached_def)
        qed
      qed
    qed
  qed
qed

lemma SetPolicy_triple:
  assumes "env_quiet env"
  shows "triple (\<lambda>s. ssm_frame s = \<phi> \<and> cache_coherent s) (SetPolicy env al ctx drained pc)
    (\<lambda>_ s. ssm_frame s = \<phi> \<and> cache_coherent s \<and> policy_in_force pc s \<and> drained \<and>
      AssertActionLockHeld al ctx = None)
    (\<lambda>s. ssm_frame s = \<phi>)"
proof (rule tripleI)
  fix s u s' assume s: "ssm_frame s = \<phi> \<and> cache_coherent s" and run: "SetPolicy env al ctx drained pc s = (Inr u, s')"
  from run show "ssm_frame s' = \<phi> \<and> cache_coherent s' \<and> policy_in_force pc s' \<and> drained \<and> AssertActionLockHeld al ctx = None"
  proof (cases rule: SetPolicy_cases)
    case (skipped g)
    with s show ?thesis by (auto simp: cache_coherent_def policy_in_force_def)
  next
    case (applied g cfg)
    from triple_InrD [OF apply_guc_triple [OF assms applied(2-4)] applied(1) conjunct1 [OF s]]
    have post: "ssm_frame s' = \<phi> \<and> in_force (g_wantCommit g, g_wantStandby g) s' \<and> cache_coherent s'" .
    moreover have "ssm_localID s' = ssm_localID s" using post s by (auto simp: ssm_frame_def)
    ultimately show ?thesis using applied(5-7) by (auto simp: policy_in_force_def)
  qed simp
next
  fix s e s' assume s: "ssm_frame s = \<phi> \<and> cache_coherent s" and run: "SetPolicy env al ctx drained pc s = (Inl e, s')"
  from run show "ssm_frame s' = \<phi>"
  proof (cases rule: SetPolicy_cases)
    case (applied g cfg)
    from triple_InlD [OF apply_guc_triple [OF assms applied(2-4)] applied(1) conjunct1 [OF s]] show ?thesis .
  qed (use s in auto)
qed

subsection \<open>What the memory is worth\<close>

text \<open>
  The life of a manager in which no change of the settings has failed. It starts with an empty memory on
  a server that has loaded its configuration, sets policies, reads the settings on a backend that has
  taken them up, and clears the standby names; in between, others leave its memory and the configuration
  alone. A call that is refused before it reaches postgres counts as no failure.
\<close>

inductive settings_history :: "'z ssm_scheme \<Rightarrow> bool" where
  starts: "pg_conf (c_pg s) = pg_settings (c_pg s) \<Longrightarrow> lastSyncCommit s = '''' \<Longrightarrow> settings_history s"
| others: "settings_history s \<Longrightarrow> lastSyncCommit s' = lastSyncCommit s \<Longrightarrow> lastStandbyNames s' = lastStandbyNames s \<Longrightarrow>
    pg_conf (c_pg s') = pg_conf (c_pg s) \<Longrightarrow> pg_settings (c_pg s') \<in> {pg_settings (c_pg s), pg_conf (c_pg s)} \<Longrightarrow>
    settings_history s'"
| sets: "settings_history s \<Longrightarrow> env_quiet env \<Longrightarrow> SetPolicy env al ctx drained pc s = (r, s') \<Longrightarrow> \<not> change_failed r \<Longrightarrow>
    settings_history s'"
| reads: "settings_history s \<Longrightarrow> env_quiet env \<Longrightarrow> backends_reloaded env \<Longrightarrow> NeedsApply env pc s = (b, s') \<Longrightarrow>
    settings_history s'"
| clears: "settings_history s \<Longrightarrow> env_quiet env \<Longrightarrow> Clear env al ctx s = (r, s') \<Longrightarrow> \<not> change_failed r \<Longrightarrow>
    settings_history s'"

definition settings_known :: "'z ssm_scheme \<Rightarrow> bool" where
  "settings_known s \<longleftrightarrow> pg_conf (c_pg s) = pg_settings (c_pg s) \<and> cache_coherent s"

lemma stable_known: "stable settings_known"
  by (auto simp: stable_def settings_known_def cache_coherent_def in_force_def quiet_step_def)

lemma known_quiet:
  "env_quiet env \<Longrightarrow> settings_known s \<Longrightarrow>
     settings_known (s\<lparr>c_pg := env_before env n (c_pg s), c_queries := m\<rparr>)"
  by (rule stableD [OF stable_known env_quietD])

lemma SetPolicy_known:
  assumes "settings_known s" "env_quiet env" "SetPolicy env al ctx drained pc s = (r, s')" "\<not> change_failed r"
  shows "settings_known s'"
  using assms(3)
proof (cases rule: SetPolicy_cases)
  case (applied g cfg)
  have "r = Inr (projr r)"
    using apply_guc_errors [OF applied(2-4)] applied(1) assms(4) by (cases r) (auto simp: errors_in_def change_failed_def)
  then obtain u where "apply_guc env g s = (Inr u, s')" using applied(1) by metis
  from triple_InrD [OF apply_guc_triple [OF assms(2) applied(2-4)] this refl] show ?thesis
    by (auto simp: settings_known_def in_force_def)
qed (use assms(1) in auto)

lemma NeedsApply_known:
  assumes "settings_known s" "env_quiet env" "backends_reloaded env" "NeedsApply env pc s = (b, s')"
  shows "settings_known s'"
proof (cases "computeGUC (ssm_localID s) pc")
  case (Inl e)
  with assms show ?thesis by (auto simp: NeedsApply_def and_then_def read_state_def lift_result_def fail_with_def)
next
  case (Inr g)
  let ?db = "env_before env (c_queries s) (c_pg s)"
  let ?t = "s\<lparr>c_pg := ?db, c_queries := Suc (c_queries s)\<rparr>"
  have t: "settings_known ?t" by (rule known_quiet [OF assms(2,1)])
  have read: "pg_backend ?db = pg_settings ?db" using assms(3) by (simp add: backends_reloaded_def)
  then have "settings_known (remember (fst (pg_backend ?db)) (snd (pg_backend ?db)) ?t)"
    using t by (auto simp: settings_known_def cache_coherent_def in_force_def remember_def)
  then have "s' = ?t \<or> settings_known s'"
    using assms(4) Inr
    by (auto simp: NeedsApply_def and_then_def read_state_def lift_result_def attempt_def query_def select_def
        change_state_def succeed_def Let_def split: query_outcome.splits)
  with t show ?thesis by blast
qed

lemma Clear_known:
  assumes "settings_known s" "env_quiet env" "Clear env al ctx s = (r, s')" "\<not> change_failed r"
  shows "settings_known s'"
proof (cases r)
  case (Inl e)
  note errors = errors_and_then [OF errors_wrap_query] reloadConfig_errors
  show ?thesis
  proof (cases "AssertActionLockHeld al ctx")
    case (Some err)
    with assms Inl show ?thesis by (auto simp: Clear_def and_then_def check_none_def fail_with_def)
  next
    case None
    let ?t = "s\<lparr>c_pg := env_before env (c_queries s) (c_pg s), c_queries := Suc (c_queries s)\<rparr>"
    let ?rest = "and_then (wrap_error (GErr_Query ''failed to reset synchronous_standby_names'') (query env (alter_names ''''))) (\<lambda>_.
        and_then (reloadConfig env) (\<lambda>_. change_state (remember '''' '''')))"
    have "errors_in config_error ?rest"
      by (intro errors_and_then errors_wrap_query reloadConfig_errors errors_change)
    then have "e = GErr_NotInRecovery \<and> s' = ?t \<or> config_error e"
      using assms(3) None Inl
      by (auto simp: Clear_def and_then_def [of "wrap_error _ (query env (select pg_in_recovery))"] and_then_def [of "check_none _ _"]
          check_none_def wrap_error_def [of _ "query env (select pg_in_recovery)"] query_def [of env "select pg_in_recovery"]
          select_def fail_with_def errors_in_def config_error_def Let_def split: query_outcome.splits if_splits)
    then show ?thesis using assms(4) Inl known_quiet [OF assms(2,1)] by (auto simp: change_failed_def)
  qed
next
  case (Inr u)
  have any: "triple (\<lambda>_. True) m (\<lambda>_ _. True) (\<lambda>_. True)" for m :: "('a ssm_scheme, guc_error, 'b) op"
    by (rule tripleI) simp_all
  have reload: "triple (\<lambda>_. True) (reloadConfig env) (\<lambda>_ t. pg_conf (c_pg t) = pg_settings (c_pg t)) (\<lambda>_ :: 'a ssm_scheme. True)"
  proof (rule tripleI)
    fix t x t' assume "reloadConfig env t = (Inr x, t' :: 'a ssm_scheme)"
    from triple_InrD [OF reloadConfig_triple [OF assms(2), of "ssm_frame t" "pg_conf (c_pg t)"] this]
    show "pg_conf (c_pg t') = pg_settings (c_pg t')" by (simp add: in_force_def)
  qed simp
  have stored: "triple (\<lambda>t. pg_conf (c_pg t) = pg_settings (c_pg t)) (change_state (remember '''' '''')) (\<lambda>_ t. settings_known t)
      (\<lambda>_ :: 'a ssm_scheme. True)"
    by (rule triple_change) (simp add: settings_known_def cache_coherent_def remember_def)
  have "triple (\<lambda>_ :: 'a ssm_scheme. True) (Clear env al ctx) (\<lambda>_ t. settings_known t) (\<lambda>_. True)"
    unfolding Clear_def
    by (rule triple_and_then [OF any], rule triple_and_then [OF any], rule triple_if, rule triple_fail, simp,
        rule triple_and_then [OF any], rule triple_and_then [OF reload stored])
  from triple_InrD [OF this] assms(3) Inr show ?thesis by blast
qed

lemma settings_history_known: "settings_history s \<Longrightarrow> settings_known s"
proof (induction rule: settings_history.induct)
  case (starts s)
  then show ?case by (simp add: settings_known_def cache_coherent_def)
next
  case (others s s')
  then show ?case by (auto simp: settings_known_def cache_coherent_def in_force_def)
qed (blast intro: SetPolicy_known NeedsApply_known Clear_known)+

lemma settings_history_coherent: "settings_history s \<Longrightarrow> cache_coherent s"
  using settings_history_known by (auto simp: settings_known_def)


subsection \<open>Where the memory of the manager is not enough\<close>

text \<open>
  A policy that one pooler satisfies gives the setting \<open>local\<close> and no standbys, and \<open>SetPolicy\<close>
  refuses it, so no rule can be written under it.
\<close>

lemma at_least_one_refused:
  assumes "Policy pc = Some (AtLeastNPolicy 1)"
  shows "\<exists>e. fst (SetPolicy env al ctx drained pc s) = Inl e"
proof -
  have "g_wantCommit g = ''''" if "computeGUC i pc = Inr g" for i g
    using that assms
    by (auto simp: computeGUC_def no_computedGUC_def ValidateSyncReplicationParams_def split: option.splits sum.splits if_splits)
  then show ?thesis
    by (auto simp: SetPolicy_def and_then_def check_none_def read_state_def lift_result_def fail_with_def
        split: option.splits sum.splits)
qed

lemma policy_settings_unique: "policy_settings i pc g \<Longrightarrow> policy_settings i pc h \<Longrightarrow> g = h"
  by (auto simp: policy_settings_def settings_of_def prod_eq_iff)

lemma policy_settings_computeGUC:
  "computeGUC i pc = Inr g \<Longrightarrow> g_wantCommit g \<noteq> '''' \<Longrightarrow> policy_settings i pc (g_wantCommit g, g_wantStandby g)"
  by (metis computeGUC_InrD)

definition ex_pc :: "int \<Rightarrow> PolicyWithCohort" where
  "ex_pc n = \<lparr>Policy = Some (AtLeastNPolicy n), Cohort = [ex_a, ex_b, ex_c]\<rparr>"

definition ex_names :: "string \<Rightarrow> settings" where
  "ex_names n = (''on'', ''ANY '' @ n @ '' ('' @ FormatStandbyList (fst (ToReplicaIDs [ex_a, ex_b, ex_c])) @ '')'')"

definition ex_pg :: pg where
  "ex_pg = \<lparr>pg_in_recovery = False, pg_lsn = ''10'', pg_clock = 0, pg_current_rule = None, pg_rule_history = None,
     pg_conf = ex_names ''2'', pg_settings = ex_names ''2'', pg_backend = ex_names ''2'', pg_load_time = 0, pg_wal = []\<rparr>"

definition ex_ssm :: ssm where
  "ex_ssm = \<lparr>c_pg = ex_pg, c_queries = 0, ssm_localID = ex_a, lastSyncCommit = fst (ex_names ''2''),
     lastStandbyNames = snd (ex_names ''2'')\<rparr>"

text \<open>The postmaster loads the configuration before every query; the query \<open>k\<close> fails.\<close>

definition ex_load :: "pg \<Rightarrow> pg" where
  "ex_load db = db\<lparr>pg_settings := pg_conf db, pg_backend := pg_conf db, pg_load_time := pg_load_time db + 1\<rparr>"

definition ex_guc_env :: "nat \<Rightarrow> pg_env" where
  "ex_guc_env k = \<lparr>env_before = \<lambda>n. ex_load, env_outcome = \<lambda>n. if n = k then QueryFailed ''connection lost'' else QueryDone,
     env_polls = \<lambda>n. 1, env_cancelled = \<lambda>n. False, env_now = \<lambda>n. 0, env_timestamptz = \<lambda>t. t div 1000 * 1000\<rparr>"

lemma ex_guc_env_quiet: "env_quiet (ex_guc_env k)"
  by (simp add: env_quiet_def ex_guc_env_def quiet_step_def ex_load_def)

lemma ex_guc_env_reloaded: "backends_reloaded (ex_guc_env k)"
  by (simp add: backends_reloaded_def ex_guc_env_def ex_load_def)

lemma ex_computeGUC:
  "computeGUC ex_a (ex_pc 3) = Inr \<lparr>g_cfg = Some \<lparr>SyncCommit = SYNCHRONOUS_COMMIT_ON,
     SyncMethod = SYNCHRONOUS_METHOD_ANY, NumSync = 2, SyncStandbyIDs = [ex_a, ex_b, ex_c]\<rparr>,
     g_standbyNames = fst (ToReplicaIDs [ex_a, ex_b, ex_c]), g_wantCommit = ''on'', g_wantStandby = snd (ex_names ''2'')\<rparr>"
  "computeGUC ex_a (ex_pc 2) = Inr \<lparr>g_cfg = Some \<lparr>SyncCommit = SYNCHRONOUS_COMMIT_ON,
     SyncMethod = SYNCHRONOUS_METHOD_ANY, NumSync = 1, SyncStandbyIDs = [ex_a, ex_b, ex_c]\<rparr>,
     g_standbyNames = fst (ToReplicaIDs [ex_a, ex_b, ex_c]), g_wantCommit = ''on'', g_wantStandby = snd (ex_names ''1'')\<rparr>"
  by code_simp+

lemma ex_ssm_coherent: "cache_coherent ex_ssm"
  by (simp add: cache_coherent_def in_force_def ex_ssm_def ex_pg_def)

text \<open>A new manager sets AT_LEAST_2, and sets it again: the second call writes nothing.\<close>

definition ex_new_ssm :: ssm where
  "ex_new_ssm = ex_ssm\<lparr>lastSyncCommit := '''', lastStandbyNames := ''''\<rparr>"

definition ex_set_twice :: "(guc_error + unit) \<times> ssm" where
  "ex_set_twice = SetPolicy (ex_guc_env 99) ex_locked (Some ex_value) True (ex_pc 2)
     (snd (SetPolicy (ex_guc_env 99) ex_locked (Some ex_value) True (ex_pc 2) ex_new_ssm))"


text \<open>
  The memory is not invalidated when an attempt fails after the configuration was changed. A pooler
  under AT_LEAST_3 fails to confirm the change to AT_LEAST_2 although postgres has loaded it; the next
  \<open>SetPolicy\<close> back to AT_LEAST_3 succeeds without writing anything, with AT_LEAST_2 in force.
\<close>

theorem stale_policy_memory:
  "let (r, s) = SetPolicy (ex_guc_env 4) ex_locked (Some ex_value) True (ex_pc 2) ex_ssm;
       (r', s') = SetPolicy (ex_guc_env 4) ex_locked (Some ex_value) True (ex_pc 3) s
   in cache_coherent ex_ssm \<and> r \<noteq> Inr () \<and> r' = Inr () \<and>
      policy_in_force (ex_pc 2) s' \<and> \<not> policy_in_force (ex_pc 3) s'"
proof -
  define s where "s = snd (SetPolicy (ex_guc_env 4) ex_locked (Some ex_value) True (ex_pc 2) ex_ssm)"
  define s' where "s' = snd (SetPolicy (ex_guc_env 4) ex_locked (Some ex_value) True (ex_pc 3) s)"
  have r: "fst (SetPolicy (ex_guc_env 4) ex_locked (Some ex_value) True (ex_pc 2) ex_ssm) \<noteq> Inr ()"
    by code_simp
  have r': "fst (SetPolicy (ex_guc_env 4) ex_locked (Some ex_value) True (ex_pc 3) s) = Inr ()"
    unfolding s_def by code_simp
  have st: "ssm_localID s' = ex_a" "pg_settings (c_pg s') = ex_names ''1''" "pg_conf (c_pg s') = ex_names ''1''"
    unfolding s'_def s_def by code_simp+
  have names: "ex_names ''1'' = (''on'', snd (ex_names ''1''))" "ex_names ''1'' \<noteq> (''on'', snd (ex_names ''2''))"
    by code_simp+
  have two: "policy_settings ex_a (ex_pc 2) (''on'', snd (ex_names ''1''))"
    and three: "policy_settings ex_a (ex_pc 3) (''on'', snd (ex_names ''2''))"
    using policy_settings_computeGUC [OF ex_computeGUC(2)] policy_settings_computeGUC [OF ex_computeGUC(1)] by simp_all
  have "policy_in_force (ex_pc 2) s'"
    unfolding policy_in_force_def in_force_def st using two names(1) by (intro exI [of _ "ex_names ''1''"]) simp
  moreover have "\<not> policy_in_force (ex_pc 3) s'"
    using policy_settings_unique [OF three] st names(2) by (auto simp: policy_in_force_def in_force_def)
  ultimately show ?thesis
    using r r' ex_ssm_coherent by (simp add: s_def s'_def Let_def case_prod_beta)
qed

end
