(* ===== verification/Rule_Store.thy ===== *)
theory Rule_Store
  imports Sync_Standby Rule_Compare
begin

text \<open>
  The rule store of a pooler (go/services/multipooler/internal/manager/consensus/rule_store.go): the
  tables \<open>multigres.current_rule\<close> and \<open>multigres.rule_history\<close>, reading the position from them, and
  the two-phase write of a rule. \<open>UpdateRule\<close> writes the new rule as a proposal under settings that
  satisfy the outgoing and the incoming policy, then decides it, then applies the incoming settings; a
  proposal left undecided by an earlier writer is decided first, exactly as it stands.

  Each SQL statement is a function on the server (a data-modifying WITH runs all its parts, and the
  rows it returns say whether its comparisons matched). The promotion hook of an update is an
  operation on the store. \<open>rs_acked\<close> holds the proofs passed to \<open>onProposalAcked\<close>.
\<close>

datatype rule_error =
    RSErr_Lock lock_error
  | RSErr_Query string string
  | RSErr_NoRow
  | RSErr_PartialRow nat
  | RSErr_LeaderID id_error
  | RSErr_CohortID id_error
  | RSErr_AcceptedID id_error
  | RSErr_QuorumType string
  | RSErr_NoDecision
  | RSErr_CoordinatorID id_error
  | RSErr_Conflict
  | RSErr_TermTooOld int int
  | RSErr_LeaderChange "ID ptr" "ID ptr"
  | RSErr_InvalidPolicy
  | RSErr_Policy durability_error
  | RSErr_CannotAchieve durability_error
  | RSErr_Transition durability_error
  | RSErr_NoDecisionPolicy
  | RSErr_NoProposalPolicy
  | RSErr_NoCoordinator
  | RSErr_NoCreatedAt
  | RSErr_NoBootstrapPolicy
  | RSErr_NoBootstrapID
  | RSErr_Undecided
  | RSErr_Replica string replica_error
  | RSErr_GUC string guc_error
  | RSErr_Hook string
  | RSErr_LSN string

record ruleStore = ssm +
  rs_lastPos :: "PoolerPosition ptr"
  rs_hasAckHook :: bool
  rs_acked :: "(lsn \<times> go_time) list"
  rs_proofRefreshAfter :: duration

definition defaultProofRefreshAfter :: duration where
  "defaultProofRefreshAfter = 10000000000"

text \<open>A new store on a server, with a new manager of the standbys for the local pooler.\<close>

definition NewRuleStore :: "pg \<Rightarrow> ID ptr \<Rightarrow> ruleStore" where
  "NewRuleStore db localID =
     \<lparr>c_pg = db, c_queries = 0, ssm_localID = localID, lastSyncCommit = '''', lastStandbyNames = '''',
      rs_lastPos = None, rs_hasAckHook = False, rs_acked = [], rs_proofRefreshAfter = defaultProofRefreshAfter\<rparr>"

subsection \<open>Builder of an update\<close>

record RuleUpdateBuilder =
  ub_termNumber :: int
  ub_coordinatorID :: "ID ptr"
  ub_eventType :: string
  ub_reason :: string
  ub_createdAt :: go_time
  ub_leaderID :: "ID ptr"
  ub_cohortMembers :: "ID ptr list ptr"
  ub_durabilityPolicy :: "DurabilityPolicyPb ptr"
  ub_walPosition :: string
  ub_operation :: string
  ub_acceptedMembers :: "ID ptr list"
  ub_force :: bool
  ub_skipOutgoingQuorum :: bool
  ub_previousRule :: "(int \<times> int) ptr"
  ub_promotionHook :: "(ruleStore, string, unit) op ptr"

definition NewRuleUpdate :: "int \<Rightarrow> ID ptr \<Rightarrow> string \<Rightarrow> string \<Rightarrow> go_time \<Rightarrow> RuleUpdateBuilder" where
  "NewRuleUpdate termNumber coordinatorID eventType reason createdAt =
     \<lparr>ub_termNumber = termNumber, ub_coordinatorID = coordinatorID, ub_eventType = eventType,
      ub_reason = reason, ub_createdAt = createdAt, ub_leaderID = None, ub_cohortMembers = None,
      ub_durabilityPolicy = None, ub_walPosition = '''', ub_operation = '''', ub_acceptedMembers = [],
      ub_force = False, ub_skipOutgoingQuorum = False, ub_previousRule = None, ub_promotionHook = None\<rparr>"

definition WithLeader :: "ID ptr \<Rightarrow> RuleUpdateBuilder \<Rightarrow> RuleUpdateBuilder" where
  "WithLeader i b = b\<lparr>ub_leaderID := i\<rparr>"

definition WithCohort :: "ID ptr list ptr \<Rightarrow> RuleUpdateBuilder \<Rightarrow> RuleUpdateBuilder" where
  "WithCohort members b = b\<lparr>ub_cohortMembers := members\<rparr>"

definition WithWALPosition :: "string \<Rightarrow> RuleUpdateBuilder \<Rightarrow> RuleUpdateBuilder" where
  "WithWALPosition pos b = b\<lparr>ub_walPosition := pos\<rparr>"

definition WithPromotionHook :: "(ruleStore, string, unit) op ptr \<Rightarrow> RuleUpdateBuilder \<Rightarrow> RuleUpdateBuilder" where
  "WithPromotionHook fn b = b\<lparr>ub_promotionHook := fn\<rparr>"

definition WithOperation :: "string \<Rightarrow> RuleUpdateBuilder \<Rightarrow> RuleUpdateBuilder" where
  "WithOperation op b = b\<lparr>ub_operation := op\<rparr>"

definition WithAcceptedMembers :: "ID ptr list \<Rightarrow> RuleUpdateBuilder \<Rightarrow> RuleUpdateBuilder" where
  "WithAcceptedMembers members b = b\<lparr>ub_acceptedMembers := members\<rparr>"

definition WithDurabilityPolicy :: "DurabilityPolicyPb ptr \<Rightarrow> RuleUpdateBuilder \<Rightarrow> RuleUpdateBuilder" where
  "WithDurabilityPolicy policy b = b\<lparr>ub_durabilityPolicy := policy\<rparr>"

definition WithForce :: "RuleUpdateBuilder \<Rightarrow> RuleUpdateBuilder" where
  "WithForce b = b\<lparr>ub_force := True\<rparr>"

definition WithSkipOutgoingQuorum :: "RuleUpdateBuilder \<Rightarrow> RuleUpdateBuilder" where
  "WithSkipOutgoingQuorum b = b\<lparr>ub_skipOutgoingQuorum := True\<rparr>"

definition WithPreviousRule :: "int \<Rightarrow> int \<Rightarrow> RuleUpdateBuilder \<Rightarrow> RuleUpdateBuilder" where
  "WithPreviousRule coordinatorTerm leaderSubterm b = b\<lparr>ub_previousRule := Some (coordinatorTerm, leaderSubterm)\<rparr>"

subsection \<open>Rows and rules\<close>

text \<open>\<open>QuorumType.String\<close> and the map from names to values that protobuf generates.\<close>

primrec QuorumType_String :: "QuorumType \<Rightarrow> string" where
  "QuorumType_String QUORUM_TYPE_UNKNOWN = ''QUORUM_TYPE_UNKNOWN''"
| "QuorumType_String QUORUM_TYPE_AT_LEAST_N = ''QUORUM_TYPE_AT_LEAST_N''"
| "QuorumType_String QUORUM_TYPE_MULTI_CELL_AT_LEAST_N = ''QUORUM_TYPE_MULTI_CELL_AT_LEAST_N''"
| "QuorumType_String (QuorumTypeUnrecognized n) = show_int n"

definition QuorumType_value :: "string \<Rightarrow> QuorumType option" where
  "QuorumType_value s =
     find (\<lambda>q. QuorumType_String q = s)
       [QUORUM_TYPE_UNKNOWN, QUORUM_TYPE_AT_LEAST_N, QUORUM_TYPE_MULTI_CELL_AT_LEAST_N]"

text \<open>\<open>timestamppb.New\<close>.\<close>

definition timestamppb_New :: "go_time \<Rightarrow> Timestamp ptr" where
  "timestamppb_New t = Some \<lparr>ts_seconds = t div 1000000000, ts_nanos = t mod 1000000000\<rparr>"

primrec appNamesToIDs :: "string list \<Rightarrow> id_error + ID ptr list" where
  "appNamesToIDs [] = Inr []"
| "appNamesToIDs (name # names) =
     (case ParseApplicationName name of
        Inl err \<Rightarrow> Inl err
      | Inr i \<Rightarrow> map_sum id (Cons i) (appNamesToIDs names))"

definition buildShardRule ::
  "int \<Rightarrow> int \<Rightarrow> string option \<Rightarrow> string list \<Rightarrow> string \<Rightarrow> string \<Rightarrow> int \<Rightarrow> rule_error + ShardRule" where
  "buildShardRule coordinatorTerm leaderSubterm leaderIDStr cohortNames policyName quorumType requiredCount =
     (case (case leaderIDStr of None \<Rightarrow> Inr None | Some s \<Rightarrow> ParseApplicationName s) of
        Inl err \<Rightarrow> Inl (RSErr_LeaderID err)
      | Inr leader \<Rightarrow>
     (case appNamesToIDs cohortNames of
        Inl err \<Rightarrow> Inl (RSErr_CohortID err)
      | Inr cohort \<Rightarrow>
     (case QuorumType_value quorumType of
        None \<Rightarrow> Inl (RSErr_QuorumType quorumType)
      | Some v \<Rightarrow>
          Inr \<lparr>sr_rule_number = Some \<lparr>rn_coordinator_term = coordinatorTerm, rn_leader_subterm = leaderSubterm\<rparr>,
            sr_leader_id = leader, sr_cohort_members = cohort,
            sr_durability_policy = Some \<lparr>dp_policy_name = policyName, dp_policy_version = 0, dp_quorum_type = v,
              dp_required_count = wrap32 requiredCount, dp_description = ''''\<rparr>,
            sr_coordinator_id = None, sr_creation_time = None\<rparr>)))"

definition core_columns :: "unvalidatedRuleRow \<Rightarrow> bool list" where
  "core_columns r = [urr_coordinatorTerm r \<noteq> None, urr_leaderSubterm r \<noteq> None, urr_durabilityPolicyName r \<noteq> None,
     urr_durabilityQuorumType r \<noteq> None, urr_durabilityRequiredCount r \<noteq> None]"

definition validate :: "unvalidatedRuleRow \<Rightarrow> rule_error + ShardRule ptr" where
  "validate r =
     (if list_all Not (core_columns r) then Inr None
      else case (urr_coordinatorTerm r, urr_leaderSubterm r, urr_durabilityPolicyName r,
                 urr_durabilityQuorumType r, urr_durabilityRequiredCount r) of
        (Some t, Some st, Some name, Some quorum, Some required) \<Rightarrow>
          (case buildShardRule t st (urr_leaderIDStr r) (urr_cohortNames r) name quorum required of
             Inl err \<Rightarrow> Inl err
           | Inr rule \<Rightarrow>
               Inr (Some (case urr_createdAt r of
                  None \<Rightarrow> rule
                | Some t \<Rightarrow> if t = zero_time then rule else rule\<lparr>sr_creation_time := timestamppb_New t\<rparr>)))
      | _ \<Rightarrow> Inl (RSErr_PartialRow (length (filter id (core_columns r)))))"

definition buildPoolerPosition ::
  "unvalidatedRuleRow \<Rightarrow> string \<Rightarrow> unvalidatedRuleRow \<Rightarrow> string \<Rightarrow> rule_error + PoolerPosition ptr" where
  "buildPoolerPosition decision coordinatorIDStr proposal lsn =
     (case validate decision of
        Inl err \<Rightarrow> Inl err
      | Inr None \<Rightarrow> Inl RSErr_NoDecision
      | Inr (Some decisionRule) \<Rightarrow>
     (case (if coordinatorIDStr = '''' then Inr None
            else map_sum id (\<lambda>(cell, name). Some \<lparr>id_component = MULTIORCH, id_cell = cell, id_name = name\<rparr>)
                   (SplitClusterID coordinatorIDStr)) of
        Inl err \<Rightarrow> Inl (RSErr_CoordinatorID err)
      | Inr coordinator \<Rightarrow>
     (case validate proposal of
        Inl err \<Rightarrow> Inl err
      | Inr proposalRule \<Rightarrow>
          Inr (Some \<lparr>pp_position = Some \<lparr>pos_decision = Some (decisionRule\<lparr>sr_coordinator_id := coordinator\<rparr>),
            pos_proposal = proposalRule\<rparr>, pp_lsn = lsn\<rparr>))))"

subsection \<open>The position in memory\<close>

definition cacheRuleObservation :: "PoolerPosition ptr \<Rightarrow> ruleStore \<Rightarrow> ruleStore" where
  "cacheRuleObservation pos rs =
     (if rs_lastPos rs \<noteq> None \<and> pos \<noteq> None \<and>
         CompareRulePosition (PoolerPosition_GetPosition pos) (PoolerPosition_GetPosition (rs_lastPos rs)) < 0
      then rs else rs\<lparr>rs_lastPos := pos\<rparr>)"

definition CachedPosition :: "ruleStore \<Rightarrow> PoolerPosition ptr" where
  "CachedPosition rs = rs_lastPos rs"

subsection \<open>Reading\<close>

definition missing_table :: string where
  "missing_table = ''relation does not exist''"

definition select_current_rule :: "bool \<Rightarrow> pg \<Rightarrow> string + pg \<times> (current_rule_row option \<times> string)" where
  "select_current_rule forUpdate db =
     (case pg_current_rule db of
        None \<Rightarrow> Inl missing_table
      | Some row \<Rightarrow>
          if forUpdate \<and> pg_in_recovery db
          then Inl ''cannot execute SELECT FOR UPDATE in a read-only transaction''
          else Inr (db, (row, pg_lsn db)))"

definition wrapInRollback :: "pg_env \<Rightarrow> (pg \<Rightarrow> string + pg \<times> 'r) \<Rightarrow> (ruleStore, string, 'r) op" where
  "wrapInRollback env stmt =
     and_then (query env (select (\<lambda>db. ()))) (\<lambda>_.
     and_then (attempt (query env (\<lambda>db. map_sum id (\<lambda>(db', r). (db, r)) (stmt db)))) (\<lambda>result.
     and_then (attempt (query env (select (\<lambda>db. ())))) (\<lambda>rollback :: string + unit.
     lift_result result)))"

definition row_position :: "current_rule_row option \<times> string \<Rightarrow> rule_error + PoolerPosition ptr" where
  "row_position r =
     (case r of
        (None, lsn) \<Rightarrow> Inl RSErr_NoRow
      | (Some row, lsn) \<Rightarrow> buildPoolerPosition (crr_decision row) (crr_coordinator_id row) (crr_proposal row) lsn)"

definition readCurrentRule :: "pg_env \<Rightarrow> bool \<Rightarrow> (ruleStore, rule_error, PoolerPosition ptr) op" where
  "readCurrentRule env forUpdate =
     and_then (wrap_error (RSErr_Query ''failed to read current_rule'')
         (if forUpdate then wrapInRollback env (select_current_rule True) else query env (select_current_rule False)))
       (\<lambda>r. lift_result (row_position r))"

definition ObservePosition :: "pg_env \<Rightarrow> (ruleStore, rule_error, PoolerPosition ptr) op" where
  "ObservePosition env =
     and_then (readCurrentRule env False) (\<lambda>pos.
     and_then (change_state (cacheRuleObservation pos)) (\<lambda>_. succeed pos))"

text \<open>The second component is the proof in the returned context that prior rule writes are drained.\<close>

definition readCurrentRuleLocked :: "pg_env \<Rightarrow> bool \<Rightarrow> (ruleStore, rule_error, PoolerPosition ptr \<times> bool) op" where
  "readCurrentRuleLocked env inRecovery =
     and_then (readCurrentRule env (\<not> inRecovery)) (\<lambda>pos. succeed (pos, True))"

subsection \<open>The settings a position asks for\<close>

definition expectedSyncStandbyPolicy :: "RulePosition ptr \<Rightarrow> rule_error + PolicyWithCohort" where
  "expectedSyncStandbyPolicy position =
     (let decision = GetDecision position; proposal = GetProposal position
      in if GetDurabilityPolicy decision = None then Inl RSErr_NoDecisionPolicy
         else case NewPolicyWithCohort (GetCohortMembers decision) (GetDurabilityPolicy decision) of
           Inl err \<Rightarrow> Inl (RSErr_Policy err)
         | Inr outgoing \<Rightarrow>
             if IsRuleDecided position then Inr outgoing
             else if GetDurabilityPolicy proposal = None then Inl RSErr_NoProposalPolicy
             else case NewPolicyWithCohort (GetCohortMembers proposal) (GetDurabilityPolicy proposal) of
               Inl err \<Rightarrow> Inl (RSErr_Policy err)
             | Inr incoming \<Rightarrow>
                 (case BuildPolicyTransition outgoing incoming of
                    Inl err \<Rightarrow> Inl (RSErr_Transition err)
                  | Inr transition \<Rightarrow> Inr (Both transition)))"

definition HasInconsistentGUC :: "pg_env \<Rightarrow> (ruleStore, rule_error, bool) op" where
  "HasInconsistentGUC env =
     and_then (read_state CachedPosition) (\<lambda>pos.
     case expectedSyncStandbyPolicy (PoolerPosition_GetPosition pos) of
       Inl err \<Rightarrow> succeed False
     | Inr policy \<Rightarrow>
         if Policy policy = None then succeed False
         else and_then (attempt (NeedsApply env policy)) (\<lambda>needs.
           succeed (case needs of Inl err \<Rightarrow> False | Inr b \<Rightarrow> b)))"

definition ReconcileGUC :: "pg_env \<Rightarrow> ActionLock \<Rightarrow> lock_ctx \<Rightarrow> bool \<Rightarrow> (ruleStore, rule_error, unit) op" where
  "ReconcileGUC env al ctx inRecovery =
     and_then (check_none RSErr_Lock (AssertActionLockHeld al ctx)) (\<lambda>_.
     and_then (readCurrentRuleLocked env inRecovery) (\<lambda>(pos, drained).
     and_then (lift_result (expectedSyncStandbyPolicy (PoolerPosition_GetPosition pos))) (\<lambda>policy.
     if Policy policy = None then succeed ()
     else wrap_error (RSErr_GUC ''ReconcileGUC'') (SetPolicy env al ctx drained policy))))"

definition ClearSyncStandby :: "pg_env \<Rightarrow> ActionLock \<Rightarrow> lock_ctx \<Rightarrow> (ruleStore, guc_error, unit) op" where
  "ClearSyncStandby env al ctx = Clear env al ctx"

subsection \<open>Creating the tables\<close>

definition create_current_rule :: "pg \<Rightarrow> string + pg \<times> unit" where
  "create_current_rule db =
     (if pg_in_recovery db then Inl ''cannot execute CREATE TABLE in a read-only transaction''
      else if pg_current_rule db \<noteq> None then Inl ''relation already exists''
      else Inr (db\<lparr>pg_current_rule := Some None\<rparr>, ()))"

definition insert_initial_rule :: "string \<Rightarrow> string \<Rightarrow> string \<Rightarrow> int \<Rightarrow> pg \<Rightarrow> string + pg \<times> unit" where
  "insert_initial_rule coordinatorID policyName quorumType requiredCount db =
     (if pg_in_recovery db then Inl ''cannot execute INSERT in a read-only transaction''
      else case pg_current_rule db of
        None \<Rightarrow> Inl missing_table
      | Some (Some row) \<Rightarrow> Inl ''duplicate key''
      | Some None \<Rightarrow>
          Inr (db\<lparr>pg_current_rule := Some (Some \<lparr>crr_decision = \<lparr>urr_coordinatorTerm = Some 0, urr_leaderSubterm = Some 1,
            urr_leaderIDStr = None, urr_cohortNames = [], urr_durabilityPolicyName = Some policyName,
            urr_durabilityQuorumType = Some quorumType, urr_durabilityRequiredCount = Some requiredCount,
            urr_createdAt = Some (pg_clock db)\<rparr>,
            crr_coordinator_id = coordinatorID, crr_proposal = null_columns\<rparr>)\<rparr>, ()))"

definition create_rule_history :: "pg \<Rightarrow> string + pg \<times> unit" where
  "create_rule_history db =
     (if pg_in_recovery db then Inl ''cannot execute CREATE TABLE in a read-only transaction''
      else if pg_rule_history db \<noteq> None then Inl ''relation already exists''
      else Inr (db\<lparr>pg_rule_history := Some []\<rparr>, ()))"

definition CreateRuleTables :: "pg_env \<Rightarrow> DurabilityPolicyPb ptr \<Rightarrow> ID ptr \<Rightarrow> (ruleStore, rule_error, unit) op" where
  "CreateRuleTables env policy bootstrapID =
     (case policy of
        None \<Rightarrow> fail_with RSErr_NoBootstrapPolicy
      | Some p \<Rightarrow>
          if dp_quorum_type p = QUORUM_TYPE_UNKNOWN \<or> dp_required_count p \<le> 0 then fail_with RSErr_InvalidPolicy
          else if bootstrapID = None then fail_with RSErr_NoBootstrapID
          else
            and_then (wrap_error (RSErr_Query ''failed to create current_rule table'') (query env create_current_rule)) (\<lambda>_.
            and_then (wrap_error (RSErr_Query ''failed to initialize current_rule'')
                (query env (insert_initial_rule (ClusterIDString bootstrapID) (dp_policy_name p)
                  (QuorumType_String (dp_quorum_type p)) (dp_required_count p)))) (\<lambda>_.
            wrap_error (RSErr_Query ''failed to create rule_history table'') (query env create_rule_history))))"

subsection \<open>The values of a new rule\<close>

definition resolve_leader :: "ShardRule ptr \<Rightarrow> RuleUpdateBuilder \<Rightarrow> bool \<Rightarrow> rule_error + ID ptr" where
  "resolve_leader currentRule update isPromotion =
     (if ub_leaderID update = None then Inr (GetLeaderId currentRule)
      else if \<not> isPromotion \<and> GetLeaderId currentRule \<noteq> None \<and> ub_leaderID update \<noteq> GetLeaderId currentRule
      then Inl (RSErr_LeaderChange (GetLeaderId currentRule) (ub_leaderID update))
      else Inr (ub_leaderID update))"

definition resolve_policy :: "ShardRule ptr \<Rightarrow> RuleUpdateBuilder \<Rightarrow> rule_error + DurabilityPolicyPb ptr" where
  "resolve_policy currentRule update =
     (case ub_durabilityPolicy update of
        None \<Rightarrow> Inr (GetDurabilityPolicy currentRule)
      | Some dp \<Rightarrow>
          if dp_quorum_type dp = QUORUM_TYPE_UNKNOWN \<or> dp_required_count dp \<le> 0 then Inl RSErr_InvalidPolicy
          else Inr (Some dp))"

definition resolveNewRuleValues ::
  "ShardRule ptr \<Rightarrow> RuleUpdateBuilder \<Rightarrow> bool \<Rightarrow>
     rule_error + ID ptr \<times> ID ptr list \<times> DurabilityPolicyPb ptr \<times> PolicyWithCohort" where
  "resolveNewRuleValues currentRule update isPromotion =
     (case resolve_leader currentRule update isPromotion of
        Inl err \<Rightarrow> Inl err
      | Inr newLeader \<Rightarrow>
     (case resolve_policy currentRule update of
        Inl err \<Rightarrow> Inl err
      | Inr newDP \<Rightarrow>
          let newCohort = (case ub_cohortMembers update of None \<Rightarrow> GetCohortMembers currentRule | Some ms \<Rightarrow> ms)
          in case (if newCohort = [] then None
                   else case NewPolicyFromProto newDP of
                     Inl err \<Rightarrow> Some (RSErr_Policy err)
                   | Inr policy \<Rightarrow> map_option RSErr_CannotAchieve (SatisfiedBy policy newCohort)) of
               Some err \<Rightarrow> Inl err
             | None \<Rightarrow>
                 (case NewPolicyWithCohort newCohort newDP of
                    Inl err \<Rightarrow> Inl (RSErr_Policy err)
                  | Inr incomingPWC \<Rightarrow> Inr (newLeader, newCohort, newDP, incomingPWC))))"

subsection \<open>Deciding a proposal\<close>

definition proposal_is :: "int \<Rightarrow> int \<Rightarrow> current_rule_row \<Rightarrow> bool" where
  "proposal_is t st row \<longleftrightarrow>
     urr_coordinatorTerm (crr_proposal row) = Some t \<and> urr_leaderSubterm (crr_proposal row) = Some st"

definition decision_is :: "int \<Rightarrow> int \<Rightarrow> current_rule_row \<Rightarrow> bool" where
  "decision_is t st row \<longleftrightarrow>
     urr_coordinatorTerm (crr_decision row) = Some t \<and> urr_leaderSubterm (crr_decision row) = Some st"

definition history_is :: "int \<Rightarrow> int \<Rightarrow> rule_history_row \<Rightarrow> bool" where
  "history_is t st h \<longleftrightarrow> rh_coordinator_term h = t \<and> rh_leader_subterm h = st"

definition read_only :: string where
  "read_only = ''cannot execute UPDATE in a read-only transaction''"

definition confirm_stmt :: "int \<Rightarrow> int \<Rightarrow> pg \<Rightarrow> string + pg \<times> string option" where
  "confirm_stmt t st db =
     (if pg_in_recovery db then Inl read_only
      else case pg_current_rule db of
        None \<Rightarrow> Inl missing_table
      | Some (Some row) \<Rightarrow>
          if proposal_is t st row then Inr (log_write (WriteConfirm t st) db, Some (pg_lsn db)) else Inr (db, None)
      | Some None \<Rightarrow> Inr (db, None))"

definition confirmProposalQuorum ::
  "pg_env \<Rightarrow> (string \<Rightarrow> lsn option) \<Rightarrow> int \<Rightarrow> int \<Rightarrow> (ruleStore, rule_error, lsn) op" where
  "confirmProposalQuorum env parse_lsn expectedTerm expectedSubterm =
     and_then (wrap_error (RSErr_Query ''failed to confirm stuck proposal quorum'')
         (query env (confirm_stmt expectedTerm expectedSubterm))) (\<lambda>result.
     case result of
       None \<Rightarrow> fail_with RSErr_Conflict
     | Some raw \<Rightarrow> (case parse_lsn raw of None \<Rightarrow> fail_with (RSErr_LSN raw) | Some lsn \<Rightarrow> succeed lsn))"

type_synonym quorumProof = "lsn \<times> go_time"

definition newQuorumProof :: "(string \<Rightarrow> lsn option) \<Rightarrow> string \<Rightarrow> go_time \<Rightarrow> quorumProof ptr" where
  "newQuorumProof parse_lsn rawLSN startedAt = map_option (\<lambda>lsn. (lsn, startedAt)) (parse_lsn rawLSN)"

definition freshenQuorumProof ::
  "pg_env \<Rightarrow> (string \<Rightarrow> lsn option) \<Rightarrow> quorumProof ptr \<Rightarrow> int \<Rightarrow> int \<Rightarrow> (ruleStore, rule_error, quorumProof ptr) op" where
  "freshenQuorumProof env parse_lsn proof t st =
     (case proof of
        None \<Rightarrow> succeed None
      | Some (lsn, startedAt) \<Rightarrow>
          and_then (now env) (\<lambda>n.
          and_then (read_state rs_proofRefreshAfter) (\<lambda>refreshAfter.
          if time_Sub n startedAt < refreshAfter then succeed proof
          else and_then (now env) (\<lambda>restartedAt.
            and_then (attempt (confirmProposalQuorum env parse_lsn t st)) (\<lambda>result.
            succeed (case result of Inl err \<Rightarrow> proof | Inr lsn' \<Rightarrow> Some (lsn', restartedAt)))))))"

definition decide_row :: "string \<Rightarrow> go_time \<Rightarrow> current_rule_row \<Rightarrow> current_rule_row" where
  "decide_row coordinatorID createdAt r =
     \<lparr>crr_decision = (crr_proposal r)\<lparr>urr_createdAt := Some createdAt\<rparr>, crr_coordinator_id = coordinatorID,
      crr_proposal = null_columns\<rparr>"

definition mark_decided :: "int \<Rightarrow> int \<Rightarrow> rule_history_row list \<Rightarrow> rule_history_row list" where
  "mark_decided t st history = map (\<lambda>h. if history_is t st h then h\<lparr>rh_decided := True\<rparr> else h) history"

text \<open>
  Both updates of the statement run whatever the other finds: the history row of the expected number
  is marked even when the current rule has another proposal.
\<close>

definition decide_stmt ::
  "int \<Rightarrow> int \<Rightarrow> string \<Rightarrow> go_time \<Rightarrow> pg \<Rightarrow> string + pg \<times> (current_rule_row \<times> string) option" where
  "decide_stmt t st coordinatorID createdAt db =
     (if pg_in_recovery db then Inl read_only
      else case (pg_current_rule db, pg_rule_history db) of
        (Some row, Some history) \<Rightarrow>
          let db' = db\<lparr>pg_rule_history := Some (mark_decided t st history)\<rparr>
          in (case row of
                Some r \<Rightarrow>
                  if proposal_is t st r then
                    let r' = decide_row coordinatorID createdAt r;
                        db'' = log_write (WriteDecision t st) (db'\<lparr>pg_current_rule := Some (Some r')\<rparr>)
                    in Inr (db'', if list_ex (history_is t st) history then Some (r', pg_lsn db) else None)
                  else Inr (db', None)
              | None \<Rightarrow> Inr (db', None))
      | _ \<Rightarrow> Inl missing_table)"

definition record_ack :: "quorumProof ptr \<Rightarrow> ruleStore \<Rightarrow> ruleStore" where
  "record_ack proof rs =
     (case proof of
        Some p \<Rightarrow> if rs_hasAckHook rs then rs\<lparr>rs_acked := rs_acked rs @ [p]\<rparr> else rs
      | None \<Rightarrow> rs)"

definition markProposalAsDecision ::
  "pg_env \<Rightarrow> (string \<Rightarrow> lsn option) \<Rightarrow> int \<Rightarrow> int \<Rightarrow> string \<Rightarrow> go_time \<Rightarrow> quorumProof ptr \<Rightarrow>
     (ruleStore, rule_error, PoolerPosition ptr) op" where
  "markProposalAsDecision env parse_lsn expectedTerm expectedSubterm coordinatorIDStr createdAt proof =
     and_then (freshenQuorumProof env parse_lsn proof expectedTerm expectedSubterm) (\<lambda>proof.
     and_then (change_state (record_ack proof)) (\<lambda>_.
     and_then (wrap_error (RSErr_Query ''failed to promote rule proposal to decision'')
         (query env (decide_stmt expectedTerm expectedSubterm coordinatorIDStr (env_timestamptz env createdAt)))) (\<lambda>result.
     case result of
       None \<Rightarrow> fail_with RSErr_Conflict
     | Some (row, lsn) \<Rightarrow>
         and_then (lift_result (buildPoolerPosition (crr_decision row) (crr_coordinator_id row) null_columns lsn)) (\<lambda>pos.
         and_then (change_state (cacheRuleObservation pos)) (\<lambda>_. succeed pos)))))"

subsection \<open>Proposing\<close>

record ruleProposalWriteParams =
  wp_casTerm :: int
  wp_casSubterm :: int
  wp_newTerm :: int
  wp_newSubterm :: int
  wp_newLeaderStr :: string
  wp_newCohort :: "string list"
  wp_dpName :: string
  wp_dpQuorumType :: string
  wp_dpRequiredCount :: int
  wp_createdAt :: go_time
  wp_eventType :: string
  wp_walPosition :: string
  wp_operation :: string
  wp_reason :: string
  wp_acceptedMembers :: "string list"
  wp_coordinatorIDStr :: string

definition null_if_empty :: "string \<Rightarrow> string option" where
  "null_if_empty s = (if s = '''' then None else Some s)"

definition proposal_columns :: "ruleProposalWriteParams \<Rightarrow> unvalidatedRuleRow" where
  "proposal_columns p = \<lparr>urr_coordinatorTerm = Some (wp_newTerm p), urr_leaderSubterm = Some (wp_newSubterm p),
     urr_leaderIDStr = null_if_empty (wp_newLeaderStr p), urr_cohortNames = wp_newCohort p,
     urr_durabilityPolicyName = Some (wp_dpName p), urr_durabilityQuorumType = Some (wp_dpQuorumType p),
     urr_durabilityRequiredCount = Some (wp_dpRequiredCount p), urr_createdAt = Some (wp_createdAt p)\<rparr>"

definition history_columns :: "ruleProposalWriteParams \<Rightarrow> rule_history_row" where
  "history_columns p = \<lparr>rh_coordinator_term = wp_newTerm p, rh_leader_subterm = wp_newSubterm p,
     rh_event_type = wp_eventType p, rh_leader_id = null_if_empty (wp_newLeaderStr p),
     rh_coordinator_id = wp_coordinatorIDStr p, rh_wal_position = null_if_empty (wp_walPosition p),
     rh_accepted_members = wp_acceptedMembers p, rh_reason = wp_reason p, rh_cohort_members = wp_newCohort p,
     rh_durability_policy_name = wp_dpName p, rh_durability_quorum_type = wp_dpQuorumType p,
     rh_durability_required_count = wp_dpRequiredCount p, rh_operation = null_if_empty (wp_operation p),
     rh_decided = False, rh_created_at = wp_createdAt p\<rparr>"

definition propose_stmt ::
  "ruleProposalWriteParams \<Rightarrow> pg \<Rightarrow> string + pg \<times> (current_rule_row \<times> string) option" where
  "propose_stmt p db =
     (if pg_in_recovery db then Inl read_only
      else case (pg_current_rule db, pg_rule_history db) of
        (Some row, Some history) \<Rightarrow>
          (case row of
             Some r \<Rightarrow>
               if decision_is (wp_casTerm p) (wp_casSubterm p) r then
                 if list_ex (history_is (wp_newTerm p) (wp_newSubterm p)) history then Inl ''duplicate key''
                 else
                   let r' = r\<lparr>crr_proposal := proposal_columns p\<rparr>
                   in Inr (log_write (WriteProposal (wp_newTerm p) (wp_newSubterm p))
                        (db\<lparr>pg_current_rule := Some (Some r'), pg_rule_history := Some (history @ [history_columns p])\<rparr>),
                      Some (r', pg_lsn db))
               else Inr (db, None)
           | None \<Rightarrow> Inr (db, None))
      | _ \<Rightarrow> Inl missing_table)"

text \<open>The parameters as the statement receives them: \<open>created_at\<close> is cast to TIMESTAMPTZ.\<close>

definition stored_params :: "pg_env \<Rightarrow> ruleProposalWriteParams \<Rightarrow> ruleProposalWriteParams" where
  "stored_params env p = p\<lparr>wp_createdAt := env_timestamptz env (wp_createdAt p)\<rparr>"

lemma stored_params_sel [simp]:
  "wp_casTerm (stored_params env p) = wp_casTerm p" "wp_casSubterm (stored_params env p) = wp_casSubterm p"
  "wp_newTerm (stored_params env p) = wp_newTerm p" "wp_newSubterm (stored_params env p) = wp_newSubterm p"
  "wp_coordinatorIDStr (stored_params env p) = wp_coordinatorIDStr p"
  "wp_createdAt (stored_params env p) = env_timestamptz env (wp_createdAt p)"
  by (simp_all add: stored_params_def)

definition writeRuleProposal ::
  "pg_env \<Rightarrow> ruleProposalWriteParams \<Rightarrow> (ruleStore, rule_error, PoolerPosition ptr) op" where
  "writeRuleProposal env p =
     and_then (wrap_error (RSErr_Query ''failed to write rule proposal'') (query env (propose_stmt (stored_params env p)))) (\<lambda>result.
     case result of
       None \<Rightarrow> fail_with RSErr_Conflict
     | Some (row, lsn) \<Rightarrow>
         and_then (lift_result (buildPoolerPosition (crr_decision row) (crr_coordinator_id row) (crr_proposal row) lsn)) (\<lambda>pos.
         and_then (change_state (cacheRuleObservation pos)) (\<lambda>_. succeed pos)))"

subsection \<open>Deciding a stuck proposal\<close>

definition run_promotion_hook :: "RuleUpdateBuilder \<Rightarrow> (ruleStore, rule_error, unit) op" where
  "run_promotion_hook update =
     (case ub_promotionHook update of None \<Rightarrow> succeed () | Some hook \<Rightarrow> wrap_error RSErr_Hook hook)"

definition maybeFinalizeStuckProposal ::
  "pg_env \<Rightarrow> (string \<Rightarrow> lsn option) \<Rightarrow> ActionLock \<Rightarrow> lock_ctx \<Rightarrow> bool \<Rightarrow> PoolerPosition ptr \<Rightarrow> RuleUpdateBuilder \<Rightarrow>
     bool \<Rightarrow> PolicyWithCohort \<Rightarrow> (ruleStore, rule_error, PoolerPosition ptr \<times> bool) op" where
  "maybeFinalizeStuckProposal env parse_lsn al ctx drained current update isPromotion incomingPWC =
     (let position = PoolerPosition_GetPosition current;
          stuckProposal = GetProposal position;
          t = GetCoordinatorTerm (GetRuleNumber stuckProposal);
          st = GetLeaderSubterm (GetRuleNumber stuckProposal)
      in if IsRuleDecided position then succeed (current, False)
         else
           and_then (lift_result (if ub_skipOutgoingQuorum update then Inr incomingPWC
               else expectedSyncStandbyPolicy position)) (\<lambda>finalizePolicy.
           and_then (wrap_error (RSErr_GUC ''propagation: pre-promote GUC'') (SetPolicy env al ctx drained finalizePolicy)) (\<lambda>_.
           and_then (if isPromotion then run_promotion_hook update else succeed ()) (\<lambda>_.
           and_then (now env) (\<lambda>confirmStartedAt.
           and_then (confirmProposalQuorum env parse_lsn t st) (\<lambda>confirmedLSN.
           and_then (markProposalAsDecision env parse_lsn t st (ClusterIDString (GetCoordinatorId stuckProposal))
               (AsTime (GetCreationTime stuckProposal)) (Some (confirmedLSN, confirmStartedAt))) (\<lambda>decidedPos.
           succeed (decidedPos, isPromotion))))))))"

subsection \<open>Writing a rule\<close>

definition next_subterm :: "int \<Rightarrow> int \<Rightarrow> int \<Rightarrow> rule_error + int" where
  "next_subterm termNumber currentTerm currentSubterm =
     (if termNumber > currentTerm then Inr 0
      else if termNumber < currentTerm then Inl (RSErr_TermTooOld termNumber currentTerm)
      else Inr (wrap64 (currentSubterm + 1)))"

definition guc_transition ::
  "RuleUpdateBuilder \<Rightarrow> ShardRule ptr \<Rightarrow> PolicyWithCohort \<Rightarrow> rule_error + PolicyTransition" where
  "guc_transition update currentRule incomingPWC =
     (if ub_skipOutgoingQuorum update then Inr \<lparr>Both = incomingPWC, Incoming = incomingPWC\<rparr>
      else case NewPolicyWithCohort (GetCohortMembers currentRule) (GetDurabilityPolicy currentRule) of
        Inl err \<Rightarrow> Inl (RSErr_Policy err)
      | Inr outgoingPWC \<Rightarrow>
          (case BuildPolicyTransition outgoingPWC incomingPWC of
             Inl err \<Rightarrow> Inl (RSErr_Transition err)
           | Inr transition \<Rightarrow> Inr transition))"

definition write_params ::
  "RuleUpdateBuilder \<Rightarrow> ShardRule ptr \<Rightarrow> int \<Rightarrow> ID ptr \<Rightarrow> ID ptr list \<Rightarrow> DurabilityPolicyPb ptr \<Rightarrow>
     rule_error + ruleProposalWriteParams" where
  "write_params update currentRule nextSubterm newLeader newCohort newDP =
     (case (if newLeader = None then ('''', None)
            else (rep_appName (fst (NewReplicaID newLeader)), snd (NewReplicaID newLeader))) of
        (_, Some err) \<Rightarrow> Inl (RSErr_Replica ''invalid leader ID'' err)
      | (newLeaderStr, None) \<Rightarrow>
     (case ToReplicaIDs newCohort of
        (_, Some err) \<Rightarrow> Inl (RSErr_Replica ''invalid cohort member ID'' err)
      | (cohortPIDs, None) \<Rightarrow>
     (case (if ub_acceptedMembers update = [] then ([], None) else ToReplicaIDs (ub_acceptedMembers update)) of
        (_, Some err) \<Rightarrow> Inl (RSErr_Replica ''invalid accepted member ID'' err)
      | (accepted, None) \<Rightarrow>
     (case newDP of
        None \<Rightarrow> Inl RSErr_InvalidPolicy
      | Some dp \<Rightarrow>
          Inr \<lparr>wp_casTerm = GetCoordinatorTerm (GetRuleNumber currentRule),
            wp_casSubterm = GetLeaderSubterm (GetRuleNumber currentRule),
            wp_newTerm = ub_termNumber update, wp_newSubterm = nextSubterm, wp_newLeaderStr = newLeaderStr,
            wp_newCohort = ReplicaIDsToAppNames cohortPIDs, wp_dpName = dp_policy_name dp,
            wp_dpQuorumType = QuorumType_String (dp_quorum_type dp), wp_dpRequiredCount = dp_required_count dp,
            wp_createdAt = ub_createdAt update, wp_eventType = ub_eventType update,
            wp_walPosition = ub_walPosition update, wp_operation = ub_operation update,
            wp_reason = ub_reason update, wp_acceptedMembers = ReplicaIDsToAppNames accepted,
            wp_coordinatorIDStr = ClusterIDString (ub_coordinatorID update)\<rparr>))))"

text \<open>From the transition settings to the incoming ones: the proposal and its decision.\<close>

definition write_rule ::
  "pg_env \<Rightarrow> (string \<Rightarrow> lsn option) \<Rightarrow> ActionLock \<Rightarrow> lock_ctx \<Rightarrow> bool \<Rightarrow> RuleUpdateBuilder \<Rightarrow> bool \<Rightarrow>
     PolicyTransition \<Rightarrow> ruleProposalWriteParams \<Rightarrow> (ruleStore, rule_error, PoolerPosition ptr) op" where
  "write_rule env parse_lsn al ctx drained update promoted transition p =
     and_then (wrap_error (RSErr_GUC (if ub_promotionHook update \<noteq> None then ''pre-promote GUC'' else ''pre-write GUC''))
         (SetPolicy env al ctx drained (Both transition))) (\<lambda>_.
     and_then (if ub_promotionHook update \<noteq> None \<and> \<not> promoted then run_promotion_hook update else succeed ()) (\<lambda>_.
     and_then (now env) (\<lambda>proposalStartedAt.
     and_then (writeRuleProposal env p) (\<lambda>proposalPos.
     and_then (markProposalAsDecision env parse_lsn (wp_newTerm p) (wp_newSubterm p) (wp_coordinatorIDStr p)
         (wp_createdAt p) (newQuorumProof parse_lsn (PoolerPosition_GetLsn proposalPos) proposalStartedAt)) (\<lambda>pos.
     and_then (wrap_error (RSErr_GUC ''post-write GUC'') (SetPolicy env al ctx drained (Incoming transition))) (\<lambda>_.
     succeed pos))))))"

text \<open>From the position that was read to the written rule.\<close>

definition change_rule ::
  "pg_env \<Rightarrow> (string \<Rightarrow> lsn option) \<Rightarrow> ActionLock \<Rightarrow> lock_ctx \<Rightarrow> RuleUpdateBuilder \<Rightarrow> PoolerPosition ptr \<Rightarrow> bool \<Rightarrow>
     (ruleStore, rule_error, PoolerPosition ptr) op" where
  "change_rule env parse_lsn al ctx update current drained =
     (let isPromotion = (ub_promotionHook update \<noteq> None);
          currentRule = PossiblyUndecidedRule (PoolerPosition_GetPosition current);
          currentTerm = GetCoordinatorTerm (GetRuleNumber currentRule);
          currentSubterm = GetLeaderSubterm (GetRuleNumber currentRule)
      in and_then (lift_result (next_subterm (ub_termNumber update) currentTerm currentSubterm)) (\<lambda>nextSubterm.
         and_then (lift_result (resolveNewRuleValues currentRule update isPromotion)) (\<lambda>(newLeader, newCohort, newDP, incomingPWC).
         and_then (maybeFinalizeStuckProposal env parse_lsn al ctx drained current update isPromotion incomingPWC) (\<lambda>(_, promoted).
         and_then (lift_result (guc_transition update currentRule incomingPWC)) (\<lambda>transition.
         and_then (lift_result (write_params update currentRule nextSubterm newLeader newCohort newDP)) (\<lambda>p.
         write_rule env parse_lsn al ctx drained update promoted transition p))))))"

definition check_position :: "RuleUpdateBuilder \<Rightarrow> RulePosition ptr \<Rightarrow> rule_error option" where
  "check_position update position =
     (let currentRule = PossiblyUndecidedRule position;
          currentTerm = GetCoordinatorTerm (GetRuleNumber currentRule);
          currentSubterm = GetLeaderSubterm (GetRuleNumber currentRule)
      in if \<not> IsRuleDecided position \<and> \<not> ub_skipOutgoingQuorum update \<and> ub_promotionHook update = None
         then Some RSErr_Undecided
         else if ub_previousRule update \<noteq> None \<and> ub_previousRule update \<noteq> Some (currentTerm, currentSubterm)
         then Some RSErr_Conflict
         else None)"

definition UpdateRule ::
  "pg_env \<Rightarrow> (string \<Rightarrow> lsn option) \<Rightarrow> ActionLock \<Rightarrow> lock_ctx \<Rightarrow> RuleUpdateBuilder \<Rightarrow>
     (ruleStore, rule_error, PoolerPosition ptr) op" where
  "UpdateRule env parse_lsn al ctx update =
     and_then (check_none RSErr_Lock (AssertActionLockHeld al ctx)) (\<lambda>_.
     if ub_force update then succeed None
     else if ub_coordinatorID update = None then fail_with RSErr_NoCoordinator
     else if ub_createdAt update = zero_time then fail_with RSErr_NoCreatedAt
     else
       and_then (readCurrentRuleLocked env (ub_promotionHook update \<noteq> None)) (\<lambda>(current, drained).
       and_then (check_none id (check_position update (PoolerPosition_GetPosition current))) (\<lambda>_.
       change_rule env parse_lsn al ctx update current drained)))"

subsection \<open>The history\<close>

record ruleHistoryRecord =
  hr_CoordinatorTerm :: int
  hr_LeaderSubterm :: int
  hr_EventType :: string
  hr_LeaderID :: "ReplicaID ptr"
  hr_CoordinatorID :: "string ptr"
  hr_WALPosition :: "string ptr"
  hr_Operation :: "string ptr"
  hr_Reason :: string
  hr_CohortMembers :: "ReplicaID list"
  hr_AcceptedMembers :: "ReplicaID list"
  hr_DurabilityPolicyName :: string
  hr_DurabilityQuorumType :: string
  hr_DurabilityRequiredCount :: int
  hr_Decided :: bool
  hr_CreatedAt :: go_time

definition scanRuleHistoryRow :: "rule_history_row \<Rightarrow> rule_error + ruleHistoryRecord" where
  "scanRuleHistoryRow h =
     (case (case rh_leader_id h of
              None \<Rightarrow> Inr None
            | Some s \<Rightarrow> map_sum id (\<lambda>i. Some \<lparr>rep_id = i, rep_appName = s\<rparr>) (ParseApplicationName s)) of
        Inl err \<Rightarrow> Inl (RSErr_LeaderID err)
      | Inr leader \<Rightarrow>
     (case parse_replica_ids (rh_cohort_members h) of
        Inl err \<Rightarrow> Inl (RSErr_CohortID err)
      | Inr cohort \<Rightarrow>
     (case parse_replica_ids (rh_accepted_members h) of
        Inl err \<Rightarrow> Inl (RSErr_AcceptedID err)
      | Inr accepted \<Rightarrow>
          Inr \<lparr>hr_CoordinatorTerm = rh_coordinator_term h, hr_LeaderSubterm = rh_leader_subterm h,
            hr_EventType = rh_event_type h, hr_LeaderID = leader, hr_CoordinatorID = Some (rh_coordinator_id h),
            hr_WALPosition = rh_wal_position h, hr_Operation = rh_operation h, hr_Reason = rh_reason h,
            hr_CohortMembers = cohort, hr_AcceptedMembers = accepted,
            hr_DurabilityPolicyName = rh_durability_policy_name h,
            hr_DurabilityQuorumType = rh_durability_quorum_type h,
            hr_DurabilityRequiredCount = wrap32 (rh_durability_required_count h),
            hr_Decided = rh_decided h, hr_CreatedAt = rh_created_at h\<rparr>)))"

primrec scan_rows :: "rule_history_row list \<Rightarrow> rule_error + ruleHistoryRecord list" where
  "scan_rows [] = Inr []"
| "scan_rows (h # hs) =
     (case scanRuleHistoryRow h of
        Inl err \<Rightarrow> Inl err
      | Inr r \<Rightarrow> map_sum id (Cons r) (scan_rows hs))"

text \<open>ORDER BY coordinator_term DESC, leader_subterm DESC, with the comparison of rule numbers.\<close>

definition history_number :: "rule_history_row \<Rightarrow> RuleNumber ptr" where
  "history_number h = Some \<lparr>rn_coordinator_term = rh_coordinator_term h, rn_leader_subterm = rh_leader_subterm h\<rparr>"

definition select_history :: "nat \<Rightarrow> pg \<Rightarrow> string + pg \<times> rule_history_row list" where
  "select_history lim db =
     (case pg_rule_history db of
        None \<Rightarrow> Inl missing_table
      | Some history \<Rightarrow>
          Inr (db, take lim (SortFunc (\<lambda>x y. CompareRuleNumbers (history_number y) (history_number x)) history)))"

definition queryRuleHistory :: "pg_env \<Rightarrow> nat \<Rightarrow> (ruleStore, rule_error, ruleHistoryRecord list) op" where
  "queryRuleHistory env lim =
     and_then (wrap_error (RSErr_Query ''failed to query rule_history'') (query env (select_history lim))) (\<lambda>rows.
       lift_result (scan_rows rows))"

section \<open>What a run may leave behind\<close>

text \<open>
  The state of the store during a run: its tables, its identity, a coherent memory of the settings,
  and a log that grew only by writes \<open>ok\<close> allows.
\<close>

definition log_grew :: "(rule_write \<times> settings \<Rightarrow> bool) \<Rightarrow> (rule_write \<times> settings) list \<Rightarrow> pg \<Rightarrow> bool" where
  "log_grew ok W db \<longleftrightarrow> (\<exists>new. pg_wal db = W @ new \<and> list_all ok new)"

definition tables_are :: "(rule_write \<times> settings \<Rightarrow> bool) \<Rightarrow> (rule_write \<times> settings) list \<Rightarrow> ID ptr \<Rightarrow>
    current_rule_row \<Rightarrow> rule_history_row list \<Rightarrow> ruleStore \<Rightarrow> bool" where
  "tables_are ok W i R H s \<longleftrightarrow> pg_current_rule (c_pg s) = Some (Some R) \<and> pg_rule_history (c_pg s) = Some H \<and>
     ssm_localID s = i \<and> log_grew ok W (c_pg s)"

definition stage :: "(rule_write \<times> settings \<Rightarrow> bool) \<Rightarrow> (rule_write \<times> settings) list \<Rightarrow> ID ptr \<Rightarrow>
    current_rule_row \<Rightarrow> rule_history_row list \<Rightarrow> ruleStore \<Rightarrow> bool" where
  "stage ok W i R H s \<longleftrightarrow> tables_are ok W i R H s \<and> cache_coherent s"

definition staged :: "settings \<Rightarrow> (rule_write \<times> settings \<Rightarrow> bool) \<Rightarrow> (rule_write \<times> settings) list \<Rightarrow> ID ptr \<Rightarrow>
    current_rule_row \<Rightarrow> rule_history_row list \<Rightarrow> ruleStore \<Rightarrow> bool" where
  "staged g ok W i R H s \<longleftrightarrow> stage ok W i R H s \<and> in_force g s"

lemma stable_tables: "stable (tables_are ok W i R H)"
  by (auto simp: stable_def tables_are_def log_grew_def quiet_step_def)

lemma stable_coherent: "stable cache_coherent"
  by (auto simp: stable_def cache_coherent_def in_force_def quiet_step_def)

lemma stable_stage: "stable (stage ok W i R H)"
  using stable_tables [of ok W i R H] stable_coherent unfolding stable_def stage_def by blast

lemma stable_staged: "stable (staged g ok W i R H)"
  using stable_stage [of ok W i R H] stable_in_force [of g] unfolding stable_def staged_def by blast

lemma log_grew_write:
  "log_grew ok W db \<Longrightarrow> ok (w, pg_backend db) \<Longrightarrow> log_grew ok W (log_write w db)"
  by (auto simp: log_grew_def log_write_def)

lemma cache_coherent_db:
  "pg_conf db = pg_conf (c_pg s) \<Longrightarrow> pg_settings db = pg_settings (c_pg s) \<Longrightarrow>
     cache_coherent (s\<lparr>c_pg := db\<rparr>) = cache_coherent s"
  by (simp add: cache_coherent_def in_force_def)

lemma log_write_sel [simp]:
  "pg_current_rule (log_write w db) = pg_current_rule db" "pg_rule_history (log_write w db) = pg_rule_history db"
  "pg_conf (log_write w db) = pg_conf db" "pg_settings (log_write w db) = pg_settings db"
  "pg_lsn (log_write w db) = pg_lsn db" "pg_in_recovery (log_write w db) = pg_in_recovery db"
  by (simp_all add: log_write_def)

lemma staged_backend:
  assumes "\<And>b. (backends_reloaded env \<longrightarrow> b = g) \<Longrightarrow> ok (w, b)"
    and "staged g ok W i R H s" "backends_reloaded env \<longrightarrow> pg_backend (c_pg s) = pg_settings (c_pg s)"
  shows "ok (w, pg_backend (c_pg s))"
  using assms(2,3) by (intro assms(1)) (simp add: staged_def in_force_def)

text \<open>The three statements that write, on known tables.\<close>

lemma confirm_stmt_staged:
  assumes "staged g ok W i R H s" "ok (WriteConfirm t st, pg_backend (c_pg s))" "confirm_stmt t st (c_pg s) = Inr (db, r)"
  shows "staged g ok W i R H (s\<lparr>c_pg := db\<rparr>)"
  using assms
  by (auto simp: confirm_stmt_def staged_def stage_def tables_are_def in_force_def cache_coherent_db
      intro: log_grew_write split: if_splits)

lemma decide_stmt_staged:
  assumes "staged g ok W i R H s" "ok (WriteDecision t st, pg_backend (c_pg s))" "proposal_is t st R"
    "decide_stmt t st c u (c_pg s) = Inr (db, r)"
  shows "staged g ok W i (decide_row c u R) (mark_decided t st H) (s\<lparr>c_pg := db\<rparr>) \<and>
    (\<forall>row l. r = Some (row, l) \<longrightarrow> row = decide_row c u R)"
proof -
  from assms(1) have s: "pg_current_rule (c_pg s) = Some (Some R)" "pg_rule_history (c_pg s) = Some H"
    by (simp_all add: staged_def stage_def tables_are_def)
  with assms(3,4) have db: "db = log_write (WriteDecision t st)
      ((c_pg s)\<lparr>pg_rule_history := Some (mark_decided t st H), pg_current_rule := Some (Some (decide_row c u R))\<rparr>)"
    and r: "\<forall>row l. r = Some (row, l) \<longrightarrow> row = decide_row c u R"
    by (auto simp: decide_stmt_def Let_def split: if_splits)
  have "log_grew ok W db"
    unfolding db using assms(1,2)
    by (intro log_grew_write) (simp_all add: staged_def stage_def tables_are_def log_grew_def)
  with assms(1) r show ?thesis
    by (simp add: staged_def stage_def tables_are_def in_force_def cache_coherent_db db)
qed

lemma propose_stmt_staged:
  assumes "staged g ok W i R H s" "ok (WriteProposal (wp_newTerm p) (wp_newSubterm p), pg_backend (c_pg s))"
    "propose_stmt p (c_pg s) = Inr (db, r)"
  shows "r = None \<and> staged g ok W i R H (s\<lparr>c_pg := db\<rparr>) \<or>
    (\<exists>l. r = Some (R\<lparr>crr_proposal := proposal_columns p\<rparr>, l)) \<and> decision_is (wp_casTerm p) (wp_casSubterm p) R \<and>
    \<not> list_ex (history_is (wp_newTerm p) (wp_newSubterm p)) H \<and>
    staged g ok W i (R\<lparr>crr_proposal := proposal_columns p\<rparr>) (H @ [history_columns p]) (s\<lparr>c_pg := db\<rparr>)"
proof -
  from assms(1) have s: "pg_current_rule (c_pg s) = Some (Some R)" "pg_rule_history (c_pg s) = Some H"
    by (simp_all add: staged_def stage_def tables_are_def)
  show ?thesis
  proof (cases "decision_is (wp_casTerm p) (wp_casSubterm p) R")
    case False
    with assms(3) s assms(1) show ?thesis by (auto simp: propose_stmt_def split: if_splits)
  next
    case True
    with assms(3) s have fresh: "\<not> list_ex (history_is (wp_newTerm p) (wp_newSubterm p)) H"
      and db: "db = log_write (WriteProposal (wp_newTerm p) (wp_newSubterm p))
        ((c_pg s)\<lparr>pg_current_rule := Some (Some (R\<lparr>crr_proposal := proposal_columns p\<rparr>)),
          pg_rule_history := Some (H @ [history_columns p])\<rparr>)"
      and r: "\<exists>l. r = Some (R\<lparr>crr_proposal := proposal_columns p\<rparr>, l)"
      by (auto simp: propose_stmt_def Let_def split: if_splits)
    have "log_grew ok W db"
      unfolding db using assms(1,2)
      by (intro log_grew_write) (simp_all add: staged_def stage_def tables_are_def log_grew_def)
    with assms(1) have "staged g ok W i (R\<lparr>crr_proposal := proposal_columns p\<rparr>) (H @ [history_columns p]) (s\<lparr>c_pg := db\<rparr>)"
      by (simp add: staged_def stage_def tables_are_def in_force_def cache_coherent_db db)
    with True fresh r show ?thesis by blast
  qed
qed

subsection \<open>Operations on known tables\<close>

lemma stage_memory [simp]:
  "stage ok W i R H (cacheRuleObservation pos s) \<longleftrightarrow> stage ok W i R H s"
  "staged g ok W i R H (cacheRuleObservation pos s) \<longleftrightarrow> staged g ok W i R H s"
  "staged g ok W i R H (record_ack proof s) \<longleftrightarrow> staged g ok W i R H s"
  by (auto simp: staged_def stage_def tables_are_def cache_coherent_def in_force_def cacheRuleObservation_def
      record_ack_def split: option.splits)

lemma staged_tables: "staged g ok W i R H s \<Longrightarrow> tables_are ok W i R H s"
  by (simp add: staged_def stage_def)

lemma cache_tail:
  assumes "\<And>s. P s \<Longrightarrow> E s" "\<And>pos s. P s \<Longrightarrow> P (cacheRuleObservation pos s)"
  shows "triple P (and_then (lift_result r) (\<lambda>pos. and_then (change_state (cacheRuleObservation pos)) (\<lambda>_. succeed pos)))
    (\<lambda>pos s. P s \<and> r = Inr pos) E"
proof (rule triple_and_then)
  show "triple P (lift_result r) (\<lambda>pos s. P s \<and> r = Inr pos) E"
    using assms(1) by (intro triple_lift) auto
  show "triple (\<lambda>s. P s \<and> r = Inr pos) (and_then (change_state (cacheRuleObservation pos)) (\<lambda>_. succeed pos))
      (\<lambda>pos s. P s \<and> r = Inr pos) E" for pos
    by (rule triple_and_then [where R = "\<lambda>_ s. P s \<and> r = Inr pos"])
      (auto intro!: triple_change triple_succeed assms(2))
qed

lemma confirm_triple:
  assumes "env_quiet env" "\<And>b. (backends_reloaded env \<longrightarrow> b = g) \<Longrightarrow> ok (WriteConfirm t st, b)"
    and "\<And>s. staged g ok W i R H s \<Longrightarrow> E s"
  shows "triple (staged g ok W i R H) (confirmProposalQuorum env parse_lsn t st) (\<lambda>_. staged g ok W i R H) E"
proof -
  have q: "triple (staged g ok W i R H) (query env (confirm_stmt t st)) (\<lambda>_. staged g ok W i R H) E"
    by (rule triple_stmt [OF assms(1) stable_staged])
      (use confirm_stmt_staged [where ok = ok, OF _ staged_backend [where ok = ok, OF assms(2)]] assms(3) in blast)+
  show ?thesis
    unfolding confirmProposalQuorum_def
    by (rule triple_and_then [OF triple_wrap [OF q]])
      (auto intro!: triple_option triple_fail triple_succeed assms(3))
qed

lemma freshen_triple:
  assumes "env_quiet env" "\<And>b. (backends_reloaded env \<longrightarrow> b = g) \<Longrightarrow> ok (WriteConfirm t st, b)"
  shows "triple (staged g ok W i R H) (freshenQuorumProof env parse_lsn proof t st) (\<lambda>_. staged g ok W i R H) E"
proof -
  have c: "triple (staged g ok W i R H) (attempt (confirmProposalQuorum env parse_lsn t st)) (\<lambda>_. staged g ok W i R H) E"
    by (rule triple_attempt, rule triple_conseq [OF confirm_triple [where ok = ok and E = "staged g ok W i R H", OF assms]]) simp_all
  note now = triple_and_then [OF triple_now [where Q = "\<lambda>_. staged g ok W i R H"]]
  note rd = triple_and_then [OF triple_read [where Q = "\<lambda>_. staged g ok W i R H"]]
  show ?thesis
    unfolding freshenQuorumProof_def
    by (intro triple_option triple_prod now rd triple_if triple_and_then [OF c] triple_succeed)
qed

lemma mark_triple:
  assumes "env_quiet env" "\<And>b. (backends_reloaded env \<longrightarrow> b = g) \<Longrightarrow> ok (WriteConfirm t st, b)"
    and "\<And>b. (backends_reloaded env \<longrightarrow> b = g) \<Longrightarrow> ok (WriteDecision t st, b)" "proposal_is t st R"
    and "\<And>s. tables_are ok W i R H s \<Longrightarrow> E s"
    and "\<And>s. tables_are ok W i (decide_row c (env_timestamptz env u) R) (mark_decided t st H) s \<Longrightarrow> E s"
  shows "triple (staged g ok W i R H) (markProposalAsDecision env parse_lsn t st c u proof)
    (\<lambda>pos s. staged g ok W i (decide_row c (env_timestamptz env u) R) (mark_decided t st H) s \<and>
      (\<exists>l. row_position (Some (decide_row c (env_timestamptz env u) R), l) = Inr pos)) E"
proof -
  let ?R = "decide_row c (env_timestamptz env u) R" and ?H = "mark_decided t st H"
  have q: "triple (staged g ok W i R H) (query env (decide_stmt t st c (env_timestamptz env u)))
      (\<lambda>r s. staged g ok W i ?R ?H s \<and> (\<forall>row l. r = Some (row, l) \<longrightarrow> row = ?R)) E"
  proof (rule triple_stmt [OF assms(1) stable_staged])
    fix s db r assume s: "staged g ok W i R H s" "backends_reloaded env \<longrightarrow> pg_backend (c_pg s) = pg_settings (c_pg s)"
      "decide_stmt t st c (env_timestamptz env u) (c_pg s) = Inr (db, r)"
    from decide_stmt_staged [where ok = ok, OF s(1) staged_backend [where ok = ok, OF assms(3) s(1,2)] assms(4) s(3)]
    show "(staged g ok W i ?R ?H (s\<lparr>c_pg := db\<rparr>) \<and> (\<forall>row l. r = Some (row, l) \<longrightarrow> row = ?R)) \<and> E (s\<lparr>c_pg := db\<rparr>)"
      using assms(6) [OF staged_tables] by blast
  qed (rule assms(5) [OF staged_tables])
  have tail: "triple (\<lambda>s. staged g ok W i ?R ?H s \<and> (\<forall>row l. r = Some (row, l) \<longrightarrow> row = ?R))
      (case r of None \<Rightarrow> fail_with RSErr_Conflict
       | Some (row, lsn) \<Rightarrow>
         and_then (lift_result (buildPoolerPosition (crr_decision row) (crr_coordinator_id row) null_columns lsn)) (\<lambda>pos.
         and_then (change_state (cacheRuleObservation pos)) (\<lambda>_. succeed pos)))
      (\<lambda>pos s. staged g ok W i ?R ?H s \<and> (\<exists>l. row_position (Some ?R, l) = Inr pos)) E" for r
    by (intro triple_option triple_fail triple_prod triple_conseq [OF cache_tail [where E = E and
          P = "\<lambda>s. staged g ok W i ?R ?H s \<and> (\<forall>row l. r = Some (row, l) \<longrightarrow> row = ?R)"]])
      (auto simp: row_position_def decide_row_def intro: assms(6) [OF staged_tables])
  show ?thesis
    unfolding markProposalAsDecision_def
    by (rule triple_and_then [OF freshen_triple [where ok = ok, OF assms(1)]], erule assms(2),
        rule triple_and_then [OF triple_change [where Q = "\<lambda>_. staged g ok W i R H"]], simp,
        rule triple_and_then [OF triple_wrap [OF q] tail])
qed

lemma propose_triple:
  assumes "env_quiet env" "\<And>b. (backends_reloaded env \<longrightarrow> b = g) \<Longrightarrow> ok (WriteProposal (wp_newTerm p) (wp_newSubterm p), b)"
    and "\<And>s. tables_are ok W i R H s \<Longrightarrow> E s"
    and "\<And>s. decision_is (wp_casTerm p) (wp_casSubterm p) R \<Longrightarrow>
      \<not> list_ex (history_is (wp_newTerm p) (wp_newSubterm p)) H \<Longrightarrow>
      tables_are ok W i (R\<lparr>crr_proposal := proposal_columns (stored_params env p)\<rparr>) (H @ [history_columns (stored_params env p)]) s \<Longrightarrow> E s"
  shows "triple (staged g ok W i R H) (writeRuleProposal env p)
    (\<lambda>_ s. staged g ok W i (R\<lparr>crr_proposal := proposal_columns (stored_params env p)\<rparr>) (H @ [history_columns (stored_params env p)]) s \<and>
      decision_is (wp_casTerm p) (wp_casSubterm p) R \<and> \<not> list_ex (history_is (wp_newTerm p) (wp_newSubterm p)) H) E"
proof -
  let ?new = "\<lambda>s. staged g ok W i (R\<lparr>crr_proposal := proposal_columns (stored_params env p)\<rparr>) (H @ [history_columns (stored_params env p)]) s \<and>
      decision_is (wp_casTerm p) (wp_casSubterm p) R \<and> \<not> list_ex (history_is (wp_newTerm p) (wp_newSubterm p)) H"
  have E: "staged g ok W i R H s \<Longrightarrow> E s" "?new s \<Longrightarrow> E s" for s
    using assms(3,4) staged_tables by blast+
  have q: "triple (staged g ok W i R H) (query env (propose_stmt (stored_params env p)))
      (\<lambda>r s. r = None \<and> staged g ok W i R H s \<or> r \<noteq> None \<and> ?new s) E"
    by (rule triple_stmt [OF assms(1) stable_staged])
      (use propose_stmt_staged [where ok = ok and p = "stored_params env p", unfolded stored_params_sel, OF _ staged_backend [where ok = ok, OF assms(2)]] E in blast)+
  show ?thesis
    unfolding writeRuleProposal_def
    by (rule triple_and_then [OF triple_wrap [OF q]],
        intro triple_option triple_fail triple_prod triple_conseq [OF cache_tail [where E = E and P = ?new]])
      (use E in auto)
qed

text \<open>
  What the store relies on of the promotion hook: it may end recovery, and otherwise leaves the rule
  tables, the settings and the manager's memory as a quiet server would.
\<close>

definition hook_step :: "ruleStore \<Rightarrow> ruleStore \<Rightarrow> bool" where
  "hook_step s s' \<longleftrightarrow>
     quiet_step (c_pg s) ((c_pg s')\<lparr>pg_in_recovery := pg_in_recovery (c_pg s)\<rparr>) \<and> ssm_localID s' = ssm_localID s \<and>
     lastSyncCommit s' = lastSyncCommit s \<and> lastStandbyNames s' = lastStandbyNames s"

definition hook_ok :: "RuleUpdateBuilder \<Rightarrow> bool" where
  "hook_ok update \<longleftrightarrow> (\<forall>hook. ub_promotionHook update = Some hook \<longrightarrow> (\<forall>s. hook_step s (snd (hook s))))"

lemma hook_step_staged: "hook_step s s' \<Longrightarrow> staged g ok W i R H s \<Longrightarrow> staged g ok W i R H s'"
  by (auto simp: hook_step_def quiet_step_def staged_def stage_def tables_are_def log_grew_def in_force_def cache_coherent_def)

lemma run_promotion_hook_triple:
  assumes "hook_ok update" "\<And>s. tables_are ok W i R H s \<Longrightarrow> E s"
  shows "triple (staged g ok W i R H) (run_promotion_hook update) (\<lambda>_. staged g ok W i R H) E"
proof (cases "ub_promotionHook update")
  case None
  then show ?thesis by (simp add: run_promotion_hook_def triple_succeed)
next
  case (Some hook)
  with assms(1) have step: "hook_step s (snd (hook s))" for s by (simp add: hook_ok_def)
  have "triple (staged g ok W i R H) hook (\<lambda>_. staged g ok W i R H) E"
    by (rule tripleI) (metis hook_step_staged step snd_conv, metis hook_step_staged step snd_conv assms(2) staged_tables)
  with Some show ?thesis by (simp add: run_promotion_hook_def triple_wrap)
qed

lemma SetPolicy_stage:
  assumes "env_quiet env" "\<And>s. tables_are ok W i R H s \<Longrightarrow> E s"
  shows "triple (stage ok W i R H) (SetPolicy env al ctx drained pc)
    (\<lambda>_ s. \<exists>g. policy_settings i pc g \<and> staged g ok W i R H s) E"
proof (rule tripleI)
  fix s :: ruleStore and u s'
  assume s: "stage ok W i R H s" and run: "SetPolicy env al ctx drained pc s = (Inr u, s')"
  from triple_InrD [OF SetPolicy_triple [OF assms(1), of "ssm_frame s"] run] s
  have "ssm_frame s' = ssm_frame s" "cache_coherent s'" "policy_in_force pc s'" by (auto simp: stage_def)
  with s show "\<exists>g. policy_settings i pc g \<and> staged g ok W i R H s'"
    by (auto simp: stage_def staged_def tables_are_def ssm_frame_def policy_in_force_def log_grew_def)
next
  fix s :: ruleStore and e s'
  assume s: "stage ok W i R H s" and run: "SetPolicy env al ctx drained pc s = (Inl e, s')"
  from triple_InlD [OF SetPolicy_triple [OF assms(1), of "ssm_frame s"] run] s
  have "ssm_frame s' = ssm_frame s" by (auto simp: stage_def)
  with s show "E s'"
    by (intro assms(2)) (auto simp: stage_def tables_are_def ssm_frame_def log_grew_def)
qed

lemma read_triple:
  assumes "env_quiet env" "\<And>s. tables_are ok W i R H s \<Longrightarrow> E s"
  shows "triple (stage ok W i R H) (readCurrentRuleLocked env inRecovery)
    (\<lambda>(pos, drained) s. stage ok W i R H s \<and> drained \<and> (\<exists>l. row_position (Some R, l) = Inr pos)) E"
proof -
  let ?P = "stage ok W i R H" and ?Q = "\<lambda>r s. stage ok W i R H s \<and> fst r = Some R"
  have E: "?P s \<Longrightarrow> E s" for s using assms(2) by (simp add: stage_def)
  have sel: "triple ?P (query env (\<lambda>db. map_sum id (\<lambda>(db', r). (db, r)) (select_current_rule b db))) ?Q ?P"
    "triple ?P (query env (select_current_rule b)) ?Q E" for b
    by (rule triple_stmt [OF assms(1) stable_stage];
        auto simp: select_current_rule_def stage_def tables_are_def assms(2) split: option.splits if_splits)+
  have skip: "triple P (query env (select (\<lambda>db. ()))) (\<lambda>_. P) P" if "stable P" for P :: "ruleStore \<Rightarrow> bool"
    by (rule triple_conseq [OF triple_select [OF assms(1) that]]) auto
  have Qst: "stable (\<lambda>s. case r of Inl _ \<Rightarrow> ?P s | Inr x \<Rightarrow> ?Q x s)" for r :: "string + current_rule_row option \<times> string"
    using stable_stage [of ok W i R H] unfolding stable_def by (auto split: sum.splits)
  have "triple ?P (wrapInRollback env (select_current_rule b)) ?Q E" for b
    unfolding wrapInRollback_def
  proof (rule triple_and_then [where R = "\<lambda>_. ?P"])
    show "triple ?P (query env (select (\<lambda>db. ()))) (\<lambda>_. ?P) E"
      by (rule triple_conseq [OF skip [OF stable_stage]]) (auto intro: E)
    have rest: "triple (\<lambda>s. case r of Inl _ \<Rightarrow> ?P s | Inr x \<Rightarrow> ?Q x s)
        (and_then (attempt (query env (select (\<lambda>db. ())))) (\<lambda>rollback :: string + unit. lift_result r)) ?Q E"
      for r :: "string + current_rule_row option \<times> string"
      by (rule triple_and_then [OF triple_attempt [where Q = "\<lambda>_ s. case r of Inl _ \<Rightarrow> ?P s | Inr x \<Rightarrow> ?Q x s"]],
          rule triple_conseq [OF skip [OF Qst [of r]]])
        (auto intro!: triple_lift intro: E)
    show "triple ?P (and_then (attempt (query env (\<lambda>db. map_sum id (\<lambda>(db', r). (db, r)) (select_current_rule b db)))) (\<lambda>result.
        and_then (attempt (query env (select (\<lambda>db. ())))) (\<lambda>rollback :: string + unit. lift_result result))) ?Q E"
      by (rule triple_and_then [OF triple_attempt [where Q = "\<lambda>r s. case r of Inl _ \<Rightarrow> ?P s | Inr x \<Rightarrow> ?Q x s"] rest],
          rule triple_conseq [OF sel(1)]) simp_all
  qed
  then have "triple ?P (if \<not> inRecovery then wrapInRollback env (select_current_rule True)
      else query env (select_current_rule False)) ?Q E"
    using sel(2) by simp
  then have "triple ?P (readCurrentRule env (\<not> inRecovery)) (\<lambda>pos s. ?P s \<and> (\<exists>l. row_position (Some R, l) = Inr pos)) E"
    unfolding readCurrentRule_def
    by (rule triple_and_then [OF triple_wrap]) (rule triple_lift; auto intro: E)
  then show ?thesis
    unfolding readCurrentRuleLocked_def by (rule triple_and_then) (auto intro!: triple_succeed)
qed

subsection \<open>The position of a row\<close>

definition position_of :: "current_rule_row \<Rightarrow> rule_error + RulePosition ptr" where
  "position_of R = map_sum id PoolerPosition_GetPosition (row_position (Some R, ''''))"

lemma position_of_row:
  "row_position (Some R, l) = Inr pos \<Longrightarrow> position_of R = Inr (PoolerPosition_GetPosition pos)"
  by (auto simp: position_of_def row_position_def buildPoolerPosition_def split: sum.splits option.splits if_splits)

lemma validate_SomeD:
  assumes "validate r = Inr (Some rule)"
  shows "urr_coordinatorTerm r = Some (GetCoordinatorTerm (GetRuleNumber (Some rule)))"
    "urr_leaderSubterm r = Some (GetLeaderSubterm (GetRuleNumber (Some rule)))"
  using assms by (auto simp: validate_def buildShardRule_def split: option.splits sum.splits if_splits)

lemma position_ofD:
  assumes "position_of R = Inr position"
  shows "validate (crr_proposal R) = Inr (GetProposal position)"
    "\<exists>d c. validate (crr_decision R) = Inr (Some d) \<and> GetDecision position = Some (d\<lparr>sr_coordinator_id := c\<rparr>)"
  using assms
  by (auto simp: position_of_def row_position_def buildPoolerPosition_def split: sum.splits option.splits if_splits)

text \<open>The number of a rule, and of the proposal that a position carries.\<close>

definition number_of :: "ShardRule ptr \<Rightarrow> int \<times> int" where
  "number_of rule = (GetCoordinatorTerm (GetRuleNumber rule), GetLeaderSubterm (GetRuleNumber rule))"

lemma undecided_proposal:
  assumes "position_of R = Inr position" "\<not> IsRuleDecided position"
  shows "proposal_is (fst (number_of (GetProposal position))) (snd (number_of (GetProposal position))) R"
proof -
  from assms(2) obtain rule where rule: "GetProposal position = Some rule"
    by (cases "GetProposal position") (auto simp: IsRuleDecided_def ruleNumberIsUnset_def)
  with position_ofD(1) [OF assms(1)] have "validate (crr_proposal R) = Inr (Some rule)" by simp
  from validate_SomeD [OF this] rule show ?thesis by (simp add: proposal_is_def number_of_def)
qed

lemma decision_number:
  assumes "position_of R = Inr position"
  shows "decision_is t st R \<longleftrightarrow> number_of (GetDecision position) = (t, st)"
proof -
  from position_ofD(2) [OF assms] obtain d c where d: "validate (crr_decision R) = Inr (Some d)"
    "GetDecision position = Some (d\<lparr>sr_coordinator_id := c\<rparr>)" by blast
  from validate_SomeD [OF d(1)] d(2) show ?thesis by (auto simp: decision_is_def number_of_def)
qed

section \<open>A whole update\<close>

text \<open>The tables after the stuck proposal of a position is decided, if it has one.\<close>

definition base_row :: "pg_env \<Rightarrow> RulePosition ptr \<Rightarrow> current_rule_row \<Rightarrow> current_rule_row" where
  "base_row env position R =
     (if IsRuleDecided position then R
      else decide_row (ClusterIDString (GetCoordinatorId (GetProposal position)))
        (env_timestamptz env (AsTime (GetCreationTime (GetProposal position)))) R)"

definition base_history :: "RulePosition ptr \<Rightarrow> rule_history_row list \<Rightarrow> rule_history_row list" where
  "base_history position H =
     (if IsRuleDecided position then H
      else mark_decided (fst (number_of (GetProposal position))) (snd (number_of (GetProposal position))) H)"

text \<open>The tables with the new rule proposed, and decided.\<close>

definition proposed_row :: "ruleProposalWriteParams \<Rightarrow> current_rule_row \<Rightarrow> current_rule_row" where
  "proposed_row p R = R\<lparr>crr_proposal := proposal_columns p\<rparr>"

definition decided_row :: "ruleProposalWriteParams \<Rightarrow> current_rule_row \<Rightarrow> current_rule_row" where
  "decided_row p R = decide_row (wp_coordinatorIDStr p) (wp_createdAt p) (proposed_row p R)"

definition decided_history :: "ruleProposalWriteParams \<Rightarrow> rule_history_row list \<Rightarrow> rule_history_row list" where
  "decided_history p H = mark_decided (wp_newTerm p) (wp_newSubterm p) (H @ [history_columns p])"

text \<open>What an update asks for at a position: who may ask, and the write it plans.\<close>

definition admissible :: "RuleUpdateBuilder \<Rightarrow> RulePosition ptr \<Rightarrow> bool" where
  "admissible update position \<longleftrightarrow>
     \<not> ub_force update \<and> ub_coordinatorID update \<noteq> None \<and> ub_createdAt update \<noteq> zero_time \<and>
     (IsRuleDecided position \<or> ub_skipOutgoingQuorum update \<or> ub_promotionHook update \<noteq> None) \<and>
     (ub_previousRule update = None \<or> ub_previousRule update = Some (number_of (PossiblyUndecidedRule position)))"

definition resolved ::
  "RuleUpdateBuilder \<Rightarrow> RulePosition ptr \<Rightarrow> rule_error + ID ptr \<times> ID ptr list \<times> DurabilityPolicyPb ptr \<times> PolicyWithCohort" where
  "resolved update position =
     resolveNewRuleValues (PossiblyUndecidedRule position) update (ub_promotionHook update \<noteq> None)"

definition planned :: "RuleUpdateBuilder \<Rightarrow> RulePosition ptr \<Rightarrow> PolicyTransition \<Rightarrow> ruleProposalWriteParams \<Rightarrow> bool" where
  "planned update position tr p \<longleftrightarrow> admissible update position \<and>
     (\<exists>n leader cohort dp pwc.
        next_subterm (ub_termNumber update) (fst (number_of (PossiblyUndecidedRule position)))
          (snd (number_of (PossiblyUndecidedRule position))) = Inr n \<and>
        resolved update position = Inr (leader, cohort, dp, pwc) \<and>
        guc_transition update (PossiblyUndecidedRule position) pwc = Inr tr \<and>
        write_params update (PossiblyUndecidedRule position) n leader cohort dp = Inr p)"

definition finalizes :: "RuleUpdateBuilder \<Rightarrow> RulePosition ptr \<Rightarrow> PolicyWithCohort \<Rightarrow> bool" where
  "finalizes update position pc \<longleftrightarrow> admissible update position \<and> \<not> IsRuleDecided position \<and>
     (\<exists>leader cohort dp pwc. resolved update position = Inr (leader, cohort, dp, pwc) \<and>
        (if ub_skipOutgoingQuorum update then Inr pwc else expectedSyncStandbyPolicy position) = Inr pc)"

primrec write_number :: "rule_write \<Rightarrow> int \<times> int" where
  "write_number (WriteProposal t st) = (t, st)"
| "write_number (WriteConfirm t st) = (t, st)"
| "write_number (WriteDecision t st) = (t, st)"

text \<open>
  The writes an update may make: those of the stuck proposal, and those of its own rule, under the
  settings of the policy it has set when the backends have taken them up.
\<close>

definition allowed_write :: "pg_env \<Rightarrow> RuleUpdateBuilder \<Rightarrow> RulePosition ptr \<Rightarrow> ID ptr \<Rightarrow> rule_write \<times> settings \<Rightarrow> bool" where
  "allowed_write env update position i wg \<longleftrightarrow>
     (\<exists>pc. finalizes update position pc \<and> write_number (fst wg) = number_of (GetProposal position) \<and>
        (\<forall>t st. fst wg \<noteq> WriteProposal t st) \<and> (backends_reloaded env \<longrightarrow> policy_settings i pc (snd wg))) \<or>
     (\<exists>tr p. planned update position tr p \<and> write_number (fst wg) = (wp_newTerm p, wp_newSubterm p) \<and>
        (backends_reloaded env \<longrightarrow> policy_settings i (Both tr) (snd wg)))"

definition run_tables :: "pg_env \<Rightarrow> RuleUpdateBuilder \<Rightarrow> RulePosition ptr \<Rightarrow> current_rule_row \<Rightarrow> rule_history_row list \<Rightarrow>
    current_rule_row \<Rightarrow> rule_history_row list \<Rightarrow> bool" where
  "run_tables env update position R H R' H' \<longleftrightarrow>
     R' = R \<and> H' = H \<or>
     admissible update position \<and> R' = base_row env position R \<and> H' = base_history position H \<or>
     (\<exists>tr p. planned update position tr p \<and> decision_is (wp_casTerm p) (wp_casSubterm p) (base_row env position R) \<and>
        \<not> list_ex (history_is (wp_newTerm p) (wp_newSubterm p)) (base_history position H) \<and>
        (R' = proposed_row (stored_params env p) (base_row env position R) \<and> H' = base_history position H @ [history_columns (stored_params env p)] \<or>
         R' = decided_row (stored_params env p) (base_row env position R) \<and> H' = decided_history (stored_params env p) (base_history position H)))"

definition left_by :: "pg_env \<Rightarrow> RuleUpdateBuilder \<Rightarrow> RulePosition ptr \<Rightarrow> (rule_write \<times> settings) list \<Rightarrow> ID ptr \<Rightarrow>
    current_rule_row \<Rightarrow> rule_history_row list \<Rightarrow> ruleStore \<Rightarrow> bool" where
  "left_by env update position W i R H s \<longleftrightarrow>
     (\<exists>R' H'. run_tables env update position R H R' H' \<and> tables_are (allowed_write env update position i) W i R' H' s)"

lemma finalize_triple:
  fixes env update position i
  defines "ok \<equiv> allowed_write env update position i"
  assumes "env_quiet env" "hook_ok update" "position_of R = Inr position"
    and "PoolerPosition_GetPosition current = position" "admissible update position"
    and "resolved update position = Inr (leader, cohort, dp, pwc)"
  shows "triple (stage ok W i R H)
    (maybeFinalizeStuckProposal env parse_lsn al ctx drained current update (ub_promotionHook update \<noteq> None) pwc)
    (\<lambda>_. stage ok W i (base_row env position R) (base_history position H)) (left_by env update position W i R H)"
proof -
  let ?E = "left_by env update position W i R H"
  have E: "tables_are ok W i R H s \<Longrightarrow> ?E s" "tables_are ok W i (base_row env position R) (base_history position H) s \<Longrightarrow> ?E s" for s
    using assms(6) by (auto simp: left_by_def run_tables_def ok_def)
  show ?thesis
  proof (cases "IsRuleDecided position")
    case True
    then show ?thesis
      unfolding maybeFinalizeStuckProposal_def assms(5) Let_def
      by (simp add: base_row_def base_history_def triple_succeed)
  next
    case False
    let ?n = "number_of (GetProposal position)"
    let ?c = "ClusterIDString (GetCoordinatorId (GetProposal position))"
    let ?u = "AsTime (GetCreationTime (GetProposal position))"
    have base: "base_row env position R = decide_row ?c (env_timestamptz env ?u) R" "base_history position H = mark_decided (fst ?n) (snd ?n) H"
      using False by (simp_all add: base_row_def base_history_def)
    have pend: "proposal_is (fst ?n) (snd ?n) R" using undecided_proposal [OF assms(4) False] .
    have pol: "triple (stage ok W i R H) (lift_result (if ub_skipOutgoingQuorum update then Inr pwc
        else expectedSyncStandbyPolicy position)) (\<lambda>pc s. stage ok W i R H s \<and> finalizes update position pc) ?E"
      by (rule triple_lift) (use assms(6,7) False E(1) in \<open>auto simp: finalizes_def stage_def\<close>)
    have set_policy: "triple (stage ok W i R H) (wrap_error e (SetPolicy env al ctx drained pc))
        (\<lambda>_ s. \<exists>g. policy_settings i pc g \<and> staged g ok W i R H s) ?E" for pc and e :: "guc_error \<Rightarrow> rule_error"
      by (rule triple_wrap, rule SetPolicy_stage [where E = ?E, OF assms(2) E(1)])
    have rest: "triple (staged g ok W i R H)
        (and_then (if ub_promotionHook update \<noteq> None then run_promotion_hook update else succeed ()) (\<lambda>_.
         and_then (now env) (\<lambda>confirmStartedAt.
         and_then (confirmProposalQuorum env parse_lsn (fst ?n) (snd ?n)) (\<lambda>confirmedLSN.
         and_then (markProposalAsDecision env parse_lsn (fst ?n) (snd ?n) ?c ?u (Some (confirmedLSN, confirmStartedAt))) (\<lambda>decidedPos.
         succeed (decidedPos, ub_promotionHook update \<noteq> None))))))
        (\<lambda>_. stage ok W i (base_row env position R) (base_history position H)) ?E"
      if pc: "finalizes update position pc" "policy_settings i pc g" for pc g
    proof -
      have ok: "ok (WriteConfirm (fst ?n) (snd ?n), b)" "ok (WriteDecision (fst ?n) (snd ?n), b)"
        if "backends_reloaded env \<longrightarrow> b = g" for b
        using that pc by (auto simp: ok_def allowed_write_def)
      have hook: "triple (staged g ok W i R H) (if ub_promotionHook update \<noteq> None then run_promotion_hook update else succeed ())
          (\<lambda>_. staged g ok W i R H) ?E"
        using run_promotion_hook_triple [where ok = ok, OF assms(3) E(1)] by (simp add: triple_succeed)
      have now: "triple (staged g ok W i R H) (now env) (\<lambda>_. staged g ok W i R H) ?E"
        by (rule triple_now)
      have confirm: "triple (staged g ok W i R H) (confirmProposalQuorum env parse_lsn (fst ?n) (snd ?n))
          (\<lambda>_. staged g ok W i R H) ?E"
        using confirm_triple [where ok = ok, OF assms(2) ok(1) E(1) [OF staged_tables]] .
      have mark: "triple (staged g ok W i R H) (markProposalAsDecision env parse_lsn (fst ?n) (snd ?n) ?c ?u pf)
          (\<lambda>_. stage ok W i (base_row env position R) (base_history position H)) ?E" for pf
        by (rule triple_conseq [OF mark_triple [where ok = ok and E = ?E, OF assms(2) ok pend]])
          (use E in \<open>auto simp: base staged_def\<close>)
      show ?thesis
        by (rule triple_and_then [OF hook], rule triple_and_then [OF now], rule triple_and_then [OF confirm],
            rule triple_and_then [OF mark], rule triple_succeed)
    qed
    show ?thesis
      unfolding maybeFinalizeStuckProposal_def assms(5) Let_def if_not_P [OF False]
      unfolding number_of_def [THEN arg_cong [where f = fst], unfolded fst_conv, symmetric]
        number_of_def [THEN arg_cong [where f = snd], unfolded snd_conv, symmetric]
      by (rule triple_and_then [OF pol], rule triple_when, rule triple_and_then [OF set_policy],
          rule triple_ex, rule triple_unless, rule rest)
  qed
qed

text \<open>What a completed write leaves: the new rule decided, and the incoming settings in force.\<close>

definition completed :: "pg_env \<Rightarrow> RuleUpdateBuilder \<Rightarrow> RulePosition ptr \<Rightarrow> (rule_write \<times> settings) list \<Rightarrow> ID ptr \<Rightarrow>
    current_rule_row \<Rightarrow> rule_history_row list \<Rightarrow> PolicyTransition \<Rightarrow> ruleProposalWriteParams \<Rightarrow>
    PoolerPosition ptr \<Rightarrow> ruleStore \<Rightarrow> bool" where
  "completed env update position W i R H tr p pos s \<longleftrightarrow>
     planned update position tr p \<and> decision_is (wp_casTerm p) (wp_casSubterm p) (base_row env position R) \<and>
     \<not> list_ex (history_is (wp_newTerm p) (wp_newSubterm p)) (base_history position H) \<and>
     (\<exists>g. policy_settings i (Incoming tr) g \<and>
        staged g (allowed_write env update position i) W i (decided_row (stored_params env p) (base_row env position R))
          (decided_history (stored_params env p) (base_history position H)) s) \<and>
     (\<exists>l. row_position (Some (decided_row (stored_params env p) (base_row env position R)), l) = Inr pos)"

lemma write_rule_triple:
  fixes env update position i
  defines "ok \<equiv> allowed_write env update position i"
  assumes "env_quiet env" "hook_ok update" "planned update position tr p"
  shows "triple (stage ok W i (base_row env position R) (base_history position H))
    (write_rule env parse_lsn al ctx drained update promoted tr p)
    (completed env update position W i R H tr p) (left_by env update position W i R H)"
proof -
  let ?E = "left_by env update position W i R H"
  let ?R = "base_row env position R" and ?H = "base_history position H"
  let ?t = "wp_newTerm p" and ?st = "wp_newSubterm p"
  let ?fits = "decision_is (wp_casTerm p) (wp_casSubterm p) ?R \<and> \<not> list_ex (history_is ?t ?st) ?H"
  have adm: "admissible update position" using assms(4) by (simp add: planned_def)
  have E: "tables_are ok W i ?R ?H s \<Longrightarrow> ?E s"
    "?fits \<Longrightarrow> tables_are ok W i (proposed_row (stored_params env p) ?R) (?H @ [history_columns (stored_params env p)]) s \<Longrightarrow> ?E s"
    "?fits \<Longrightarrow> tables_are ok W i (decided_row (stored_params env p) ?R) (decided_history (stored_params env p) ?H) s \<Longrightarrow> ?E s" for s
    using adm assms(4) unfolding left_by_def run_tables_def ok_def by blast+
  have set_policy: "triple (stage ok W i R1 H1) (wrap_error e (SetPolicy env al ctx drained pc))
      (\<lambda>_ s. \<exists>g. policy_settings i pc g \<and> staged g ok W i R1 H1 s) ?E"
    if "\<And>s. tables_are ok W i R1 H1 s \<Longrightarrow> ?E s" for R1 H1 pc and e :: "guc_error \<Rightarrow> rule_error"
    by (rule triple_wrap, rule SetPolicy_stage [where E = ?E, OF assms(2) that])
  have rest: "triple (staged g ok W i ?R ?H)
      (and_then (if ub_promotionHook update \<noteq> None \<and> \<not> promoted then run_promotion_hook update else succeed ()) (\<lambda>_.
       and_then (now env) (\<lambda>proposalStartedAt.
       and_then (writeRuleProposal env p) (\<lambda>proposalPos.
       and_then (markProposalAsDecision env parse_lsn ?t ?st (wp_coordinatorIDStr p)
           (wp_createdAt p) (newQuorumProof parse_lsn (PoolerPosition_GetLsn proposalPos) proposalStartedAt)) (\<lambda>pos.
       and_then (wrap_error (RSErr_GUC ''post-write GUC'') (SetPolicy env al ctx drained (Incoming tr))) (\<lambda>_.
       succeed pos))))))
      (completed env update position W i R H tr p) ?E"
    if g: "policy_settings i (Both tr) g" for g
  proof -
    have ok: "ok (WriteProposal ?t ?st, b)" "ok (WriteConfirm ?t ?st, b)" "ok (WriteDecision ?t ?st, b)"
      if "backends_reloaded env \<longrightarrow> b = g" for b
      using that g assms(4) by (auto simp: ok_def allowed_write_def)
    have hook: "triple (staged g ok W i ?R ?H) (if ub_promotionHook update \<noteq> None \<and> \<not> promoted then run_promotion_hook update
        else succeed ()) (\<lambda>_. staged g ok W i ?R ?H) ?E"
      using run_promotion_hook_triple [where ok = ok, OF assms(3) E(1)] by (simp add: triple_succeed)
    have now: "triple (staged g ok W i ?R ?H) (now env) (\<lambda>_. staged g ok W i ?R ?H) ?E"
      by (rule triple_now)
    have propose: "triple (staged g ok W i ?R ?H) (writeRuleProposal env p)
        (\<lambda>_ s. ?fits \<and> staged g ok W i (proposed_row (stored_params env p) ?R) (?H @ [history_columns (stored_params env p)]) s) ?E"
      by (rule triple_conseq [OF propose_triple [where ok = ok and E = ?E, OF assms(2) ok(1)]])
        (use E in \<open>auto simp: proposed_row_def\<close>)
    have pend: "proposal_is ?t ?st (proposed_row (stored_params env p) ?R)"
      by (simp add: proposal_is_def proposed_row_def proposal_columns_def)
    have mark: "triple (\<lambda>s. ?fits \<and> staged g ok W i (proposed_row (stored_params env p) ?R) (?H @ [history_columns (stored_params env p)]) s)
        (markProposalAsDecision env parse_lsn ?t ?st (wp_coordinatorIDStr p) (wp_createdAt p) pf)
        (\<lambda>pos s. (?fits \<and> (\<exists>l. row_position (Some (decided_row (stored_params env p) ?R), l) = Inr pos)) \<and>
           stage ok W i (decided_row (stored_params env p) ?R) (decided_history (stored_params env p) ?H) s) ?E" for pf
    proof (rule triple_unless)
      assume fits: ?fits
      show "triple (staged g ok W i (proposed_row (stored_params env p) ?R) (?H @ [history_columns (stored_params env p)]))
        (markProposalAsDecision env parse_lsn ?t ?st (wp_coordinatorIDStr p) (wp_createdAt p) pf)
        (\<lambda>pos s. (?fits \<and> (\<exists>l. row_position (Some (decided_row (stored_params env p) ?R), l) = Inr pos)) \<and>
           stage ok W i (decided_row (stored_params env p) ?R) (decided_history (stored_params env p) ?H) s) ?E"
        by (rule triple_conseq [OF mark_triple [where ok = ok and E = ?E, OF assms(2) ok(2,3) pend]])
          (use E fits in \<open>auto simp: decided_row_def decided_history_def staged_def\<close>)
    qed
    have final: "triple (\<lambda>s. (?fits \<and> (\<exists>l. row_position (Some (decided_row (stored_params env p) ?R), l) = Inr pos)) \<and>
           stage ok W i (decided_row (stored_params env p) ?R) (decided_history (stored_params env p) ?H) s)
        (and_then (wrap_error (RSErr_GUC ''post-write GUC'') (SetPolicy env al ctx drained (Incoming tr))) (\<lambda>_.
         succeed pos)) (completed env update position W i R H tr p) ?E" for pos
      by (rule triple_unless, rule triple_and_then [OF set_policy triple_succeed])
        (use E(3) assms(4) in \<open>auto simp: completed_def ok_def\<close>)
    show ?thesis
      by (rule triple_and_then [OF hook], rule triple_and_then [OF now], rule triple_and_then [OF propose],
          rule triple_and_then [OF mark], rule final)
  qed
  show ?thesis
    unfolding write_rule_def
    by (rule triple_and_then [OF set_policy], rule E(1), assumption, rule triple_ex, rule triple_unless, rule rest)
qed

lemma change_rule_triple:
  fixes env update position i
  defines "ok \<equiv> allowed_write env update position i"
  assumes "env_quiet env" "hook_ok update" "position_of R = Inr position"
    and "PoolerPosition_GetPosition current = position" "admissible update position"
  shows "triple (stage ok W i R H) (change_rule env parse_lsn al ctx update current drained)
    (\<lambda>r s. \<exists>tr p. completed env update position W i R H tr p r s) (left_by env update position W i R H)"
proof -
  let ?E = "left_by env update position W i R H" and ?Q = "\<lambda>r s. \<exists>tr p. completed env update position W i R H tr p r s"
  let ?rule = "PossiblyUndecidedRule position" and ?promotion = "ub_promotionHook update \<noteq> None"
  have E: "stage ok W i R H s \<Longrightarrow> ?E s"
    "stage ok W i (base_row env position R) (base_history position H) s \<Longrightarrow> ?E s" for s
    using assms(6) by (auto simp: left_by_def run_tables_def ok_def stage_def)
  show ?thesis
  proof (cases "next_subterm (ub_termNumber update) (fst (number_of ?rule)) (snd (number_of ?rule))")
    case n: (Inr n)
    show ?thesis
    proof (cases "resolved update position")
      case (Inr v)
      obtain leader cohort dp pwc where v: "v = (leader, cohort, dp, pwc)" by (cases v)
      have tail: "triple (stage ok W i (base_row env position R) (base_history position H))
          (and_then (lift_result (guc_transition update ?rule pwc)) (\<lambda>transition.
           and_then (lift_result (write_params update ?rule n leader cohort dp)) (\<lambda>p.
           write_rule env parse_lsn al ctx drained update promoted transition p))) ?Q ?E" for promoted
      proof (cases "guc_transition update ?rule pwc")
        case tr: (Inr tr)
        show ?thesis
        proof (cases "write_params update ?rule n leader cohort dp")
          case p: (Inr p)
          have "planned update position tr p" using assms(6) n Inr v tr p by (auto simp: planned_def)
          then have "triple (stage ok W i (base_row env position R) (base_history position H))
              (write_rule env parse_lsn al ctx drained update promoted tr p) ?Q ?E"
            unfolding ok_def by (intro triple_conseq [OF write_rule_triple [OF assms(2,3)]]) auto
          then show ?thesis by (simp only: tr p op_known)
        qed (simp add: tr triple_fail E)
      qed (simp add: triple_fail E)
      have fin: "triple (stage ok W i R H)
          (maybeFinalizeStuckProposal env parse_lsn al ctx drained current update ?promotion pwc)
          (\<lambda>_. stage ok W i (base_row env position R) (base_history position H)) ?E"
        unfolding ok_def using finalize_triple [OF assms(2-6)] Inr v by blast
      have res: "resolveNewRuleValues ?rule update ?promotion = Inr (leader, cohort, dp, pwc)"
        using Inr v by (simp add: resolved_def)
      have "triple (stage ok W i R H)
          (and_then (maybeFinalizeStuckProposal env parse_lsn al ctx drained current update ?promotion pwc) (\<lambda>(_, promoted).
           and_then (lift_result (guc_transition update ?rule pwc)) (\<lambda>transition.
           and_then (lift_result (write_params update ?rule n leader cohort dp)) (\<lambda>p.
           write_rule env parse_lsn al ctx drained update promoted transition p)))) ?Q ?E"
        by (rule triple_and_then [OF fin], rule triple_prod, rule tail)
      then show ?thesis
        unfolding change_rule_def Let_def assms(5) n [unfolded number_of_def fst_conv snd_conv] res op_known prod.case .
    qed (use n assms(5) in \<open>simp add: change_rule_def resolved_def number_of_def triple_fail E\<close>)
  qed (use assms(5) in \<open>simp add: change_rule_def number_of_def triple_fail E\<close>)
qed

lemma UpdateRule_triple:
  fixes env update position i
  defines "ok \<equiv> allowed_write env update position i"
  assumes "env_quiet env" "hook_ok update" "position_of R = Inr position"
  shows "triple (stage ok W i R H) (UpdateRule env parse_lsn al ctx update)
    (\<lambda>r s. ub_force update \<and> r = None \<and> stage ok W i R H s \<or>
       (\<exists>tr p. completed env update position W i R H tr p r s)) (left_by env update position W i R H)"
proof -
  let ?E = "left_by env update position W i R H" and ?Q = "\<lambda>r s. ub_force update \<and> r = None \<and> stage ok W i R H s \<or>
       (\<exists>tr p. completed env update position W i R H tr p r s)"
  have E: "stage ok W i R H s \<Longrightarrow> ?E s" "tables_are ok W i R H s \<Longrightarrow> ?E s" for s
    by (auto simp: left_by_def run_tables_def ok_def stage_def)
  have rest: "triple (\<lambda>s. stage ok W i R H s \<and> drained \<and> (\<exists>l. row_position (Some R, l) = Inr current))
      (and_then (check_none id (check_position update (PoolerPosition_GetPosition current))) (\<lambda>_.
       change_rule env parse_lsn al ctx update current drained)) ?Q ?E"
    if ok': "\<not> ub_force update" "ub_coordinatorID update \<noteq> None" "ub_createdAt update \<noteq> zero_time" for current drained
  proof (rule triple_when)
    assume "drained \<and> (\<exists>l. row_position (Some R, l) = Inr current)"
    with position_of_row assms(4) have cur: "PoolerPosition_GetPosition current = position" by fastforce
    show "triple (stage ok W i R H)
      (and_then (check_none id (check_position update (PoolerPosition_GetPosition current))) (\<lambda>_.
       change_rule env parse_lsn al ctx update current drained)) ?Q ?E"
    proof (cases "check_position update position")
      case None
      then have "admissible update position"
        using ok' by (cases "ub_previousRule update")
          (auto simp: check_position_def admissible_def number_of_def Let_def split: if_splits)
      from triple_conseq [OF change_rule_triple [OF assms(2-4) cur this]] None show ?thesis
        by (simp add: cur ok_def)
    qed (simp add: cur triple_fail E)
  qed
  show ?thesis
    unfolding UpdateRule_def
  proof (rule triple_and_then [where R = "\<lambda>_. stage ok W i R H"])
    have "triple (stage ok W i R H) (and_then (readCurrentRuleLocked env b) (\<lambda>(current, drained).
        and_then (check_none id (check_position update (PoolerPosition_GetPosition current))) (\<lambda>_.
        change_rule env parse_lsn al ctx update current drained))) ?Q ?E"
      if "\<not> ub_force update" "ub_coordinatorID update \<noteq> None" "ub_createdAt update \<noteq> zero_time" for b
      by (rule triple_and_then [OF read_triple [where E = ?E, OF assms(2) E(2)]], assumption, rule triple_prod,
          simp only: prod.case, rule rest [OF that])
    then show "triple (stage ok W i R H)
        (if ub_force update then succeed None
         else if ub_coordinatorID update = None then fail_with RSErr_NoCoordinator
         else if ub_createdAt update = zero_time then fail_with RSErr_NoCreatedAt
         else and_then (readCurrentRuleLocked env (ub_promotionHook update \<noteq> None)) (\<lambda>(current, drained).
           and_then (check_none id (check_position update (PoolerPosition_GetPosition current))) (\<lambda>_.
           change_rule env parse_lsn al ctx update current drained))) ?Q ?E" for u :: unit
      by (intro triple_if triple_succeed triple_fail) (auto intro: E(1))
  qed (rule triple_check; simp add: E(1))
qed

end
