(* ===== verification/Rule_Write.thy ===== *)
theory Rule_Write
  imports Rule_Store
begin

text \<open>
  What the rule store guarantees: every write of a rule is acknowledged by a quorum of the policies it
  has to satisfy, whatever fails on the way; the tables stay well formed, no decision regresses and no
  pending proposal is dropped; a completed env update reads back as the rule it was asked for, as far as the
  columns keep it.
\<close>

section \<open>The planned write\<close>

lemma write_params_InrD:
  assumes "write_params update rule n leader cohort dp = Inr p"
  shows "wp_casTerm p = GetCoordinatorTerm (GetRuleNumber rule)" "wp_casSubterm p = GetLeaderSubterm (GetRuleNumber rule)"
    "wp_newTerm p = ub_termNumber update" "wp_newSubterm p = n" "wp_createdAt p = ub_createdAt update"
    "wp_coordinatorIDStr p = ClusterIDString (ub_coordinatorID update)"
    "\<exists>d. dp = Some d \<and> wp_dpName p = dp_policy_name d \<and> wp_dpQuorumType p = QuorumType_String (dp_quorum_type d) \<and>
       wp_dpRequiredCount p = dp_required_count d"
    "leader = None \<and> wp_newLeaderStr p = '''' \<or>
       leader \<noteq> None \<and> (\<exists>l. NewReplicaID leader = (l, None) \<and> wp_newLeaderStr p = rep_appName l)"
    "\<exists>rs. ToReplicaIDs cohort = (rs, None) \<and> wp_newCohort p = ReplicaIDsToAppNames rs"
proof -
  obtain lr le where l: "NewReplicaID leader = (lr, le)" by fastforce
  obtain cr ce where c: "ToReplicaIDs cohort = (cr, ce)" by fastforce
  obtain ar ae where a: "ToReplicaIDs (ub_acceptedMembers update) = (ar, ae)" by fastforce
  from assms [unfolded write_params_def l c a fst_conv snd_conv]
  have ok: "leader \<noteq> None \<longrightarrow> le = None" "ce = None" "\<exists>d. dp = Some d"
    by (auto split: if_splits option.splits)
  obtain acc where "(if ub_acceptedMembers update = [] then ([], None) else (ar, ae)) = (acc, None)"
    using assms [unfolded write_params_def l c a fst_conv snd_conv] ok
    by (auto split: if_splits option.splits)
  note facts = assms [unfolded write_params_def l c a fst_conv snd_conv this]
  from facts ok show "wp_casTerm p = GetCoordinatorTerm (GetRuleNumber rule)"
    "wp_casSubterm p = GetLeaderSubterm (GetRuleNumber rule)"
    "wp_newTerm p = ub_termNumber update" "wp_newSubterm p = n" "wp_createdAt p = ub_createdAt update"
    "wp_coordinatorIDStr p = ClusterIDString (ub_coordinatorID update)"
    "\<exists>d. dp = Some d \<and> wp_dpName p = dp_policy_name d \<and> wp_dpQuorumType p = QuorumType_String (dp_quorum_type d) \<and>
       wp_dpRequiredCount p = dp_required_count d"
    "leader = None \<and> wp_newLeaderStr p = '''' \<or>
       leader \<noteq> None \<and> (\<exists>l. NewReplicaID leader = (l, None) \<and> wp_newLeaderStr p = rep_appName l)"
    "\<exists>rs. ToReplicaIDs cohort = (rs, None) \<and> wp_newCohort p = ReplicaIDsToAppNames rs"
    by (cases "leader = None"; auto simp: l c)+
qed

lemma plannedE:
  assumes "planned update position tr p"
  obtains n leader cohort dp pwc where "admissible update position"
    "next_subterm (ub_termNumber update) (fst (number_of (PossiblyUndecidedRule position)))
       (snd (number_of (PossiblyUndecidedRule position))) = Inr n"
    "resolved update position = Inr (leader, cohort, dp, pwc)"
    "guc_transition update (PossiblyUndecidedRule position) pwc = Inr tr"
    "write_params update (PossiblyUndecidedRule position) n leader cohort dp = Inr p"
  using assms by (auto simp: planned_def)

lemma planned_term: "planned update position tr p \<Longrightarrow> wp_newTerm p = ub_termNumber update"
  by (auto simp: planned_def dest: write_params_InrD(3))

section \<open>Quorums of a rule\<close>

definition quorum_in :: "ID ptr list \<Rightarrow> DurabilityPolicyPb ptr \<Rightarrow> ID ptr list \<Rightarrow> bool" where
  "quorum_in cohort dp q \<longleftrightarrow> (\<exists>policy. NewPolicyFromProto dp = Inr policy \<and> SatisfiedBy policy q = None \<and>
     poolerKeysOf q \<subseteq> poolerKeysOf cohort)"

definition rule_quorum :: "ShardRule ptr \<Rightarrow> ID ptr list \<Rightarrow> bool" where
  "rule_quorum rule q \<longleftrightarrow> quorum_in (GetCohortMembers rule) (GetDurabilityPolicy rule) q"

text \<open>
  A commit of the primary \<open>i\<close> under the settings \<open>g\<close> returns only when \<open>i\<close> and the poolers that have
  acknowledged it satisfy \<open>Q\<close>.
\<close>

definition commits_need :: "ID ptr \<Rightarrow> settings \<Rightarrow> (ID ptr list \<Rightarrow> bool) \<Rightarrow> bool" where
  "commits_need i g Q \<longleftrightarrow>
     (\<exists>cfg. settings_of cfg g \<and> (\<forall>acks. commit_acked cfg i acks \<longrightarrow> Q (i # acks)))"

lemma commits_need_mono: "commits_need i g Q \<Longrightarrow> (\<And>q. Q q \<Longrightarrow> Q' q) \<Longrightarrow> commits_need i g Q'"
  unfolding commits_need_def by blast

lemma settings_of_standbys:
  assumes "settings_of cfg g"
  shows "SyncStandbyIDs cfg \<noteq> []" "wf_IDs (SyncStandbyIDs cfg)"
proof -
  from assms obtain names where names: "names \<noteq> []"
    "ValidateSyncReplicationParams (wrap32 (NumSync cfg)) (SyncStandbyIDs cfg) = Inr names"
    by (auto simp: settings_of_def)
  then show "SyncStandbyIDs cfg \<noteq> []" by (auto simp: ValidateSyncReplicationParams_def split: if_splits)
  with names obtain rs where "ToReplicaIDs (SyncStandbyIDs cfg) = (rs, None)"
    by (auto simp: ValidateSyncReplicationParams_def ValidateStandbyIDs_def split: if_splits prod.splits option.splits)
  then show "wf_IDs (SyncStandbyIDs cfg)" by (rule ToReplicaIDs_NoneD(2))
qed

lemma config_shape:
  assumes "BuildSyncReplicationConfig policy cohort i = Inr cfg" "SyncStandbyIDs cfg \<noteq> []"
  shows "SyncCommit cfg = SYNCHRONOUS_COMMIT_ON" "set (SyncStandbyIDs cfg) \<subseteq> set cohort"
    "ClusterIDString i \<in> poolerKeysOf cohort"
  using assms
  by (cases policy; auto simp: Let_def requirePrimaryInCohort_def split: option.splits if_splits)+

lemma policy_settings_quorum:
  assumes "policy_settings i pc g" "wf_ID i"
  obtains policy where "Policy pc = Some policy"
    "commits_need i g (\<lambda>q. SatisfiedBy policy q = None \<and> poolerKeysOf q \<subseteq> poolerKeysOf (Cohort pc))"
proof -
  from assms(1) obtain policy cfg where p: "Policy pc = Some policy"
    "BuildSyncReplicationConfig policy (Cohort pc) i = Inr cfg" "settings_of cfg g"
    by (auto simp: policy_settings_def)
  note shape = config_shape [OF p(2) settings_of_standbys(1) [OF p(3)]]
  have "SatisfiedBy policy (i # acks) = None \<and> poolerKeysOf (i # acks) \<subseteq> poolerKeysOf (Cohort pc)"
    if acked: "commit_acked cfg i acks" for acks
  proof
    have sub: "set acks \<subseteq> set (SyncStandbyIDs cfg)"
      using acked shape(1) by (simp add: commit_acked_def)
    then have "wf_IDs acks" using settings_of_standbys(2) [OF p(3)] by blast
    from BuildSyncReplicationConfig_durable [OF p(2) assms(2) this acked]
    show "SatisfiedBy policy (i # acks) = None" .
    show "poolerKeysOf (i # acks) \<subseteq> poolerKeysOf (Cohort pc)"
      using sub shape(2,3) by (auto simp: poolerKeysOf_alt)
  qed
  with p(1,3) show thesis by (intro that [of policy]) (auto simp: commits_need_def)
qed

lemma NewPolicyWithCohort_InrD:
  "NewPolicyWithCohort cohort dp = Inr pwc \<Longrightarrow>
     \<exists>policy. NewPolicyFromProto dp = Inr policy \<and> pwc = \<lparr>Policy = Some policy, Cohort = cohort\<rparr>"
  by (auto simp: NewPolicyWithCohort_def split: sum.splits)

text \<open>The settings of a transition need a quorum of both its ends.\<close>

lemma transition_quorum:
  assumes "NewPolicyWithCohort c1 d1 = Inr out" "NewPolicyWithCohort c2 d2 = Inr inc"
    and "BuildPolicyTransition out inc = Inr tr" "distinct (map ClusterIDString c2)"
    and "policy_settings i (Both tr) g" "wf_ID i"
  shows "commits_need i g (\<lambda>q. quorum_in c1 d1 q \<and> quorum_in c2 d2 q)"
proof -
  from NewPolicyWithCohort_InrD [OF assms(1)] NewPolicyWithCohort_InrD [OF assms(2)] obtain p1 p2 where
    p: "NewPolicyFromProto d1 = Inr p1" "out = \<lparr>Policy = Some p1, Cohort = c1\<rparr>"
    "NewPolicyFromProto d2 = Inr p2" "inc = \<lparr>Policy = Some p2, Cohort = c2\<rparr>" by blast
  from policy_settings_quorum [OF assms(5,6)] obtain policy where policy: "Policy (Both tr) = Some policy"
    "commits_need i g (\<lambda>q. SatisfiedBy policy q = None \<and> poolerKeysOf q \<subseteq> poolerKeysOf (Cohort (Both tr)))" .
  from BuildPolicyTransition_both [OF assms(3)] assms(4) p policy(1) have
    keys: "poolerKeysOf (Cohort (Both tr)) \<subseteq> poolerKeysOf c1 \<inter> poolerKeysOf c2"
    and sat: "\<And>q. SatisfiedBy policy q = None \<Longrightarrow> SatisfiedBy p1 q = None \<and> SatisfiedBy p2 q = None"
    by auto
  show ?thesis
    by (rule commits_need_mono [OF policy(2)]) (use keys sat p in \<open>auto simp: quorum_in_def\<close>)
qed

lemma resolved_pwc:
  assumes "resolved update position = Inr (leader, cohort, dp, pwc)"
  shows "NewPolicyWithCohort cohort dp = Inr pwc"
  using assms
  by (auto simp: resolved_def resolveNewRuleValues_def Let_def split: sum.splits option.splits if_splits)

lemma policy_quorum:
  assumes "NewPolicyWithCohort cohort dp = Inr pwc" "policy_settings i pwc g" "wf_ID i"
  shows "commits_need i g (quorum_in cohort dp)"
proof -
  from NewPolicyWithCohort_InrD [OF assms(1)] obtain policy where
    p: "NewPolicyFromProto dp = Inr policy" "pwc = \<lparr>Policy = Some policy, Cohort = cohort\<rparr>" by blast
  from policy_settings_quorum [OF assms(2,3)] obtain policy' where "Policy pwc = Some policy'"
    "commits_need i g (\<lambda>q. SatisfiedBy policy' q = None \<and> poolerKeysOf q \<subseteq> poolerKeysOf (Cohort pwc))" .
  with p show ?thesis by (auto simp: quorum_in_def elim: commits_need_mono)
qed

lemma planned_durable:
  assumes "planned update position tr p" "policy_settings i (Both tr) g" "wf_ID i"
    and "resolved update position = Inr (leader, cohort, dp, pwc)" "distinct (map ClusterIDString cohort)"
  shows "commits_need i g (\<lambda>q. (ub_skipOutgoingQuorum update \<or> rule_quorum (PossiblyUndecidedRule position) q) \<and> quorum_in cohort dp q)"
proof -
  let ?rule = "PossiblyUndecidedRule position"
  from assms(1,4) have tr: "guc_transition update ?rule pwc = Inr tr" by (auto simp: planned_def)
  show ?thesis
  proof (cases "ub_skipOutgoingQuorum update")
    case True
    with tr assms(2) have "policy_settings i pwc g" by (auto simp: guc_transition_def)
    with policy_quorum [OF resolved_pwc [OF assms(4)] _ assms(3)] True show ?thesis by simp
  next
    case False
    with tr obtain out where "NewPolicyWithCohort (GetCohortMembers ?rule) (GetDurabilityPolicy ?rule) = Inr out"
      "BuildPolicyTransition out pwc = Inr tr"
      by (auto simp: guc_transition_def split: sum.splits)
    from transition_quorum [OF this(1) resolved_pwc [OF assms(4)] this(2) assms(5,2,3)] False show ?thesis
      by (simp add: rule_quorum_def)
  qed
qed

lemma finalizes_durable:
  assumes "finalizes update position pc" "policy_settings i pc g" "wf_ID i"
    and "resolved update position = Inr (leader, cohort, dp, pwc)"
    and "distinct (map ClusterIDString (GetCohortMembers (GetProposal position)))"
  shows "commits_need i g (\<lambda>q. if ub_skipOutgoingQuorum update then quorum_in cohort dp q
    else rule_quorum (GetDecision position) q \<and> rule_quorum (GetProposal position) q)"
proof (cases "ub_skipOutgoingQuorum update")
  case True
  with assms(1,2,4) have "policy_settings i pwc g" by (auto simp: finalizes_def)
  with policy_quorum [OF resolved_pwc [OF assms(4)] _ assms(3)] True show ?thesis by simp
next
  case False
  let ?d = "GetDecision position" and ?p = "GetProposal position"
  from assms(1) False have "expectedSyncStandbyPolicy position = Inr pc" "\<not> IsRuleDecided position"
    by (auto simp: finalizes_def)
  then obtain out inc tr where "NewPolicyWithCohort (GetCohortMembers ?d) (GetDurabilityPolicy ?d) = Inr out"
    "NewPolicyWithCohort (GetCohortMembers ?p) (GetDurabilityPolicy ?p) = Inr inc"
    "BuildPolicyTransition out inc = Inr tr" "pc = Both tr"
    by (auto simp: expectedSyncStandbyPolicy_def Let_def split: sum.splits if_splits)
  from transition_quorum [OF this(1-3) assms(5)] this(4) assms(2,3) False show ?thesis by (simp add: rule_quorum_def)
qed

text \<open>The rule asked for, with the fields the update leaves open taken from the current rule.\<close>

lemma resolved_values:
  assumes "resolved update position = Inr (leader, cohort, dp, pwc)"
  defines "rule \<equiv> PossiblyUndecidedRule position"
  shows "leader = (if ub_leaderID update = None then GetLeaderId rule else ub_leaderID update)"
    "cohort = (case ub_cohortMembers update of None \<Rightarrow> GetCohortMembers rule | Some ms \<Rightarrow> ms)"
    "dp = (if ub_durabilityPolicy update = None then GetDurabilityPolicy rule else ub_durabilityPolicy update)"
  using assms(1) unfolding rule_def
  by (auto simp: resolved_def resolveNewRuleValues_def resolve_leader_def resolve_policy_def Let_def
      split: sum.splits option.splits if_splits)

section \<open>Every write is durable\<close>

lemma stage_start:
  assumes "pg_current_rule (c_pg s) = Some (Some R)" "pg_rule_history (c_pg s) = Some H" "cache_coherent s"
  shows "stage ok (pg_wal (c_pg s)) (ssm_localID s) R H s"
  using assms by (auto simp: stage_def tables_are_def log_grew_def)

text \<open>Where an update leaves the store, whether it succeeds or fails.\<close>

lemma UpdateRule_leaves:
  assumes "env_quiet env" "hook_ok update" "cache_coherent s"
    and "pg_current_rule (c_pg s) = Some (Some R)" "pg_rule_history (c_pg s) = Some H" "position_of R = Inr position"
    and "UpdateRule env parse_lsn al ctx update s = (r, s')"
  shows "left_by env update position (pg_wal (c_pg s)) (ssm_localID s) R H s'"
proof (cases r)
  case (Inl e)
  with assms(7) triple_InlD [OF UpdateRule_triple [OF assms(1,2,6)] _ stage_start [OF assms(4,5,3)]]
  show ?thesis by blast
next
  case (Inr pos)
  let ?ok = "allowed_write env update position (ssm_localID s)"
  from Inr assms(7) triple_InrD [OF UpdateRule_triple [OF assms(1,2,6)] _ stage_start [OF assms(4,5,3)]]
  have "stage ?ok (pg_wal (c_pg s)) (ssm_localID s) R H s' \<or>
      (\<exists>tr p. completed env update position (pg_wal (c_pg s)) (ssm_localID s) R H tr p pos s')" by blast
  then show ?thesis
    by (auto simp: completed_def left_by_def run_tables_def staged_def stage_def)
qed


section \<open>Well-formed tables\<close>

definition before :: "int \<times> int \<Rightarrow> int \<times> int \<Rightarrow> bool" where
  "before m n \<longleftrightarrow> fst m < fst n \<or> fst m = fst n \<and> snd m < snd n"

definition history_key :: "rule_history_row \<Rightarrow> int \<times> int" where
  "history_key h = (rh_coordinator_term h, rh_leader_subterm h)"

definition same_rule :: "rule_history_row \<Rightarrow> unvalidatedRuleRow \<Rightarrow> bool" where
  "same_rule h r \<longleftrightarrow> urr_leaderIDStr r = rh_leader_id h \<and> urr_cohortNames r = rh_cohort_members h \<and>
     urr_durabilityPolicyName r = Some (rh_durability_policy_name h) \<and>
     urr_durabilityQuorumType r = Some (rh_durability_quorum_type h) \<and>
     urr_durabilityRequiredCount r = Some (rh_durability_required_count h) \<and> urr_createdAt r = Some (rh_created_at h)"

text \<open>
  The row reads as a position with non-negative numbers; the history has one row per number, none
  beyond the current rule, and all decided but the one of the pending proposal, which is newer than the
  decision and has the proposal's contents.
\<close>

definition tables_ok :: "current_rule_row \<Rightarrow> rule_history_row list \<Rightarrow> bool" where
  "tables_ok R H \<longleftrightarrow> (\<exists>position. position_of R = Inr position \<and>
     (let cur = number_of (PossiblyUndecidedRule position); pending = number_of (GetProposal position)
      in 0 \<le> fst cur \<and> 0 \<le> snd cur \<and> distinct (map history_key H) \<and>
         (\<forall>h \<in> set H. history_key h = cur \<or> before (history_key h) cur) \<and>
         (\<forall>h \<in> set H. \<not> rh_decided h \<longrightarrow> \<not> IsRuleDecided position \<and> history_key h = pending) \<and>
         (\<not> IsRuleDecided position \<longrightarrow> before (number_of (GetDecision position)) pending \<and>
            (\<exists>h \<in> set H. history_key h = pending \<and> same_rule h (crr_proposal R)))))"

definition history_extends :: "rule_history_row list \<Rightarrow> rule_history_row list \<Rightarrow> bool" where
  "history_extends H H' \<longleftrightarrow> (\<exists>H1 extra. H' = H1 @ extra \<and>
     list_all2 (\<lambda>h h'. h' = h \<or> h' = h\<lparr>rh_decided := True\<rparr>) H H1)"

lemma history_extends_refl: "history_extends H H"
  unfolding history_extends_def by (intro exI [of _ H] exI [of _ "[]"]) (simp add: list.rel_refl)

lemma history_extends_mark: "history_extends H (mark_decided t st (H @ extra))"
  unfolding history_extends_def
  by (intro exI [of _ "mark_decided t st H"] exI [of _ "mark_decided t st extra"])
    (simp add: mark_decided_def list_all2_conv_all_nth)

lemma history_extends_app: "history_extends H H' \<Longrightarrow> history_extends H (H' @ extra)"
proof -
  assume "history_extends H H'"
  then obtain H1 x where "H' = H1 @ x" "list_all2 (\<lambda>h h'. h' = h \<or> h' = h\<lparr>rh_decided := True\<rparr>) H H1"
    by (auto simp: history_extends_def)
  then show ?thesis unfolding history_extends_def by (intro exI [of _ H1] exI [of _ "x @ extra"]) simp
qed

lemma history_extends_trans:
  assumes "history_extends H1 H2" "history_extends H2 H3"
  shows "history_extends H1 H3"
proof -
  let ?P = "\<lambda>h h' :: rule_history_row. h' = h \<or> h' = h\<lparr>rh_decided := True\<rparr>"
  from assms(1) obtain A x where a: "H2 = A @ x" "list_all2 ?P H1 A" by (auto simp: history_extends_def)
  from assms(2) obtain B y where b: "H3 = B @ y" "list_all2 ?P (A @ x) B" by (auto simp: history_extends_def a(1))
  from b(2) obtain B1 B2 where b1: "B = B1 @ B2" "list_all2 ?P A B1" by (auto simp: list_all2_append1)
  have "list_all2 ?P H1 B1" by (rule list_all2_trans [OF _ a(2) b1(2)]) auto
  with b(1) b1(1) show ?thesis by (auto simp: history_extends_def)
qed

subsection \<open>Reading back what was written\<close>

lemma validate_createdAt:
  assumes "validate r = Inr (Some rule)"
  shows "\<exists>ct. validate (r\<lparr>urr_createdAt := x\<rparr>) = Inr (Some (rule\<lparr>sr_creation_time := ct\<rparr>))"
  using assms
  by (fastforce simp: validate_def core_columns_def buildShardRule_def split: option.splits sum.splits if_splits)

lemma validate_coordinator: "validate r = Inr (Some rule) \<Longrightarrow> sr_coordinator_id rule = None"
  by (auto simp: validate_def buildShardRule_def split: option.splits sum.splits if_splits)

lemma validate_null [simp]: "validate null_columns = Inr None"
  by (simp add: validate_def core_columns_def null_columns_def)

text \<open>A stuck proposal, once decided, is the decision, and the row has no proposal left.\<close>

lemma decided_stuck_position:
  assumes "position_of R = Inr position" "\<not> IsRuleDecided position"
  obtains rule ct where "GetProposal position = Some rule"
    "position_of (base_row env position R) =
       Inr (Some \<lparr>pos_decision = Some (rule\<lparr>sr_creation_time := ct\<rparr>), pos_proposal = None\<rparr>)"
proof -
  from assms(2) obtain rule where rule: "GetProposal position = Some rule"
    by (cases "GetProposal position") (auto simp: IsRuleDecided_def ruleNumberIsUnset_def)
  with position_ofD(1) [OF assms(1)] have v: "validate (crr_proposal R) = Inr (Some rule)" by simp
  from validate_createdAt [OF v] obtain ct where
    ct: "validate ((crr_proposal R)\<lparr>urr_createdAt := Some (env_timestamptz env (AsTime (sr_creation_time rule)))\<rparr>) =
      Inr (Some (rule\<lparr>sr_creation_time := ct\<rparr>))" by blast
  have c: "sr_coordinator_id rule = None" using validate_coordinator [OF v] .
  then have "rule\<lparr>sr_creation_time := ct, sr_coordinator_id := None\<rparr> = rule\<lparr>sr_creation_time := ct\<rparr>" by (cases rule) simp
  with rule ct c assms(2) show thesis
    by (intro that [of rule ct])
      (simp_all add: base_row_def decide_row_def position_of_def row_position_def buildPoolerPosition_def)
qed

text \<open>
  What the columns keep of an identifier, a policy and a coordinator: the component of an identifier is
  not stored (leaders and members read back as poolers, coordinators as orchestrators), nor are the
  version and the description of a policy.
\<close>

definition as_component :: "ComponentType \<Rightarrow> ID ptr \<Rightarrow> ID ptr" where
  "as_component c i = map_option (\<lambda>p. p\<lparr>id_component := c\<rparr>) i"

definition stored_policy :: "DurabilityPolicyPb ptr \<Rightarrow> DurabilityPolicyPb ptr" where
  "stored_policy dp = map_option (\<lambda>d. d\<lparr>dp_policy_version := 0, dp_required_count := wrap32 (dp_required_count d),
     dp_description := ''''\<rparr>) dp"

lemma as_component_same: "i = None \<or> GetComponent i = c \<Longrightarrow> as_component c i = i"
  by (cases i) (auto simp: as_component_def)

lemma ParseApplicationName_as:
  assumes "i \<noteq> None" "wf_ID i" "GetCell i \<noteq> ''''" "GetName i \<noteq> ''''"
  shows "ParseApplicationName (ClusterIDString i) = Inr (as_component MULTIPOOLER i)"
proof -
  have "ClusterIDString i = ClusterIDString (as_component MULTIPOOLER i)" "wf_ID (as_component MULTIPOOLER i)"
    using assms(1,2) by (cases i; simp add: as_component_def wf_ID_def)+
  moreover have "ParseApplicationName (ClusterIDString (as_component MULTIPOOLER i)) = Inr (as_component MULTIPOOLER i)"
    using assms by (intro ParseApplicationName_key) (cases i; simp add: as_component_def wf_ID_def)+
  ultimately show ?thesis by simp
qed

lemma appNamesToIDs_keys:
  assumes "\<forall>i \<in> set ids. i \<noteq> None \<and> GetCell i \<noteq> '''' \<and> GetName i \<noteq> ''''" "wf_IDs ids"
  shows "appNamesToIDs (map ClusterIDString ids) = Inr (map (as_component MULTIPOOLER) ids)"
  using assms by (induction ids) (auto simp: ParseApplicationName_as)

lemma QuorumType_value_String:
  "NewPolicyFromProto (Some d) = Inr policy \<Longrightarrow> QuorumType_value (QuorumType_String (dp_quorum_type d)) = Some (dp_quorum_type d)"
  by (auto simp: NewPolicyFromProto_def QuorumType_value_def split: QuorumType.splits)

definition written_rule :: "int \<Rightarrow> int \<Rightarrow> ID ptr \<Rightarrow> ID ptr list \<Rightarrow> DurabilityPolicyPb ptr \<Rightarrow> ID ptr \<Rightarrow> go_time \<Rightarrow> ShardRule" where
  "written_rule t st leader cohort dp coordinator created =
     \<lparr>sr_rule_number = Some \<lparr>rn_coordinator_term = t, rn_leader_subterm = st\<rparr>,
      sr_leader_id = as_component MULTIPOOLER leader, sr_cohort_members = map (as_component MULTIPOOLER) cohort,
      sr_durability_policy = stored_policy dp, sr_coordinator_id = as_component MULTIORCH coordinator,
      sr_creation_time = (if created = zero_time then None else timestamppb_New created)\<rparr>"

lemma validate_proposal_columns:
  assumes "write_params update rule n leader cohort dp = Inr p" "NewPolicyFromProto dp = Inr policy"
  shows "validate (proposal_columns (stored_params env p)) =
    Inr (Some (written_rule (ub_termNumber update) n leader cohort dp None (env_timestamptz env (ub_createdAt update))))"
proof -
  note P = write_params_InrD [OF assms(1)]
  from P(9) obtain rs where "ToReplicaIDs cohort = (rs, None)" "wp_newCohort p = ReplicaIDsToAppNames rs" by blast
  note R = ToReplicaIDs_NoneD [OF this(1)]
  with appNamesToIDs_keys [of cohort] \<open>wp_newCohort p = _\<close>
  have cohort: "appNamesToIDs (wp_newCohort p) = Inr (map (as_component MULTIPOOLER) cohort)" by simp
  have leader: "(case null_if_empty (wp_newLeaderStr p) of None \<Rightarrow> Inr None | Some s \<Rightarrow> ParseApplicationName s) =
      Inr (as_component MULTIPOOLER leader)"
  proof (cases "leader = None")
    case True
    with P(8) show ?thesis by (simp add: null_if_empty_def as_component_def)
  next
    case False
    with P(8) obtain l where l: "NewReplicaID leader = (l, None)" "wp_newLeaderStr p = rep_appName l" by blast
    from NewReplicaID_NoneD [OF l(1)] l(2) ParseApplicationName_as [of leader] False show ?thesis
      by (auto simp: null_if_empty_def)
  qed
  from P(7) obtain d where d: "dp = Some d" "wp_dpName p = dp_policy_name d"
    "wp_dpQuorumType p = QuorumType_String (dp_quorum_type d)" "wp_dpRequiredCount p = dp_required_count d" by blast
  have "QuorumType_value (wp_dpQuorumType p) = Some (dp_quorum_type d)"
    using QuorumType_value_String assms(2) d(1,3) by simp
  with cohort leader d P(3-5) show ?thesis
    by (simp add: validate_def core_columns_def proposal_columns_def buildShardRule_def written_rule_def
        stored_policy_def stored_params_def as_component_def [of _ None])
qed

text \<open>A coordinator that can be written and read back.\<close>

definition coordinator_ok :: "ID ptr \<Rightarrow> bool" where
  "coordinator_ok c \<longleftrightarrow> wf_ID c \<and> GetCell c \<noteq> '''' \<and> GetName c \<noteq> ''''"

lemma coordinator_position:
  assumes "coordinator_ok c"
  shows "ClusterIDString c \<noteq> ''''" "SplitClusterID (ClusterIDString c) = Inr (GetCell c, GetName c)"
    "as_component MULTIORCH c = Some \<lparr>id_component = MULTIORCH, id_cell = GetCell c, id_name = GetName c\<rparr>"
proof -
  obtain p where p: "c = Some p" using assms by (cases c) (auto simp: coordinator_ok_def)
  with assms show "ClusterIDString c \<noteq> ''''" "SplitClusterID (ClusterIDString c) = Inr (GetCell c, GetName c)"
    "as_component MULTIORCH c = Some \<lparr>id_component = MULTIORCH, id_cell = GetCell c, id_name = GetName c\<rparr>"
    using SplitClusterID_of_ClusterIDString [of p]
    by (cases p; simp add: coordinator_ok_def as_component_def)+
qed

lemma new_positions:
  assumes "planned update position tr p" "position_of B = Inr base" "coordinator_ok (ub_coordinatorID update)"
  obtains n leader cohort dp pwc where
    "next_subterm (ub_termNumber update) (fst (number_of (PossiblyUndecidedRule position)))
       (snd (number_of (PossiblyUndecidedRule position))) = Inr n"
    "resolved update position = Inr (leader, cohort, dp, pwc)" "wp_newTerm p = ub_termNumber update" "wp_newSubterm p = n"
    "position_of (proposed_row (stored_params env p) B) = Inr (Some \<lparr>pos_decision = GetDecision base,
       pos_proposal = Some (written_rule (ub_termNumber update) n leader cohort dp None (env_timestamptz env (ub_createdAt update)))\<rparr>)"
    "position_of (decided_row (stored_params env p) B) = Inr (Some \<lparr>pos_decision =
       Some (written_rule (ub_termNumber update) n leader cohort dp (ub_coordinatorID update) (env_timestamptz env (ub_createdAt update))),
       pos_proposal = None\<rparr>)"
proof -
  from assms(1) obtain n leader cohort dp pwc where P: "admissible update position"
    "next_subterm (ub_termNumber update) (fst (number_of (PossiblyUndecidedRule position)))
       (snd (number_of (PossiblyUndecidedRule position))) = Inr n"
    "resolved update position = Inr (leader, cohort, dp, pwc)"
    "write_params update (PossiblyUndecidedRule position) n leader cohort dp = Inr p" by (rule plannedE)
  let ?rule = "written_rule (ub_termNumber update) n leader cohort dp None (env_timestamptz env (ub_createdAt update))"
  from NewPolicyWithCohort_InrD [OF resolved_pwc [OF P(3)]] obtain policy where
    "NewPolicyFromProto dp = Inr policy" by blast
  then have v: "validate (proposal_columns (stored_params env p)) = Inr (Some ?rule)"
    using validate_proposal_columns [OF P(4)] by blast
  note W = write_params_InrD [OF P(4)]
  have "(proposal_columns (stored_params env p))\<lparr>urr_createdAt := Some (env_timestamptz env (wp_createdAt p))\<rparr> = proposal_columns (stored_params env p)"
    by (simp add: proposal_columns_def)
  with v have dec: "position_of (decided_row (stored_params env p) B) = Inr (Some \<lparr>pos_decision =
       Some (written_rule (ub_termNumber update) n leader cohort dp (ub_coordinatorID update) (env_timestamptz env (ub_createdAt update))),
       pos_proposal = None\<rparr>)"
    using coordinator_position [OF assms(3)] W(6)
    by (simp add: decided_row_def decide_row_def proposed_row_def position_of_def row_position_def
        buildPoolerPosition_def written_rule_def)
  have "position_of (proposed_row (stored_params env p) B) = Inr (Some \<lparr>pos_decision = GetDecision base, pos_proposal = Some ?rule\<rparr>)"
    using assms(2) v
    by (auto simp: proposed_row_def position_of_def row_position_def buildPoolerPosition_def
        split: sum.splits option.splits if_splits)
  with P W(3,4) dec show thesis by (intro that [of n leader cohort dp pwc])
qed

subsection \<open>Every state an update can leave is well formed\<close>

lemma history_key_mark [simp]: "map history_key (mark_decided t st H) = map history_key H"
  by (simp add: mark_decided_def history_key_def)

lemma history_is_key: "history_is t st h \<longleftrightarrow> history_key h = (t, st)"
  by (simp add: history_is_def history_key_def)

lemma marked_history:
  assumes "h' \<in> set (mark_decided t st H)"
  shows "\<exists>h \<in> set H. history_key h' = history_key h \<and> (rh_decided h' \<longleftrightarrow> rh_decided h \<or> history_key h = (t, st))"
  using assms by (auto simp: mark_decided_def history_is_key history_key_def split: if_splits)

lemma number_of_unset: "IsRuleDecided pos \<longleftrightarrow> max (fst (number_of (GetProposal pos))) (snd (number_of (GetProposal pos))) = 0"
  by (simp add: IsRuleDecided_def ruleNumberIsUnset_def number_of_def)

text \<open>The current number of a position, decided or not, as the tables have it.\<close>

abbreviation current_number :: "RulePosition ptr \<Rightarrow> int \<times> int" where
  "current_number position \<equiv> number_of (PossiblyUndecidedRule position)"

definition base_of :: "pg_env \<Rightarrow> RulePosition ptr \<Rightarrow> current_rule_row \<Rightarrow> RulePosition ptr \<Rightarrow> bool" where
  "base_of env position R base \<longleftrightarrow> position_of (base_row env position R) = Inr base \<and> IsRuleDecided base \<and>
     number_of (GetDecision base) = current_number position"

lemma base_ofE:
  assumes "position_of R = Inr position"
  obtains base where "base_of env position R base"
proof (cases "IsRuleDecided position")
  case True
  with assms show thesis by (intro that [of position]) (simp add: base_of_def base_row_def PossiblyUndecidedRule_def)
next
  case False
  obtain rule ct where "GetProposal position = Some rule" "position_of (base_row env position R) =
      Inr (Some \<lparr>pos_decision = Some (rule\<lparr>sr_creation_time := ct\<rparr>), pos_proposal = None\<rparr>)"
    using decided_stuck_position [OF assms False] by blast
  with False show thesis
    by (intro that [of "Some \<lparr>pos_decision = Some (rule\<lparr>sr_creation_time := ct\<rparr>), pos_proposal = None\<rparr>"])
      (simp add: base_of_def PossiblyUndecidedRule_def number_of_def IsRuleDecided_def ruleNumberIsUnset_def)
qed

lemma tables_okD:
  assumes "tables_ok R H" "position_of R = Inr position"
  shows "0 \<le> fst (current_number position)" "0 \<le> snd (current_number position)" "distinct (map history_key H)"
    "\<And>h. h \<in> set H \<Longrightarrow> history_key h = current_number position \<or> before (history_key h) (current_number position)"
    "\<And>h. h \<in> set H \<Longrightarrow> \<not> rh_decided h \<Longrightarrow> \<not> IsRuleDecided position \<and> history_key h = number_of (GetProposal position)"
    "\<not> IsRuleDecided position \<Longrightarrow> before (number_of (GetDecision position)) (number_of (GetProposal position)) \<and>
       (\<exists>h \<in> set H. history_key h = number_of (GetProposal position) \<and> same_rule h (crr_proposal R))"
  using assms by (auto simp: tables_ok_def Let_def)

lemma tables_ok_base:
  assumes "tables_ok R H" "position_of R = Inr position" "base_of env position R base"
  shows "tables_ok (base_row env position R) (base_history position H)"
proof (cases "IsRuleDecided position")
  case True
  with assms(1) show ?thesis by (simp add: base_row_def base_history_def)
next
  case False
  note T = tables_okD [OF assms(1,2)]
  from False have cur: "current_number position = number_of (GetProposal position)" by (simp add: PossiblyUndecidedRule_def)
  let ?H = "base_history position H"
  have H: "?H = mark_decided (fst (current_number position)) (snd (current_number position)) H"
    using False cur by (simp add: base_history_def)
  have "history_key h = current_number position \<or> before (history_key h) (current_number position)"
    "rh_decided h" if "h \<in> set ?H" for h
    using marked_history [OF that [unfolded H]] T(4,5) cur by (metis prod.collapse)+
  moreover have "current_number base = current_number position" "IsRuleDecided base"
    "position_of (base_row env position R) = Inr base" "distinct (map history_key ?H)"
    using assms(3) T(3) by (simp_all add: base_of_def PossiblyUndecidedRule_def H)
  ultimately show ?thesis
    unfolding tables_ok_def Let_def using T(1,2) by (intro exI [of _ base]) auto
qed

lemma next_subterm_before:
  assumes "next_subterm t (fst cur) (snd cur) = Inr n" "0 \<le> fst cur" "0 \<le> snd cur" "snd cur < MaxInt64"
  shows "before cur (t, n) \<and> 0 \<le> t \<and> 0 \<le> n \<and> max t n \<noteq> 0"
proof -
  have "is_int64 (snd cur + 1)" using assms(3,4) by (simp add: is_int64_def MinInt64_def MaxInt64_def)
  then show ?thesis using assms(1-3) by (auto simp: next_subterm_def before_def split: if_splits)
qed

lemma number_of_written [simp]:
  "number_of (Some (written_rule t st leader cohort dp c u)) = (t, st)"
  by (simp add: number_of_def written_rule_def)

lemma before_trans: "before a b \<Longrightarrow> before b c \<Longrightarrow> before a c"
  by (auto simp: before_def)

lemma before_irrefl [simp]: "\<not> before a a"
  by (simp add: before_def)

lemma history_columns_key:
  "history_key (history_columns p) = (wp_newTerm p, wp_newSubterm p)" "\<not> rh_decided (history_columns p)"
  "same_rule (history_columns p) (proposal_columns p)"
  by (simp_all add: history_key_def history_columns_def same_rule_def proposal_columns_def)

lemma tables_ok_proposed:
  assumes "tables_ok B H" "position_of B = Inr base" "IsRuleDecided base"
    and "before (number_of (GetDecision base)) (wp_newTerm p, wp_newSubterm p)"
    and "position_of (proposed_row p B) = Inr (Some \<lparr>pos_decision = GetDecision base, pos_proposal = Some rule\<rparr>)"
    and "number_of (Some rule) = (wp_newTerm p, wp_newSubterm p)"
    and "0 \<le> wp_newTerm p" "0 \<le> wp_newSubterm p" "max (wp_newTerm p) (wp_newSubterm p) \<noteq> 0"
  shows "tables_ok (proposed_row p B) (H @ [history_columns p])"
proof -
  note T = tables_okD [OF assms(1,2)]
  let ?pos = "Some \<lparr>pos_decision = GetDecision base, pos_proposal = Some rule\<rparr>"
  let ?new = "(wp_newTerm p, wp_newSubterm p)"
  have dec: "current_number base = number_of (GetDecision base)" using assms(3) by (simp add: PossiblyUndecidedRule_def)
  have und: "\<not> IsRuleDecided ?pos" using assms(6,9) by (simp add: number_of_unset)
  then have cur: "current_number ?pos = ?new" using assms(6) by (simp add: PossiblyUndecidedRule_def)
  have old: "before (history_key h) ?new" "rh_decided h" if "h \<in> set H" for h
    using T(4,5) [OF that] dec assms(3,4) by (auto intro: before_trans)
  then have fresh: "?new \<notin> history_key ` set H" by (metis before_irrefl imageE)
  show ?thesis
    unfolding tables_ok_def Let_def cur
  proof (intro exI [of _ ?pos] conjI)
    show "distinct (map history_key (H @ [history_columns p]))" using T(3) fresh by (simp add: history_columns_key)
  qed (use assms old und in \<open>auto simp: history_columns_key proposed_row_def cur\<close>)
qed

lemma tables_ok_decided:
  assumes "tables_ok (proposed_row p B) (H @ [history_columns p])"
    and "position_of (proposed_row p B) = Inr (Some \<lparr>pos_decision = d, pos_proposal = Some rule\<rparr>)"
    and "number_of (Some rule) = (wp_newTerm p, wp_newSubterm p)" "max (wp_newTerm p) (wp_newSubterm p) \<noteq> 0"
    and "position_of (decided_row p B) = Inr (Some \<lparr>pos_decision = Some rule', pos_proposal = None\<rparr>)"
    and "number_of (Some rule') = (wp_newTerm p, wp_newSubterm p)"
  shows "tables_ok (decided_row p B) (decided_history p H)"
proof -
  note T = tables_okD [OF assms(1,2)]
  let ?new = "(wp_newTerm p, wp_newSubterm p)"
  let ?old = "Some \<lparr>pos_decision = d, pos_proposal = Some rule\<rparr>"
  let ?pos = "Some \<lparr>pos_decision = Some rule', pos_proposal = None\<rparr>"
  have "\<not> IsRuleDecided ?old" using assms(3,4) by (simp add: number_of_unset)
  then have old: "current_number ?old = ?new" using assms(3) by (simp add: PossiblyUndecidedRule_def)
  have cur: "IsRuleDecided ?pos" "current_number ?pos = ?new"
    using assms(6) by (simp_all add: PossiblyUndecidedRule_def IsRuleDecided_def ruleNumberIsUnset_def)
  have "history_key h = ?new \<or> before (history_key h) ?new" "rh_decided h" if "h \<in> set (decided_history p H)" for h
    using marked_history [OF that [unfolded decided_history_def]] T(4,5) assms(3) old by (metis GetProposal.simps(2) RulePosition.select_convs(2))+
  with T(1-3) assms(5) cur old show ?thesis
    unfolding tables_ok_def Let_def
    by (intro exI [of _ ?pos]) (simp add: decided_history_def)
qed

lemma base_history_extends: "history_extends H (base_history position H)"
  using history_extends_refl history_extends_mark [of H _ _ "[]"] by (simp add: base_history_def)

lemma base_history_decided:
  assumes "tables_ok R H" "position_of R = Inr position" "\<not> IsRuleDecided position"
  shows "\<exists>h \<in> set (base_history position H). history_key h = number_of (GetProposal position) \<and> rh_decided h"
proof -
  from tables_okD(6) [OF assms] obtain h where h: "h \<in> set H" "history_key h = number_of (GetProposal position)" by blast
  then have "h\<lparr>rh_decided := True\<rparr> \<in> set (base_history position H)"
    using assms(3) by (auto simp: base_history_def mark_decided_def history_is_key intro!: image_eqI [of _ _ h])
  with h(2) show ?thesis by (intro bexI) (auto simp: history_key_def)
qed

lemma decision_before_current:
  assumes "tables_ok R H" "position_of R = Inr position"
  shows "number_of (GetDecision position) = current_number position \<or>
    before (number_of (GetDecision position)) (current_number position)"
  using tables_okD(6) [OF assms] by (auto simp: PossiblyUndecidedRule_def)

text \<open>What an update guarantees of the tables it leaves behind.\<close>

definition tables_advance ::
  "RulePosition ptr \<Rightarrow> current_rule_row \<Rightarrow> rule_history_row list \<Rightarrow> current_rule_row \<Rightarrow> rule_history_row list \<Rightarrow> bool" where
  "tables_advance position R H R' H' \<longleftrightarrow> tables_ok R' H' \<and> history_extends H H' \<and>
     (\<exists>position'. position_of R' = Inr position' \<and>
        (number_of (GetDecision position') = number_of (GetDecision position) \<or>
         before (number_of (GetDecision position)) (number_of (GetDecision position')))) \<and>
     (IsRuleDecided position \<or> R' = R \<or>
      (\<exists>h \<in> set H'. history_key h = number_of (GetProposal position) \<and> rh_decided h))"

lemma mark_keeps_decided:
  assumes "\<exists>h \<in> set H. history_key h = k \<and> rh_decided h"
  shows "\<exists>h \<in> set (mark_decided t st (H @ extra)). history_key h = k \<and> rh_decided h"
proof -
  from assms obtain h where "h \<in> set H" "history_key h = k" "rh_decided h" by blast
  then have "(if history_is t st h then h\<lparr>rh_decided := True\<rparr> else h) \<in> set (mark_decided t st (H @ extra))"
    "history_key (if history_is t st h then h\<lparr>rh_decided := True\<rparr> else h) = k"
    by (auto simp: mark_decided_def history_key_def)
  with \<open>rh_decided h\<close> show ?thesis by (intro bexI) (auto split: if_splits)
qed

lemma run_tables_advance:
  assumes "run_tables env update position R H R' H'" "tables_ok R H" "position_of R = Inr position"
    and "coordinator_ok (ub_coordinatorID update)" "snd (current_number position) < MaxInt64"
  shows "tables_advance position R H R' H'"
proof -
  obtain base where base: "base_of env position R base" using base_ofE [OF assms(3)] .
  let ?B = "base_row env position R" and ?H = "base_history position H"
  have B: "position_of ?B = Inr base" "IsRuleDecided base" "number_of (GetDecision base) = current_number position"
    using base by (simp_all add: base_of_def)
  have ok: "tables_ok ?B ?H" using tables_ok_base [OF assms(2,3) base] .
  note T = tables_okD [OF assms(2,3)] and dec = decision_before_current [OF assms(2,3)]
  have stuck: "IsRuleDecided position \<or> (\<exists>h \<in> set ?H. history_key h = number_of (GetProposal position) \<and> rh_decided h)"
    using base_history_decided [OF assms(2,3)] by blast
  from assms(1) consider "R' = R" "H' = H" | "R' = ?B" "H' = ?H"
    | (fresh) tr p where "planned update position tr p"
      "R' = proposed_row (stored_params env p) ?B \<and> H' = ?H @ [history_columns (stored_params env p)] \<or> R' = decided_row (stored_params env p) ?B \<and> H' = decided_history (stored_params env p) ?H"
    by (auto simp: run_tables_def)
  then show ?thesis
  proof cases
    case 1
    with assms(2,3) history_extends_refl show ?thesis by (auto simp: tables_advance_def)
  next
    case 2
    with ok B dec stuck base_history_extends show ?thesis by (auto simp: tables_advance_def)
  next
    case fresh
    obtain n leader cohort dp pwc where
      n: "next_subterm (ub_termNumber update) (fst (current_number position)) (snd (current_number position)) = Inr n"
      and p: "wp_newTerm p = ub_termNumber update" "wp_newSubterm p = n"
      and prop_pos: "position_of (proposed_row (stored_params env p) ?B) = Inr (Some \<lparr>pos_decision = GetDecision base,
        pos_proposal = Some (written_rule (ub_termNumber update) n leader cohort dp None (env_timestamptz env (ub_createdAt update)))\<rparr>)"
      and dec_pos: "position_of (decided_row (stored_params env p) ?B) = Inr (Some \<lparr>pos_decision =
        Some (written_rule (ub_termNumber update) n leader cohort dp (ub_coordinatorID update) (env_timestamptz env (ub_createdAt update))),
        pos_proposal = None\<rparr>)"
      by (rule new_positions [OF fresh(1) B(1) assms(4)])
    note lt = next_subterm_before [OF n T(1,2) assms(5)]
    have prop_ok: "tables_ok (proposed_row (stored_params env p) ?B) (?H @ [history_columns (stored_params env p)])"
      using tables_ok_proposed [OF ok B(1,2) _ prop_pos] lt p B(3) by simp
    have dec_ok: "tables_ok (decided_row (stored_params env p) ?B) (decided_history (stored_params env p) ?H)"
      using tables_ok_decided [OF prop_ok prop_pos _ _ dec_pos] lt p by simp
    have ext: "history_extends H (?H @ [history_columns (stored_params env p)])" "history_extends H (decided_history (stored_params env p) ?H)"
      unfolding decided_history_def
      using history_extends_app [OF base_history_extends]
        history_extends_trans [OF base_history_extends history_extends_mark] by blast+
    from fresh(2) show ?thesis
    proof
      assume R: "R' = proposed_row (stored_params env p) ?B \<and> H' = ?H @ [history_columns (stored_params env p)]"
      with prop_ok ext prop_pos B(3) dec stuck show ?thesis by (auto simp: tables_advance_def)
    next
      assume R: "R' = decided_row (stored_params env p) ?B \<and> H' = decided_history (stored_params env p) ?H"
      have "IsRuleDecided position \<or>
          (\<exists>h \<in> set (decided_history (stored_params env p) ?H). history_key h = number_of (GetProposal position) \<and> rh_decided h)"
        unfolding decided_history_def using stuck mark_keeps_decided by blast
      moreover have "before (number_of (GetDecision position)) (ub_termNumber update, n)"
        using dec lt before_trans by metis
      ultimately show ?thesis using R dec_ok ext dec_pos by (auto simp: tables_advance_def)
    qed
  qed
qed


subsection \<open>The memory after an update\<close>

text \<open>An operation that keeps \<open>settings_history\<close> when it succeeds, and leaves a state with \<open>E\<close> when it fails.\<close>

definition keeps_history :: "(ruleStore \<Rightarrow> bool) \<Rightarrow> (ruleStore, 'e, 'a) op \<Rightarrow> bool" where
  "keeps_history E m \<longleftrightarrow> triple settings_history m (\<lambda>_. settings_history) E"

lemma keeps_and_then:
  "keeps_history E m \<Longrightarrow> (\<And>x. keeps_history E (k x)) \<Longrightarrow> keeps_history E (and_then m k)"
  unfolding keeps_history_def by (rule triple_and_then)

lemma keeps_weaken: "keeps_history settings_history m \<Longrightarrow> keeps_history (\<lambda>_. True) m"
  unfolding keeps_history_def by (erule triple_conseq) simp_all

lemma keeps_steps:
  "keeps_history E (succeed x)" "keeps_history E (read_state f)" "keeps_history E (now env)"
  "keeps_history settings_history (lift_result r)" "keeps_history settings_history (check_none h err)"
  "keeps_history settings_history (fail_with e)"
  "keeps_history E m \<Longrightarrow> keeps_history E (wrap_error g m)"
  "\<lbrakk>\<And>s. lastSyncCommit (h' s) = lastSyncCommit s; \<And>s. lastStandbyNames (h' s) = lastStandbyNames s;
     \<And>s. c_pg (h' s) = c_pg s\<rbrakk> \<Longrightarrow> keeps_history E (change_state h')"
  unfolding keeps_history_def
  by (auto intro!: triples intro: settings_history.others)

lemma keeps_attempt: "keeps_history settings_history m \<Longrightarrow> keeps_history E (attempt m)"
  unfolding keeps_history_def by (rule triple_attempt) simp

lemma keeps_if: "keeps_history E m \<Longrightarrow> keeps_history E m' \<Longrightarrow> keeps_history E (if b then m else m')"
  by simp

lemma keeps_option:
  "keeps_history E m \<Longrightarrow> (\<And>x. keeps_history E (m' x)) \<Longrightarrow> keeps_history E (case v of None \<Rightarrow> m | Some x \<Rightarrow> m' x)"
  by (cases v) simp_all

lemma keeps_prod: "(\<And>a b. keeps_history E (f a b)) \<Longrightarrow> keeps_history E (case x of (a, b) \<Rightarrow> f a b)"
  by (cases x) simp

lemma stable_history: "stable (settings_history :: ruleStore \<Rightarrow> bool)"
  unfolding stable_def quiet_step_def by (auto intro: settings_history.others)

lemma keeps_query:
  assumes "env_quiet env"
    and "\<And>db db' r. stmt db = Inr (db', r) \<Longrightarrow> pg_conf db' = pg_conf db \<and> pg_settings db' = pg_settings db"
  shows "keeps_history settings_history (query env stmt)"
  unfolding keeps_history_def
proof (rule triple_stmt [OF assms(1) stable_history])
  fix s :: ruleStore and db r assume s: "settings_history s" "stmt (c_pg s) = Inr (db, r)"
  have "settings_history (s\<lparr>c_pg := db\<rparr>)"
    by (rule settings_history.others [OF s(1)]) (use assms(2) [OF s(2)] in auto)
  then show "settings_history (s\<lparr>c_pg := db\<rparr>) \<and> settings_history (s\<lparr>c_pg := db\<rparr>)" by simp
qed

lemma keeps_confirm: "env_quiet env \<Longrightarrow> keeps_history settings_history (confirmProposalQuorum env parse_lsn t st)"
  unfolding confirmProposalQuorum_def
  by (intro keeps_and_then keeps_steps keeps_option keeps_query) (auto simp: confirm_stmt_def split: if_splits option.splits)

lemma keeps_mark: "env_quiet env \<Longrightarrow> keeps_history settings_history (markProposalAsDecision env parse_lsn t st c u pf)"
  unfolding markProposalAsDecision_def freshenQuorumProof_def
  by (intro keeps_and_then keeps_attempt keeps_steps keeps_option keeps_prod keeps_if keeps_query keeps_confirm)
    (auto simp: decide_stmt_def record_ack_def cacheRuleObservation_def Let_def split: if_splits option.splits)

lemma keeps_propose: "env_quiet env \<Longrightarrow> keeps_history settings_history (writeRuleProposal env p)"
  unfolding writeRuleProposal_def
  by (intro keeps_and_then keeps_steps keeps_option keeps_prod keeps_query)
    (auto simp: propose_stmt_def cacheRuleObservation_def Let_def split: if_splits option.splits)

lemma keeps_read: "env_quiet env \<Longrightarrow> keeps_history settings_history (readCurrentRuleLocked env b)"
  unfolding readCurrentRuleLocked_def readCurrentRule_def wrapInRollback_def
  by (intro keeps_and_then keeps_attempt keeps_steps keeps_if keeps_query)
    (auto simp: select_def select_current_rule_def split: if_splits option.splits sum.splits)

lemma keeps_hook:
  assumes "hook_ok update"
  shows "keeps_history settings_history (run_promotion_hook update)"
proof (cases "ub_promotionHook update")
  case (Some hook)
  have "settings_history (snd (hook s))" if "settings_history s" for s
    using assms Some by (intro settings_history.others [OF that]) (auto simp: hook_ok_def hook_step_def quiet_step_def)
  then have "keeps_history settings_history hook"
    unfolding keeps_history_def by (auto intro!: tripleI) (metis snd_conv)+
  with Some show ?thesis by (simp add: run_promotion_hook_def keeps_steps)
qed (simp add: run_promotion_hook_def keeps_steps)

lemma keeps_SetPolicy: "env_quiet env \<Longrightarrow> keeps_history (\<lambda>_. True) (SetPolicy env al ctx drained pc)"
  unfolding keeps_history_def by (rule tripleI) (auto intro: settings_history.sets simp: change_failed_def)

lemmas keeps_all = keeps_and_then keeps_if keeps_prod keeps_steps(1-3,7) keeps_SetPolicy keeps_weaken [OF keeps_steps(4)]
  keeps_weaken [OF keeps_steps(5)] keeps_weaken [OF keeps_steps(6)] keeps_weaken [OF keeps_hook] keeps_weaken [OF keeps_confirm]
  keeps_weaken [OF keeps_mark] keeps_weaken [OF keeps_propose] keeps_weaken [OF keeps_read]

lemma UpdateRule_history:
  assumes "env_quiet env" "hook_ok update"
  shows "keeps_history (\<lambda>_. True) (UpdateRule env parse_lsn al ctx update)"
  unfolding UpdateRule_def change_rule_def maybeFinalizeStuckProposal_def write_rule_def Let_def
  by (intro keeps_all assms)


text \<open>A new store and the tables it creates satisfy what the theorems above assume.\<close>

lemma new_store_history: "pg_conf db = pg_settings db \<Longrightarrow> settings_history (NewRuleStore db i)"
  by (rule settings_history.starts) (simp_all add: NewRuleStore_def)

lemma initial_tables_ok:
  assumes "coordinator_ok i" "NewPolicyFromProto (Some p) = Inr policy"
    and "insert_initial_rule (ClusterIDString i) (dp_policy_name p) (QuorumType_String (dp_quorum_type p))
      (dp_required_count p) db = Inr (db', u)"
  shows "\<exists>R. pg_current_rule db' = Some (Some R) \<and> tables_ok R []"
proof -
  define R where "R = the (the (pg_current_rule db'))"
  from assms(3) have R: "pg_current_rule db' = Some (Some R)" "crr_coordinator_id R = ClusterIDString i"
    "crr_proposal R = null_columns" "crr_decision R = \<lparr>urr_coordinatorTerm = Some 0, urr_leaderSubterm = Some 1,
            urr_leaderIDStr = None, urr_cohortNames = [], urr_durabilityPolicyName = Some (dp_policy_name p),
            urr_durabilityQuorumType = Some (QuorumType_String (dp_quorum_type p)),
            urr_durabilityRequiredCount = Some (dp_required_count p), urr_createdAt = Some (pg_clock db)\<rparr>"
    by (auto simp: R_def insert_initial_rule_def split: if_splits option.splits)
  obtain rule where rule: "validate (crr_decision R) = Inr (Some rule)"
    "sr_rule_number rule = Some \<lparr>rn_coordinator_term = 0, rn_leader_subterm = 1\<rparr>"
    using QuorumType_value_String [OF assms(2)]
    by (auto simp: R(4) validate_def core_columns_def buildShardRule_def)
  have "validate null_columns = Inr None" by (simp add: validate_def core_columns_def null_columns_def)
  with rule R(2,3) coordinator_position(1,2) [OF assms(1)] obtain position where
    "position_of R = Inr (Some position)" "pos_proposal position = None"
    "number_of (pos_decision position) = (0, 1)"
    by (auto simp: position_of_def row_position_def buildPoolerPosition_def number_of_def)
  then have "tables_ok R []"
    unfolding tables_ok_def
    by (intro exI [of _ "Some position"])
      (auto simp: Let_def IsRuleDecided_def PossiblyUndecidedRule_def ruleNumberIsUnset_def number_of_def)
  with R(1) show ?thesis by blast
qed

section \<open>Where the code departs from its comments\<close>

text \<open>
  A propagated decision is said to take every field from the proposal, but the proposal columns hold no
  coordinator, so the decision is written with an empty one, although the history row has it.
\<close>

lemma propagated_coordinator_lost:
  assumes "position_of R = Inr position" "\<not> IsRuleDecided position"
  shows "crr_coordinator_id (base_row env position R) = ''''"
proof -
  from assms(2) obtain rule where rule: "GetProposal position = Some rule"
    by (cases "GetProposal position") (auto simp: IsRuleDecided_def ruleNumberIsUnset_def)
  with position_ofD(1) [OF assms(1)] validate_coordinator [of "crr_proposal R" rule] assms(2) show ?thesis
    by (simp add: base_row_def decide_row_def)
qed

text \<open>A decision that finds another proposal reports a conflict, and still marks the history row decided.\<close>

lemma conflicting_decision_marks_history:
  assumes "\<not> pg_in_recovery db" "pg_current_rule db = Some (Some R)" "pg_rule_history db = Some H" "\<not> proposal_is t st R"
  shows "decide_stmt t st c u db = Inr (db\<lparr>pg_rule_history := Some (mark_decided t st H)\<rparr>, None)"
  using assms by (simp add: decide_stmt_def)

text \<open>A coordinator with an empty cell is not refused, and the row written with it cannot be read any more.\<close>

lemma nameless_coordinator_unreadable:
  assumes "ub_coordinatorID update = Some c" "id_cell c = ''''" "wp_coordinatorIDStr p = ClusterIDString (ub_coordinatorID update)"
  shows "\<exists>e. position_of (decided_row p B) = Inl e"
  using assms
  by (auto simp: position_of_def row_position_def buildPoolerPosition_def decided_row_def decide_row_def
      SplitClusterID_def SplitN2_def split: sum.splits option.splits)

text \<open>Creating the tables a second time is an error.\<close>

lemma CreateRuleTables_not_idempotent:
  assumes "env_quiet env" "pg_current_rule (c_pg s) \<noteq> None"
  shows "\<exists>e. fst (CreateRuleTables env policy i s) = Inl e"
proof -
  have "pg_current_rule (env_before env (c_queries s) (c_pg s)) \<noteq> None"
    using env_quietD [OF assms(1)] assms(2) by (simp add: quiet_step_def)
  then have "\<exists>e s'. query env create_current_rule s = (Inl e, s')"
    by (auto simp: query_def create_current_rule_def Let_def split: sum.splits)
  then show ?thesis
    by (auto simp: CreateRuleTables_def and_then_def wrap_error_def fail_with_def split: option.splits)
qed

section \<open>Concrete instances\<close>

text \<open>
  A standby that is promoted in term 5 with the proposal of term 4 still undecided: rule 3.0 is
  decided, its cohort is \<open>a, b, c\<close> under AT_LEAST_2, and the new rule drops \<open>c\<close>.
\<close>

definition ex_columns :: "int \<Rightarrow> string \<Rightarrow> unvalidatedRuleRow" where
  "ex_columns t leader = \<lparr>urr_coordinatorTerm = Some t, urr_leaderSubterm = Some 0, urr_leaderIDStr = Some leader,
     urr_cohortNames = [''zone1_a'', ''zone2_b'', ''zone3_c''], urr_durabilityPolicyName = Some ''AT_LEAST_2'',
     urr_durabilityQuorumType = Some ''QUORUM_TYPE_AT_LEAST_N'', urr_durabilityRequiredCount = Some 2,
     urr_createdAt = Some 1000000000\<rparr>"

definition ex_history :: "int \<Rightarrow> string \<Rightarrow> bool \<Rightarrow> rule_history_row" where
  "ex_history t leader decided = \<lparr>rh_coordinator_term = t, rh_leader_subterm = 0, rh_event_type = ''promotion'',
     rh_leader_id = Some leader, rh_coordinator_id = ''zone1_orch'', rh_wal_position = None, rh_accepted_members = [],
     rh_reason = ''promote'', rh_cohort_members = [''zone1_a'', ''zone2_b'', ''zone3_c''],
     rh_durability_policy_name = ''AT_LEAST_2'', rh_durability_quorum_type = ''QUORUM_TYPE_AT_LEAST_N'',
     rh_durability_required_count = 2, rh_operation = None, rh_decided = decided, rh_created_at = 1000000000\<rparr>"

definition ex_row :: current_rule_row where
  "ex_row = \<lparr>crr_decision = ex_columns 3 ''zone1_a'', crr_coordinator_id = ''zone1_orch'',
     crr_proposal = ex_columns 4 ''zone2_b''\<rparr>"

definition ex_rows :: "rule_history_row list" where
  "ex_rows = [ex_history 3 ''zone1_a'' True, ex_history 4 ''zone2_b'' False]"

definition ex_store :: ruleStore where
  "ex_store = \<lparr>c_pg = ex_pg\<lparr>pg_in_recovery := True, pg_current_rule := Some (Some ex_row), pg_rule_history := Some ex_rows\<rparr>,
     c_queries = 0, ssm_localID = ex_a, lastSyncCommit = '''', lastStandbyNames = '''', rs_lastPos = None,
     rs_hasAckHook = True, rs_acked = [], rs_proofRefreshAfter = 10000000000\<rparr>"

definition ex_promote :: "(ruleStore, string, unit) op" where
  "ex_promote s = (Inr (), s\<lparr>c_pg := (c_pg s)\<lparr>pg_in_recovery := False\<rparr>\<rparr>)"

definition ex_update :: RuleUpdateBuilder where
  "ex_update = WithPreviousRule 4 0 (WithPromotionHook (Some ex_promote) (WithCohort (Some [ex_a, ex_b])
     (WithLeader ex_a (NewRuleUpdate 5 ex_orch ''promotion'' ''promote'' 2000000000))))"

definition ex_position :: "RulePosition ptr" where
  "ex_position = (case position_of ex_row of Inr p \<Rightarrow> p | Inl _ \<Rightarrow> None)"

definition ex_run :: "(rule_error + PoolerPosition ptr) \<times> ruleStore" where
  "ex_run = UpdateRule (ex_guc_env 99) ex_parse ex_locked (Some ex_value) ex_update ex_store"

lemma ex_hook_ok: "hook_ok ex_update"
  by (auto simp: hook_ok_def ex_update_def WithPreviousRule_def WithPromotionHook_def ex_promote_def hook_step_def quiet_step_def)

lemma ex_store_ok:
  "settings_history ex_store" "wf_ID (ssm_localID ex_store)" "pg_current_rule (c_pg ex_store) = Some (Some ex_row)"
  "pg_rule_history (c_pg ex_store) = Some ex_rows"
  by (rule settings_history.starts) (simp_all add: ex_store_def ex_pg_def ex_a_def ex_pooler_def wf_ID_def)

lemma ex_position_ok: "position_of ex_row = Inr ex_position" "\<not> IsRuleDecided ex_position"
  "distinct (map ClusterIDString (GetCohortMembers (GetProposal ex_position)))"
  "snd (current_number ex_position) < MaxInt64" "coordinator_ok (ub_coordinatorID ex_update)"
  by code_simp+

lemma ex_resolved:
  "resolved ex_update ex_position = Inr (ex_a, [ex_a, ex_b],
     Some \<lparr>dp_policy_name = ''AT_LEAST_2'', dp_policy_version = 0, dp_quorum_type = QUORUM_TYPE_AT_LEAST_N,
       dp_required_count = 2, dp_description = ''''\<rparr>,
     \<lparr>Policy = Some (AtLeastNPolicy 2), Cohort = [ex_a, ex_b]\<rparr>)"
  by code_simp

lemma ex_tables_ok: "tables_ok ex_row ex_rows"
proof -
  have "let cur = current_number ex_position; pending = number_of (GetProposal ex_position)
      in 0 \<le> fst cur \<and> 0 \<le> snd cur \<and> distinct (map history_key ex_rows) \<and>
         (\<forall>h \<in> set ex_rows. history_key h = cur \<or> before (history_key h) cur) \<and>
         (\<forall>h \<in> set ex_rows. \<not> rh_decided h \<longrightarrow> \<not> IsRuleDecided ex_position \<and> history_key h = pending) \<and>
         (\<not> IsRuleDecided ex_position \<longrightarrow> before (number_of (GetDecision ex_position)) pending \<and>
            (\<exists>h \<in> set ex_rows. history_key h = pending \<and> same_rule h (crr_proposal ex_row)))"
    by code_simp
  with ex_position_ok(1) show ?thesis unfolding tables_ok_def by blast
qed

text \<open>The run succeeds: it decides 4.0, then proposes and decides 5.0.\<close>

lemma ex_run_result:
  "\<exists>pos. fst ex_run = Inr pos"
  "map (\<lambda>wg. write_number (fst wg)) (pg_wal (c_pg (snd ex_run))) = [(4, 0), (4, 0), (5, 0), (5, 0)]"
  "pg_wal (c_pg ex_store) = []"
proof -
  have "(case fst ex_run of Inl _ \<Rightarrow> False | Inr _ \<Rightarrow> True)" by code_simp
  then show "\<exists>pos. fst ex_run = Inr pos" by (auto split: sum.splits)
  show "map (\<lambda>wg. write_number (fst wg)) (pg_wal (c_pg (snd ex_run))) = [(4, 0), (4, 0), (5, 0), (5, 0)]" by code_simp
  show "pg_wal (c_pg ex_store) = []" by code_simp
qed




end
