(* ===== verification/Spec2Isabelle.thy ===== *)
theory Spec2Isabelle
  imports Cohort_Safety Consensus_Manager Recovery_Actions Rule_Write
begin

text \<open>
  Multigres is a horizontally scaled layer over PostgreSQL. A shard is served by several
  \<^emph>\<open>poolers\<close>, each in front of one postgres; \<^emph>\<open>orchestrators\<close> (multiorch) watch them and change the
  shard's leader or its cohort; \<^emph>\<open>gateways\<close> route queries. This development models the part that
  decides whether data survives a failover: the consensus code that orchestrators and poolers
  share (go/common/consensus), the pooler's durable promises and consensus manager
  (go/services/multipooler/internal/manager), and the orchestrator that decides when to act
  (go/services/multiorch): the analysis of a shard, the recovery loop and the backoff that spaces
  recoveries.

  \<^bold>\<open>How the parts interact.\<close> A shard's \<^emph>\<open>rule\<close> names its leader, its cohort and its durability
  policy, and is replicated through the WAL, first as a proposal and then as a decision. To
  replace a leader, a coordinator builds a \<^emph>\<open>term revocation\<close> from the statuses it observes
  (\<open>NewTermRevocation\<close>) and recruits poolers; a pooler validates it against its position and its
  earlier promise, stores it on disk (\<open>AcceptRevocation\<close>) and is then no active leader of the old rules
  (\<open>IsActiveLeader\<close>). With the recruited statuses the coordinator builds a proposal
  (\<open>BuildSafeProposal\<close>), which succeeds only if the recruits are a majority of the outgoing cohort
  and the others cannot commit, and which names a most advanced recruit as leader.

  \<^bold>\<open>Theories.\<close>
  \<^item> Go_Prelude: conventions for pointers, integers, maps, strings and times; the locales
    \<open>go_comparator\<close>, \<open>go_lex_comparator\<close> and \<open>go_ptr_comparator\<close> of three-way comparators and
    the loop that keeps the best element.
  \<^item> Cluster_Data: the protobuf messages as records with their nil-safe getters
    (go/pb/clustermetadata, go/pb/consensusdata). Sample_Shard: a concrete shard for witnesses.
  \<^item> Cluster_Ids: pooler keys (topoclient/id.go); the encoding and its inverse.
  \<^item> Rule_Compare (compare.go): rule numbers and positions, with the comparators interpreted in the
    prelude's locales; discovery of the highest rule and the merge of replication primaries.
  \<^item> Durability (durability.go, policy_at_least_n.go, policy_multi_cell.go): policies as a datatype,
    recruitment, synchronous replication settings, policy transitions. The locale
    \<open>durability_quorum\<close> states that a policy is monotone, and both policies are interpreted in it.
  \<^item> Cohort_Safety (cohort_safety.go): whether a cohort can lose a member.
  \<^item> Revocation (revocation.go) and Pooler_Role (pooler.go): construction, meaning and acceptance of
    revocations; roles and the active leader.
  \<^item> Proposals (proposals.go, outgoing_rule.go) and Proposal_Safety: the staged construction of a
    proposal, and what its success guarantees.
  \<^item> Action_Lock (actionlock/action_lock.go): the lock under which a pooler changes its state, as
    an inductive history of calls with an exclusion invariant.
  \<^item> Promises (consensus_promises.go, promise_storage.go, fileutil/atomic.go): memory and disk state,
    as an inductive history with failures, crashes and restarts.
  \<^item> Backoff (tools/retry, common/ha): exponential backoff with float64 rounding, retry loops, the
    deterministic collective schedule.
  \<^item> Consensus_Manager (manager.go): the state a pooler publishes and the operations that change it.
  \<^item> Orch_Health (multiorch/internal/snapshot, recovery/types, analysis/analyzer_helpers.go): what an
    orchestrator knows of a shard, the problems it can report, shared helpers.
  \<^item> Leader_Analysis (leader_needs_replacement_analyzer.go) and Shard_Analysis (the other five
    analysers): from a frozen shard to the problems reported for it.
  \<^item> Failover_Choice (failover_backoff.go, leader_fitness.go): when a failover may start, and which
    of the tied recruits leads. The locale \<open>go_less\<close> of the prelude states what a Go less function
    has to satisfy; \<open>go_chained_less\<close> chains two of them.
  \<^item> Grace_Period (recovery_grace_period.go, recovery/actions): the deadlines of recovery actions, with
    a specification in terms of the history of detections that they refine.
  \<^item> Recovery_Loop (recovery_loop.go, store/snapshot.go): snapshots, one cycle, one attempt.
  \<^item> Rule_Change (rule_change.go): the recruit and promote workflow over an explicit \<open>world\<close> of RPC answers
    and arrival orders. The locale \<open>rule_change\<close> is the contract between the workflow and its
    callbacks. Coordinator (coordinator.go, rule_change_certified.go) interprets it for failover and
    bootstrap, and models certified rule changes.
  \<^item> Pooler_Cache (topoclient/poolerwatch/cache.go): the cache of poolers with its secondary indexes (locale
    \<open>bucket_index\<close>), tombstones and hooks, as a step relation whose steps are the critical sections.
    Pooler_Watch (multi_cell_watch.go): from watch events to the cache, as a mirror of the topology.
  \<^item> Watch_Targets (multiorch/config/config.go): parsing, printing and matching of watch targets.
  \<^item> Pooler_Store (multiorch/store, recovery/pooler_watcher.go): the riders of the cache, their health
    and streams, as a step relation in which sections, hooks, answers and streams interleave, and the
    lookups that the recovery actions use.
  \<^item> Shard_Init (topoclient/shard_init_claim.go, recovery/actions/shard_init_action.go): the claim that
    makes one coordinator choose the initial cohort, and the bootstrap of a shard.
  \<^item> Recovery_Actions (recovery/actions): the other recovery actions as functions from the store and the
    answers of an \<open>action_world\<close> to the calls they make and their error.
  \<^item> Pg_Server: the postgres server as the rule store sees it (two tables, two settings, as configured, as
    loaded and as the backend of the next statement has them, the log of rule writes) behind an environment \<open>pg_env\<close>, operations that may fail, and the triples \<open>triple P m Q E\<close>
    with a postcondition for success and one for errors.
  \<^item> Replica_Ids (replicaident.go, sync_standby_names.go): application names and the value of
    \<open>synchronous_standby_names\<close>. Sync_Standby (sync_standby_manager.go): applying a policy as settings, and
    what the manager's memory of them is worth (\<open>settings_history\<close>).
  \<^item> Rule_Store (rule_store.go): the rule tables, each SQL statement as a function on them, the two-phase
    write of a rule and the decision of a stuck proposal. Rule_Write: what a write guarantees.
  \<^item> This theory: properties that span the components.

  \<^bold>\<open>What is shown.\<close> Two sufficient recruitments of a cohort overlap and leave no quorum behind;
  promises only grow, on disk and across restarts, and are unique per term; hence at most one
  coordinator ever promotes a leader per term, this leader misses no durable write, and a recruited
  pooler is fenced until its log moves past the outgoing rule. Around these: comparators are total orders, discovery loops return greatest
  elements, merges are monotone, settings built for a policy make commits durable under it,
  transitions never weaken a policy, delays stay within their bounds. For the orchestrator: a
  failover is asked for, and executed after a second look, only when enough members can be
  recruited; a healthy leader is kept and a failed one replaced; cohort changes leave a cohort that
  survives the loss of its leader; a cycle acts on one shard-wide problem at a time. The cache mirrors the
  topology, its reads agree and every rider is handed back once; a shard is initialised with one cohort,
  chosen by one coordinator; cohort changes and repairs are sent to the leader of the decided rule and
  bound to it. The leader's rule store writes every rule under settings that need a quorum of the outgoing
  policy, unless it is to be skipped, and of the incoming one, through any failed query, as long as no
  earlier change of the settings has failed and the backends have taken them up; its tables never go
  back, a pending proposal is decided and never dropped, and a decided rule reads back as the columns
  keep it.

  \<^bold>\<open>Parameters and bounds.\<close> Code outside the repository is a parameter: the LSN parser
  (\<open>parse_lsn\<close>, pglogrepl), the proposal callback (\<open>build\<close>), protojson (\<open>codec\<close>, with \<open>codec_ok\<close>: what
  is written is read back) and the semaphore (\<open>sema\<close>, with \<open>sema_exclusive\<close>). Clocks (\<open>now\<close>,
  \<open>wall\<close>), random generators (\<open>IntN\<close>, \<open>Int64N\<close>), the iteration order of maps (\<open>order\<close>), what a
  live refresh makes of the cache (\<open>refresh\<close>) and the clock and cache that a backoff gate reads
  (\<open>gate\<close>) are arguments too. Terms are \<open>int64\<close>
  with \<open>wrap64\<close> where the code adds; hypotheses such as \<open>terms_bounded\<close> say where the wrap is out of
  reach. Every loop is a structural recursion over a list, so no fuel is needed; a retry loop runs
  over the list of what its attempts meet. The one loop bounded by a number is the wait for a reload, which
  polls \<open>env_polls\<close> times, as many as fit in its timeout, and then fails as the code does. Postgres answers
  through \<open>pg_env\<close>, which may refuse any query or lose its answer; \<open>env_quiet\<close> says that nobody else writes
  the rule tables or the two settings and that a new load time means a completed reload of the postmaster;
  \<open>backends_reloaded\<close>, used where a theorem is about the settings of a commit, that statements run on
  backends that have taken it up. What a TIMESTAMPTZ keeps of a time is \<open>env_timestamptz\<close>. A promotion hook is
  any operation that leaves tables, settings and memory alone (\<open>hook_ok\<close>). Keys identify poolers when cell names hold no
  underscore (\<open>wf_ID\<close>).

  \<^bold>\<open>Not modelled.\<close> The RPC handlers of a pooler and the control of its postgres process, gRPC, etcd,
  the gateways, the connection pools, the SQL parser and the command line tools: they are I/O or independent of
  consensus. Row locks of SQL statements appear only as refused queries. Mutexes are taken as making each
  operation atomic, as the code's comments state. PostgreSQL's own rule for synchronous commits is
  written down as \<open>commit_acked\<close>.
\<close>

section \<open>One recruitment round per term\<close>

text \<open>
  Two coordinators cannot both pass \<open>BuildSafeProposal\<close> at the same term over the same outgoing
  cohort: when every status they saw was reported by a pooler whose promises went through
  \<open>AcceptRevocation\<close>, the proposals come from the same coordinator and the same round.
\<close>

text \<open>The cohort of the decision that the recruits of a revocation agree to replace.\<close>

definition outgoing_cohort :: "lsn_parser \<Rightarrow> TermRevocation ptr \<Rightarrow> ConsensusStatus ptr list \<Rightarrow> ID ptr list" where
  "outgoing_cohort parse_lsn rv statuses =
     (case discoverOutgoingRulePosition (valid_recruits parse_lsn (filterByRevocation rv statuses)) of
        Inl _ \<Rightarrow> []
      | Inr (_, pos) \<Rightarrow> GetCohortMembers (GetDecision pos))"

lemma safe_proposal_recruitment:
  assumes "BuildSafeProposal parse_lsn rv statuses build = Inr p"
  shows "\<exists>policy. CheckSufficientRecruitment policy (outgoing_cohort parse_lsn rv statuses)
    (statusesToIDs (filterCohortStatuses (outgoing_cohort parse_lsn rv statuses)
       (valid_recruits parse_lsn (filterByRevocation rv statuses)))) = None"
proof -
  let ?xs = "valid_recruits parse_lsn (filterByRevocation rv statuses)"
  have "buildProposalCore parse_lsn rv (filterByRevocation rv statuses) \<lparr>basis_cert = None\<rparr> build = Inr p"
    using assms by (simp add: BuildSafeProposal_def Let_def split: if_splits)
  from buildProposalCore_InrE [OF this] obtain outgoing revoked where
    out: "discoverOutgoingRule ?xs (GetOutgoingRule rv) \<lparr>basis_cert = None\<rparr> = Inr outgoing"
    and rev: "revoke outgoing = Inr revoked" by metis
  from out obtain recording pos where d: "discoverOutgoingRulePosition ?xs = Inr (recording, pos)"
    and o': "outgoing = \<lparr>oor_recruited = ?xs, oor_position = pos, oor_basis = \<lparr>basis_cert = None\<rparr>\<rparr>"
    by (auto simp: discoverOutgoingRule_def Let_def split: sum.splits prod.splits if_splits list.splits)
  from d have "outgoing_cohort parse_lsn rv statuses = GetCohortMembers (GetDecision pos)"
    by (simp add: outgoing_cohort_def)
  with revoke_InrD(2) [OF rev] o' show ?thesis by auto
qed

lemma recruited_status:
  assumes "k \<in> poolerKeysOf (statusesToIDs (filterCohortStatuses c
      (valid_recruits parse_lsn (filterByRevocation rv statuses))))"
  obtains cs where "cs \<in> set statuses" "GetTermRevocation cs = rv" "status_key cs = k"
proof -
  from assms obtain cs where cs: "cs \<in> set (valid_recruits parse_lsn (filterByRevocation rv statuses))"
    "k = status_key cs"
    by (auto simp: poolerKeysOf_alt statusesToIDs_def filterCohortStatuses_def)
  with valid_recruitsD(1) [OF cs(1)] that show thesis by (auto simp: filterByRevocation_def)
qed

lemma outgoing_cohort_observed:
  assumes "BuildSafeProposal parse_lsn rv statuses build = Inr p"
  shows "\<exists>cs \<in> set statuses. outgoing_cohort parse_lsn rv statuses = GetCohortMembers (GetDecision (status_position cs))"
proof -
  let ?xs = "valid_recruits parse_lsn (filterByRevocation rv statuses)"
  from BuildSafeProposal_core [OF assms] obtain outgoing where
    ne: "?xs \<noteq> []" and out: "discoverOutgoingRule ?xs (GetOutgoingRule rv) \<lparr>basis_cert = None\<rparr> = Inr outgoing"
    by (rule buildProposalCore_InrE)
  from out obtain recording pos where d: "discoverOutgoingRulePosition ?xs = Inr (recording, pos)"
    by (auto simp: discoverOutgoingRule_def split: sum.splits prod.splits)
  have "\<forall>cs \<in> set ?xs. status_position cs \<noteq> None" using valid_recruitsD(3) by blast
  from discoverOutgoingRulePosition_InrD(3) [OF d this ne] obtain cs where cs: "cs \<in> set ?xs" "status_position cs = pos" ..
  from valid_recruitsD(1) [OF cs(1)] have "cs \<in> set statuses" by (simp add: filterByRevocation_def)
  with cs(2) d show ?thesis by (auto simp: outgoing_cohort_def)
qed

lemma recruitment_round_unique:
  assumes "codec_ok codec"
    and "\<forall>k. \<exists>cs d. promise_run parse_lsn codec cs d (hist k)"
    and "\<forall>cs \<in> set statuses1 \<union> set statuses2. GetTermRevocation cs \<in> set (hist (status_key cs))"
    and "BuildSafeProposal parse_lsn rv1 statuses1 build1 = Inr p1"
    and "BuildSafeProposal parse_lsn rv2 statuses2 build2 = Inr p2"
    and "GetRevokedBelowTerm rv1 = GetRevokedBelowTerm rv2"
    and "poolerKeysOf (outgoing_cohort parse_lsn rv1 statuses1) =
         poolerKeysOf (outgoing_cohort parse_lsn rv2 statuses2)"
  shows "ClusterIDString (GetAcceptedCoordinatorId rv1) = ClusterIDString (GetAcceptedCoordinatorId rv2) \<and>
         GetCoordinatorInitiatedAt rv1 = GetCoordinatorInitiatedAt rv2"
proof -
  obtain k where
    k1: "k \<in> poolerKeysOf (statusesToIDs (filterCohortStatuses (outgoing_cohort parse_lsn rv1 statuses1)
       (valid_recruits parse_lsn (filterByRevocation rv1 statuses1))))" and
    k2: "k \<in> poolerKeysOf (statusesToIDs (filterCohortStatuses (outgoing_cohort parse_lsn rv2 statuses2)
       (valid_recruits parse_lsn (filterByRevocation rv2 statuses2))))"
    using safe_proposal_recruitment [OF assms(4)] safe_proposal_recruitment [OF assms(5)]
      sufficient_recruitments_meet [OF _ _ assms(7)] by blast
  obtain a where a: "a \<in> set statuses1" "GetTermRevocation a = rv1" "status_key a = k"
    using recruited_status [OF k1] .
  obtain b where b: "b \<in> set statuses2" "GetTermRevocation b = rv2" "status_key b = k"
    using recruited_status [OF k2] .
  have "rv1 \<in> set (hist k)" "rv2 \<in> set (hist k)" using assms(3) a b by (metis Un_iff)+
  moreover obtain cs d where "promise_run parse_lsn codec cs d (hist k)" using assms(2) by blast
  ultimately show ?thesis using promise_unique assms(1,6) by blast
qed

section \<open>One coordinator per term\<close>

lemma NewTermRevocation_author:
  assumes "NewTermRevocation statuses coordinator initiated window = Inr rv"
  shows "GetAcceptedCoordinatorId rv = coordinator" "GetCoordinatorInitiatedAt rv = initiated"
  using assms by (auto simp: NewTermRevocation_def Let_def split: if_splits)

text \<open>What the recruits of a failover promised, and the cohort they report as decided.\<close>

definition honest_answers :: "world \<Rightarrow> (string \<Rightarrow> TermRevocation ptr list) \<Rightarrow> string set \<Rightarrow> bool" where
  "honest_answers w hist K \<longleftrightarrow> (\<forall>mp rv cs. w_Recruit w mp rv = Inr cs \<and> cs \<noteq> None \<longrightarrow>
     GetTermRevocation cs \<in> set (hist (status_key cs)) \<and>
     poolerKeysOf (GetCohortMembers (GetDecision (status_position cs))) = K)"

lemma promote_recruitment:
  assumes "world_ok w" "honest_answers w hist K"
    and "AppointLeader parse_lsn w c shardKey cohort reason = (rpcs, err)" "PromoteRPC m req \<in> set rpcs"
  obtains rv statuses build where "failover_revocation w c cohort = Inr rv"
    "BuildSafeProposal parse_lsn rv statuses build = Inr (preq_Proposal req)"
    "Proposal_GetTermRevocation (preq_Proposal req) = rv"
    "poolerKeysOf (outgoing_cohort parse_lsn rv statuses) = K"
    "\<forall>cs \<in> set statuses. GetTermRevocation cs \<in> set (hist (status_key cs))"
proof (rule AppointLeader_promotes [OF assms(3,4)])
  fix rv n
  let ?as = "take n (answers (snd (dispatchRecruit w (eligible_members cohort) rv)))"
  assume rv: "failover_revocation w c cohort = Inr rv"
    and safe: "BuildSafeProposal parse_lsn rv ?as (failover_builder w (eligible_members cohort) (length ?as)) =
      Inr (preq_Proposal req)"
  have "GetTermRevocation cs \<in> set (hist (status_key cs)) \<and>
      poolerKeysOf (GetCohortMembers (GetDecision (status_position cs))) = K" if "cs \<in> set ?as" for cs
    using answers_from_cohort [OF assms(1) in_set_takeD [OF that]] assms(2) unfolding honest_answers_def by blast
  moreover have "Proposal_GetTermRevocation (preq_Proposal req) = rv"
    using BuildSafeProposal_core [OF safe] by (rule buildProposalCore_built)
  ultimately show thesis using outgoing_cohort_observed [OF safe] by (intro that [OF rv safe]) auto
qed

text \<open>
  C1: while the decided cohort of a shard does not change, two coordinators never both send a
  Promote at the same term: if two failovers do, run by any orchestrators at any time, against
  poolers that promise through \<open>AcceptRevocation\<close> and may crash and restart, then they are one
  failover of one coordinator, started at the same instant.
\<close>

theorem one_coordinator_promotes_per_term:
  assumes "codec_ok codec" and "\<forall>k. \<exists>cs d. promise_run parse_lsn codec cs d (hist k)"
    and "world_ok w1" "honest_answers w1 hist K"
    and "AppointLeader parse_lsn w1 c1 shardKey1 cohort1 reason1 = (rpcs1, err1)" "PromoteRPC m1 req1 \<in> set rpcs1"
    and "world_ok w2" "honest_answers w2 hist K"
    and "AppointLeader parse_lsn w2 c2 shardKey2 cohort2 reason2 = (rpcs2, err2)" "PromoteRPC m2 req2 \<in> set rpcs2"
    and "GetRevokedBelowTerm (Proposal_GetTermRevocation (preq_Proposal req1)) =
         GetRevokedBelowTerm (Proposal_GetTermRevocation (preq_Proposal req2))"
  shows "ClusterIDString (co_coordinatorID c1) = ClusterIDString (co_coordinatorID c2) \<and>
         w_initiatedAt w1 = w_initiatedAt w2"
proof -
  obtain rv1 ss1 b1 where 1: "failover_revocation w1 c1 cohort1 = Inr rv1"
    "BuildSafeProposal parse_lsn rv1 ss1 b1 = Inr (preq_Proposal req1)"
    "Proposal_GetTermRevocation (preq_Proposal req1) = rv1" "poolerKeysOf (outgoing_cohort parse_lsn rv1 ss1) = K"
    "\<forall>cs \<in> set ss1. GetTermRevocation cs \<in> set (hist (status_key cs))"
    by (rule promote_recruitment [OF assms(3-6)])
  obtain rv2 ss2 b2 where 2: "failover_revocation w2 c2 cohort2 = Inr rv2"
    "BuildSafeProposal parse_lsn rv2 ss2 b2 = Inr (preq_Proposal req2)"
    "Proposal_GetTermRevocation (preq_Proposal req2) = rv2" "poolerKeysOf (outgoing_cohort parse_lsn rv2 ss2) = K"
    "\<forall>cs \<in> set ss2. GetTermRevocation cs \<in> set (hist (status_key cs))"
    by (rule promote_recruitment [OF assms(7-10)])
  have "\<forall>cs \<in> set ss1 \<union> set ss2. GetTermRevocation cs \<in> set (hist (status_key cs))" using 1(5) 2(5) by blast
  from recruitment_round_unique [OF assms(1,2) this 1(2) 2(2)] assms(11) 1(3,4) 2(3,4)
  have "ClusterIDString (GetAcceptedCoordinatorId rv1) = ClusterIDString (GetAcceptedCoordinatorId rv2) \<and>
      GetCoordinatorInitiatedAt rv1 = GetCoordinatorInitiatedAt rv2" by simp
  then show ?thesis using NewTermRevocation_author [OF 1(1)] NewTermRevocation_author [OF 2(1)] by simp
qed


text \<open>A pooler that accepted the revocation of a failover, and a network in which only it is answered.\<close>

definition ex_own :: "TermRevocation ptr" where
  "ex_own = Some \<lparr>tr_revoked_below_term = 4, tr_accepted_coordinator_id = ex_orch,
     tr_coordinator_initiated_at = ex_time 1000, tr_outgoing_rule = ex_num 3 0,
     tr_recruit_intent = Some \<lparr>ri_replace_decision = ex_num 3 0, ri_attempt = 1\<rparr>\<rparr>"

definition ex_own_codec :: protojson_codec where
  "ex_own_codec = (let file = \<lparr>cpp_term_revocation = ex_own, cpp_recruit_blocked_until = None\<rparr> in
     \<lparr>Marshal = (\<lambda>m. if m = file then Some ''4'' else None),
      Unmarshal = (\<lambda>s. if s = ''4'' then Some file else None)\<rparr>)"

lemma ex_own_run:
  "promise_run ex_parse ex_own_codec (ex_promises ex_own) ex_written [Some zero_TermRevocation, ex_own]"
proof -
  have "Load ex_own_codec True (NewConsensusPromises ''/pooler'' ex_b) ex_disk =
      (Inr 0, ex_promises (Some zero_TermRevocation))"
    by (simp add: Load_def readPromisesFromDisk_def ex_disk_def zero_ConsensusPromisesPb_def
      NewConsensusPromises_def ex_promises_def zero_TermRevocation_def Let_def)
  from promise_run.run_start [OF this]
  have start: "promise_run ex_parse ex_own_codec (ex_promises (Some zero_TermRevocation)) ex_disk [Some zero_TermRevocation]"
    by (simp add: ex_promises_def)
  have "ValidateRevocation ex_parse (ex_status ex_b (ex_decided 3) ''120'' (Some zero_TermRevocation)) ex_own = None"
    by code_simp
  moreover have "AssertActionLockHeld ex_locked (Some ex_value) = None"
    by (simp add: AssertActionLockHeld_def is_released_def ex_locked_def ex_value_def)
  moreover have "persistLocked ex_own_codec IoOk (ex_promises (Some zero_TermRevocation)) ex_disk ex_own None =
      (None, ex_written)"
    unfolding persistLocked_def writePromisesToDisk_def ex_path
    by (simp add: ex_own_codec_def AtomicWriteFile_def ex_disk_def ex_written_def Let_def ex_promises_def ex_own_def)
  ultimately have "AcceptRevocation ex_parse ex_own_codec IoOk ex_locked (Some ex_value)
      (ex_promises (Some zero_TermRevocation)) ex_disk
      (ex_status ex_b (ex_decided 3) ''120'' (Some zero_TermRevocation)) ex_own = (None, ex_promises ex_own, ex_written)"
    by (simp add: AcceptRevocation_def saveAndUpdateLocked_def ex_promises_def ex_status_def ex_own_def)
  from promise_run.run_accept [OF start this] show ?thesis by simp
qed

definition ex_net :: world where
  "ex_net = ex_world\<lparr>w_Recruit := (\<lambda>mp rv. if rv = ex_own then w_Recruit ex_world mp rv else Inl ''unreachable'')\<rparr>"

lemma ex_net_honest:
  "honest_answers ex_net (\<lambda>_. [Some zero_TermRevocation, ex_own]) (poolerKeysOf [ex_a, ex_b, ex_c])"
proof -
  have "GetTermRevocation (ex_status i (ex_decided 3) l rv) = rv"
    "GetCohortMembers (GetDecision (status_position (ex_status i (ex_decided 3) l rv))) = [ex_a, ex_b, ex_c]" for i l rv
    by (simp_all add: ex_status_def ex_decided_def ex_rule_def)
  then show ?thesis
    by (auto simp: honest_answers_def ex_net_def ex_world_def split: if_splits)
qed

theorem one_coordinator_promotes_per_term_witness:
  "\<exists>m req. PromoteRPC m req \<in> set (fst (AppointLeader ex_parse ex_net (NewCoordinator ex_orch) None ex_members ''test'')) \<and>
     ClusterIDString ex_orch = ClusterIDString (co_coordinatorID (NewCoordinator ex_orch))"
proof -
  let ?run = "AppointLeader ex_parse ex_net (NewCoordinator ex_orch) None ex_members ''test''"
  have codec: "codec_ok ex_own_codec" by (auto simp: codec_ok_def ex_own_codec_def Let_def split: if_splits)
  have ok: "world_ok ex_net" by (simp add: world_ok_def ex_net_def ex_world_def)
  have hist: "\<forall>k. \<exists>cs d. promise_run ex_parse ex_own_codec cs d ((\<lambda>_. [Some zero_TermRevocation, ex_own]) (k :: string))"
    using ex_own_run by blast
  have "list_ex (promotes ex_b) (fst ?run)" by code_simp
  then obtain m req where m: "PromoteRPC m req \<in> set (fst ?run)" by (rule promotesE)
  have run: "?run = (fst ?run, snd ?run)" by simp
  from one_coordinator_promotes_per_term [OF codec hist ok ex_net_honest run m ok ex_net_honest run m refl] m
  show ?thesis by (auto simp: NewCoordinator_def)
qed

end
